(* ===== verification/Prelude.thy ===== *)
theory Prelude
  imports Main "HOL-Library.Word" "HOL-Library.AList" "HOL-Library.Log_Nat" "HOL-Library.Multiset"
begin

text \<open>
  What every theory of the development shares: names for the machine integers of the source, the
  model of \<^verbatim>\<open>std::collections::HashMap\<close> and \<^verbatim>\<open>HashSet\<close>, the collections of rewrite rules the
  component proofs use, and generic facts on lists and association lists.

  A \<^verbatim>\<open>HashMap\<close> is an association list with distinct keys and a \<^verbatim>\<open>HashSet\<close> a list with distinct
  elements. The order of the list stands for the iteration order of the hash table, which the
  language leaves open: the theorems quantify over every list, so over every iteration order.
  Lookups never depend on it.
\<close>

named_theorems hmap_simps \<open>lookups and keys of the hash map operations\<close>
named_theorems hset_simps \<open>elements of the hash set operations\<close>
named_theorems wf_intros \<open>preservation of the well-formedness of tables\<close>

type_synonym u8 = "8 word"
type_synonym u16 = "16 word"
type_synonym u32 = "32 word"
type_synonym u64 = "64 word"
type_synonym i32 = "32 word"

type_synonym ('k, 'v) hmap = "('k \<times> 'v) list"
type_synonym 'a hset = "'a list"

subsection \<open>Hash maps\<close>

text \<open>Lookups stay lookups: they are not turned into membership of the association list.\<close>

declare map_of_eq_Some_iff [simp del] Some_eq_map_of_iff [simp del]

abbreviation wf_hmap :: "('k, 'v) hmap \<Rightarrow> bool" where
  "wf_hmap m \<equiv> distinct (map fst m)"

abbreviation hkeys :: "('k, 'v) hmap \<Rightarrow> 'k list" where
  "hkeys m \<equiv> map fst m"

abbreviation hvalues :: "('k, 'v) hmap \<Rightarrow> 'v list" where
  "hvalues m \<equiv> map snd m"

abbreviation contains_key :: "('k, 'v) hmap \<Rightarrow> 'k \<Rightarrow> bool" where
  "contains_key m k \<equiv> map_of m k \<noteq> None"

definition hinsert :: "'k \<Rightarrow> 'v \<Rightarrow> ('k, 'v) hmap \<Rightarrow> ('k, 'v) hmap" where
  "hinsert k v m = AList.update k v m"

definition hremove :: "'k \<Rightarrow> ('k, 'v) hmap \<Rightarrow> ('k, 'v) hmap" where
  "hremove k m = filter (\<lambda>(k', v). k' \<noteq> k) m"

text \<open>\<^verbatim>\<open>if let Some(v) = m.get_mut(&k) { *v = f(*v) }\<close>\<close>

definition hmodify :: "'k \<Rightarrow> ('v \<Rightarrow> 'v) \<Rightarrow> ('k, 'v) hmap \<Rightarrow> ('k, 'v) hmap" where
  "hmodify k f m = map (\<lambda>(k', v). (k', if k' = k then f v else v)) m"

text \<open>\<^verbatim>\<open>let v = m.entry(k).or_insert(d); *v = f(*v)\<close>\<close>

definition hentry :: "'k \<Rightarrow> 'v \<Rightarrow> ('v \<Rightarrow> 'v) \<Rightarrow> ('k, 'v) hmap \<Rightarrow> ('k, 'v) hmap" where
  "hentry k d f m = hinsert k (f (case map_of m k of None \<Rightarrow> d | Some v \<Rightarrow> v)) m"

definition hcollect :: "('k \<times> 'v) list \<Rightarrow> ('k, 'v) hmap" where
  "hcollect kvs = foldl (\<lambda>m (k, v). hinsert k v m) [] kvs"

lemma map_of_hinsert [hmap_simps, simp]: "map_of (hinsert k v m) = (map_of m)(k \<mapsto> v)"
  by (simp add: hinsert_def update_conv')

lemma keys_hinsert [hmap_simps, simp]: "fst ` set (hinsert k v m) = insert k (fst ` set m)"
  by (simp add: hinsert_def dom_update)

lemma wf_hinsert [wf_intros, simp]: "wf_hmap m \<Longrightarrow> wf_hmap (hinsert k v m)"
  by (simp add: hinsert_def distinct_update)

lemma map_of_hremove [hmap_simps, simp]: "map_of (hremove k m) = (map_of m)(k := None)"
  by (induction m) (auto simp: hremove_def fun_eq_iff)

lemma keys_hremove [hmap_simps, simp]: "fst ` set (hremove k m) = fst ` set m - {k}"
  by (auto simp: hremove_def image_iff)

lemma wf_hremove [wf_intros, simp]: "wf_hmap m \<Longrightarrow> wf_hmap (hremove k m)"
  by (induction m) (auto simp: hremove_def)

lemma map_of_hmodify [hmap_simps, simp]:
  "map_of (hmodify k f m) = (map_of m)(k := map_option f (map_of m k))"
  by (induction m) (auto simp: hmodify_def fun_eq_iff)

lemma keys_hmodify [hmap_simps, simp]: "hkeys (hmodify k f m) = hkeys m"
  by (induction m) (auto simp: hmodify_def)

lemma hmodify_notin: "k \<notin> fst ` set m \<Longrightarrow> hmodify k f m = m"
  by (induction m) (auto simp: hmodify_def)

lemma hmodify_middle:
  "k \<notin> fst ` set xs \<Longrightarrow> k \<notin> fst ` set ys \<Longrightarrow> hmodify k f (xs @ (k, v) # ys) = xs @ (k, f v) # ys"
  using hmodify_notin [of k xs f] hmodify_notin [of k ys f] by (simp add: hmodify_def)

lemma hmodify_cong_at:
  assumes "wf_hmap m" "map_of m k = Some v" "f v = g v"
  shows "hmodify k f m = hmodify k g m"
proof -
  have "(k, v) \<in> set m" using assms(2) by (rule map_of_SomeD)
  then obtain xs ys where m: "m = xs @ (k, v) # ys" by (meson split_list)
  then show ?thesis using assms(1,3) by (simp add: hmodify_middle)
qed

lemma hmodify_hmodify: "hmodify k f (hmodify k g m) = hmodify k (f \<circ> g) m"
  by (induction m) (auto simp: hmodify_def)

lemma map_of_hentry [hmap_simps, simp]:
  "map_of (hentry k d f m) =
     (map_of m)(k \<mapsto> f (case map_of m k of None \<Rightarrow> d | Some v \<Rightarrow> v))"
  by (simp add: hentry_def)

lemma keys_hentry [hmap_simps, simp]: "fst ` set (hentry k d f m) = insert k (fst ` set m)"
  by (simp add: hentry_def)

lemma wf_hentry [wf_intros, simp]: "wf_hmap m \<Longrightarrow> wf_hmap (hentry k d f m)"
  by (simp add: hentry_def)

lemma wf_hcollect_aux:
  "wf_hmap m \<Longrightarrow> wf_hmap (foldl (\<lambda>m (k, v). hinsert k v m) m kvs)"
  by (induction kvs arbitrary: m) auto

lemma wf_hcollect [wf_intros, simp]: "wf_hmap (hcollect kvs)"
  by (simp add: hcollect_def wf_hcollect_aux)

lemma keys_hcollect_aux:
  "fst ` set (foldl (\<lambda>m (k, v). hinsert k v m) m kvs) = fst ` set m \<union> fst ` set kvs"
  by (induction kvs arbitrary: m) (simp_all add: split_beta)

lemma keys_hcollect [hmap_simps, simp]: "fst ` set (hcollect kvs) = fst ` set kvs"
  by (simp add: hcollect_def keys_hcollect_aux)

lemma map_of_hcollect_aux:
  "map_of (foldl (\<lambda>m (k, v). hinsert k v m) m kvs) = map_of m ++ map_of (rev kvs)"
  by (induction kvs arbitrary: m) (auto simp: map_add_def fun_eq_iff split: option.splits)

text \<open>A later pair with the same key overwrites an earlier one.\<close>

lemma map_of_hcollect [hmap_simps]: "map_of (hcollect kvs) = map_of (rev kvs)"
  by (simp add: hcollect_def map_of_hcollect_aux)

lemma map_of_hcollect_distinct: "distinct (map fst kvs) \<Longrightarrow> map_of (hcollect kvs) = map_of kvs"
  by (simp add: map_of_hcollect map_of_inject_set distinct_rev rev_map [symmetric])

lemma length_hinsert: "k \<notin> fst ` set m \<Longrightarrow> length (hinsert k v m) = Suc (length m)"
  unfolding hinsert_def by (induction m) auto

lemma wf_hmap_in_set_iff:
  "wf_hmap m \<Longrightarrow> (k, v) \<in> set m \<longleftrightarrow> map_of m k = Some v"
  by (simp add: map_of_eq_Some_iff)

lemma hkeys_iff: "k \<in> set (hkeys m) \<longleftrightarrow> map_of m k \<noteq> None"
  by (simp add: map_of_eq_None_iff)

subsection \<open>Hash sets\<close>

definition hs_insert :: "'a \<Rightarrow> 'a hset \<Rightarrow> 'a hset" where
  "hs_insert x s = (if x \<in> set s then s else s @ [x])"

definition hs_remove :: "'a \<Rightarrow> 'a hset \<Rightarrow> 'a hset" where
  "hs_remove x s = removeAll x s"

definition hs_extend :: "'a hset \<Rightarrow> 'a list \<Rightarrow> 'a hset" where
  "hs_extend s xs = foldl (\<lambda>s x. hs_insert x s) s xs"

lemma set_hs_insert [hset_simps, simp]: "set (hs_insert x s) = insert x (set s)"
  by (auto simp: hs_insert_def)

lemma distinct_hs_insert [wf_intros, simp]: "distinct s \<Longrightarrow> distinct (hs_insert x s)"
  by (auto simp: hs_insert_def)

lemma set_hs_remove [hset_simps, simp]: "set (hs_remove x s) = set s - {x}"
  by (simp add: hs_remove_def)

lemma distinct_hs_remove [wf_intros, simp]: "distinct s \<Longrightarrow> distinct (hs_remove x s)"
  by (simp add: hs_remove_def distinct_removeAll)

lemma set_hs_extend [hset_simps, simp]: "set (hs_extend s xs) = set s \<union> set xs"
  by (induction xs arbitrary: s) (auto simp: hs_extend_def)

lemma distinct_hs_extend [wf_intros, simp]: "distinct s \<Longrightarrow> distinct (hs_extend s xs)"
  by (induction xs arbitrary: s) (auto simp: hs_extend_def)

lemma length_distinct_card: "distinct s \<Longrightarrow> length s = card (set s)"
  by (simp add: distinct_card)

subsection \<open>Fallible loops\<close>

text \<open>
  A \<^verbatim>\<open>for\<close> loop whose body may leave with \<^verbatim>\<open>?\<close>, and a fallible \<^verbatim>\<open>map\<close> collected into a
  \<^verbatim>\<open>Result\<close>: the first error ends the loop.
\<close>

fun try_fold :: "('a \<Rightarrow> 's \<Rightarrow> 'e + 's) \<Rightarrow> 'a list \<Rightarrow> 's \<Rightarrow> 'e + 's" where
  "try_fold f [] s = Inr s"
| "try_fold f (x # xs) s = (case f x s of Inl e \<Rightarrow> Inl e | Inr s' \<Rightarrow> try_fold f xs s')"

fun try_map :: "('a \<Rightarrow> 'e + 'b) \<Rightarrow> 'a list \<Rightarrow> 'e + 'b list" where
  "try_map f [] = Inr []"
| "try_map f (x # xs) =
     (case f x of Inl e \<Rightarrow> Inl e
      | Inr y \<Rightarrow> (case try_map f xs of Inl e \<Rightarrow> Inl e | Inr ys \<Rightarrow> Inr (y # ys)))"

lemma try_fold_cong [fundef_cong]:
  assumes "xs = ys" "s = t" "\<And>x s. x \<in> set ys \<Longrightarrow> f x s = g x s"
  shows "try_fold f xs s = try_fold g ys t"
  unfolding assms(1,2) using assms(3)
  by (induction ys arbitrary: t) (auto split: sum.splits)

lemma try_fold_append:
  "try_fold f (xs @ ys) s = (case try_fold f xs s of Inl e \<Rightarrow> Inl e | Inr s' \<Rightarrow> try_fold f ys s')"
  by (induction xs arbitrary: s) (auto split: sum.splits)

lemma try_fold_invariant:
  assumes "try_fold f xs s = Inr s'" and "P s"
    and "\<And>x s s'. x \<in> set xs \<Longrightarrow> P s \<Longrightarrow> f x s = Inr s' \<Longrightarrow> P s'"
  shows "P s'"
  using assms
proof (induction xs arbitrary: s)
  case (Cons x xs)
  then obtain s1 where s1: "f x s = Inr s1" "try_fold f xs s1 = Inr s'" by (auto split: sum.splits)
  have "P s1" using Cons.prems(3) [OF _ Cons.prems(2) s1(1)] by simp
  then show ?case using Cons.prems(3) by (intro Cons.IH [OF s1(2)]) (auto intro: list.set_intros)
qed simp

lemma try_map_Inr: "try_map f xs = Inr ys \<longleftrightarrow> list_all2 (\<lambda>x y. f x = Inr y) xs ys"
proof (induction xs arbitrary: ys)
  case (Cons x xs)
  show ?case by (cases ys) (auto simp: Cons.IH [symmetric] split: sum.splits)
qed auto

end
