(* ===== verification/Bytes.thy ===== *)
theory Bytes
  imports Prelude
begin

text \<open>
  Big-endian byte strings, as \<^verbatim>\<open>to_be_bytes\<close> and \<^verbatim>\<open>from_be_bytes\<close> of the integer types compute
  them. Every codec of the program (frame headers, opaque handles, logical times, MIM data types)
  rests on the two round-trip lemmas proved here.
\<close>

unbundle bit_operations_syntax

type_synonym bytes = "u8 list"

fun be_bytes :: "nat \<Rightarrow> 'a::len word \<Rightarrow> bytes" where
  "be_bytes 0 w = []"
| "be_bytes (Suc n) w = be_bytes n (drop_bit 8 w) @ [ucast w]"

definition from_be_bytes :: "bytes \<Rightarrow> 'a::len word" where
  "from_be_bytes bs = foldl (\<lambda>acc b. push_bit 8 acc OR ucast b) 0 bs"

definition to_be_bytes :: "'a::len word \<Rightarrow> bytes" where
  "to_be_bytes w = be_bytes (LENGTH('a) div 8) w"

lemma length_be_bytes [simp]: "length (be_bytes n w) = n"
  by (induction n arbitrary: w) auto

lemma length_to_be_bytes [simp]: "length (to_be_bytes (w :: 'a::len word)) = LENGTH('a) div 8"
  by (simp add: to_be_bytes_def)

lemma from_be_bytes_Nil [simp]: "from_be_bytes [] = 0"
  by (simp add: from_be_bytes_def)

lemma from_be_bytes_snoc [simp]:
  "from_be_bytes (bs @ [b]) = push_bit 8 (from_be_bytes bs) OR ucast b"
  by (simp add: from_be_bytes_def)

lemma from_be_bytes_be_bytes:
  "from_be_bytes (be_bytes n (w :: 'a::len word)) = take_bit (8 * n) w"
proof (induction n arbitrary: w)
  case 0
  show ?case by simp
next
  case (Suc n)
  have "push_bit 8 (take_bit (8 * n) (drop_bit 8 w)) OR ucast (ucast w :: u8)
      = take_bit (8 * Suc n) w"
    by (rule bit_word_eqI)
       (auto simp: bit_simps not_le not_less dest: bit_imp_le_length)
  with Suc.IH show ?case by simp
qed

lemma from_to_be_bytes:
  "LENGTH('a::len) mod 8 = 0 \<Longrightarrow> from_be_bytes (to_be_bytes (w :: 'a word)) = w"
  by (simp add: to_be_bytes_def from_be_bytes_be_bytes take_bit_word_eq_self mult.commute
      flip: minus_mod_eq_mult_div)

lemma from_to_be_bytes_16 [simp]: "from_be_bytes (to_be_bytes (w :: u16)) = w"
  by (rule from_to_be_bytes) simp

lemma from_to_be_bytes_32 [simp]: "from_be_bytes (to_be_bytes (w :: u32)) = w"
  by (rule from_to_be_bytes) simp

lemma from_to_be_bytes_64 [simp]: "from_be_bytes (to_be_bytes (w :: u64)) = w"
  by (rule from_to_be_bytes) simp

lemma bit_from_be_bytes_bound:
  assumes "8 * length bs \<le> LENGTH('a::len)" and "8 * length bs \<le> i"
  shows "\<not> bit (from_be_bytes bs :: 'a word) i"
  using assms
proof (induction bs arbitrary: i rule: rev_induct)
  case Nil
  then show ?case by simp
next
  case (snoc b bs)
  then have "\<not> bit (from_be_bytes bs :: 'a word) (i - 8)" by simp
  moreover have "\<not> bit b i"
    using snoc.prems by (auto dest: bit_imp_le_length)
  ultimately show ?case by (simp add: bit_simps)
qed

lemma be_bytes_from_be_bytes:
  assumes "8 * length bs \<le> LENGTH('a::len)"
  shows "be_bytes (length bs) (from_be_bytes bs :: 'a word) = bs"
  using assms
proof (induction bs rule: rev_induct)
  case Nil
  then show ?case by simp
next
  case (snoc b bs)
  let ?w = "from_be_bytes bs :: 'a word"
  have len: "8 * length bs + 8 \<le> LENGTH('a)" using snoc.prems by simp
  have drop: "drop_bit 8 (push_bit 8 ?w OR ucast b) = ?w"
  proof (rule bit_word_eqI)
    fix i assume "i < LENGTH('a)"
    have "\<not> bit b (8 + i)" by (auto dest: bit_imp_le_length)
    moreover have "bit ?w i \<Longrightarrow> 8 + i < LENGTH('a)"
      using bit_from_be_bytes_bound [of bs i, where 'a = 'a] len by force
    ultimately show "bit (drop_bit 8 (push_bit 8 ?w OR ucast b)) i = bit ?w i"
      by (auto simp: bit_simps)
  qed
  have low: "(ucast (push_bit 8 ?w OR ucast b :: 'a word) :: u8) = b"
    by (rule bit_word_eqI) (use len in \<open>auto simp: bit_simps\<close>)
  from snoc len show ?case by (simp add: drop low del: drop_bit_or)
qed

lemma to_from_be_bytes:
  assumes "8 * length bs = LENGTH('a::len)"
  shows "to_be_bytes (from_be_bytes bs :: 'a word) = bs"
proof -
  have "LENGTH('a) div 8 = length bs" using assms by linarith
  with be_bytes_from_be_bytes [of bs, where 'a = 'a] assms show ?thesis
    by (simp add: to_be_bytes_def)
qed

lemma to_from_be_bytes_32 [simp]: "length bs = 4 \<Longrightarrow> to_be_bytes (from_be_bytes bs :: u32) = bs"
  by (rule to_from_be_bytes) simp

lemma to_from_be_bytes_64 [simp]: "length bs = 8 \<Longrightarrow> to_be_bytes (from_be_bytes bs :: u64) = bs"
  by (rule to_from_be_bytes) simp

lemma to_be_bytes_inject_32 [simp]: "to_be_bytes (a :: u32) = to_be_bytes b \<longleftrightarrow> a = b"
  by (metis from_to_be_bytes_32)

lemma to_be_bytes_inject_64 [simp]: "to_be_bytes (a :: u64) = to_be_bytes b \<longleftrightarrow> a = b"
  by (metis from_to_be_bytes_64)

end
