(* ===== verification/Framing.thy ===== *)
theory Framing
  imports Bytes
begin

text \<open>
  The FedPro wire format: \<^verbatim>\<open>crates/hla-wire/src/framing.rs\<close> (message types, the 24-byte header,
  typed control payloads, sequence numbers) and \<^verbatim>\<open>crates/hla-wire/src/codec.rs\<close> (the length-prefixed
  codec over a byte stream). A byte buffer is a list of bytes; a slice \<^verbatim>\<open>&b[i..j]\<close> is \<open>slice i j b\<close>.
\<close>

definition slice :: "nat \<Rightarrow> nat \<Rightarrow> 'a list \<Rightarrow> 'a list" where
  "slice i j bs = take (j - i) (drop i bs)"

definition HEADER_SIZE :: nat where "HEADER_SIZE = 24"
definition NO_SESSION_ID :: u64 where "NO_SESSION_ID = 0"
definition NO_SEQUENCE_NUMBER :: i32 where "NO_SEQUENCE_NUMBER = 0x80000000"
definition INITIAL_SEQUENCE_NUMBER :: i32 where "INITIAL_SEQUENCE_NUMBER = 0"
definition MAX_SEQUENCE_NUMBER :: i32 where "MAX_SEQUENCE_NUMBER = 0x7FFFFFFF"
definition FEDERATE_PROTOCOL_VERSION :: i32 where "FEDERATE_PROTOCOL_VERSION = 1"
definition MAX_PACKET_SIZE :: u32 where "MAX_PACKET_SIZE = 32 * 1024 * 1024"

subsection \<open>Outbound sequence numbers\<close>

text \<open>
  The body of the compare-and-swap loop: from the value read, the number to claim and the value to
  store. \<open>claim_next_outbound_seq\<close> runs the loop against the attempts the scheduler grants: each
  attempt carries the value the atomic really holds at the exchange and whether the weak exchange
  fails spuriously; \<open>None\<close> means that the attempts ran out before an exchange succeeded.
\<close>

definition claimed_of :: "i32 \<Rightarrow> i32" where
  "claimed_of current =
     (if current = NO_SEQUENCE_NUMBER then INITIAL_SEQUENCE_NUMBER else current)"

definition next_of :: "i32 \<Rightarrow> i32" where
  "next_of claimed =
     (if claimed = MAX_SEQUENCE_NUMBER then INITIAL_SEQUENCE_NUMBER else claimed + 1)"

fun claim_next_outbound_seq :: "i32 \<Rightarrow> (i32 \<times> bool) list \<Rightarrow> (i32 \<times> i32) option" where
  "claim_next_outbound_seq current [] = None"
| "claim_next_outbound_seq current ((actual, spurious) # attempts) =
     (let claimed = claimed_of current; next = next_of claimed in
      if actual = current \<and> \<not> spurious then Some (claimed, next)
      else claim_next_outbound_seq actual attempts)"

text \<open>The counter after one successful claim, and the numbers claimed by a run of claims.\<close>

definition claim_step :: "i32 \<Rightarrow> i32 \<times> i32" where
  "claim_step current = (claimed_of current, next_of (claimed_of current))"

fun claims :: "nat \<Rightarrow> i32 \<Rightarrow> i32 list" where
  "claims 0 c = []"
| "claims (Suc n) c = (let (k, c') = claim_step c in k # claims n c')"

subsection \<open>Message types and headers\<close>

datatype FrameError =
    PacketTooSmall u32
  | Truncated nat nat
  | UnknownMessageType u32
  | InvalidNewSessionStatusReason i32

datatype MessageType =
    CtrlNewSession | CtrlNewSessionStatus | CtrlHeartbeat | CtrlHeartbeatResponse
  | CtrlTerminateSession | CtrlSessionTerminated | CtrlResumeRequest | CtrlResumeStatus
  | HlaCallRequest | HlaCallResponse | HlaCallbackRequest | HlaCallbackResponse

fun message_type_u32 :: "MessageType \<Rightarrow> u32" where
  "message_type_u32 CtrlNewSession = 1"
| "message_type_u32 CtrlNewSessionStatus = 2"
| "message_type_u32 CtrlHeartbeat = 3"
| "message_type_u32 CtrlHeartbeatResponse = 4"
| "message_type_u32 CtrlTerminateSession = 5"
| "message_type_u32 CtrlSessionTerminated = 6"
| "message_type_u32 CtrlResumeRequest = 10"
| "message_type_u32 CtrlResumeStatus = 11"
| "message_type_u32 HlaCallRequest = 20"
| "message_type_u32 HlaCallResponse = 21"
| "message_type_u32 HlaCallbackRequest = 22"
| "message_type_u32 HlaCallbackResponse = 23"

definition from_u32 :: "u32 \<Rightarrow> FrameError + MessageType" where
  "from_u32 v =
     (if v = 1 then Inr CtrlNewSession
      else if v = 2 then Inr CtrlNewSessionStatus
      else if v = 3 then Inr CtrlHeartbeat
      else if v = 4 then Inr CtrlHeartbeatResponse
      else if v = 5 then Inr CtrlTerminateSession
      else if v = 6 then Inr CtrlSessionTerminated
      else if v = 10 then Inr CtrlResumeRequest
      else if v = 11 then Inr CtrlResumeStatus
      else if v = 20 then Inr HlaCallRequest
      else if v = 21 then Inr HlaCallResponse
      else if v = 22 then Inr HlaCallbackRequest
      else if v = 23 then Inr HlaCallbackResponse
      else Inl (UnknownMessageType v))"

definition is_control :: "MessageType \<Rightarrow> bool" where
  "is_control t \<longleftrightarrow> message_type_u32 t < message_type_u32 HlaCallRequest"

definition is_hla_response :: "MessageType \<Rightarrow> bool" where
  "is_hla_response t \<longleftrightarrow> t = HlaCallResponse \<or> t = HlaCallbackResponse"

record MessageHeader =
  packet_size :: u32
  sequence_number :: i32
  hdr_session_id :: u64
  last_received_sequence_number :: i32
  message_type :: MessageType

definition with_payload_size ::
  "u32 \<Rightarrow> i32 \<Rightarrow> u64 \<Rightarrow> i32 \<Rightarrow> MessageType \<Rightarrow> MessageHeader" where
  "with_payload_size psize seq sid lastseq mt =
     \<lparr>packet_size = of_nat HEADER_SIZE + psize, sequence_number = seq, hdr_session_id = sid,
      last_received_sequence_number = lastseq, message_type = mt\<rparr>"

definition payload_size :: "MessageHeader \<Rightarrow> u32" where
  "payload_size h = packet_size h - of_nat HEADER_SIZE"

definition header_encode :: "MessageHeader \<Rightarrow> bytes" where
  "header_encode h =
     to_be_bytes (packet_size h) @ to_be_bytes (sequence_number h) @
     to_be_bytes (hdr_session_id h) @ to_be_bytes (last_received_sequence_number h) @
     to_be_bytes (message_type_u32 (message_type h))"

definition header_decode :: "bytes \<Rightarrow> FrameError + MessageHeader" where
  "header_decode bs =
     (if length bs < HEADER_SIZE then Inl (Truncated HEADER_SIZE (length bs))
      else let psize = from_be_bytes (slice 0 4 bs) :: u32 in
        if unat psize < HEADER_SIZE then Inl (PacketTooSmall psize)
        else let seq = from_be_bytes (slice 4 8 bs);
                 sid = from_be_bytes (slice 8 16 bs);
                 lastseq = from_be_bytes (slice 16 20 bs)
          in case from_u32 (from_be_bytes (slice 20 24 bs)) of
               Inl e \<Rightarrow> Inl e
             | Inr mt \<Rightarrow> Inr \<lparr>packet_size = psize, sequence_number = seq, hdr_session_id = sid,
                            last_received_sequence_number = lastseq, message_type = mt\<rparr>)"

record Frame =
  header :: MessageHeader
  payload :: bytes

definition frame_encode :: "Frame \<Rightarrow> bytes" where
  "frame_encode f = header_encode (header f) @ payload f"

subsection \<open>Typed payloads\<close>

definition new_session_payload_encode :: "i32 \<Rightarrow> bytes" where
  "new_session_payload_encode protocol_version = to_be_bytes protocol_version"

definition new_session_payload_decode :: "bytes \<Rightarrow> FrameError + i32" where
  "new_session_payload_decode bs =
     (if length bs < 4 then Inl (Truncated 4 (length bs))
      else Inr (from_be_bytes (slice 0 4 bs)))"

datatype NewSessionStatusReason =
  Success | UnsupportedProtocolVersion | OutOfResources | BadMessage | OtherError

fun reason_i32 :: "NewSessionStatusReason \<Rightarrow> i32" where
  "reason_i32 Success = 0"
| "reason_i32 UnsupportedProtocolVersion = 1"
| "reason_i32 OutOfResources = 2"
| "reason_i32 BadMessage = 3"
| "reason_i32 OtherError = 99"

definition reason_from_i32 :: "i32 \<Rightarrow> FrameError + NewSessionStatusReason" where
  "reason_from_i32 v =
     (if v = 0 then Inr Success
      else if v = 1 then Inr UnsupportedProtocolVersion
      else if v = 2 then Inr OutOfResources
      else if v = 3 then Inr BadMessage
      else if v = 99 then Inr OtherError
      else Inl (InvalidNewSessionStatusReason v))"

definition reason_encode :: "NewSessionStatusReason \<Rightarrow> bytes" where
  "reason_encode r = to_be_bytes (reason_i32 r)"

text \<open>
  \<^verbatim>\<open>NewSessionStatusPayload\<close> and \<^verbatim>\<open>ResumeStatusPayload\<close> both hold one reason and share their
  wire shape.
\<close>

definition status_payload_decode :: "bytes \<Rightarrow> FrameError + NewSessionStatusReason" where
  "status_payload_decode bs =
     (if length bs < 4 then Inl (Truncated 4 (length bs))
      else reason_from_i32 (from_be_bytes (slice 0 4 bs)))"

definition resume_status_payload_decode :: "bytes \<Rightarrow> FrameError + NewSessionStatusReason" where
  "resume_status_payload_decode bs =
     (if length bs < 4 then Inl (Truncated 4 (length bs))
      else reason_from_i32 (from_be_bytes (slice 0 4 bs)))"

record ResumeRequestPayload =
  last_received_rti_sequence_number :: i32
  oldest_available_federate_sequence_number :: i32

definition resume_request_encode :: "ResumeRequestPayload \<Rightarrow> bytes" where
  "resume_request_encode p =
     to_be_bytes (last_received_rti_sequence_number p) @
     to_be_bytes (oldest_available_federate_sequence_number p)"

definition resume_request_decode :: "bytes \<Rightarrow> FrameError + ResumeRequestPayload" where
  "resume_request_decode bs =
     (if length bs < 8 then Inl (Truncated 8 (length bs))
      else Inr \<lparr>last_received_rti_sequence_number = from_be_bytes (slice 0 4 bs),
                oldest_available_federate_sequence_number = from_be_bytes (slice 4 8 bs)\<rparr>)"

text \<open>\<^verbatim>\<open>HlaCallResponsePayload\<close>; \<^verbatim>\<open>HlaCallbackResponsePayload\<close> has the same two fields.\<close>

record HlaCallResponsePayload =
  response_to_sequence_number :: i32
  body :: bytes

definition call_response_encode :: "HlaCallResponsePayload \<Rightarrow> bytes" where
  "call_response_encode p = to_be_bytes (response_to_sequence_number p) @ body p"

definition call_response_decode :: "bytes \<Rightarrow> FrameError + HlaCallResponsePayload" where
  "call_response_decode bs =
     (if length bs < 4 then Inl (Truncated 4 (length bs))
      else Inr \<lparr>response_to_sequence_number = from_be_bytes (slice 0 4 bs), body = drop 4 bs\<rparr>)"

definition callback_response_encode :: "HlaCallResponsePayload \<Rightarrow> bytes" where
  "callback_response_encode p = to_be_bytes (response_to_sequence_number p) @ body p"

definition callback_response_decode :: "bytes \<Rightarrow> FrameError + HlaCallResponsePayload" where
  "callback_response_decode bs =
     (if length bs < 4 then Inl (Truncated 4 (length bs))
      else Inr \<lparr>response_to_sequence_number = from_be_bytes (slice 0 4 bs), body = drop 4 bs\<rparr>)"

definition new_session_frame :: Frame where
  "new_session_frame =
     \<lparr>header = with_payload_size 4 INITIAL_SEQUENCE_NUMBER NO_SESSION_ID NO_SEQUENCE_NUMBER
                 CtrlNewSession,
      payload = new_session_payload_encode FEDERATE_PROTOCOL_VERSION\<rparr>"

definition resume_request_frame :: "u64 \<Rightarrow> i32 \<Rightarrow> i32 \<Rightarrow> Frame" where
  "resume_request_frame sid last_rti oldest_fed =
     \<lparr>header = with_payload_size 8 NO_SEQUENCE_NUMBER sid last_rti CtrlResumeRequest,
      payload = resume_request_encode
        \<lparr>last_received_rti_sequence_number = last_rti,
         oldest_available_federate_sequence_number = oldest_fed\<rparr>\<rparr>"

definition hla_call_request_frame :: "i32 \<Rightarrow> u64 \<Rightarrow> i32 \<Rightarrow> bytes \<Rightarrow> Frame" where
  "hla_call_request_frame seq sid lastseq protobuf_body =
     \<lparr>header = with_payload_size (of_nat (length protobuf_body)) seq sid lastseq HlaCallRequest,
      payload = protobuf_body\<rparr>"

subsection \<open>The stream codec\<close>

datatype IoError = UnexpectedEof | OtherIo string

datatype CodecError = Io IoError | FrameErr FrameError | PacketTooLarge u32

text \<open>
  \<^verbatim>\<open>FedProCodec::decode\<close> on the receive buffer: an error, or the next frame if the buffer holds one,
  with the bytes left in the buffer.
\<close>

definition codec_decode :: "bytes \<Rightarrow> CodecError + (Frame option \<times> bytes)" where
  "codec_decode src =
     (if length src < 4 then Inr (None, src)
      else let psize = from_be_bytes (take 4 src) :: u32 in
        if unat psize < HEADER_SIZE then Inl (FrameErr (PacketTooSmall psize))
        else if psize > MAX_PACKET_SIZE then Inl (PacketTooLarge psize)
        else if length src < unat psize then Inr (None, src)
        else let packet = take (unat psize) src; rest = drop (unat psize) src in
          case header_decode (take HEADER_SIZE packet) of
            Inl e \<Rightarrow> Inl (FrameErr e)
          | Inr h \<Rightarrow> Inr (Some \<lparr>header = h, payload = drop HEADER_SIZE packet\<rparr>, rest))"

definition codec_encode :: "Frame \<Rightarrow> bytes \<Rightarrow> bytes" where
  "codec_encode frame dst = dst @ header_encode (header frame) @ payload frame"

text \<open>
  \<^verbatim>\<open>read_frame\<close> on a stream: the bytes the peer will send before it closes. \<^verbatim>\<open>read_exact\<close> fails with
  an end-of-file error when the stream is too short.
\<close>

definition read_exact :: "nat \<Rightarrow> bytes \<Rightarrow> CodecError + (bytes \<times> bytes)" where
  "read_exact n stream =
     (if length stream < n then Inl (Io UnexpectedEof) else Inr (take n stream, drop n stream))"

definition read_frame :: "bytes \<Rightarrow> CodecError + (Frame \<times> bytes)" where
  "read_frame stream =
     (case read_exact 4 stream of Inl e \<Rightarrow> Inl e
      | Inr (size_buf, stream1) \<Rightarrow>
        let psize = from_be_bytes size_buf :: u32 in
        if unat psize < HEADER_SIZE then Inl (FrameErr (PacketTooSmall psize))
        else if psize > MAX_PACKET_SIZE then Inl (PacketTooLarge psize)
        else case read_exact (unat psize - 4) stream1 of Inl e \<Rightarrow> Inl e
          | Inr (rest_buf, stream2) \<Rightarrow>
            let buf = size_buf @ rest_buf in
            case header_decode (take HEADER_SIZE buf) of
              Inl e \<Rightarrow> Inl (FrameErr e)
            | Inr h \<Rightarrow> Inr (\<lparr>header = h, payload = drop HEADER_SIZE buf\<rparr>, stream2))"

definition write_frame :: "Frame \<Rightarrow> bytes \<Rightarrow> bytes" where
  "write_frame frame written = written @ header_encode (header frame) @ payload frame"

subsection \<open>WebSocket messages\<close>

text \<open>One frame per binary message (\<^verbatim>\<open>crates/hla-wire/src/ws.rs\<close>).\<close>

datatype WsMessage = Binary bytes | Close | Ping bytes | Pong bytes | Text string | RawFrame bytes

fun ws_recv_frame :: "(CodecError + WsMessage) list \<Rightarrow>
    (CodecError + Frame) \<times> (CodecError + WsMessage) list" where
  "ws_recv_frame [] = (Inl (Io UnexpectedEof), [])"
| "ws_recv_frame (Inl e # ms) = (Inl e, ms)"
| "ws_recv_frame (Inr (Binary bs) # ms) =
     ((if length bs < HEADER_SIZE then Inl (FrameErr (Truncated HEADER_SIZE (length bs)))
       else case header_decode (take HEADER_SIZE bs) of
         Inl e \<Rightarrow> Inl (FrameErr e)
       | Inr h \<Rightarrow> Inr \<lparr>header = h, payload = drop HEADER_SIZE bs\<rparr>), ms)"
| "ws_recv_frame (Inr Close # ms) = (Inl (Io UnexpectedEof), ms)"
| "ws_recv_frame (Inr (Ping _) # ms) = ws_recv_frame ms"
| "ws_recv_frame (Inr (Pong _) # ms) = ws_recv_frame ms"
| "ws_recv_frame (Inr (Text _) # ms) = ws_recv_frame ms"
| "ws_recv_frame (Inr (RawFrame _) # ms) = ws_recv_frame ms"

definition ws_send_frame :: "Frame \<Rightarrow> WsMessage" where
  "ws_send_frame frame = Binary (frame_encode frame)"

subsection \<open>Incremental decoders\<close>

text \<open>
  A decoder called again and again on a growing receive buffer, as the framed reader does: \<open>drain\<close>
  takes every complete item off the buffer, \<open>feed\<close> appends the next chunk read from the socket and
  drains. The first error ends the stream.
\<close>

function drain :: "('b list \<Rightarrow> 'e + ('f option \<times> 'b list)) \<Rightarrow> 'b list \<Rightarrow> 'f list \<times> ('e + 'b list)"
  where
  "drain dec buf =
     (case dec buf of
        Inl e \<Rightarrow> ([], Inl e)
      | Inr (None, rest) \<Rightarrow> ([], Inr rest)
      | Inr (Some f, rest) \<Rightarrow>
          if length rest < length buf then (case drain dec rest of (fs, st) \<Rightarrow> (f # fs, st))
          else ([f], Inr rest))"
  by pat_completeness auto
termination by (relation "measure (\<lambda>(dec, buf). length buf)") auto

declare drain.simps [simp del]

definition feed :: "('b list \<Rightarrow> 'e + ('f option \<times> 'b list)) \<Rightarrow> 'b list \<Rightarrow> 'f list \<times> ('e + 'b list)
    \<Rightarrow> 'f list \<times> ('e + 'b list)" where
  "feed dec chunk st =
     (case st of
        (fs, Inl e) \<Rightarrow> (fs, Inl e)
      | (fs, Inr buf) \<Rightarrow> (case drain dec (buf @ chunk) of (fs', st') \<Rightarrow> (fs @ fs', st')))"

definition feed_all ::
  "('b list \<Rightarrow> 'e + ('f option \<times> 'b list)) \<Rightarrow> 'b list list \<Rightarrow> 'f list \<times> ('e + 'b list)" where
  "feed_all dec chunks = fold (feed dec) chunks ([], Inr [])"

text \<open>The frames whose size field tells the truth and is within the packet cap.\<close>

definition wf_frame :: "Frame \<Rightarrow> bool" where
  "wf_frame f \<longleftrightarrow> unat (packet_size (header f)) = HEADER_SIZE + length (payload f)
                  \<and> packet_size (header f) \<le> MAX_PACKET_SIZE"

locale incremental_decoder =
  fixes dec :: "'b list \<Rightarrow> 'e + ('f option \<times> 'b list)"
  assumes frame_stable: "dec buf = Inr (Some f, rest) \<Longrightarrow> dec (buf @ ext) = Inr (Some f, rest @ ext)"
    and error_stable: "dec buf = Inl e \<Longrightarrow> dec (buf @ ext) = Inl e"
    and none_keeps: "dec buf = Inr (None, rest) \<Longrightarrow> rest = buf"
    and frame_progress: "dec buf = Inr (Some f, rest) \<Longrightarrow> length rest < length buf"
    and empty_waits: "dec [] = Inr (None, [])"
begin

lemma drain_more:
  "drain dec (buf @ ext) =
     (case drain dec buf of
        (fs, Inl e) \<Rightarrow> (fs, Inl e)
      | (fs, Inr rest) \<Rightarrow> (case drain dec (rest @ ext) of (fs', st) \<Rightarrow> (fs @ fs', st)))"
proof (induction buf rule: length_induct)
  case (1 buf)
  consider (err) e where "dec buf = Inl e" | (wait) "dec buf = Inr (None, buf)"
    | (item) f rest where "dec buf = Inr (Some f, rest)"
    using none_keeps by (metis obj_sumE option.exhaust prod.exhaust)
  then show ?case
  proof cases
    case err
    then show ?thesis using error_stable [OF err, of ext] by (simp add: drain.simps [of dec])
  next
    case wait
    then show ?thesis by (simp add: drain.simps [of dec buf])
  next
    case item
    note lt = frame_progress [OF item] and st = frame_stable [OF item, of ext]
    have "drain dec (buf @ ext) = (case drain dec (rest @ ext) of (fs, st) \<Rightarrow> (f # fs, st))"
      using lt st by (simp add: drain.simps [of dec "buf @ ext"])
    moreover have "drain dec buf = (case drain dec rest of (fs, st) \<Rightarrow> (f # fs, st))"
      using lt item by (simp add: drain.simps [of dec buf])
    ultimately show ?thesis using "1" [rule_format, OF lt]
      by (auto split: prod.splits sum.splits)
  qed
qed

lemma feed_snoc:
  assumes "st = drain dec buf"
  shows "feed dec chunk st = drain dec (buf @ chunk)"
  using assms drain_more [of buf chunk] by (simp add: feed_def split: prod.splits sum.splits)

lemma fold_feed: "fold (feed dec) chunks (drain dec buf) = drain dec (buf @ concat chunks)"
  by (induction chunks arbitrary: buf) (simp_all add: feed_snoc [OF refl])

lemma feed_all_concat: "feed_all dec chunks = drain dec (concat chunks)"
proof -
  have "drain dec [] = ([], Inr [])" by (simp add: drain.simps [of dec] empty_waits)
  then show ?thesis unfolding feed_all_def by (metis append_Nil fold_feed)
qed

text \<open>How the bytes are cut into reads does not matter.\<close>

lemma chunking_irrelevant:
  "concat chunks = concat chunks' \<Longrightarrow> feed_all dec chunks = feed_all dec chunks'"
  by (simp add: feed_all_concat)

lemma drain_encoded:
  assumes "\<And>f rest. f \<in> set fs \<Longrightarrow> dec (enc f @ rest) = Inr (Some f, rest)"
  shows "drain dec (concat (map enc fs)) = (fs, Inr [])"
  using assms
proof (induction fs)
  case Nil
  then show ?case by (simp add: drain.simps [of dec] empty_waits)
next
  case (Cons f fs)
  have d: "dec (enc f @ concat (map enc fs)) = Inr (Some f, concat (map enc fs))"
    using Cons.prems by simp
  show ?case using frame_progress [OF d] d Cons
    by (simp add: drain.simps [of dec "enc f @ concat (map enc fs)"])
qed

end


subsection \<open>Message types and reasons\<close>

lemma from_u32_message_type_u32 [simp]: "from_u32 (message_type_u32 t) = Inr t"
  by (cases t) (simp_all add: from_u32_def)

lemma from_u32_eq_Inr: "from_u32 v = Inr t \<longleftrightarrow> v = message_type_u32 t"
proof
  assume "from_u32 v = Inr t"
  then show "v = message_type_u32 t" by (auto simp: from_u32_def split: if_splits)
qed simp

lemma from_u32_eq_Inl: "from_u32 v = Inl e \<longleftrightarrow> e = UnknownMessageType v \<and> v \<notin> range message_type_u32"
proof -
  have "v \<in> range message_type_u32 \<longleftrightarrow> (\<exists>t. from_u32 v = Inr t)" by (auto simp: from_u32_eq_Inr)
  moreover have "from_u32 v = Inl (UnknownMessageType v) \<or> (\<exists>t. from_u32 v = Inr t)"
    by (simp add: from_u32_def)
  ultimately show ?thesis by fastforce
qed

lemma reason_from_i32_reason_i32 [simp]: "reason_from_i32 (reason_i32 r) = Inr r"
  by (cases r) (simp_all add: reason_from_i32_def)

subsection \<open>Headers\<close>

lemma slice_simps [simp]:
  "length a = i \<Longrightarrow> slice i j (a @ b) = take (j - i) b"
  "slice 0 j b = take j b"
  by (simp_all add: slice_def)

lemma length_slice [simp]: "j \<le> length bs \<Longrightarrow> length (slice i j bs) = j - i"
  by (simp add: slice_def)

lemma length_header_encode [simp]: "length (header_encode h) = 24"
  by (simp add: header_encode_def)

lemma header_fields:
  fixes a :: u32 and b :: i32 and c :: u64 and d :: i32 and e :: u32 and rest :: bytes
  defines "bs \<equiv> to_be_bytes a @ to_be_bytes b @ to_be_bytes c @ to_be_bytes d @ to_be_bytes e @ rest"
  shows "slice 0 4 bs = to_be_bytes a" "slice 4 8 bs = to_be_bytes b" "slice 8 16 bs = to_be_bytes c"
    "slice 16 20 bs = to_be_bytes d" "slice 20 24 bs = to_be_bytes e"
  by (simp_all add: bs_def slice_def)

lemma header_decode_encode:
  assumes "24 \<le> unat (packet_size h)"
  shows "header_decode (header_encode h @ rest) = Inr h"
  using assms by (simp add: header_decode_def header_encode_def HEADER_SIZE_def header_fields)

lemma slices_append:
  assumes "i \<le> j" "j \<le> k" "k \<le> length bs"
  shows "slice i j bs @ slice j k bs = slice i k bs"
proof -
  have "take (k - i) (drop i bs) = take (j - i + (k - j)) (drop i bs)" using assms by simp
  also have "\<dots> = take (j - i) (drop i bs) @ take (k - j) (drop (j - i) (drop i bs))"
    by (rule take_add)
  finally show ?thesis using assms by (simp add: slice_def)
qed

lemma header_encode_decode:
  assumes "header_decode bs = Inr h"
  shows "header_encode h = take 24 bs" and "24 \<le> unat (packet_size h)" and "24 \<le> length bs"
proof -
  from assms show len: "24 \<le> length bs"
    by (auto simp: header_decode_def HEADER_SIZE_def split: if_splits)
  from assms show "24 \<le> unat (packet_size h)"
    by (auto simp: header_decode_def HEADER_SIZE_def Let_def split: if_splits sum.splits)
  from assms len have mt: "message_type_u32 (message_type h) = from_be_bytes (slice 20 24 bs)"
    by (auto simp: header_decode_def HEADER_SIZE_def Let_def from_u32_eq_Inr split: if_splits sum.splits)
  have "header_encode h = slice 0 4 bs @ slice 4 8 bs @ slice 8 16 bs @ slice 16 20 bs @ slice 20 24 bs"
    unfolding header_encode_def mt using assms len
    by (auto simp: header_decode_def HEADER_SIZE_def Let_def split: if_splits sum.splits)
  also have "\<dots> = slice 0 24 bs" using len by (simp add: slices_append del: slice_simps)
  finally show "header_encode h = take 24 bs" by simp
qed

subsection \<open>The stream codec is an incremental decoder\<close>

lemma wf_frame_decode:
  assumes "wf_frame f"
  shows "codec_decode (frame_encode f @ rest) = Inr (Some f, rest)"
proof -
  have psize: "unat (packet_size (header f)) = 24 + length (payload f)"
    using assms by (simp add: wf_frame_def HEADER_SIZE_def)
  have first4: "take 4 (header_encode (header f)) = to_be_bytes (packet_size (header f))"
    by (simp add: header_encode_def)
  have hd: "header_decode (take 24 (header_encode (header f) @ cs)) = Inr (header f)" for cs
    using header_decode_encode [of "header f" "[]"] psize by simp
  show ?thesis using assms psize hd [of "payload f"]
    by (simp add: codec_decode_def frame_encode_def Let_def first4 HEADER_SIZE_def wf_frame_def not_less)
qed

lemma codec_decode_frame:
  assumes "codec_decode src = Inr (Some f, rest)"
  shows "src = frame_encode f @ rest" and "wf_frame f"
proof -
  define n where "n = unat (from_be_bytes (take 4 src) :: u32)"
  from assms have n: "24 \<le> n" "n \<le> length src" "(from_be_bytes (take 4 src) :: u32) \<le> MAX_PACKET_SIZE"
    and h: "header_decode (take 24 (take n src)) = Inr (header f)"
    and p: "payload f = drop 24 (take n src)" and rest: "rest = drop n src"
    by (auto simp: codec_decode_def HEADER_SIZE_def n_def Let_def split: if_splits sum.splits)
  have enc: "header_encode (header f) = take 24 src"
    using header_encode_decode(1) [OF h] n by simp
  have "frame_encode f = take n src"
    using n by (simp add: frame_encode_def enc p) (metis append_take_drop_id min.absorb2 take_take min.commute)
  then show "src = frame_encode f @ rest" by (simp add: rest)
  have "to_be_bytes (packet_size (header f)) = take 4 (header_encode (header f))"
    by (simp add: header_encode_def)
  then have "to_be_bytes (packet_size (header f)) = take 4 src" using enc by simp
  then have "packet_size (header f) = from_be_bytes (take 4 src)"
    by (metis from_to_be_bytes_32)
  then show "wf_frame f" using n by (simp add: wf_frame_def HEADER_SIZE_def p n_def)
qed

lemma codec_decode_none: "codec_decode src = Inr (None, rest) \<Longrightarrow> rest = src"
  by (auto simp: codec_decode_def Let_def split: if_splits sum.splits)

lemma codec_decode_error_append:
  assumes "codec_decode src = Inl e"
  shows "codec_decode (src @ ext) = Inl e"
proof -
  have len: "4 \<le> length src"
    using assms by (auto simp: codec_decode_def split: if_splits)
  then have first4: "take 4 (src @ ext) = take 4 src" by simp
  show ?thesis using assms len unfolding codec_decode_def first4
    by (auto simp: Let_def split: if_splits sum.splits)
qed

interpretation fedpro: incremental_decoder codec_decode
proof
  fix buf f rest ext
  assume d: "codec_decode buf = Inr (Some f, rest)"
  note f = codec_decode_frame [OF d]
  from wf_frame_decode [OF f(2), of "rest @ ext"] f(1)
  show "codec_decode (buf @ ext) = Inr (Some f, rest @ ext)" by simp
  from f(1) show "length rest < length buf" by (simp add: frame_encode_def)
next
  show "codec_decode [] = Inr (None, [])" by (simp add: codec_decode_def)
qed (simp_all add: codec_decode_none codec_decode_error_append)

text \<open>\<open>read_frame\<close> and the incremental decoder agree on a stream that ends after its bytes.\<close>

lemma read_frame_eq:
  "read_frame stream =
     (case codec_decode stream of
        Inl e \<Rightarrow> Inl e
      | Inr (None, _) \<Rightarrow> Inl (Io UnexpectedEof)
      | Inr (Some f, rest) \<Rightarrow> Inr (f, rest))"
proof (cases "length stream < 4")
  case True
  then show ?thesis by (simp add: read_frame_def read_exact_def codec_decode_def)
next
  case False
  define n where "n = unat (from_be_bytes (take 4 stream) :: u32)"
  show ?thesis
  proof (cases "24 \<le> n")
    case True
    then have buf: "take 4 stream @ take (n - 4) (drop 4 stream) = take n stream"
      and rest: "drop (n - 4) (drop 4 stream) = drop n stream"
      using take_add [of 4 "n - 4" stream] by simp_all
    have lt: "length stream - 4 < n - 4 \<longleftrightarrow> length stream < n" using False True by arith
    show ?thesis using False True
      by (simp add: read_frame_def read_exact_def codec_decode_def Let_def HEADER_SIZE_def
          n_def [symmetric] buf rest lt del: take_append drop_append drop_drop split: sum.split)
  next
    case small: False
    then show ?thesis using False
      by (simp add: read_frame_def read_exact_def codec_decode_def HEADER_SIZE_def n_def)
  qed
qed

subsection \<open>WebSocket transport\<close>

lemma ws_roundtrip:
  assumes "wf_frame f"
  shows "ws_recv_frame (Inr (ws_send_frame f) # ms) = (Inr f, ms)"
proof -
  have "24 \<le> unat (packet_size (header f))" using assms by (simp add: wf_frame_def HEADER_SIZE_def)
  from header_decode_encode [OF this, of "[]"] show ?thesis
    by (simp add: ws_send_frame_def frame_encode_def HEADER_SIZE_def)
qed

subsection \<open>Sequence numbers\<close>

lemma claim_loop_linearizes:
  assumes "claim_next_outbound_seq c attempts = Some r"
  shows "\<exists>pre v post. attempts = pre @ (v, False) # post \<and> r = claim_step v"
  using assms
proof (induction c attempts rule: claim_next_outbound_seq.induct)
  case (2 current actual spurious attempts)
  show ?case
  proof (cases "actual = current \<and> \<not> spurious")
    case True
    then show ?thesis using "2.prems" by (force simp: claim_step_def Let_def)
  next
    case False
    with "2.prems" have "claim_next_outbound_seq actual attempts = Some r" by (auto simp: Let_def)
    from "2.IH" [OF refl refl False this] show ?thesis by (metis append_Cons)
  qed
qed simp

lemma claim_loop_progress:
  "claim_next_outbound_seq c (pre @ [(v, s), (v, False)]) \<noteq> None"
  by (induction pre arbitrary: c) (auto simp: Let_def split: prod.splits)

lemma unat_claim_step:
  assumes "unat c < 2 ^ 31" and "claim_step c = (k, c')"
  shows "k = c" and "unat c' = Suc (unat c) mod 2 ^ 31"
proof -
  have "c \<noteq> 0x80000000" using assms(1) by auto
  then show k: "k = c" using assms(2) by (simp add: claim_step_def claimed_of_def NO_SEQUENCE_NUMBER_def)
  have c': "c' = next_of c" using k assms(2) by (auto simp: claim_step_def)
  show "unat c' = Suc (unat c) mod 2 ^ 31"
  proof (cases "c = 0x7FFFFFFF")
    case True
    then show ?thesis
      by (simp add: c' next_of_def MAX_SEQUENCE_NUMBER_def INITIAL_SEQUENCE_NUMBER_def)
  next
    case False
    then have "unat c \<noteq> unat (0x7FFFFFFF :: 32 word)" by (metis unsigned_word_eqI)
    then have "Suc (unat c) < 2 ^ 31" using assms(1) by simp
    moreover have "unat (c + 1) = Suc (unat c)"
      using calculation by (simp add: unat_word_ariths)
    ultimately show ?thesis using False by (simp add: c' next_of_def MAX_SEQUENCE_NUMBER_def)
  qed
qed

lemma length_claims [simp]: "length (claims n c) = n"
  by (induction n arbitrary: c) (simp_all split: prod.splits)

lemma claims_nth:
  assumes "unat c < 2 ^ 31" "k < n"
  shows "unat (claims n c ! k) = (unat c + k) mod 2 ^ 31"
  using assms
proof (induction n arbitrary: c k)
  case (Suc n)
  obtain v c' where st: "claim_step c = (v, c')" by force
  note u = unat_claim_step [OF Suc.prems(1) st]
  show ?case
  proof (cases k)
    case 0
    then show ?thesis using Suc.prems st u by simp
  next
    case (Suc j)
    have "unat c' < 2 ^ 31" using u by simp
    from Suc.IH [OF this, of j] show ?thesis using Suc.prems Suc st u by (simp add: mod_simps)
  qed
qed simp

lemma claims_distinct:
  assumes "unat c < 2 ^ 31" "n \<le> 2 ^ 31"
  shows "distinct (claims n c)"
proof -
  have neq: "claims n c ! i \<noteq> claims n c ! j" if "i < j" "j < n" for i j
  proof
    assume "claims n c ! i = claims n c ! j"
    then have "(unat c + j) mod 2 ^ 31 = (unat c + i) mod 2 ^ 31"
      using claims_nth [OF assms(1), of i n] claims_nth [OF assms(1), of j n] that by simp
    then have "2 ^ 31 dvd j - i" using that by (simp add: mod_eq_dvd_iff_nat)
    then have "2 ^ 31 \<le> j - i" using that by (intro dvd_imp_le) simp_all
    then show False using that assms by linarith
  qed
  show ?thesis unfolding distinct_conv_nth length_claims
  proof (intro allI impI)
    fix i j assume "i < n" "j < n" "i \<noteq> j"
    then show "claims n c ! i \<noteq> claims n c ! j"
      using neq [of i j] neq [of j i] by (cases "i < j") auto
  qed
qed

subsection \<open>Properties\<close>

text \<open>C14. Whatever way the bytes of a sequence of well-formed frames are cut into socket reads, the
  stream codec yields exactly those frames, in order, with nothing left in the buffer.\<close>

theorem codec_chunks_roundtrip:
  assumes "\<forall>f \<in> set fs. wf_frame f" and "concat chunks = concat (map frame_encode fs)"
  shows "feed_all codec_decode chunks = (fs, Inr [])"
  using assms by (simp add: fedpro.feed_all_concat fedpro.drain_encoded wf_frame_decode)

theorem codec_chunks_roundtrip_witness:
  "feed_all codec_decode
     [take 5 (frame_encode new_session_frame), drop 5 (frame_encode new_session_frame @ take 9
        (frame_encode (resume_request_frame 7 3 1))), drop 9 (frame_encode (resume_request_frame 7 3 1))]
   = ([new_session_frame, resume_request_frame 7 3 1], Inr [])"
  by (rule codec_chunks_roundtrip)
    (simp_all add: wf_frame_def new_session_frame_def resume_request_frame_def with_payload_size_def
      HEADER_SIZE_def MAX_PACKET_SIZE_def new_session_payload_encode_def resume_request_encode_def
      frame_encode_def)

text \<open>C25. The codec takes a frame off the buffer exactly when the buffer starts with the encoding of
  a frame whose size field matches its length and respects the packet cap; it consumes that frame
  and nothing else.\<close>

theorem codec_decode_frame_iff:
  "codec_decode src = Inr (Some f, rest) \<longleftrightarrow> wf_frame f \<and> src = frame_encode f @ rest"
  using codec_decode_frame wf_frame_decode by blast

text \<open>C26. Reading one frame with \<^verbatim>\<open>read_frame\<close> agrees with the incremental codec on every stream:
  same frame, same rest, same error, and an incomplete packet is an end-of-file error.\<close>

theorem read_frame_codec_decode:
  "read_frame stream =
     (case codec_decode stream of
        Inl e \<Rightarrow> Inl e
      | Inr (None, _) \<Rightarrow> Inl (Io UnexpectedEof)
      | Inr (Some f, rest) \<Rightarrow> Inr (f, rest))"
  by (rule read_frame_eq)

text \<open>A header decodes from a buffer exactly when the buffer starts with its 24-byte encoding
  and its size field covers the header: decoding and encoding are mutually inverse.\<close>

theorem header_decode_iff:
  "header_decode bs = Inr h \<longleftrightarrow>
     24 \<le> length bs \<and> take 24 bs = header_encode h \<and> 24 \<le> unat (packet_size h)"
proof
  assume "header_decode bs = Inr h"
  from header_encode_decode [OF this]
  show "24 \<le> length bs \<and> take 24 bs = header_encode h \<and> 24 \<le> unat (packet_size h)" by simp
next
  assume *: "24 \<le> length bs \<and> take 24 bs = header_encode h \<and> 24 \<le> unat (packet_size h)"
  then show "header_decode bs = Inr h"
    using header_decode_encode [of h "drop 24 bs"] by (metis append_take_drop_id)
qed

text \<open>C27. Concurrent callers of \<^verbatim>\<open>claim_next_outbound_seq\<close> take numbers one after the other (the
  loop succeeds at one exchange, on the value the counter holds there), the numbers of up to
  \<open>2 ^ 31\<close> consecutive claims are pairwise distinct, and the k-th one is the start plus k modulo
  \<open>2 ^ 31\<close>, so the reserved \<^verbatim>\<open>NO_SEQUENCE_NUMBER\<close> is never produced.\<close>

theorem claimed_sequence_numbers:
  assumes "unat c < 2 ^ 31" and "n \<le> 2 ^ 31"
  shows "distinct (claims n c) \<and> (\<forall>k<n. unat (claims n c ! k) = (unat c + k) mod 2 ^ 31) \<and>
    NO_SEQUENCE_NUMBER \<notin> set (claims n c) \<and>
    (claim_next_outbound_seq c0 attempts = Some r \<longrightarrow>
       (\<exists>pre v post. attempts = pre @ (v, False) # post \<and> r = claim_step v))"
proof -
  have "NO_SEQUENCE_NUMBER \<notin> set (claims n c)"
  proof
    assume "NO_SEQUENCE_NUMBER \<in> set (claims n c)"
    then obtain k where "k < n" "claims n c ! k = NO_SEQUENCE_NUMBER" by (auto simp: in_set_conv_nth)
    then show False using claims_nth [OF assms(1), of k n] by (simp add: NO_SEQUENCE_NUMBER_def)
  qed
  then show ?thesis using claims_distinct [OF assms] claims_nth [OF assms(1)] claim_loop_linearizes
    by blast
qed

theorem claimed_sequence_numbers_witness:
  "claims 3 0x7FFFFFFE = [0x7FFFFFFE, 0x7FFFFFFF, 0] \<and> distinct (claims 3 0x7FFFFFFE) \<and>
   (\<exists>pre v post. [(5, True), (5, False)] = pre @ (v, False) # post \<and> (5, 6) = claim_step v)"
proof -
  have start: "unat (0x7FFFFFFE :: i32) < 2 ^ 31" and count: "(3 :: nat) \<le> 2 ^ 31" by simp_all
  have loop: "claim_next_outbound_seq 4 [(5, True), (5, False)] = Some (5, 6)"
    and run: "claims 3 0x7FFFFFFE = [0x7FFFFFFE, 0x7FFFFFFF, 0]"
    by (simp_all add: numeral_3_eq_3 claim_step_def claimed_of_def next_of_def NO_SEQUENCE_NUMBER_def
        MAX_SEQUENCE_NUMBER_def INITIAL_SEQUENCE_NUMBER_def)
  show ?thesis using claimed_sequence_numbers [OF start count] loop run by blast
qed

end
