(* ===== verification/Float64.thy ===== *)
theory Float64
  imports Bytes
begin

text \<open>
  IEEE 754 binary64, the \<^verbatim>\<open>f64\<close> of Rust, on its 64-bit pattern. A finite pattern denotes the
  integer \<open>f64_key\<close>, its value scaled by \<open>2 ^ 1074\<close> (the inverse of the least subnormal), so that
  every finite double is an integer and comparisons are integer comparisons; the infinities get the
  next power of two beyond the finite range. Addition is the exact sum rounded to nearest, ties to
  even. Rust leaves the payload of a NaN result open; the model returns the canonical quiet NaN.
\<close>

type_synonym f64 = "64 word"

subsection \<open>Patterns\<close>

definition f64_neg :: "f64 \<Rightarrow> bool" where "f64_neg x \<longleftrightarrow> 2 ^ 63 \<le> unat x"
definition f64_mag :: "f64 \<Rightarrow> nat" where "f64_mag x = unat x mod 2 ^ 63"

definition inf_mag :: nat where "inf_mag = 2047 * 2 ^ 52"

definition f64_infinity :: f64 where "f64_infinity = 0x7FF0000000000000"
definition f64_nan :: f64 where "f64_nan = 0x7FF8000000000000"

definition f64_is_nan :: "f64 \<Rightarrow> bool" where "f64_is_nan x \<longleftrightarrow> inf_mag < f64_mag x"
definition f64_is_finite :: "f64 \<Rightarrow> bool" where "f64_is_finite x \<longleftrightarrow> f64_mag x < inf_mag"

definition mag_val :: "nat \<Rightarrow> nat" where
  "mag_val m = (if m < 2 ^ 52 then m else (2 ^ 52 + m mod 2 ^ 52) * 2 ^ (m div 2 ^ 52 - 1))"

definition f64_key :: "f64 \<Rightarrow> int" where
  "f64_key x = (if f64_neg x then - int (mag_val (f64_mag x)) else int (mag_val (f64_mag x)))"

subsection \<open>Comparisons\<close>

definition f64_le :: "f64 \<Rightarrow> f64 \<Rightarrow> bool" where
  "f64_le x y \<longleftrightarrow> \<not> f64_is_nan x \<and> \<not> f64_is_nan y \<and> f64_key x \<le> f64_key y"

definition f64_lt :: "f64 \<Rightarrow> f64 \<Rightarrow> bool" where
  "f64_lt x y \<longleftrightarrow> \<not> f64_is_nan x \<and> \<not> f64_is_nan y \<and> f64_key x < f64_key y"

definition f64_eq :: "f64 \<Rightarrow> f64 \<Rightarrow> bool" where
  "f64_eq x y \<longleftrightarrow> \<not> f64_is_nan x \<and> \<not> f64_is_nan y \<and> f64_key x = f64_key y"

text \<open>\<^verbatim>\<open>f64::min\<close> ignores a NaN operand; of two zeros either may be returned, here the first.\<close>

definition f64_min :: "f64 \<Rightarrow> f64 \<Rightarrow> f64" where
  "f64_min x y = (if f64_is_nan x then y else if f64_is_nan y then x
                  else if f64_key y < f64_key x then y else x)"

text \<open>
  \<^verbatim>\<open>f64::total_cmp\<close>: both patterns are read as signed integers after the magnitude bits of a negative
  one are flipped, then compared.
\<close>

definition total_order_key :: "f64 \<Rightarrow> int" where
  "total_order_key x = sint (xor x (drop_bit 1 (signed_drop_bit 63 x)))"

subsection \<open>Rounding and addition\<close>

text \<open>\<open>round_shift v\<close> is the number of low bits of \<open>v\<close> beyond the 53 a double keeps.\<close>

definition round_shift :: "nat \<Rightarrow> nat" where "round_shift v = floorlog 2 v - 53"

definition rne :: "nat \<Rightarrow> nat \<Rightarrow> nat" where
  "rne e v = (let q = v div 2 ^ e; r = v mod 2 ^ e in
     if 2 ^ e < 2 * r \<or> (2 ^ e = 2 * r \<and> odd q) then q + 1 else q)"

definition round_mag :: "nat \<Rightarrow> nat" where
  "round_mag v = min inf_mag (round_shift v * 2 ^ 52 + rne (round_shift v) v)"

definition f64_of_mag :: "bool \<Rightarrow> nat \<Rightarrow> f64" where
  "f64_of_mag neg m = of_nat (if neg then 2 ^ 63 + m else m)"

definition f64_add :: "f64 \<Rightarrow> f64 \<Rightarrow> f64" where
  "f64_add x y =
     (if f64_is_nan x \<or> f64_is_nan y then f64_nan
      else if \<not> f64_is_finite x then (if f64_is_finite y \<or> f64_neg x = f64_neg y then x else f64_nan)
      else if \<not> f64_is_finite y then y
      else let s = f64_key x + f64_key y in
        if s = 0 then f64_of_mag (f64_neg x \<and> f64_neg y) 0
        else f64_of_mag (s < 0) (round_mag (nat \<bar>s\<bar>)))"

subsection \<open>The order of the magnitudes\<close>

lemma mag_val_less_Suc: "mag_val m < mag_val (Suc m)"
proof (cases "Suc m < 2 ^ 52")
  case True
  then show ?thesis by (simp add: mag_val_def)
next
  case False
  show ?thesis
  proof (cases "m < 2 ^ 52")
    case True
    with False have m: "m = 2 ^ 52 - 1" by simp
    show ?thesis by (simp add: m mag_val_def)
  next
    case big: False
    let ?q = "m div 2 ^ 52" and ?r = "m mod 2 ^ 52"
    have q: "0 < ?q" using big by (simp add: div_greater_zero_iff)
    show ?thesis
    proof (cases "Suc ?r = 2 ^ 52")
      case True
      then have d: "Suc m div 2 ^ 52 = Suc ?q" and r: "Suc m mod 2 ^ 52 = 0"
        by (simp_all add: div_Suc mod_Suc)
      have "mag_val m = (2 ^ 52 + ?r) * 2 ^ (?q - 1)" using big by (simp add: mag_val_def)
      also have "\<dots> < (2 ^ 52 * 2) * 2 ^ (?q - 1)" using True by simp
      also have "\<dots> = mag_val (Suc m)"
        unfolding mag_val_def d r using q False by (cases ?q) simp_all
      finally show ?thesis .
    next
      case False
      then have "Suc m div 2 ^ 52 = ?q" "Suc m mod 2 ^ 52 = Suc ?r"
        by (simp_all add: div_Suc mod_Suc)
      then show ?thesis using big by (simp add: mag_val_def)
    qed
  qed
qed

lemma mag_val_strict_mono: "strict_mono mag_val"
  by (simp add: strict_mono_Suc_iff mag_val_less_Suc)

lemma mag_val_less_iff [simp]: "mag_val m < mag_val n \<longleftrightarrow> m < n"
  and mag_val_le_iff [simp]: "mag_val m \<le> mag_val n \<longleftrightarrow> m \<le> n"
  and mag_val_eq_iff [simp]: "mag_val m = mag_val n \<longleftrightarrow> m = n"
  using mag_val_strict_mono by (simp_all add: strict_mono_less strict_mono_less_eq strict_mono_eq)

lemma mag_val_0 [simp]: "mag_val 0 = 0" by (simp add: mag_val_def)

subsection \<open>Rounding is monotone and exact on doubles\<close>

lemma rne_bounds: "v div 2 ^ e \<le> rne e v" "rne e v \<le> v div 2 ^ e + 1"
  by (simp_all add: rne_def Let_def)

lemma rne_mono:
  assumes "v \<le> w"
  shows "rne e v \<le> rne e w"
proof (cases "v div 2 ^ e = w div 2 ^ e")
  case True
  have "v mod 2 ^ e \<le> w mod 2 ^ e"
    using assms True by (metis add_le_cancel_left div_mult_mod_eq)
  then show ?thesis unfolding rne_def Let_def True by auto
next
  case False
  then have "v div 2 ^ e + 1 \<le> w div 2 ^ e"
    using div_le_mono [OF assms, of "2 ^ e"] by simp
  then show ?thesis using rne_bounds(1) [of w e] rne_bounds(2) [of e v] by linarith
qed

lemma round_shift_bounds:
  assumes "0 < round_shift v"
  shows "2 ^ (52 + round_shift v) \<le> v" and "v < 2 ^ (53 + round_shift v)"
proof -
  have v: "0 < v" using assms by (cases "v = 0") (simp_all add: round_shift_def floorlog_def)
  have fl: "floorlog 2 v = 53 + round_shift v" using assms by (simp add: round_shift_def)
  have "2 ^ (floorlog 2 v - 1) \<le> v \<and> v < 2 ^ floorlog 2 v" using floorlog_bounds [of v 2] v by simp
  then show "2 ^ (52 + round_shift v) \<le> v" "v < 2 ^ (53 + round_shift v)" by (simp_all add: fl)
qed

lemma round_shift_0: "round_shift v = 0 \<Longrightarrow> v < 2 ^ 53"
  using floorlog_bounds [of v 2] power_increasing [of "floorlog 2 v" 53 "2 :: nat"]
  by (cases "v = 0") (auto simp: round_shift_def)

lemma round_shift_upper: "v < 2 ^ (53 + round_shift v)"
  using round_shift_bounds(2) round_shift_0 by (cases "round_shift v = 0") auto

lemma round_shift_mono: "v \<le> w \<Longrightarrow> round_shift v \<le> round_shift w"
  unfolding round_shift_def by (simp add: diff_le_mono floorlog_mono)

lemma div_of_shift:
  assumes "0 < round_shift v"
  shows "2 ^ 52 \<le> v div 2 ^ round_shift v"
proof -
  have "(2 ^ 52 * 2 ^ round_shift v) div 2 ^ round_shift v \<le> v div 2 ^ round_shift v"
    using round_shift_bounds(1) [OF assms] by (intro div_le_mono) (simp add: power_add)
  then show ?thesis by simp
qed

lemma div_shift_upper: "v div 2 ^ round_shift v < 2 ^ 53"
  using round_shift_upper [of v] by (simp add: less_mult_imp_div_less power_add)

lemma round_mag_mono:
  assumes "v \<le> w"
  shows "round_mag v \<le> round_mag w"
proof (cases "round_shift v = round_shift w")
  case True
  then show ?thesis using rne_mono [OF assms] by (simp add: round_mag_def min.coboundedI2 min_le_iff_disj)
next
  case False
  then have lt: "round_shift v < round_shift w" using round_shift_mono [OF assms] by simp
  let ?a = "round_shift v" and ?b = "round_shift w"
  have "?a * 2 ^ 52 + rne ?a v \<le> ?a * 2 ^ 52 + 2 ^ 53"
    using rne_bounds(2) [of ?a v] div_shift_upper [of v] by simp
  also have "\<dots> = (?a + 1) * 2 ^ 52 + 2 ^ 52" by simp
  also have "\<dots> \<le> ?b * 2 ^ 52 + rne ?b w"
    using lt div_of_shift [of w] rne_bounds(1) [of w ?b] by (intro add_mono mult_le_mono1) simp_all
  finally show ?thesis by (simp add: round_mag_def min_le_iff_disj)
qed

lemma round_mag_mag_val:
  assumes "m \<le> inf_mag"
  shows "round_mag (mag_val m) = m"
proof (cases "m < 2 ^ 52")
  case True
  have "floorlog 2 m \<le> 53"
    using True floorlog_mono [of m "2 ^ 52" 2] floorlog_power [of 1 2 52] by (simp add: floorlog_def)
  then show ?thesis using True assms by (simp add: mag_val_def round_mag_def round_shift_def rne_def)
next
  case False
  let ?k = "m div 2 ^ 52" and ?r = "m mod 2 ^ 52"
  have k: "0 < ?k" using False by (simp add: div_greater_zero_iff)
  have v: "mag_val m = (2 ^ 52 + ?r) * 2 ^ (?k - 1)" using False by (simp add: mag_val_def)
  have "floorlog 2 (2 ^ 52 + ?r) = 53"
    by (intro antisym floorlog_leI floorlog_geI) simp_all
  then have sh: "round_shift (mag_val m) = ?k - 1"
    unfolding v round_shift_def by (simp add: floorlog_power)
  have "rne (?k - 1) (mag_val m) = 2 ^ 52 + ?r"
    unfolding v rne_def by simp
  then have "round_shift (mag_val m) * 2 ^ 52 + rne (round_shift (mag_val m)) (mag_val m)
      = (?k - 1 + 1) * 2 ^ 52 + ?r"
    unfolding sh by simp
  also have "\<dots> = m" using k by (simp add: div_mult_mod_eq [of m "2 ^ 52"])
  finally show ?thesis using assms by (simp add: round_mag_def)
qed

lemma round_mag_le_inf [simp]: "round_mag v \<le> inf_mag"
  by (simp add: round_mag_def)

lemma round_mag_0 [simp]: "round_mag 0 = 0"
  using round_mag_mag_val [of 0] by simp

subsection \<open>Keys\<close>

lemma f64_mag_less [simp]: "f64_mag x < 2 ^ 63"
  by (simp add: f64_mag_def)

lemma finite_not_nan [simp]: "f64_is_finite x \<Longrightarrow> \<not> f64_is_nan x"
  by (simp add: f64_is_finite_def f64_is_nan_def)

lemma of_mag:
  assumes "m < 2 ^ 63"
  shows "f64_mag (f64_of_mag neg m) = m" and "f64_neg (f64_of_mag neg m) = neg"
proof -
  have "unat (f64_of_mag neg m) = (if neg then 2 ^ 63 + m else m)"
    using assms by (simp add: f64_of_mag_def unat_of_nat)
  then show "f64_mag (f64_of_mag neg m) = m" "f64_neg (f64_of_mag neg m) = neg"
    using assms by (auto simp: f64_mag_def f64_neg_def)
qed

lemma f64_of_mag_id [simp]: "f64_of_mag (f64_neg x) (f64_mag x) = x"
proof -
  have "(if f64_neg x then 2 ^ 63 + f64_mag x else f64_mag x) = unat x"
  proof (cases "f64_neg x")
    case True
    have "unat x < 2 ^ 64" using unsigned_less [of x, where ?'a = nat] by simp
    then have "unat x div 2 ^ 63 = 1" using True by (simp add: f64_neg_def div_nat_eqI)
    then show ?thesis using True div_mult_mod_eq [of "unat x" "2 ^ 63"] by (simp add: f64_mag_def)
  next
    case False
    then show ?thesis by (simp add: f64_neg_def f64_mag_def)
  qed
  then show ?thesis by (simp add: f64_of_mag_def)
qed

lemma inf_mag_less [simp]: "inf_mag < 2 ^ 63" "0 < inf_mag"
  by (simp_all add: inf_mag_def)

lemma f64_infinity_facts [simp]:
  "\<not> f64_is_nan f64_infinity" "\<not> f64_is_finite f64_infinity" "\<not> f64_neg f64_infinity"
  "f64_mag f64_infinity = inf_mag"
  by (simp_all add: f64_infinity_def f64_is_nan_def f64_is_finite_def f64_mag_def f64_neg_def inf_mag_def)

lemma f64_nan_is_nan [simp]: "f64_is_nan f64_nan"
  by (simp add: f64_nan_def f64_is_nan_def f64_mag_def inf_mag_def)

lemma key_infinity: "f64_key f64_infinity = int (mag_val inf_mag)"
  by (simp add: f64_key_def)

lemma key_le_infinity: "\<not> f64_is_nan x \<Longrightarrow> f64_key x \<le> f64_key f64_infinity"
  by (auto simp: key_infinity f64_key_def f64_is_nan_def)

lemma key_less_infinity: "f64_is_finite x \<Longrightarrow> f64_key x < f64_key f64_infinity"
  using mag_val_less_iff [of 0 inf_mag] by (simp add: key_infinity f64_key_def f64_is_finite_def)

text \<open>On scaled values the rounding of addition is a monotone function that fixes the doubles.\<close>

definition round_key :: "int \<Rightarrow> int" where
  "round_key s = sgn s * int (mag_val (round_mag (nat \<bar>s\<bar>)))"

lemma round_key_mono:
  assumes "s \<le> t"
  shows "round_key s \<le> round_key t"
proof -
  consider "0 \<le> s" "0 \<le> t" | "s < 0" "0 \<le> t" | "s < 0" "t < 0" using assms by linarith
  then show ?thesis
  proof cases
    case 1
    then show ?thesis using assms round_mag_mono [of "nat s" "nat t"]
      by (auto simp: round_key_def sgn_if)
  next
    case 2
    then show ?thesis by (auto simp: round_key_def sgn_if)
  next
    case 3
    then show ?thesis using assms round_mag_mono [of "nat (- t)" "nat (- s)"]
      by (simp add: round_key_def sgn_if)
  qed
qed

lemma round_key_key:
  assumes "\<not> f64_is_nan x"
  shows "round_key (f64_key x) = f64_key x"
proof (cases "f64_mag x = 0")
  case True
  then show ?thesis by (simp add: round_key_def f64_key_def)
next
  case False
  then have "0 < mag_val (f64_mag x)" using mag_val_less_iff [of 0 "f64_mag x"] by simp
  then show ?thesis using assms
    by (simp add: round_key_def f64_key_def f64_is_nan_def round_mag_mag_val sgn_if)
qed

lemma add_finite:
  assumes "f64_is_finite x" "f64_is_finite y"
  shows "\<not> f64_is_nan (f64_add x y)" and "f64_key (f64_add x y) = round_key (f64_key x + f64_key y)"
proof -
  let ?s = "f64_key x + f64_key y"
  have lt: "round_mag v < 2 ^ 63" for v using round_mag_le_inf [of v] inf_mag_less(1) by linarith
  have add: "f64_add x y = (if ?s = 0 then f64_of_mag (f64_neg x \<and> f64_neg y) 0
      else f64_of_mag (?s < 0) (round_mag (nat \<bar>?s\<bar>)))"
    using assms by (simp add: f64_add_def Let_def)
  show "\<not> f64_is_nan (f64_add x y)"
    unfolding add by (simp add: f64_is_nan_def of_mag [OF lt] of_mag [of 0] not_less)
  show "f64_key (f64_add x y) = round_key ?s"
    unfolding add by (simp add: f64_key_def of_mag [OF lt] of_mag [of 0] round_key_def sgn_if)
qed

text \<open>Adding a non-negative finite amount never decreases a time, and addition is monotone.\<close>

lemma add_nonneg_key:
  assumes "f64_is_finite x" "f64_is_finite l" "0 \<le> f64_key l"
  shows "f64_key x \<le> f64_key (f64_add x l)"
  using round_key_mono [of "f64_key x" "f64_key x + f64_key l"] assms
  by (simp add: add_finite round_key_key)

lemma add_mono_key:
  assumes "f64_is_finite x" "f64_is_finite x'" "f64_is_finite l" "f64_is_finite l'"
    "f64_key x \<le> f64_key x'" "f64_key l \<le> f64_key l'"
  shows "f64_key (f64_add x l) \<le> f64_key (f64_add x' l')"
  using assms by (simp add: add_finite round_key_mono)

lemma key_eq_iff_nonneg:
  assumes "\<not> f64_neg x" "\<not> f64_neg y"
  shows "f64_key x = f64_key y \<longleftrightarrow> x = y"
proof
  assume "f64_key x = f64_key y"
  then have "f64_mag x = f64_mag y" using assms by (simp add: f64_key_def)
  then have "f64_of_mag (f64_neg x) (f64_mag x) = f64_of_mag (f64_neg y) (f64_mag y)"
    using assms by simp
  then show "x = y" by (simp only: f64_of_mag_id)
qed simp

lemma key_zero [simp]: "f64_key 0 = 0" "f64_is_finite 0"
  by (simp_all add: f64_key_def f64_mag_def f64_neg_def f64_is_finite_def)

lemma add_exact:
  assumes "f64_is_finite x" "f64_is_finite y" "\<not> f64_is_nan z" "f64_key x + f64_key y = f64_key z"
    "0 < f64_key z"
  shows "f64_add x y = z"
proof -
  have z: "\<not> f64_neg z" "f64_key z = int (mag_val (f64_mag z))"
    using assms(5) by (auto simp: f64_key_def split: if_splits)
  have "f64_add x y = f64_of_mag False (round_mag (mag_val (f64_mag z)))"
    using assms z by (simp add: f64_add_def Let_def)
  also have "\<dots> = f64_of_mag (f64_neg z) (f64_mag z)"
    using assms(3) z by (simp add: round_mag_mag_val f64_is_nan_def)
  finally show ?thesis by simp
qed

subsection \<open>Order on the bit patterns\<close>

text \<open>
  The order of the values is the order of the patterns read as sign and magnitude; \<^verbatim>\<open>total_cmp\<close> is that
  order refined on the zeros and extended to the NaNs.
\<close>

definition f64_signmag :: "f64 \<Rightarrow> int" where
  "f64_signmag x = (if f64_neg x then - int (f64_mag x) else int (f64_mag x))"

lemma key_less_signmag: "f64_key x < f64_key y \<longleftrightarrow> f64_signmag x < f64_signmag y"
  using mag_val_less_iff [of 0 "f64_mag x"] mag_val_less_iff [of 0 "f64_mag y"]
    mag_val_le_iff [of "f64_mag x" 0] mag_val_le_iff [of "f64_mag y" 0]
  by (cases "f64_mag x = 0"; cases "f64_mag y = 0") (simp_all add: f64_key_def f64_signmag_def)

lemma key_le_signmag: "f64_key x \<le> f64_key y \<longleftrightarrow> f64_signmag x \<le> f64_signmag y"
  using key_less_signmag [of y x] by (simp add: not_less [symmetric])

lemma f64_lt_code [code]:
  "f64_lt x y \<longleftrightarrow> \<not> f64_is_nan x \<and> \<not> f64_is_nan y \<and> f64_signmag x < f64_signmag y"
  by (simp add: f64_lt_def key_less_signmag)

lemma f64_le_code [code]:
  "f64_le x y \<longleftrightarrow> \<not> f64_is_nan x \<and> \<not> f64_is_nan y \<and> f64_signmag x \<le> f64_signmag y"
  by (simp add: f64_le_def key_le_signmag)

lemma f64_eq_code [code]:
  "f64_eq x y \<longleftrightarrow> \<not> f64_is_nan x \<and> \<not> f64_is_nan y \<and> f64_signmag x = f64_signmag y"
  by (simp add: f64_eq_def order_eq_iff key_le_signmag)

lemma f64_min_code [code]:
  "f64_min x y = (if f64_is_nan x then y else if f64_is_nan y then x
                  else if f64_signmag y < f64_signmag x then y else x)"
  by (simp add: f64_min_def key_less_signmag)

subsection \<open>Comparison laws\<close>

lemma f64_le_refl [simp]: "f64_le x x \<longleftrightarrow> \<not> f64_is_nan x"
  by (simp add: f64_le_def)

lemma f64_le_trans: "f64_le x y \<Longrightarrow> f64_le y z \<Longrightarrow> f64_le x z"
  by (simp add: f64_le_def)

lemma f64_lt_le: "f64_lt x y \<longleftrightarrow> f64_le x y \<and> \<not> f64_le y x"
  by (auto simp: f64_lt_def f64_le_def)

lemma f64_not_le: "\<not> f64_is_nan x \<Longrightarrow> \<not> f64_is_nan y \<Longrightarrow> \<not> f64_le x y \<longleftrightarrow> f64_lt y x"
  by (auto simp: f64_lt_def f64_le_def)

lemma f64_eq_refl [simp]: "f64_eq x x \<longleftrightarrow> \<not> f64_is_nan x"
  by (simp add: f64_eq_def)

lemma f64_min_not_nan: "\<not> f64_is_nan (f64_min x y) \<longleftrightarrow> \<not> f64_is_nan x \<or> \<not> f64_is_nan y"
  by (simp add: f64_min_def)

lemma f64_min_key:
  "\<not> f64_is_nan x \<Longrightarrow> \<not> f64_is_nan y \<Longrightarrow> f64_key (f64_min x y) = min (f64_key x) (f64_key y)"
  by (simp add: f64_min_def)

text \<open>The small whole numbers used in examples: 1, 2, 3, 4 and 5.\<close>

lemma f64_samples:
  "f64_key 0x3FF0000000000000 = 2 ^ 1074" "f64_key 0x4000000000000000 = 2 * 2 ^ 1074"
  "f64_key 0x4008000000000000 = 3 * 2 ^ 1074" "f64_key 0x4010000000000000 = 4 * 2 ^ 1074"
  "f64_key 0x4014000000000000 = 5 * 2 ^ 1074"
  "f64_is_finite 0x3FF0000000000000" "f64_is_finite 0x4000000000000000"
  "f64_is_finite 0x4008000000000000" "f64_is_finite 0x4010000000000000"
  "f64_is_finite 0x4014000000000000"
  by (simp_all add: f64_is_finite_def f64_mag_def inf_mag_def f64_key_def f64_neg_def mag_val_def)

lemma f64_sample_sums:
  "f64_add 0 0x3FF0000000000000 = 0x3FF0000000000000"
  "f64_add 0 0x4000000000000000 = 0x4000000000000000"
  "f64_add 0x3FF0000000000000 0x3FF0000000000000 = 0x4000000000000000"
  "f64_add 0x4000000000000000 0x3FF0000000000000 = 0x4008000000000000"
  "f64_add 0x4008000000000000 0x3FF0000000000000 = 0x4010000000000000"
  "f64_add 0x4000000000000000 0x4000000000000000 = 0x4010000000000000"
  by (rule add_exact; simp add: f64_samples)+

end
