(* ===== verification/Core.thy ===== *)
theory Core
  imports Framing Float64
begin

text \<open>
  The vocabulary shared by the crates: handles (\<^verbatim>\<open>crates/hla-core/src/handle.rs\<close>), exception kinds and their wire names
  (\<^verbatim>\<open>crates/hla-rti/src/exception.rs\<close>), the response type of the service handlers
  (\<^verbatim>\<open>crates/hla-rti/src/dispatch/helpers.rs\<close>) and the conversion of handles and times to and from
  their opaque wire bytes (\<^verbatim>\<open>crates/hla-rti/src/handles.rs\<close>). The handle newtypes keep values of
  different kinds apart at compile time and add nothing at run time: they are named words.
\<close>

type_synonym ObjectClassHandle = u32
type_synonym AttributeHandle = u32
type_synonym InteractionClassHandle = u32
type_synonym ParameterHandle = u32
type_synonym ObjectInstanceHandle = u64
type_synonym FederateHandle = u32
type_synonym DimensionHandle = u32
type_synonym RegionHandle = u64

type_synonym AttributeHandleSet = "AttributeHandle hset"
type_synonym AttributeHandleValueMap = "(AttributeHandle, bytes) hmap"
type_synonym ParameterHandleValueMap = "(ParameterHandle, bytes) hmap"
type_synonym FederateHandleSet = "FederateHandle hset"

datatype OrderType = Receive | TimestampOrder

datatype TransportationType = Reliable | BestEffort

datatype ResignAction =
    UnconditionallyDivestAttributes | DeleteObjects | CancelPendingOwnershipAcquisitions
  | DeleteObjectsThenDivest | CancelThenDeleteThenDivest | NoAction

subsection \<open>Exceptions and responses\<close>

datatype (plugins only: code size) HlaException =
    AttributeNotDefined
  | AttributeNotOwned
  | CouldNotOpenFdd
  | DeletePrivilegeNotHeld
  | ErrorReadingFdd
  | FederateAlreadyExecutionMember
  | FederateNameAlreadyInUse
  | FederateNotExecutionMember
  | FederateNotInSaveInitiated
  | FederateNotInSaveSet
  | FederateNotInSynchronizationGroup
  | FederatesCurrentlyJoined
  | FederationExecutionAlreadyExists
  | FederationExecutionDoesNotExist
  | InteractionClassNotDefined
  | InteractionClassNotPublished
  | InteractionParameterNotDefined
  | InTimeAdvancingState
  | InvalidAttributeHandle
  | InvalidDimension
  | InvalidDimensionHandle
  | InvalidFederateHandle
  | InvalidInteractionClassHandle
  | InvalidLogicalTime
  | InvalidLookahead
  | InvalidObjectClassHandle
  | InvalidObjectInstanceHandle
  | InvalidOrderName
  | InvalidOrderType
  | InvalidParameterHandle
  | InvalidRangeBound
  | InvalidRegion
  | InvalidResignAction
  | InvalidRestoreLabel
  | InvalidSaveLabel
  | InvalidSynchronizationPointLabel
  | InvalidTransportationName
  | InvalidTransportationTypeHandle
  | LogicalTimeAlreadyPassed
  | NameNotFound
  | ObjectClassNotDefined
  | ObjectClassNotPublished
  | ObjectInstanceNameInUse
  | ObjectInstanceNotKnown
  | RegionNotCreatedByThisFederate
  | RestoreInProgress
  | RestoreNotInProgress
  | RtiInternalError
  | SaveInProgress
  | SaveNotInProgress
  | SynchronizationPointLabelNotAnnounced
  | TimeConstrainedAlreadyEnabled
  | TimeConstrainedIsNotEnabled
  | TimeRegulationAlreadyEnabled
  | TimeRegulationIsNotEnabled

primrec exception_name_of :: "HlaException \<Rightarrow> string" where
  "exception_name_of AttributeNotDefined = ''AttributeNotDefined''"
| "exception_name_of AttributeNotOwned = ''AttributeNotOwned''"
| "exception_name_of CouldNotOpenFdd = ''CouldNotOpenFDD''"
| "exception_name_of DeletePrivilegeNotHeld = ''DeletePrivilegeNotHeld''"
| "exception_name_of ErrorReadingFdd = ''ErrorReadingFDD''"
| "exception_name_of FederateAlreadyExecutionMember = ''FederateAlreadyExecutionMember''"
| "exception_name_of FederateNameAlreadyInUse = ''FederateNameAlreadyInUse''"
| "exception_name_of FederateNotExecutionMember = ''FederateNotExecutionMember''"
| "exception_name_of FederateNotInSaveInitiated = ''FederateNotInSaveInitiated''"
| "exception_name_of FederateNotInSaveSet = ''FederateNotInSaveSet''"
| "exception_name_of FederateNotInSynchronizationGroup = ''FederateNotInSynchronizationGroup''"
| "exception_name_of FederatesCurrentlyJoined = ''FederatesCurrentlyJoined''"
| "exception_name_of FederationExecutionAlreadyExists = ''FederationExecutionAlreadyExists''"
| "exception_name_of FederationExecutionDoesNotExist = ''FederationExecutionDoesNotExist''"
| "exception_name_of InteractionClassNotDefined = ''InteractionClassNotDefined''"
| "exception_name_of InteractionClassNotPublished = ''InteractionClassNotPublished''"
| "exception_name_of InteractionParameterNotDefined = ''InteractionParameterNotDefined''"
| "exception_name_of InTimeAdvancingState = ''InTimeAdvancingState''"
| "exception_name_of InvalidAttributeHandle = ''InvalidAttributeHandle''"
| "exception_name_of InvalidDimension = ''InvalidDimension''"
| "exception_name_of InvalidDimensionHandle = ''InvalidDimensionHandle''"
| "exception_name_of InvalidFederateHandle = ''InvalidFederateHandle''"
| "exception_name_of InvalidInteractionClassHandle = ''InvalidInteractionClassHandle''"
| "exception_name_of InvalidLogicalTime = ''InvalidLogicalTime''"
| "exception_name_of InvalidLookahead = ''InvalidLookahead''"
| "exception_name_of InvalidObjectClassHandle = ''InvalidObjectClassHandle''"
| "exception_name_of InvalidObjectInstanceHandle = ''InvalidObjectInstanceHandle''"
| "exception_name_of InvalidOrderName = ''InvalidOrderName''"
| "exception_name_of InvalidOrderType = ''InvalidOrderType''"
| "exception_name_of InvalidParameterHandle = ''InvalidParameterHandle''"
| "exception_name_of InvalidRangeBound = ''InvalidRangeBound''"
| "exception_name_of InvalidRegion = ''InvalidRegion''"
| "exception_name_of InvalidResignAction = ''InvalidResignAction''"
| "exception_name_of InvalidRestoreLabel = ''InvalidRestoreLabel''"
| "exception_name_of InvalidSaveLabel = ''InvalidSaveLabel''"
| "exception_name_of InvalidSynchronizationPointLabel = ''InvalidSynchronizationPointLabel''"
| "exception_name_of InvalidTransportationName = ''InvalidTransportationName''"
| "exception_name_of InvalidTransportationTypeHandle = ''InvalidTransportationTypeHandle''"
| "exception_name_of LogicalTimeAlreadyPassed = ''LogicalTimeAlreadyPassed''"
| "exception_name_of NameNotFound = ''NameNotFound''"
| "exception_name_of ObjectClassNotDefined = ''ObjectClassNotDefined''"
| "exception_name_of ObjectClassNotPublished = ''ObjectClassNotPublished''"
| "exception_name_of ObjectInstanceNameInUse = ''ObjectInstanceNameInUse''"
| "exception_name_of ObjectInstanceNotKnown = ''ObjectInstanceNotKnown''"
| "exception_name_of RegionNotCreatedByThisFederate = ''RegionNotCreatedByThisFederate''"
| "exception_name_of RestoreInProgress = ''RestoreInProgress''"
| "exception_name_of RestoreNotInProgress = ''RestoreNotInProgress''"
| "exception_name_of RtiInternalError = ''RTIinternalError''"
| "exception_name_of SaveInProgress = ''SaveInProgress''"
| "exception_name_of SaveNotInProgress = ''SaveNotInProgress''"
| "exception_name_of SynchronizationPointLabelNotAnnounced = ''SynchronizationPointLabelNotAnnounced''"
| "exception_name_of TimeConstrainedAlreadyEnabled = ''TimeConstrainedAlreadyEnabled''"
| "exception_name_of TimeConstrainedIsNotEnabled = ''TimeConstrainedIsNotEnabled''"
| "exception_name_of TimeRegulationAlreadyEnabled = ''TimeRegulationAlreadyEnabled''"
| "exception_name_of TimeRegulationIsNotEnabled = ''TimeRegulationIsNotEnabled''"

text \<open>
  The detail text of an exception is formatted from strings, numbers and times; it is kept as the
  sequence of its pieces.
\<close>

datatype Detail = DStr string | DF64 f64 | DNat nat | DInt int | DName string | DOptName "string option"

record ExceptionData =
  exception_name :: string
  details :: "Detail list"

type_synonym 'a resp = "ExceptionData + 'a"

definition exception_variant :: "HlaException \<Rightarrow> Detail list \<Rightarrow> 'a resp" where
  "exception_variant kind ds = Inl \<lparr>exception_name = exception_name_of kind, details = ds\<rparr>"

subsection \<open>Wire form of handles and times\<close>

definition encode_u32 :: "u32 \<Rightarrow> bytes" where "encode_u32 raw = to_be_bytes raw"
definition encode_u64 :: "u64 \<Rightarrow> bytes" where "encode_u64 raw = to_be_bytes raw"

definition decode_u32 :: "bytes \<Rightarrow> HlaException \<Rightarrow> HlaException + u32" where
  "decode_u32 bs exc = (if length bs \<noteq> 4 then Inl exc else Inr (from_be_bytes bs))"

definition decode_u64 :: "bytes \<Rightarrow> HlaException \<Rightarrow> HlaException + u64" where
  "decode_u64 bs exc = (if length bs \<noteq> 8 then Inl exc else Inr (from_be_bytes bs))"

definition encode_object_class :: "ObjectClassHandle \<Rightarrow> bytes" where
  "encode_object_class h = encode_u32 h"
definition encode_attribute :: "AttributeHandle \<Rightarrow> bytes" where
  "encode_attribute h = encode_u32 h"
definition encode_interaction_class :: "InteractionClassHandle \<Rightarrow> bytes" where
  "encode_interaction_class h = encode_u32 h"
definition encode_parameter :: "ParameterHandle \<Rightarrow> bytes" where
  "encode_parameter h = encode_u32 h"
definition encode_object_instance :: "ObjectInstanceHandle \<Rightarrow> bytes" where
  "encode_object_instance h = encode_u64 h"
definition encode_federate :: "FederateHandle \<Rightarrow> bytes" where
  "encode_federate h = encode_u32 h"

definition decode_object_class :: "bytes \<Rightarrow> HlaException + ObjectClassHandle" where
  "decode_object_class p = decode_u32 p InvalidObjectClassHandle"
definition decode_attribute :: "bytes \<Rightarrow> HlaException + AttributeHandle" where
  "decode_attribute p = decode_u32 p InvalidAttributeHandle"
definition decode_interaction_class :: "bytes \<Rightarrow> HlaException + InteractionClassHandle" where
  "decode_interaction_class p = decode_u32 p InvalidInteractionClassHandle"
definition decode_parameter :: "bytes \<Rightarrow> HlaException + ParameterHandle" where
  "decode_parameter p = decode_u32 p InvalidParameterHandle"
definition decode_object_instance :: "bytes \<Rightarrow> HlaException + ObjectInstanceHandle" where
  "decode_object_instance p = decode_u64 p InvalidObjectInstanceHandle"

definition encode_logical_time :: "f64 \<Rightarrow> bytes" where
  "encode_logical_time t = to_be_bytes t"
definition encode_logical_time_interval :: "f64 \<Rightarrow> bytes" where
  "encode_logical_time_interval d = to_be_bytes d"

definition decode_logical_time :: "bytes \<Rightarrow> HlaException + f64" where
  "decode_logical_time p = (if length p \<noteq> 8 then Inl InvalidLogicalTime else Inr (from_be_bytes p))"
definition decode_logical_time_interval :: "bytes \<Rightarrow> HlaException + f64" where
  "decode_logical_time_interval p =
     (if length p \<noteq> 8 then Inl InvalidLookahead else Inr (from_be_bytes p))"

text \<open>\<^verbatim>\<open>Result::ok\<close>.\<close>

definition ok :: "'e + 'a \<Rightarrow> 'a option" where
  "ok r = (case r of Inl _ \<Rightarrow> None | Inr a \<Rightarrow> Some a)"

lemma ok_simps [simp]: "ok (Inl e) = None" "ok (Inr a) = Some a" "ok r = Some a \<longleftrightarrow> r = Inr a"
  by (auto simp: ok_def split: sum.splits)

subsection \<open>Wire codecs\<close>

text \<open>
  The contract of every opaque wire value: decoding inverts encoding and accepts nothing else. It
  makes the encodings injective and decoding the partial inverse.
\<close>

locale wire_codec =
  fixes enc :: "'a \<Rightarrow> bytes" and dec :: "bytes \<Rightarrow> 'e + 'a"
  assumes dec_enc: "dec (enc x) = Inr x"
    and enc_dec: "dec bs = Inr x \<Longrightarrow> enc x = bs"
begin

lemma dec_iff: "dec bs = Inr x \<longleftrightarrow> bs = enc x"
  using dec_enc enc_dec by blast

lemma enc_inject: "enc x = enc y \<longleftrightarrow> x = y"
  using dec_enc by (metis sum.inject(2))

lemma ok_dec_enc: "ok (dec (enc x)) = Some x"
  by (simp add: dec_enc)

lemma dec_rejects: "(\<exists>e. dec bs = Inl e) \<longleftrightarrow> bs \<notin> range enc"
proof -
  have "(\<exists>e. dec bs = Inl e) \<longleftrightarrow> (\<nexists>x. dec bs = Inr x)" by (cases "dec bs") auto
  then show ?thesis by (auto simp: dec_iff)
qed

end

lemma be_codec_32:
  "decode_u32 (encode_u32 x) e = Inr x" "decode_u32 bs e = Inr x \<Longrightarrow> encode_u32 x = bs"
  by (auto simp: decode_u32_def encode_u32_def split: if_splits)

lemma be_codec_64:
  "decode_u64 (encode_u64 x) e = Inr x" "decode_u64 bs e = Inr x' \<Longrightarrow> encode_u64 x' = bs"
  by (auto simp: decode_u64_def encode_u64_def split: if_splits)

interpretation object_class: wire_codec encode_object_class decode_object_class
  by unfold_locales (simp_all add: encode_object_class_def decode_object_class_def be_codec_32)

interpretation attribute: wire_codec encode_attribute decode_attribute
  by unfold_locales (simp_all add: encode_attribute_def decode_attribute_def be_codec_32)

interpretation interaction_class: wire_codec encode_interaction_class decode_interaction_class
  by unfold_locales (simp_all add: encode_interaction_class_def decode_interaction_class_def be_codec_32)

interpretation parameter: wire_codec encode_parameter decode_parameter
  by unfold_locales (simp_all add: encode_parameter_def decode_parameter_def be_codec_32)

interpretation object_instance: wire_codec encode_object_instance decode_object_instance
  by unfold_locales (simp_all add: encode_object_instance_def decode_object_instance_def be_codec_64)

interpretation logical_time: wire_codec encode_logical_time decode_logical_time
  by unfold_locales (auto simp: encode_logical_time_def decode_logical_time_def split: if_splits)

interpretation logical_interval: wire_codec encode_logical_time_interval decode_logical_time_interval
  by unfold_locales
    (auto simp: encode_logical_time_interval_def decode_logical_time_interval_def split: if_splits)

subsection \<open>The total order of times\<close>

lemma total_order_mask: "drop_bit 1 (signed_drop_bit 63 x) = (if bit x 63 then mask 63 else 0)"
  for x :: f64
  by (rule bit_word_eqI) (auto simp: bit_drop_bit_eq bit_signed_drop_bit_iff bit_mask_iff
      dest: bit_imp_le_length)

lemma f64_neg_bit: "f64_neg x \<longleftrightarrow> bit x 63"
proof -
  let ?q = "unat x div 2 ^ 63"
  have "?q < 2" using unsigned_less [of x, where ?'a = nat] by (simp add: less_mult_imp_div_less)
  then have "?q = 0 \<or> ?q = 1" by linarith
  moreover have "bit x 63 \<longleftrightarrow> odd ?q"
    unfolding bit_iff_odd [symmetric] by (simp add: bit_unsigned_iff)
  moreover have "f64_neg x \<longleftrightarrow> ?q \<noteq> 0" by (simp add: f64_neg_def div_eq_0_iff not_less)
  ultimately show ?thesis by auto
qed

lemma total_order_key_eq:
  "total_order_key x = (if f64_neg x then - int (f64_mag x) - 1 else int (f64_mag x))"
proof -
  have "uint (take_bit 63 x) = take_bit 63 (uint x)" by (rule unsigned_take_bit_eq)
  then have mag: "uint (take_bit 63 x) = int (f64_mag x)"
    by (simp add: take_bit_eq_mod [of _ "uint x"] f64_mag_def zmod_int)
  have small: "sint (take_bit 63 x) = uint (take_bit 63 x)"
    by (simp add: sint_uint signed_take_bit_eq_if_positive bit_take_bit_iff unsigned_take_bit_eq)
  show ?thesis
  proof (cases "bit x 63")
    case True
    have "xor x (mask 63) = not (take_bit 63 x)"
    proof (rule bit_word_eqI)
      fix n assume "n < LENGTH(64)"
      then consider "n < 63" | "n = 63" by force
      then show "bit (xor x (mask 63)) n = bit (not (take_bit 63 x)) n"
        by cases (use True in \<open>simp_all add: bit_simps\<close>)
    qed
    moreover have "sint (not (take_bit 63 x)) = - sint (take_bit 63 x) - 1"
      using signed_not_eq [of "take_bit 63 x", where ?'a = int] f64_mag_less [of x]
      by (simp add: small mag not_int_def signed_take_bit_int_eq_self)
    ultimately have "total_order_key x = - sint (take_bit 63 x) - 1"
      unfolding total_order_key_def total_order_mask using True by simp
    then show ?thesis using True by (simp add: f64_neg_bit small mag)
  next
    case False
    have "take_bit 63 x = x"
    proof (rule bit_word_eqI)
      fix n assume "n < LENGTH(64)"
      then consider "n < 63" | "n = 63" by force
      then show "bit (take_bit 63 x) n = bit x n"
        by cases (use False in \<open>simp_all add: bit_simps\<close>)
    qed
    then show ?thesis using False small mag
      unfolding total_order_key_def total_order_mask by (simp add: f64_neg_bit)
  qed
qed

lemma total_order_key_inject: "total_order_key x = total_order_key y \<longleftrightarrow> x = y"
proof
  assume eq: "total_order_key x = total_order_key y"
  then have "f64_neg x = f64_neg y \<and> f64_mag x = f64_mag y"
    by (auto simp: total_order_key_eq split: if_splits)
  then have "f64_of_mag (f64_neg x) (f64_mag x) = f64_of_mag (f64_neg y) (f64_mag y)" by simp
  then show "x = y" by (simp only: f64_of_mag_id)
qed simp

subsection \<open>Exception names\<close>

definition all_exceptions :: "HlaException list" where
  "all_exceptions =
   [AttributeNotDefined, AttributeNotOwned, CouldNotOpenFdd, DeletePrivilegeNotHeld,
    ErrorReadingFdd, FederateAlreadyExecutionMember, FederateNameAlreadyInUse,
    FederateNotExecutionMember, FederateNotInSaveInitiated, FederateNotInSaveSet,
    FederateNotInSynchronizationGroup, FederatesCurrentlyJoined,
    FederationExecutionAlreadyExists, FederationExecutionDoesNotExist,
    InteractionClassNotDefined, InteractionClassNotPublished,
    InteractionParameterNotDefined, InTimeAdvancingState, InvalidAttributeHandle,
    InvalidDimension, InvalidDimensionHandle, InvalidFederateHandle,
    InvalidInteractionClassHandle, InvalidLogicalTime, InvalidLookahead,
    InvalidObjectClassHandle, InvalidObjectInstanceHandle, InvalidOrderName,
    InvalidOrderType, InvalidParameterHandle, InvalidRangeBound, InvalidRegion,
    InvalidResignAction, InvalidRestoreLabel, InvalidSaveLabel,
    InvalidSynchronizationPointLabel, InvalidTransportationName,
    InvalidTransportationTypeHandle, LogicalTimeAlreadyPassed, NameNotFound,
    ObjectClassNotDefined, ObjectClassNotPublished, ObjectInstanceNameInUse,
    ObjectInstanceNotKnown, RegionNotCreatedByThisFederate, RestoreInProgress,
    RestoreNotInProgress, RtiInternalError, SaveInProgress, SaveNotInProgress,
    SynchronizationPointLabelNotAnnounced, TimeConstrainedAlreadyEnabled,
    TimeConstrainedIsNotEnabled, TimeRegulationAlreadyEnabled, TimeRegulationIsNotEnabled]"

lemma all_exceptions: "x \<in> set all_exceptions"
  unfolding all_exceptions_def by (cases x) simp_all

lemma distinct_names: "distinct (map exception_name_of all_exceptions)"
  by code_simp

subsection \<open>Properties\<close>

text \<open>Distinct exception kinds have distinct wire names, so a federate that matches on the name of
  an exception response knows the kind that was raised.\<close>

theorem exception_variant_inject:
  "exception_variant k ds = (exception_variant k' ds' :: 'a resp) \<longleftrightarrow> k = k' \<and> ds = ds'"
proof -
  have "set all_exceptions = UNIV" using all_exceptions by blast
  then have "inj exception_name_of"
    using distinct_names by (simp only: distinct_map)
  then show ?thesis by (auto simp: exception_variant_def inj_def)
qed

end
