(* ===== verification/Callbacks.thy ===== *)
theory Callbacks
  imports Core
begin

text \<open>
  The callback messages the RTI sends to federates and their constructors
  (\<^verbatim>\<open>crates/hla-rti/src/routing.rs\<close>). A message holds the protobuf fields the RTI sets; the fields it
  always leaves unset (transportation type, sent regions, retraction handle) are not represented.
  Handles and times inside a message are in their wire form.
\<close>

type_synonym wire_handle = "bytes option"
type_synonym wire_values = "(wire_handle \<times> bytes) list"

datatype (plugins only: code size) CallbackRequest =
    DiscoverObjectInstance wire_handle wire_handle string wire_handle
  | ReflectAttributeValues wire_handle "wire_values option" bytes wire_handle
  | ReflectAttributeValuesWithTime wire_handle "wire_values option" bytes wire_handle "bytes option" int int
  | ReceiveInteraction wire_handle "wire_values option" bytes wire_handle
  | ReceiveInteractionWithTime wire_handle "wire_values option" bytes wire_handle "bytes option" int int
  | ReceiveDirectedInteraction wire_handle wire_handle "wire_values option" bytes wire_handle
  | RemoveObjectInstance wire_handle bytes wire_handle
  | RemoveObjectInstanceWithTime wire_handle bytes wire_handle "bytes option" int int
  | ReportFederationExecutionMembers string "(string \<times> string) list option"
  | ReportFederationExecutionDoesNotExist string
  | ReportFederationExecutions "(string \<times> string) list option"
  | AttributeOwnershipAcquisitionNotification wire_handle "bytes list option" bytes
  | AttributeOwnershipUnavailable wire_handle "bytes list option" bytes
  | InformAttributeOwnership wire_handle "bytes list option" wire_handle
  | AttributeIsNotOwned wire_handle "bytes list option"
  | RequestFederationRestoreSucceeded string
  | RequestFederationRestoreFailed string
  | FederationRestoreBegun
  | InitiateFederateRestore string string wire_handle
  | FederationRestored
  | FederationNotRestored int
  | InitiateFederateSave string
  | FederationSaved
  | FederationNotSaved int
  | SynchronizationPointRegistrationSucceeded string
  | SynchronizationPointRegistrationFailed string int
  | AnnounceSynchronizationPoint string bytes
  | FederationSynchronized string "bytes list option"
  | StartRegistrationForObjectClass wire_handle
  | StopRegistrationForObjectClass wire_handle
  | TurnInteractionsOn wire_handle
  | TurnInteractionsOff wire_handle
  | TimeRegulationEnabled "bytes option"
  | TimeConstrainedEnabled "bytes option"
  | TimeAdvanceGrant "bytes option"

definition attribute_values :: "AttributeHandleValueMap \<Rightarrow> wire_values" where
  "attribute_values values = map (\<lambda>(h, v). (Some (encode_attribute h), v)) values"

definition parameter_values :: "ParameterHandleValueMap \<Rightarrow> wire_values" where
  "parameter_values params = map (\<lambda>(h, v). (Some (encode_parameter h), v)) params"

definition discover_object_instance ::
  "ObjectInstanceHandle \<Rightarrow> ObjectClassHandle \<Rightarrow> string \<Rightarrow> FederateHandle \<Rightarrow> CallbackRequest" where
  "discover_object_instance inst cls name producer =
     DiscoverObjectInstance (Some (encode_object_instance inst)) (Some (encode_object_class cls)) name
       (Some (encode_federate producer))"

definition reflect_attribute_values_with_time ::
  "ObjectInstanceHandle \<Rightarrow> AttributeHandleValueMap \<Rightarrow> bytes \<Rightarrow> FederateHandle \<Rightarrow> f64 \<Rightarrow> CallbackRequest" where
  "reflect_attribute_values_with_time inst values tag producer time =
     ReflectAttributeValuesWithTime (Some (encode_object_instance inst)) (Some (attribute_values values))
       tag (Some (encode_federate producer)) (Some (encode_logical_time time)) 1 1"

definition receive_interaction_with_time ::
  "InteractionClassHandle \<Rightarrow> ParameterHandleValueMap \<Rightarrow> bytes \<Rightarrow> FederateHandle \<Rightarrow> f64 \<Rightarrow> CallbackRequest" where
  "receive_interaction_with_time cls params tag producer time =
     ReceiveInteractionWithTime (Some (encode_interaction_class cls)) (Some (parameter_values params))
       tag (Some (encode_federate producer)) (Some (encode_logical_time time)) 1 1"

definition remove_object_instance_with_time ::
  "ObjectInstanceHandle \<Rightarrow> bytes \<Rightarrow> FederateHandle \<Rightarrow> f64 \<Rightarrow> CallbackRequest" where
  "remove_object_instance_with_time inst tag producer time =
     RemoveObjectInstanceWithTime (Some (encode_object_instance inst)) tag
       (Some (encode_federate producer)) (Some (encode_logical_time time)) 1 1"

definition reflect_attribute_values ::
  "ObjectInstanceHandle \<Rightarrow> AttributeHandleValueMap \<Rightarrow> bytes \<Rightarrow> FederateHandle \<Rightarrow> CallbackRequest" where
  "reflect_attribute_values inst values tag producer =
     ReflectAttributeValues (Some (encode_object_instance inst)) (Some (attribute_values values)) tag
       (Some (encode_federate producer))"

definition receive_directed_interaction :: "InteractionClassHandle \<Rightarrow> ObjectInstanceHandle \<Rightarrow>
    ParameterHandleValueMap \<Rightarrow> bytes \<Rightarrow> FederateHandle \<Rightarrow> CallbackRequest" where
  "receive_directed_interaction cls inst params tag producer =
     ReceiveDirectedInteraction (Some (encode_interaction_class cls)) (Some (encode_object_instance inst))
       (Some (parameter_values params)) tag (Some (encode_federate producer))"

definition receive_interaction ::
  "InteractionClassHandle \<Rightarrow> ParameterHandleValueMap \<Rightarrow> bytes \<Rightarrow> FederateHandle \<Rightarrow> CallbackRequest" where
  "receive_interaction cls params tag producer =
     ReceiveInteraction (Some (encode_interaction_class cls)) (Some (parameter_values params)) tag
       (Some (encode_federate producer))"

definition report_federation_execution_members ::
  "string \<Rightarrow> (string \<times> string) list \<Rightarrow> CallbackRequest" where
  "report_federation_execution_members federation_name members =
     ReportFederationExecutionMembers federation_name (Some members)"

definition report_federation_execution_does_not_exist :: "string \<Rightarrow> CallbackRequest" where
  "report_federation_execution_does_not_exist federation_name =
     ReportFederationExecutionDoesNotExist federation_name"

definition report_federation_executions :: "string list \<Rightarrow> CallbackRequest" where
  "report_federation_executions federations =
     ReportFederationExecutions (Some (map (\<lambda>name. (name, ''HLAfloat64Time'')) federations))"

definition attribute_ownership_acquisition_notification ::
  "ObjectInstanceHandle \<Rightarrow> AttributeHandle list \<Rightarrow> bytes \<Rightarrow> CallbackRequest" where
  "attribute_ownership_acquisition_notification inst secured tag =
     AttributeOwnershipAcquisitionNotification (Some (encode_object_instance inst))
       (Some (map encode_attribute secured)) tag"

definition attribute_ownership_unavailable ::
  "ObjectInstanceHandle \<Rightarrow> AttributeHandle list \<Rightarrow> bytes \<Rightarrow> CallbackRequest" where
  "attribute_ownership_unavailable inst unavailable tag =
     AttributeOwnershipUnavailable (Some (encode_object_instance inst))
       (Some (map encode_attribute unavailable)) tag"

definition request_federation_restore_succeeded :: "string \<Rightarrow> CallbackRequest" where
  "request_federation_restore_succeeded label = RequestFederationRestoreSucceeded label"

definition request_federation_restore_failed :: "string \<Rightarrow> CallbackRequest" where
  "request_federation_restore_failed label = RequestFederationRestoreFailed label"

definition federation_restore_begun :: CallbackRequest where
  "federation_restore_begun = FederationRestoreBegun"

definition initiate_federate_restore :: "string \<Rightarrow> string \<Rightarrow> FederateHandle \<Rightarrow> CallbackRequest" where
  "initiate_federate_restore label federate_name post_restore_handle =
     InitiateFederateRestore label federate_name (Some (encode_federate post_restore_handle))"

definition federation_restored :: CallbackRequest where
  "federation_restored = FederationRestored"

definition federation_not_restored :: "int \<Rightarrow> CallbackRequest" where
  "federation_not_restored reason = FederationNotRestored reason"

definition initiate_federate_save :: "string \<Rightarrow> CallbackRequest" where
  "initiate_federate_save label = InitiateFederateSave label"

definition federation_saved :: CallbackRequest where
  "federation_saved = FederationSaved"

definition federation_not_saved :: "int \<Rightarrow> CallbackRequest" where
  "federation_not_saved reason = FederationNotSaved reason"

definition inform_attribute_ownership ::
  "ObjectInstanceHandle \<Rightarrow> AttributeHandle list \<Rightarrow> FederateHandle \<Rightarrow> CallbackRequest" where
  "inform_attribute_ownership inst attributes federate =
     InformAttributeOwnership (Some (encode_object_instance inst))
       (Some (map encode_attribute attributes)) (Some (encode_federate federate))"

definition attribute_is_not_owned :: "ObjectInstanceHandle \<Rightarrow> AttributeHandle list \<Rightarrow> CallbackRequest" where
  "attribute_is_not_owned inst attributes =
     AttributeIsNotOwned (Some (encode_object_instance inst)) (Some (map encode_attribute attributes))"

definition synchronization_point_registration_succeeded :: "string \<Rightarrow> CallbackRequest" where
  "synchronization_point_registration_succeeded label = SynchronizationPointRegistrationSucceeded label"

definition synchronization_point_registration_failed :: "string \<Rightarrow> int \<Rightarrow> CallbackRequest" where
  "synchronization_point_registration_failed label reason =
     SynchronizationPointRegistrationFailed label reason"

definition announce_synchronization_point :: "string \<Rightarrow> bytes \<Rightarrow> CallbackRequest" where
  "announce_synchronization_point label tag = AnnounceSynchronizationPoint label tag"

definition federation_synchronized :: "string \<Rightarrow> FederateHandle hset \<Rightarrow> CallbackRequest" where
  "federation_synchronized label failed_set =
     FederationSynchronized label (Some (map encode_federate failed_set))"

definition start_registration_for_object_class :: "ObjectClassHandle \<Rightarrow> CallbackRequest" where
  "start_registration_for_object_class cls = StartRegistrationForObjectClass (Some (encode_object_class cls))"

definition stop_registration_for_object_class :: "ObjectClassHandle \<Rightarrow> CallbackRequest" where
  "stop_registration_for_object_class cls = StopRegistrationForObjectClass (Some (encode_object_class cls))"

definition turn_interactions_on :: "InteractionClassHandle \<Rightarrow> CallbackRequest" where
  "turn_interactions_on cls = TurnInteractionsOn (Some (encode_interaction_class cls))"

definition turn_interactions_off :: "InteractionClassHandle \<Rightarrow> CallbackRequest" where
  "turn_interactions_off cls = TurnInteractionsOff (Some (encode_interaction_class cls))"

definition time_regulation_enabled :: "f64 \<Rightarrow> CallbackRequest" where
  "time_regulation_enabled time = TimeRegulationEnabled (Some (encode_logical_time time))"

definition time_constrained_enabled :: "f64 \<Rightarrow> CallbackRequest" where
  "time_constrained_enabled time = TimeConstrainedEnabled (Some (encode_logical_time time))"

definition time_advance_grant :: "f64 \<Rightarrow> CallbackRequest" where
  "time_advance_grant time = TimeAdvanceGrant (Some (encode_logical_time time))"

definition remove_object_instance :: "ObjectInstanceHandle \<Rightarrow> bytes \<Rightarrow> FederateHandle \<Rightarrow> CallbackRequest" where
  "remove_object_instance inst tag producer =
     RemoveObjectInstance (Some (encode_object_instance inst)) tag (Some (encode_federate producer))"

end
