(* ===== verification/Fom.thy ===== *)
theory Fom
  imports Core
begin

text \<open>
  Federation object models: the types and look-ups of \<^verbatim>\<open>crates/hla-omt/src/lib.rs\<close>, the flattening
  of a parsed document in \<^verbatim>\<open>crates/hla-omt/src/xml.rs\<close> and the modular merge with handle assignment
  in \<^verbatim>\<open>crates/hla-omt/src/merge.rs\<close>. The XML parser itself (quick-xml) is not part of the sources: the
  model starts from the deserialized tree.
\<close>

datatype FomError =
    Xml string | MergeConflict "Detail list" | UnknownReference string | InvalidEnum "Detail list"

datatype OrderTypeRef = OrderReceive | OrderTimestamp
datatype Ownership = DivestAcquire | NoTransfer
datatype Sharing = Publish | Subscribe | PublishSubscribe | Neither
datatype UpdateType = Static | Periodic | Conditional

record ModuleIdentification =
  mi_name :: string
  mi_version :: "string option"
  mi_description :: "string option"

record AttributeDef =
  at_name :: string
  at_datatype :: string
  at_order :: OrderTypeRef
  at_transportation :: string
  at_ownership :: Ownership
  at_sharing :: Sharing
  at_update_type :: UpdateType
  at_dimensions :: "string list"

record ObjectClassDef =
  oc_name :: string
  oc_parent :: "string option"
  oc_attributes :: "AttributeDef list"
  oc_semantics :: "string option"

record ParameterDef =
  pa_name :: string
  pa_datatype :: string

record InteractionClassDef =
  ic_name :: string
  ic_parent :: "string option"
  ic_order :: OrderTypeRef
  ic_transportation :: string
  ic_parameters :: "ParameterDef list"
  ic_semantics :: "string option"

record FomModule =
  identification :: ModuleIdentification
  fm_object_classes :: "ObjectClassDef list"
  fm_interaction_classes :: "InteractionClassDef list"

definition order_from_xml :: "string \<Rightarrow> FomError + OrderTypeRef" where
  "order_from_xml s =
     (if s = ''Receive'' then Inr OrderReceive
      else if s = ''TimeStamp'' \<or> s = ''TimestampOrder'' then Inr OrderTimestamp
      else Inl (InvalidEnum [DStr ''order: '', DName s]))"

definition ownership_from_xml :: "string \<Rightarrow> FomError + Ownership" where
  "ownership_from_xml s =
     (if s = ''DivestAcquire'' then Inr DivestAcquire
      else if s = ''NoTransfer'' then Inr NoTransfer
      else Inl (InvalidEnum [DStr ''ownership: '', DName s]))"

definition sharing_from_xml :: "string \<Rightarrow> FomError + Sharing" where
  "sharing_from_xml s =
     (if s = ''Publish'' then Inr Publish
      else if s = ''Subscribe'' then Inr Subscribe
      else if s = ''PublishSubscribe'' then Inr PublishSubscribe
      else if s = ''Neither'' then Inr Neither
      else Inl (InvalidEnum [DStr ''sharing: '', DName s]))"

definition update_type_from_xml :: "string \<Rightarrow> FomError + UpdateType" where
  "update_type_from_xml s =
     (if s = ''Static'' then Inr Static
      else if s = ''Periodic'' then Inr Periodic
      else if s = ''Conditional'' then Inr Conditional
      else Inl (InvalidEnum [DStr ''update_type: '', DName s]))"

subsection \<open>Merged FOMs and look-ups\<close>

record MergedFom =
  modules :: "FomModule list"
  object_classes :: "(ObjectClassHandle, ObjectClassDef) hmap"
  interaction_classes :: "(InteractionClassHandle, InteractionClassDef) hmap"
  object_class_table :: "(string, ObjectClassHandle) hmap"
  attribute_table :: "(ObjectClassHandle \<times> string, AttributeHandle) hmap"
  interaction_class_table :: "(string, InteractionClassHandle) hmap"
  parameter_table :: "(InteractionClassHandle \<times> string, ParameterHandle) hmap"
  dimension_table :: "(string, DimensionHandle) hmap"

definition empty_fom :: MergedFom where
  "empty_fom = \<lparr>modules = [], object_classes = [], interaction_classes = [], object_class_table = [],
     attribute_table = [], interaction_class_table = [], parameter_table = [], dimension_table = []\<rparr>"

definition object_class_handle :: "MergedFom \<Rightarrow> string \<Rightarrow> ObjectClassHandle option" where
  "object_class_handle fom name = map_of (object_class_table fom) name"

definition object_class_def :: "MergedFom \<Rightarrow> ObjectClassHandle \<Rightarrow> ObjectClassDef option" where
  "object_class_def fom h = map_of (object_classes fom) h"

definition attribute_handle :: "MergedFom \<Rightarrow> ObjectClassHandle \<Rightarrow> string \<Rightarrow> AttributeHandle option" where
  "attribute_handle fom c name = map_of (attribute_table fom) (c, name)"

definition interaction_class_handle :: "MergedFom \<Rightarrow> string \<Rightarrow> InteractionClassHandle option" where
  "interaction_class_handle fom name = map_of (interaction_class_table fom) name"

definition interaction_class_def ::
  "MergedFom \<Rightarrow> InteractionClassHandle \<Rightarrow> InteractionClassDef option" where
  "interaction_class_def fom h = map_of (interaction_classes fom) h"

definition parameter_handle ::
  "MergedFom \<Rightarrow> InteractionClassHandle \<Rightarrow> string \<Rightarrow> ParameterHandle option" where
  "parameter_handle fom c name = map_of (parameter_table fom) (c, name)"

definition dimension_handle :: "MergedFom \<Rightarrow> string \<Rightarrow> DimensionHandle option" where
  "dimension_handle fom name = map_of (dimension_table fom) name"

text \<open>
  The inheritance iterator. \<open>parent_class\<close> is one step of \<^verbatim>\<open>InheritanceIter::next\<close>; the chain is
  the sequence of its results, cut off after as many steps as there are classes, which is shown
  below never to lose an ancestor in a FOM built by the merge.
\<close>

definition parent_class :: "MergedFom \<Rightarrow> ObjectClassDef \<Rightarrow> ObjectClassHandle option" where
  "parent_class fom d = Option.bind (oc_parent d) (object_class_handle fom)"

fun inheritance_iter :: "nat \<Rightarrow> MergedFom \<Rightarrow> ObjectClassHandle option \<Rightarrow> ObjectClassHandle list" where
  "inheritance_iter 0 fom nxt = []"
| "inheritance_iter (Suc n) fom None = []"
| "inheritance_iter (Suc n) fom (Some c) =
     (case object_class_def fom c of
        None \<Rightarrow> []
      | Some d \<Rightarrow> c # inheritance_iter n fom (parent_class fom d))"

definition inheritance_chain :: "MergedFom \<Rightarrow> ObjectClassHandle \<Rightarrow> ObjectClassHandle list" where
  "inheritance_chain fom h = inheritance_iter (length (object_classes fom)) fom (Some h)"

text \<open>The walk up the interaction classes that \<^verbatim>\<open>subscribers_for_interaction\<close> makes.\<close>

definition parent_interaction :: "MergedFom \<Rightarrow> InteractionClassHandle \<Rightarrow> InteractionClassHandle option" where
  "parent_interaction fom c =
     Option.bind (Option.bind (interaction_class_def fom c) ic_parent) (interaction_class_handle fom)"

fun interaction_iter ::
  "nat \<Rightarrow> MergedFom \<Rightarrow> InteractionClassHandle option \<Rightarrow> InteractionClassHandle list" where
  "interaction_iter 0 fom cur = []"
| "interaction_iter (Suc n) fom None = []"
| "interaction_iter (Suc n) fom (Some c) = c # interaction_iter n fom (parent_interaction fom c)"

definition interaction_chain :: "MergedFom \<Rightarrow> InteractionClassHandle \<Rightarrow> InteractionClassHandle list" where
  "interaction_chain fom c = interaction_iter (Suc (length (interaction_classes fom))) fom (Some c)"

subsection \<open>From the XML tree to a module\<close>

record XmlAttribute =
  xa_name :: string
  xa_data_type :: string
  xa_update_type :: string
  xa_ownership :: "string option"
  xa_sharing :: "string option"
  xa_transportation :: "string option"
  xa_order :: "string option"
  xa_dimensions :: "string list option"

datatype XmlObjectClass = XmlObjectClass
  (xo_name: string) (xo_semantics: "string option") (xo_attributes: "XmlAttribute list")
  (xo_children: "XmlObjectClass list")

datatype XmlInteractionClass = XmlInteractionClass
  (xi_name: string) (xi_semantics: "string option") (xi_transportation: "string option")
  (xi_order: "string option") (xi_parameters: "(string \<times> string) list")
  (xi_children: "XmlInteractionClass list")

record XmlObjectModel =
  model_identification :: "(string option \<times> string option \<times> string option) option"
  xml_objects :: "XmlObjectClass list option"
  xml_interactions :: "XmlInteractionClass list option"

definition unwrap_or :: "'a \<Rightarrow> 'a option \<Rightarrow> 'a" where
  "unwrap_or d x = (case x of None \<Rightarrow> d | Some a \<Rightarrow> a)"

definition fqn :: "string option \<Rightarrow> string \<Rightarrow> string" where
  "fqn parent leaf = (case parent of Some p \<Rightarrow> p @ ''.'' @ leaf | None \<Rightarrow> leaf)"

definition xml_attribute_def :: "XmlAttribute \<Rightarrow> FomError + AttributeDef" where
  "xml_attribute_def a =
     (case order_from_xml (unwrap_or ''Receive'' (xa_order a)) of Inl e \<Rightarrow> Inl e | Inr ord \<Rightarrow>
      case ownership_from_xml (unwrap_or ''NoTransfer'' (xa_ownership a)) of Inl e \<Rightarrow> Inl e | Inr own \<Rightarrow>
      case sharing_from_xml (unwrap_or ''Neither'' (xa_sharing a)) of Inl e \<Rightarrow> Inl e | Inr sh \<Rightarrow>
      case update_type_from_xml (xa_update_type a) of Inl e \<Rightarrow> Inl e | Inr ut \<Rightarrow>
      Inr \<lparr>at_name = xa_name a, at_datatype = xa_data_type a, at_order = ord,
           at_transportation = unwrap_or ''HLAreliable'' (xa_transportation a), at_ownership = own,
           at_sharing = sh, at_update_type = ut,
           at_dimensions = filter (\<lambda>s. s \<noteq> []) (unwrap_or [] (xa_dimensions a))\<rparr>)"

fun flatten_object_class ::
  "XmlObjectClass \<Rightarrow> string option \<Rightarrow> ObjectClassDef list \<Rightarrow> FomError + ObjectClassDef list" where
  "flatten_object_class (XmlObjectClass name sem attrs children) parent out =
     (let my_fqn = fqn parent name in
      case try_map xml_attribute_def attrs of Inl e \<Rightarrow> Inl e
      | Inr attributes \<Rightarrow>
        try_fold (\<lambda>child acc. flatten_object_class child (Some my_fqn) acc) children
          (out @ [\<lparr>oc_name = my_fqn, oc_parent = parent, oc_attributes = attributes,
                   oc_semantics = sem\<rparr>]))"

fun flatten_interaction_class ::
  "XmlInteractionClass \<Rightarrow> string option \<Rightarrow> InteractionClassDef list \<Rightarrow> FomError + InteractionClassDef list"
  where
  "flatten_interaction_class (XmlInteractionClass name sem transport ord params children) parent out =
     (let my_fqn = fqn parent name;
          parameters = map (\<lambda>(n, dt). \<lparr>pa_name = n, pa_datatype = dt\<rparr>) params in
      case order_from_xml (unwrap_or ''Receive'' ord) of Inl e \<Rightarrow> Inl e
      | Inr order \<Rightarrow>
        try_fold (\<lambda>child acc. flatten_interaction_class child (Some my_fqn) acc) children
          (out @ [\<lparr>ic_name = my_fqn, ic_parent = parent, ic_order = order,
                   ic_transportation = unwrap_or ''HLAreliable'' transport, ic_parameters = parameters,
                   ic_semantics = sem\<rparr>]))"

definition into_fom_module :: "XmlObjectModel \<Rightarrow> FomError + FomModule" where
  "into_fom_module raw =
     (let ident = (case model_identification raw of
           None \<Rightarrow> \<lparr>mi_name = [], mi_version = None, mi_description = None\<rparr>
         | Some (n, v, d) \<Rightarrow> \<lparr>mi_name = unwrap_or [] n, mi_version = v, mi_description = d\<rparr>) in
      case try_fold (\<lambda>top. flatten_object_class top None) (unwrap_or [] (xml_objects raw)) [] of
        Inl e \<Rightarrow> Inl e
      | Inr ocs \<Rightarrow>
        (case try_fold (\<lambda>top. flatten_interaction_class top None)
                (unwrap_or [] (xml_interactions raw)) [] of
           Inl e \<Rightarrow> Inl e
         | Inr ics \<Rightarrow>
             Inr \<lparr>identification = ident, fm_object_classes = ocs, fm_interaction_classes = ics\<rparr>))"

text \<open>\<^verbatim>\<open>parse_fom_module\<close>, with the deserializer of quick-xml as a parameter.\<close>

definition parse_fom_module :: "(string \<Rightarrow> string + XmlObjectModel) \<Rightarrow> string \<Rightarrow> FomError + FomModule" where
  "parse_fom_module from_str xml_input =
     (case from_str xml_input of Inl e \<Rightarrow> Inl (Xml e) | Inr raw \<Rightarrow> into_fom_module raw)"

subsection \<open>Merging modules\<close>

definition merge_attribute ::
  "string \<Rightarrow> AttributeDef \<Rightarrow> AttributeDef list \<Rightarrow> FomError + AttributeDef list" where
  "merge_attribute class_name attr target =
     (case find (\<lambda>a. at_name a = at_name attr) target of
        Some existing \<Rightarrow>
          if existing \<noteq> attr
          then Inl (MergeConflict [DStr class_name, DStr ''.'', DStr (at_name attr),
                                   DStr '': attribute field disagreement''])
          else Inr target
      | None \<Rightarrow> Inr (target @ [attr]))"

definition merge_object_class ::
  "ObjectClassDef \<Rightarrow> (string, ObjectClassDef) hmap \<times> string list
   \<Rightarrow> FomError + (string, ObjectClassDef) hmap \<times> string list" where
  "merge_object_class cls st =
     (case st of (merged, order) \<Rightarrow>
      case map_of merged (oc_name cls) of
        Some existing \<Rightarrow>
          if oc_parent existing \<noteq> oc_parent cls
          then Inl (MergeConflict [DStr (oc_name cls), DStr '': parent disagreement ('',
                 DOptName (oc_parent existing), DStr '' vs '', DOptName (oc_parent cls), DStr '')''])
          else (case try_fold (merge_attribute (oc_name cls)) (oc_attributes cls)
                       (oc_attributes existing) of
                  Inl e \<Rightarrow> Inl e
                | Inr attrs \<Rightarrow>
                    Inr (hinsert (oc_name cls)
                           (existing\<lparr>oc_attributes := attrs,
                              oc_semantics := (if oc_semantics existing = None then oc_semantics cls
                                               else oc_semantics existing)\<rparr>) merged, order))
      | None \<Rightarrow> Inr (hinsert (oc_name cls) cls merged, order @ [oc_name cls]))"

definition merge_parameter ::
  "string \<Rightarrow> ParameterDef \<Rightarrow> ParameterDef list \<Rightarrow> FomError + ParameterDef list" where
  "merge_parameter class_name p target =
     (case find (\<lambda>x. pa_name x = pa_name p) target of
        Some existing \<Rightarrow>
          if existing \<noteq> p
          then Inl (MergeConflict [DStr class_name, DStr ''.'', DStr (pa_name p),
                                   DStr '': parameter field disagreement''])
          else Inr target
      | None \<Rightarrow> Inr (target @ [p]))"

definition merge_interaction_class ::
  "InteractionClassDef \<Rightarrow> (string, InteractionClassDef) hmap \<times> string list
   \<Rightarrow> FomError + (string, InteractionClassDef) hmap \<times> string list" where
  "merge_interaction_class ic st =
     (case st of (merged, order) \<Rightarrow>
      case map_of merged (ic_name ic) of
        Some existing \<Rightarrow>
          if ic_parent existing \<noteq> ic_parent ic
          then Inl (MergeConflict [DStr (ic_name ic), DStr '': parent disagreement''])
          else (case try_fold (merge_parameter (ic_name ic)) (ic_parameters ic)
                       (ic_parameters existing) of
                  Inl e \<Rightarrow> Inl e
                | Inr params \<Rightarrow>
                    Inr (hinsert (ic_name ic)
                           (existing\<lparr>ic_parameters := params,
                              ic_semantics := (if ic_semantics existing = None then ic_semantics ic
                                               else ic_semantics existing)\<rparr>) merged, order))
      | None \<Rightarrow> Inr (hinsert (ic_name ic) ic merged, order @ [ic_name ic]))"

text \<open>
  Handle assignment. The two recursive functions of the source differ only in the kind of class, so
  both are instances of one walk, parametric in the names of a class's attributes or parameters:
  \<open>enter_class\<close> numbers one class and its items, \<open>assign_forest\<close> is the loop over siblings with the
  recursive call on their children. It returns \<open>None\<close> when the recursion is cut off by the fuel or a
  name is missing from the merged classes, where the source would not return or would panic.
\<close>

record 'd handle_state =
  next_class :: u32
  next_item :: u32
  class_defs :: "(u32, 'd) hmap"
  class_table :: "(string, u32) hmap"
  item_table :: "(u32 \<times> string, u32) hmap"

definition initial_handles :: "'d handle_state" where
  "initial_handles = \<lparr>next_class = 1, next_item = 1, class_defs = [], class_table = [], item_table = []\<rparr>"

definition enter_item :: "u32 \<Rightarrow> string \<Rightarrow> 'd handle_state \<Rightarrow> 'd handle_state" where
  "enter_item handle name st =
     st\<lparr>next_item := next_item st + 1,
        item_table := hinsert (handle, name) (next_item st) (item_table st)\<rparr>"

definition enter_class :: "('d \<Rightarrow> string list) \<Rightarrow> string \<Rightarrow> 'd \<Rightarrow> 'd handle_state \<Rightarrow> 'd handle_state" where
  "enter_class items cname d st =
     (let handle = next_class st;
          st1 = st\<lparr>next_class := next_class st + 1\<rparr>;
          st2 = fold (enter_item handle) (items d) st1
      in st2\<lparr>class_table := hinsert cname handle (class_table st2),
             class_defs := hinsert handle d (class_defs st2)\<rparr>)"

fun assign_forest :: "nat \<Rightarrow> ('d \<Rightarrow> string list) \<Rightarrow> (string, 'd) hmap \<Rightarrow> (string option, string list) hmap
    \<Rightarrow> string list \<Rightarrow> 'd handle_state \<Rightarrow> 'd handle_state option" where
  "assign_forest fuel items merged children_of [] st = Some st"
| "assign_forest 0 items merged children_of (c # cs) st = None"
| "assign_forest (Suc fuel) items merged children_of (c # cs) st =
     (case map_of merged c of
        None \<Rightarrow> None
      | Some d \<Rightarrow>
        (case assign_forest fuel items merged children_of
                (unwrap_or [] (map_of children_of (Some c))) (enter_class items c d st) of
           None \<Rightarrow> None
         | Some st' \<Rightarrow> assign_forest (Suc fuel) items merged children_of cs st'))"

definition object_items :: "ObjectClassDef \<Rightarrow> string list" where
  "object_items d = map at_name (oc_attributes d)"

definition interaction_items :: "InteractionClassDef \<Rightarrow> string list" where
  "interaction_items d = map pa_name (ic_parameters d)"

definition assign_object_class_handles where
  "assign_object_class_handles fuel merged children_of fqns st =
     assign_forest fuel object_items merged children_of fqns st"

definition assign_interaction_class_handles where
  "assign_interaction_class_handles fuel merged children_of fqns st =
     assign_forest fuel interaction_items merged children_of fqns st"

text \<open>The adjacency from parents to children, in insertion order.\<close>

definition children_map :: "('d \<Rightarrow> string option) \<Rightarrow> (string, 'd) hmap \<Rightarrow> string list
    \<Rightarrow> (string option, string list) hmap" where
  "children_map parent merged order =
     fold (\<lambda>c m. hentry (Option.bind (map_of merged c) parent) [] (\<lambda>l. l @ [c]) m) order []"

definition merge_modules :: "FomModule list \<Rightarrow> FomError + MergedFom option" where
  "merge_modules mods =
     (let step = (\<lambda>m (os, is).
           case try_fold merge_object_class (fm_object_classes m) os of Inl e \<Rightarrow> Inl e
           | Inr os' \<Rightarrow>
             (case try_fold merge_interaction_class (fm_interaction_classes m) is of Inl e \<Rightarrow> Inl e
              | Inr is' \<Rightarrow> Inr (os', is'))) in
      case try_fold step mods (([], []), ([], [])) of
        Inl e \<Rightarrow> Inl e
      | Inr ((mo, oorder), (mi, iorder)) \<Rightarrow>
        let ochildren = children_map oc_parent mo oorder;
            oroots = unwrap_or [] (map_of ochildren None);
            ichildren = children_map ic_parent mi iorder;
            iroots = unwrap_or [] (map_of ichildren None)
        in Inr (case assign_object_class_handles (length oorder) mo (hremove None ochildren) oroots
                       initial_handles of
                  None \<Rightarrow> None
                | Some ost \<Rightarrow>
                  (case assign_interaction_class_handles (length iorder) mi (hremove None ichildren)
                          iroots initial_handles of
                     None \<Rightarrow> None
                   | Some ist \<Rightarrow>
                       Some \<lparr>modules = mods, object_classes = class_defs ost,
                             interaction_classes = class_defs ist,
                             object_class_table = class_table ost, attribute_table = item_table ost,
                             interaction_class_table = class_table ist,
                             parameter_table = item_table ist, dimension_table = []\<rparr>)))"

end
