(* ===== verification/Subscriptions.thy ===== *)
theory Subscriptions
  imports Core
begin

text \<open>
  The subscription matrix of a federation (\<^verbatim>\<open>SubscriptionMatrix\<close> in \<^verbatim>\<open>crates/hla-rti/src/lib.rs\<close>): who
  subscribes to which attribute of which object class, with a reverse index that counts, per class
  and federate, the attributes subscribed. The reverse index is shown to be the one a scan of the
  attribute table would compute, and the first and last subscription flags to be right.
\<close>

record SubscriptionMatrix =
  by_attribute :: "(ObjectClassHandle \<times> AttributeHandle, FederateHandle hset) hmap"
  by_interaction :: "(InteractionClassHandle, FederateHandle hset) hmap"
  class_subscribers :: "(ObjectClassHandle, (FederateHandle, u32) hmap) hmap"

definition empty_matrix :: SubscriptionMatrix where
  "empty_matrix = \<lparr>by_attribute = [], by_interaction = [], class_subscribers = []\<rparr>"

definition subscribe_attribute ::
  "ObjectClassHandle \<Rightarrow> AttributeHandle \<Rightarrow> FederateHandle \<Rightarrow> SubscriptionMatrix \<Rightarrow> SubscriptionMatrix \<times> bool"
  where
  "subscribe_attribute cls attr federate m =
     (let old = (case map_of (by_attribute m) (cls, attr) of None \<Rightarrow> [] | Some s \<Rightarrow> s);
          newly_added_to_attr = federate \<notin> set old;
          m1 = m\<lparr>by_attribute := hentry (cls, attr) [] (hs_insert federate) (by_attribute m)\<rparr>
      in if \<not> newly_added_to_attr then (m1, False)
         else let class_map = (case map_of (class_subscribers m) cls of None \<Rightarrow> [] | Some cm \<Rightarrow> cm);
                  count = (case map_of class_map federate of None \<Rightarrow> 0 | Some n \<Rightarrow> n) + 1
              in (m1\<lparr>class_subscribers := hinsert cls (hinsert federate count class_map) (class_subscribers m)\<rparr>,
                  count = 1))"

definition unsubscribe_attribute ::
  "ObjectClassHandle \<Rightarrow> AttributeHandle \<Rightarrow> FederateHandle \<Rightarrow> SubscriptionMatrix \<Rightarrow> SubscriptionMatrix \<times> bool"
  where
  "unsubscribe_attribute cls attr federate m =
     (let (ba, removed) = (case map_of (by_attribute m) (cls, attr) of
            Some s \<Rightarrow>
              (let s' = hs_remove federate s in
               (if s' = [] then hremove (cls, attr) (by_attribute m)
                else hinsert (cls, attr) s' (by_attribute m), federate \<in> set s))
          | None \<Rightarrow> (by_attribute m, False));
          m1 = m\<lparr>by_attribute := ba\<rparr>
      in if \<not> removed then (m1, False)
         else case map_of (class_subscribers m) cls of
           None \<Rightarrow> (m1, False)
         | Some class_map \<Rightarrow>
           (case map_of class_map federate of
              None \<Rightarrow> (m1, False)
            | Some n \<Rightarrow>
              let count = n - 1 in
              if count = 0 then
                let class_map' = hremove federate class_map in
                (m1\<lparr>class_subscribers := (if class_map' = [] then hremove cls (class_subscribers m)
                                           else hinsert cls class_map' (class_subscribers m))\<rparr>, True)
              else (m1\<lparr>class_subscribers := hinsert cls (hinsert federate count class_map)
                                             (class_subscribers m)\<rparr>, False)))"

definition remove_class :: "ObjectClassHandle \<Rightarrow> SubscriptionMatrix \<Rightarrow> SubscriptionMatrix" where
  "remove_class cls m =
     m\<lparr>by_attribute := filter (\<lambda>e. fst (fst e) \<noteq> cls) (by_attribute m),
       class_subscribers := hremove cls (class_subscribers m)\<rparr>"

definition class_has_subscribers :: "SubscriptionMatrix \<Rightarrow> ObjectClassHandle \<Rightarrow> bool" where
  "class_has_subscribers m cls \<longleftrightarrow> contains_key (class_subscribers m) cls"

definition subscribers_of_class :: "SubscriptionMatrix \<Rightarrow> ObjectClassHandle \<Rightarrow> FederateHandle list" where
  "subscribers_of_class m cls =
     (case map_of (class_subscribers m) cls of None \<Rightarrow> [] | Some cm \<Rightarrow> hkeys cm)"

subsection \<open>The relation the matrix stores\<close>

definition subscribed :: "SubscriptionMatrix \<Rightarrow> ObjectClassHandle \<Rightarrow> AttributeHandle \<Rightarrow> FederateHandle \<Rightarrow> bool"
  where
  "subscribed m c a f \<longleftrightarrow> (\<exists>s. map_of (by_attribute m) (c, a) = Some s \<and> f \<in> set s)"

definition attrs_of :: "SubscriptionMatrix \<Rightarrow> ObjectClassHandle \<Rightarrow> FederateHandle \<Rightarrow> AttributeHandle set" where
  "attrs_of m c f = {a. subscribed m c a f}"

definition count_of :: "SubscriptionMatrix \<Rightarrow> ObjectClassHandle \<Rightarrow> FederateHandle \<Rightarrow> u32 option" where
  "count_of m c f = Option.bind (map_of (class_subscribers m) c) (\<lambda>cm. map_of cm f)"

text \<open>
  The matrix invariant: no empty sets or counters are kept, and the reverse index holds the number of
  attributes of each class that each federate subscribes to, which fits in 32 bits.
\<close>

definition matrix_inv :: "SubscriptionMatrix \<Rightarrow> bool" where
  "matrix_inv m \<longleftrightarrow>
     wf_hmap (by_attribute m) \<and> wf_hmap (class_subscribers m) \<and>
     (\<forall>k s. map_of (by_attribute m) k = Some s \<longrightarrow> s \<noteq> [] \<and> distinct s) \<and>
     (\<forall>c cm. map_of (class_subscribers m) c = Some cm \<longrightarrow> cm \<noteq> [] \<and> wf_hmap cm) \<and>
     (\<forall>c f. card (attrs_of m c f) < 2 ^ 32) \<and>
     (\<forall>c f. count_of m c f =
        (if attrs_of m c f = {} then None else Some (of_nat (card (attrs_of m c f)))))"

lemma finite_attrs_of [simp]: "finite (attrs_of m c f)"
  by (rule finite_subset [of _ UNIV]) simp_all

text \<open>The invariant follows from its value part and the shape part.\<close>

lemma matrix_inv_count:
  "matrix_inv m \<Longrightarrow> count_of m c f =
     (if attrs_of m c f = {} then None else Some (of_nat (card (attrs_of m c f))))"
  by (simp add: matrix_inv_def)

lemma matrix_inv_card: "matrix_inv m \<Longrightarrow> card (attrs_of m c f) < 2 ^ 32"
  by (simp add: matrix_inv_def)

lemma empty_matrix_inv: "matrix_inv empty_matrix"
  by (simp add: matrix_inv_def empty_matrix_def attrs_of_def subscribed_def count_of_def)

subsection \<open>Effect on the relation\<close>

lemma subscribed_subscribe:
  "subscribed (fst (subscribe_attribute cls attr federate m)) c a f \<longleftrightarrow>
     subscribed m c a f \<or> (c = cls \<and> a = attr \<and> f = federate)"
  by (cases "map_of (by_attribute m) (cls, attr)")
    (auto simp: subscribe_attribute_def subscribed_def hentry_def Let_def)

lemma unsubscribe_by_attribute:
  "by_attribute (fst (unsubscribe_attribute cls attr federate m)) =
     (case map_of (by_attribute m) (cls, attr) of
        Some s \<Rightarrow> (if hs_remove federate s = [] then hremove (cls, attr) (by_attribute m)
                   else hinsert (cls, attr) (hs_remove federate s) (by_attribute m))
      | None \<Rightarrow> by_attribute m)"
  by (simp add: unsubscribe_attribute_def Let_def split: option.split)

lemma unsubscribe_class_subscribers:
  "class_subscribers (fst (unsubscribe_attribute cls attr federate m)) =
     (if \<not> subscribed m cls attr federate then class_subscribers m
      else case map_of (class_subscribers m) cls of
        None \<Rightarrow> class_subscribers m
      | Some cm \<Rightarrow>
        (case map_of cm federate of
           None \<Rightarrow> class_subscribers m
         | Some n \<Rightarrow>
             if n = 1 then (if hremove federate cm = [] then hremove cls (class_subscribers m)
                            else hinsert cls (hremove federate cm) (class_subscribers m))
             else hinsert cls (hinsert federate (n - 1) cm) (class_subscribers m)))"
  by (cases "map_of (by_attribute m) (cls, attr)")
    (simp_all add: unsubscribe_attribute_def subscribed_def Let_def split: option.split)

lemma subscribed_unsubscribe:
  "subscribed (fst (unsubscribe_attribute cls attr federate m)) c a f \<longleftrightarrow>
     subscribed m c a f \<and> \<not> (c = cls \<and> a = attr \<and> f = federate)"
proof -
  note unsubscribe_by_attribute [of cls attr federate m]
  moreover have "f \<notin> set s - {federate}" if "hs_remove federate s = []" for s
    using that set_hs_remove [of federate s] by auto
  ultimately show ?thesis by (auto simp: subscribed_def split: option.splits)
qed

lemma attrs_of_subscribe:
  "attrs_of (fst (subscribe_attribute cls attr federate m)) c f =
     (if c = cls \<and> f = federate then insert attr (attrs_of m c f) else attrs_of m c f)"
  by (auto simp: attrs_of_def subscribed_subscribe)

lemma attrs_of_unsubscribe:
  "attrs_of (fst (unsubscribe_attribute cls attr federate m)) c f =
     (if c = cls \<and> f = federate then attrs_of m c f - {attr} else attrs_of m c f)"
  by (auto simp: attrs_of_def subscribed_unsubscribe)

subsection \<open>The reverse index\<close>

lemma count_of_subscribe:
  "count_of (fst (subscribe_attribute cls attr federate m)) c f =
     (if c = cls \<and> f = federate \<and> \<not> subscribed m cls attr federate
      then Some ((case count_of m c f of None \<Rightarrow> 0 | Some n \<Rightarrow> n) + 1)
      else count_of m c f)"
  by (cases "map_of (by_attribute m) (cls, attr)")
    (auto simp: subscribe_attribute_def count_of_def subscribed_def Let_def split: option.splits)

lemma count_of_unsubscribe:
  "count_of (fst (unsubscribe_attribute cls attr federate m)) c f =
     (if c = cls \<and> f = federate \<and> subscribed m cls attr federate
      then (case count_of m c f of None \<Rightarrow> None | Some n \<Rightarrow> if n = 1 then None else Some (n - 1))
      else count_of m c f)"
proof -
  have other: "map_of cm g = None" if "hremove federate cm = []" "g \<noteq> federate" for g and cm :: "(FederateHandle, u32) hmap"
    using that map_of_hremove [of federate cm] by (metis fun_upd_apply map_of.simps(1))
  show ?thesis unfolding count_of_def unsubscribe_class_subscribers
    by (auto split: option.split if_splits dest: other)
qed

text \<open>The flags returned: first and last attribute subscribed.\<close>

lemma subscribe_flag:
  "snd (subscribe_attribute cls attr federate m) \<longleftrightarrow>
     \<not> subscribed m cls attr federate \<and> (case count_of m cls federate of None \<Rightarrow> 0 | Some n \<Rightarrow> n) + 1 = 1"
  by (cases "map_of (by_attribute m) (cls, attr)")
    (auto simp: subscribe_attribute_def count_of_def subscribed_def Let_def split: option.splits)

lemma unsubscribe_flag:
  "snd (unsubscribe_attribute cls attr federate m) \<longleftrightarrow>
     subscribed m cls attr federate \<and> count_of m cls federate = Some 1"
  by (cases "map_of (by_attribute m) (cls, attr)")
    (auto simp: unsubscribe_attribute_def count_of_def subscribed_def Let_def split: option.splits)

lemma unat_of_nat_card: "n < 2 ^ 32 \<Longrightarrow> unat (of_nat n :: u32) = n"
  by (rule of_nat_inverse) simp_all

lemma of_nat_eq_1: "n < 2 ^ 32 \<Longrightarrow> (of_nat n :: u32) = 1 \<longleftrightarrow> n = 1"
  using unat_of_nat_card [of n] by (metis of_nat_1 unat_1)

definition matrix_shape :: "SubscriptionMatrix \<Rightarrow> bool" where
  "matrix_shape m \<longleftrightarrow>
     wf_hmap (by_attribute m) \<and> wf_hmap (class_subscribers m) \<and>
     (\<forall>k s. map_of (by_attribute m) k = Some s \<longrightarrow> s \<noteq> [] \<and> distinct s) \<and>
     (\<forall>c cm. map_of (class_subscribers m) c = Some cm \<longrightarrow> cm \<noteq> [] \<and> wf_hmap cm)"

lemma matrix_inv_iff:
  "matrix_inv m \<longleftrightarrow> matrix_shape m \<and> (\<forall>c f. card (attrs_of m c f) < 2 ^ 32 \<and> count_of m c f =
     (if attrs_of m c f = {} then None else Some (of_nat (card (attrs_of m c f)))))"
  unfolding matrix_inv_def matrix_shape_def by (simp only: conj_assoc all_conj_distrib)

lemma hinsert_not_Nil [simp]: "hinsert k v m \<noteq> []"
  using keys_hinsert [of k v m] by (cases "hinsert k v m") simp_all

lemma hs_insert_not_Nil [simp]: "hs_insert x s \<noteq> []"
  by (simp add: hs_insert_def) (metis empty_iff empty_set)

lemma subscribe_shape:
  assumes "matrix_shape m"
  shows "matrix_shape (fst (subscribe_attribute cls attr federate m))"
proof -
  have old: "distinct (case map_of (by_attribute m) (cls, attr) of None \<Rightarrow> [] | Some s \<Rightarrow> s)"
    and cm: "wf_hmap (case map_of (class_subscribers m) cls of None \<Rightarrow> [] | Some cm \<Rightarrow> cm)"
    using assms by (auto simp: matrix_shape_def split: option.splits)
  show ?thesis using assms old cm
    by (auto simp: matrix_shape_def subscribe_attribute_def Let_def hentry_def wf_intros
        split: if_splits)
qed

lemma unsubscribe_shape:
  assumes "matrix_shape m"
  shows "matrix_shape (fst (unsubscribe_attribute cls attr federate m))"
proof -
  let ?m = "fst (unsubscribe_attribute cls attr federate m)"
  have "wf_hmap (by_attribute ?m) \<and> (\<forall>k s. map_of (by_attribute ?m) k = Some s \<longrightarrow> s \<noteq> [] \<and> distinct s)"
    using assms unfolding unsubscribe_by_attribute
    by (auto simp: matrix_shape_def wf_intros split: option.split if_splits)
  moreover have "wf_hmap (class_subscribers ?m) \<and>
      (\<forall>c cm. map_of (class_subscribers ?m) c = Some cm \<longrightarrow> cm \<noteq> [] \<and> wf_hmap cm)"
    using assms unfolding unsubscribe_class_subscribers
    by (auto simp: matrix_shape_def wf_intros Let_def split: option.split if_splits)
  ultimately show ?thesis by (simp add: matrix_shape_def)
qed

lemma subscribe_inv:
  assumes "matrix_inv m" and room: "card (attrs_of m cls federate) < 2 ^ 32 - 1"
  shows "matrix_inv (fst (subscribe_attribute cls attr federate m))"
proof -
  let ?m = "fst (subscribe_attribute cls attr federate m)"
  have "card (attrs_of ?m c f) < 2 ^ 32 \<and> count_of ?m c f =
      (if attrs_of ?m c f = {} then None else Some (of_nat (card (attrs_of ?m c f))))" for c f
  proof (cases "c = cls \<and> f = federate \<and> \<not> subscribed m cls attr federate")
    case True
    then have "attr \<notin> attrs_of m cls federate" by (simp add: attrs_of_def)
    then show ?thesis using True room matrix_inv_count [OF assms(1), of cls federate]
      by (simp add: attrs_of_subscribe count_of_subscribe)
  next
    case False
    then have "attrs_of ?m c f = attrs_of m c f"
      unfolding attrs_of_subscribe by (auto simp: attrs_of_def)
    then show ?thesis using False matrix_inv_count [OF assms(1)] matrix_inv_card [OF assms(1)]
      by (simp add: count_of_subscribe)
  qed
  then show ?thesis using assms(1) subscribe_shape by (simp add: matrix_inv_iff)
qed

lemma unsubscribe_inv:
  assumes "matrix_inv m"
  shows "matrix_inv (fst (unsubscribe_attribute cls attr federate m))"
proof -
  let ?m = "fst (unsubscribe_attribute cls attr federate m)"
  have "card (attrs_of ?m c f) < 2 ^ 32 \<and> count_of ?m c f =
      (if attrs_of ?m c f = {} then None else Some (of_nat (card (attrs_of ?m c f))))" for c f
  proof (cases "c = cls \<and> f = federate \<and> subscribed m cls attr federate")
    case True
    let ?A = "attrs_of m cls federate"
    have A: "attr \<in> ?A" using True by (simp add: attrs_of_def)
    then have pos: "card ?A = Suc (card (?A - {attr}))" by (intro card.remove) simp_all
    have lt: "card ?A < 2 ^ 32" by (rule matrix_inv_card [OF assms])
    have "count_of m cls federate = Some (of_nat (card ?A))" using A matrix_inv_count [OF assms] by auto
    moreover have "of_nat (card ?A) = (1 :: u32) \<longleftrightarrow> ?A - {attr} = {}"
      using of_nat_eq_1 [OF lt] pos by simp
    moreover have "of_nat (card ?A) - 1 = (of_nat (card (?A - {attr})) :: u32)" using pos by simp
    ultimately show ?thesis using True lt pos
      by (auto simp: attrs_of_unsubscribe count_of_unsubscribe)
  next
    case False
    then have "attrs_of ?m c f = attrs_of m c f"
      unfolding attrs_of_unsubscribe by (auto simp: attrs_of_def)
    then show ?thesis using False matrix_inv_count [OF assms] matrix_inv_card [OF assms]
      by (auto simp: count_of_unsubscribe)
  qed
  then show ?thesis using assms unsubscribe_shape by (simp add: matrix_inv_iff)
qed

subsection \<open>Removing a class\<close>

lemma map_of_retain: "map_of (filter (\<lambda>e. fst (fst e) \<noteq> cls) m) k = (if fst k = cls then None else map_of m k)"
  by (induction m) (auto split: prod.splits)

lemma subscribed_remove_class: "subscribed (remove_class cls m) c a f \<longleftrightarrow> c \<noteq> cls \<and> subscribed m c a f"
  by (simp add: subscribed_def remove_class_def map_of_retain)

lemma remove_class_inv:
  assumes "matrix_inv m"
  shows "matrix_inv (remove_class cls m)"
proof -
  have attrs: "attrs_of (remove_class cls m) c f = (if c = cls then {} else attrs_of m c f)" for c f
    by (auto simp: attrs_of_def subscribed_remove_class)
  have count: "count_of (remove_class cls m) c f = (if c = cls then None else count_of m c f)" for c f
    by (simp add: count_of_def remove_class_def)
  have "matrix_shape (remove_class cls m)"
    using assms by (simp add: matrix_inv_iff matrix_shape_def remove_class_def map_of_retain wf_intros
        distinct_map_filter)
  then show ?thesis using assms by (simp add: matrix_inv_iff attrs count)
qed

subsection \<open>The contract of the index\<close>

text \<open>
  What declaration and object management need from a subscription index: the relation each operation
  yields, the federates of a class being exactly those with an attribute subscription, and the flags
  marking a federate's first and last subscription to a class.
\<close>

locale subscription_index =
  fixes inv :: "'m \<Rightarrow> bool" and holds :: "'m \<Rightarrow> 'c \<Rightarrow> 'a \<Rightarrow> 'f \<Rightarrow> bool"
    and room :: "'m \<Rightarrow> 'c \<Rightarrow> 'f \<Rightarrow> nat"
    and sub :: "'c \<Rightarrow> 'a \<Rightarrow> 'f \<Rightarrow> 'm \<Rightarrow> 'm \<times> bool" and unsub :: "'c \<Rightarrow> 'a \<Rightarrow> 'f \<Rightarrow> 'm \<Rightarrow> 'm \<times> bool"
    and members :: "'m \<Rightarrow> 'c \<Rightarrow> 'f list"
  assumes members_iff: "inv m \<Longrightarrow> f \<in> set (members m c) \<longleftrightarrow> (\<exists>a. holds m c a f)"
    and sub_inv: "inv m \<Longrightarrow> 0 < room m c f \<Longrightarrow> inv (fst (sub c a f m))"
    and sub_room: "room m c f \<le> Suc (room (fst (sub c a f m)) c f)"
    and sub_holds: "holds (fst (sub c a f m)) c' a' f' \<longleftrightarrow> holds m c' a' f' \<or> (c' = c \<and> a' = a \<and> f' = f)"
    and sub_first: "inv m \<Longrightarrow> snd (sub c a f m) \<longleftrightarrow> (\<nexists>a. holds m c a f)"
    and unsub_inv: "inv m \<Longrightarrow> inv (fst (unsub c a f m))"
    and unsub_holds: "holds (fst (unsub c a f m)) c' a' f' \<longleftrightarrow> holds m c' a' f' \<and> \<not> (c' = c \<and> a' = a \<and> f' = f)"
    and unsub_last: "inv m \<Longrightarrow> snd (unsub c a f m) \<longleftrightarrow> (\<forall>b. holds m c b f \<longleftrightarrow> b = a)"
begin

lemma sub_all_holds:
  "holds (fold (\<lambda>a m. fst (sub c a f m)) as m) c' a' f' \<longleftrightarrow>
     holds m c' a' f' \<or> (c' = c \<and> f' = f \<and> a' \<in> set as)"
  by (induction as arbitrary: m) (auto simp: sub_holds)

lemma unsub_all_holds:
  "holds (fold (\<lambda>a m. fst (unsub c a f m)) as m) c' a' f' \<longleftrightarrow>
     holds m c' a' f' \<and> \<not> (c' = c \<and> f' = f \<and> a' \<in> set as)"
  by (induction as arbitrary: m) (auto simp: unsub_holds)

lemma sub_all_inv:
  "inv m \<Longrightarrow> length as \<le> room m c f \<Longrightarrow> inv (fold (\<lambda>a m. fst (sub c a f m)) as m)"
proof (induction as arbitrary: m)
  case (Cons a as)
  have "length as \<le> room (fst (sub c a f m)) c f" using Cons.prems(2) sub_room [of m c f a] by simp
  then show ?case using Cons.IH Cons.prems sub_inv [of m c f a] by simp
qed simp

lemma unsub_all_inv: "inv m \<Longrightarrow> inv (fold (\<lambda>a m. fst (unsub c a f m)) as m)"
  by (induction as arbitrary: m) (simp_all add: unsub_inv)

lemma unsub_all_leaves:
  assumes "inv m" "\<And>a. holds m c a f \<Longrightarrow> a \<in> set as"
  shows "f \<notin> set (members (fold (\<lambda>a m. fst (unsub c a f m)) as m) c)"
  using assms by (auto simp: members_iff unsub_all_inv unsub_all_holds)

end

definition matrix_room :: "SubscriptionMatrix \<Rightarrow> ObjectClassHandle \<Rightarrow> FederateHandle \<Rightarrow> nat" where
  "matrix_room m c f = 2 ^ 32 - 1 - card (attrs_of m c f)"

lemma subscribers_of_class_iff:
  assumes "matrix_inv m"
  shows "f \<in> set (subscribers_of_class m c) \<longleftrightarrow> (\<exists>a. subscribed m c a f)"
proof -
  have "f \<in> set (subscribers_of_class m c) \<longleftrightarrow> count_of m c f \<noteq> None"
  proof (cases "map_of (class_subscribers m) c")
    case (Some cm)
    then show ?thesis using hkeys_iff [of f cm] by (simp add: subscribers_of_class_def count_of_def)
  qed (simp add: subscribers_of_class_def count_of_def)
  then show ?thesis using matrix_inv_count [OF assms, of c f] by (auto simp: attrs_of_def)
qed

interpretation matrix: subscription_index matrix_inv subscribed matrix_room subscribe_attribute
  unsubscribe_attribute subscribers_of_class
proof
  fix m c a f assume inv: "matrix_inv m"
  show "snd (subscribe_attribute c a f m) \<longleftrightarrow> (\<nexists>a. subscribed m c a f)"
  proof (cases "attrs_of m c f = {}")
    case True
    then show ?thesis using matrix_inv_count [OF inv, of c f] by (auto simp: subscribe_flag attrs_of_def)
  next
    case False
    then have "of_nat (card (attrs_of m c f)) \<noteq> (0 :: u32)"
      using unat_of_nat_card [OF matrix_inv_card [OF inv]] by (metis card_eq_0_iff finite_attrs_of unat_0)
    then show ?thesis using False matrix_inv_count [OF inv, of c f] by (auto simp: subscribe_flag attrs_of_def)
  qed
  show "snd (unsubscribe_attribute c a f m) \<longleftrightarrow> (\<forall>b. subscribed m c b f \<longleftrightarrow> b = a)"
  proof -
    have "snd (unsubscribe_attribute c a f m) \<longleftrightarrow> a \<in> attrs_of m c f \<and> card (attrs_of m c f) = 1"
      using matrix_inv_count [OF inv, of c f] of_nat_eq_1 [OF matrix_inv_card [OF inv]]
      by (auto simp: unsubscribe_flag attrs_of_def)
    also have "\<dots> \<longleftrightarrow> attrs_of m c f = {a}" by (auto simp: card_1_singleton_iff)
    also have "\<dots> \<longleftrightarrow> (\<forall>b. subscribed m c b f \<longleftrightarrow> b = a)" by (auto simp: attrs_of_def)
    finally show ?thesis .
  qed
next
  fix m c f a
  have "card (insert a (attrs_of m c f)) \<le> Suc (card (attrs_of m c f))" by (simp add: card_insert_if)
  then show "matrix_room m c f \<le> Suc (matrix_room (fst (subscribe_attribute c a f m)) c f)"
    by (simp add: matrix_room_def attrs_of_subscribe)
qed (simp_all add: subscribers_of_class_iff subscribe_inv unsubscribe_inv subscribed_subscribe
    subscribed_unsubscribe matrix_room_def)

subsection \<open>Properties\<close>

text \<open>Runs of matrix operations.\<close>

datatype matrix_op =
    Sub ObjectClassHandle AttributeHandle FederateHandle
  | Unsub ObjectClassHandle AttributeHandle FederateHandle
  | RemoveClass ObjectClassHandle

fun run_matrix :: "matrix_op list \<Rightarrow> SubscriptionMatrix \<Rightarrow> SubscriptionMatrix" where
  "run_matrix [] m = m"
| "run_matrix (Sub c a f # ops) m = run_matrix ops (fst (subscribe_attribute c a f m))"
| "run_matrix (Unsub c a f # ops) m = run_matrix ops (fst (unsubscribe_attribute c a f m))"
| "run_matrix (RemoveClass c # ops) m = run_matrix ops (remove_class c m)"

lemma card_attrs_of_sub: "card (attrs_of (fst (subscribe_attribute c a f m)) c' f') \<le> Suc (card (attrs_of m c' f'))"
  by (simp add: attrs_of_subscribe card_insert_if)

lemma card_attrs_of_unsub: "card (attrs_of (fst (unsubscribe_attribute c a f m)) c' f') \<le> card (attrs_of m c' f')"
  by (simp add: attrs_of_unsubscribe card_mono)

lemma card_attrs_of_remove: "card (attrs_of (remove_class c m) c' f') \<le> card (attrs_of m c' f')"
  by (rule card_mono) (auto simp: attrs_of_def subscribed_remove_class)

lemma run_matrix_inv:
  assumes "matrix_inv m" "\<And>c f. card (attrs_of m c f) + length ops < 2 ^ 32"
  shows "matrix_inv (run_matrix ops m)"
  using assms
proof (induction ops m rule: run_matrix.induct)
  case (2 c a f ops m)
  have "card (attrs_of (fst (subscribe_attribute c a f m)) c' f') + length ops < 2 ^ 32" for c' f'
    using card_attrs_of_sub [of c a f m c' f'] "2.prems"(2) [of c' f'] by simp
  moreover have "matrix_inv (fst (subscribe_attribute c a f m))"
    using "2.prems"(2) [of c f] by (intro subscribe_inv "2.prems") simp
  ultimately show ?case using "2.IH" by simp
next
  case (3 c a f ops m)
  have "card (attrs_of (fst (unsubscribe_attribute c a f m)) c' f') + length ops < 2 ^ 32" for c' f'
    using card_attrs_of_unsub [of c a f m c' f'] "3.prems"(2) [of c' f'] by simp
  then show ?case using "3.IH" "3.prems" by (simp add: unsubscribe_inv)
next
  case (4 c ops m)
  have "card (attrs_of (remove_class c m) c' f') + length ops < 2 ^ 32" for c' f'
    using card_attrs_of_remove [of c m c' f'] "4.prems"(2) [of c' f'] by simp
  then show ?case using "4.IH" "4.prems" by (simp add: remove_class_inv)
qed simp

text \<open>C31. Along any run of subscriptions, unsubscriptions and class removals from the empty matrix,
  the reverse index agrees with the attribute table: a federate is listed for a class exactly when
  it subscribes to an attribute of the class, and its counter is the number of those attributes.
  (The counters are 32 bits wide: a federate may subscribe to at most \<open>2 ^ 32 - 1\<close> of the
  \<open>2 ^ 32\<close> attribute handles of a class.)\<close>

theorem reverse_index_correct:
  assumes "length ops < 2 ^ 32"
  shows "(f \<in> set (subscribers_of_class (run_matrix ops empty_matrix) c) \<longleftrightarrow>
      (\<exists>a. subscribed (run_matrix ops empty_matrix) c a f)) \<and>
    (class_has_subscribers (run_matrix ops empty_matrix) c \<longleftrightarrow>
      (\<exists>a f. subscribed (run_matrix ops empty_matrix) c a f)) \<and>
    map_option unat (count_of (run_matrix ops empty_matrix) c f) =
      (let n = card {a. subscribed (run_matrix ops empty_matrix) c a f} in if n = 0 then None else Some n)"
proof -
  let ?m = "run_matrix ops empty_matrix"
  have "attrs_of empty_matrix c f = {}" for c f by (simp add: attrs_of_def subscribed_def empty_matrix_def)
  then have inv: "matrix_inv ?m" using assms by (intro run_matrix_inv empty_matrix_inv) simp
  have shape: "cm \<noteq> []" if "map_of (class_subscribers ?m) c = Some cm" for cm
    using inv that by (simp add: matrix_inv_def)
  have "class_has_subscribers ?m c \<longleftrightarrow> (\<exists>f. f \<in> set (subscribers_of_class ?m c))"
  proof (cases "map_of (class_subscribers ?m) c")
    case (Some cm)
    then show ?thesis using shape [OF Some] by (cases cm) (auto simp: class_has_subscribers_def subscribers_of_class_def)
  qed (simp add: class_has_subscribers_def subscribers_of_class_def)
  then show ?thesis using subscribers_of_class_iff [OF inv] matrix_inv_count [OF inv, of c f]
      unat_of_nat_card [OF matrix_inv_card [OF inv, of c f]]
    by (auto simp: Let_def attrs_of_def card_eq_0_iff)
qed

theorem reverse_index_correct_witness:
  "let m = run_matrix [Sub 1 1 7, Sub 1 2 7, Sub 1 1 8, Unsub 1 1 7] empty_matrix in
   (7 \<in> set (subscribers_of_class m 1) \<longleftrightarrow> (\<exists>a. subscribed m 1 a 7)) \<and> count_of m 1 7 = Some 1"
proof -
  have "count_of (run_matrix [Sub 1 1 7, Sub 1 2 7, Sub 1 1 8, Unsub 1 1 7] empty_matrix) 1 7 = Some 1"
    by code_simp
  then show ?thesis
    using reverse_index_correct [of "[Sub 1 1 7, Sub 1 2 7, Sub 1 1 8, Unsub 1 1 7]" 7 1] by (simp add: Let_def)
qed

text \<open>The flag of a subscription tells whether it is the federate's first to the class, the flag
  of an unsubscription whether it removed the last one.\<close>

theorem subscription_flags:
  assumes "matrix_inv m"
  shows "(snd (subscribe_attribute c a f m) \<longleftrightarrow> (\<nexists>b. subscribed m c b f)) \<and>
    (snd (unsubscribe_attribute c a f m) \<longleftrightarrow>
       subscribed m c a f \<and> (\<nexists>b. subscribed (fst (unsubscribe_attribute c a f m)) c b f))"
  by (auto simp: matrix.sub_first [OF assms] matrix.unsub_last [OF assms] matrix.unsub_holds)

theorem subscription_flags_witness:
  "matrix_inv empty_matrix \<and> snd (subscribe_attribute 1 2 3 empty_matrix)"
  using subscription_flags [OF empty_matrix_inv, of 1 2 3] empty_matrix_inv
  by (simp add: subscribed_def empty_matrix_def)

end
