(* ===== verification/Federation.thy ===== *)
theory Federation
  imports Callbacks Fom Subscriptions
begin

text \<open>
  The state of a federation (\<^verbatim>\<open>crates/hla-rti/src/lib.rs\<close>) and the routing of callbacks to
  subscribers (\<^verbatim>\<open>crates/hla-rti/src/routing.rs\<close>). Each lock-protected field of \<^verbatim>\<open>Federation\<close> is a field
  of the record; a service call runs as one step. Connections are named by their session id.
\<close>

record ObjectInstance =
  oi_handle :: ObjectInstanceHandle
  oi_class :: ObjectClassHandle
  oi_name :: string
  registrar :: FederateHandle
  attribute_owners :: "(AttributeHandle, FederateHandle) hmap"
  attribute_regions :: "(AttributeHandle, RegionHandle hset) hmap"

record PubSubState =
  published_attrs :: "(ObjectClassHandle, AttributeHandleSet) hmap"
  subscribed_attrs :: "(ObjectClassHandle, AttributeHandleSet) hmap"
  published_interactions :: "InteractionClassHandle hset"
  subscribed_interactions :: "InteractionClassHandle hset"
  discovered_instances :: "ObjectInstanceHandle hset"
  subscribed_attrs_regions :: "(ObjectClassHandle \<times> AttributeHandle, RegionHandle hset) hmap"
  subscribed_directed_interactions :: "(ObjectClassHandle, InteractionClassHandle hset) hmap"
  published_directed_interactions :: "(ObjectClassHandle, InteractionClassHandle hset) hmap"

record Switches =
  object_class_relevance_advisory :: bool
  attribute_relevance_advisory :: bool
  attribute_scope_advisory :: bool
  interaction_relevance_advisory :: bool
  convey_region_designator_sets :: bool
  service_reporting :: bool
  exception_reporting :: bool
  send_service_reports_to_file :: bool
  auto_provide :: bool
  delay_subscription_evaluation :: bool
  advisories_use_known_class :: bool
  allow_relaxed_ddm :: bool
  non_regulated_grant :: bool
  automatic_resign_directive :: ResignAction

record TsoMessage =
  msg_time :: f64
  msg_callback :: CallbackRequest

record TimeState =
  is_regulating :: bool
  is_constrained :: bool
  current_time :: f64
  lookahead :: f64
  pending_advance :: "f64 option"

record FederateSession =
  fs_handle :: FederateHandle
  fs_name :: string
  federate_type :: string
  fs_session_id :: u64
  pub_sub :: PubSubState
  time_st :: TimeState
  switches :: Switches
  tso_queue :: "TsoMessage list"

datatype SaveStatus = SaveInitiated | BegunSave | SaveComplete | SaveNotComplete
datatype RestoreStatus = RestoreInitiated | RestoreComplete | RestoreNotComplete

record RestoreOperation =
  ro_label :: string
  ro_statuses :: "(FederateHandle, RestoreStatus) hmap"

record SaveOperation =
  so_label :: string
  so_statuses :: "(FederateHandle, SaveStatus) hmap"

record Region =
  rg_handle :: RegionHandle
  rg_owner :: FederateHandle
  committed :: "(DimensionHandle, u32 \<times> u32) hmap"
  staged :: "(DimensionHandle, u32 \<times> u32) hmap"

record SyncPoint =
  sp_label :: string
  sp_tag :: bytes
  participants :: "FederateHandle hset"
  achieved :: "FederateHandle hset"
  failed_to_sync :: "FederateHandle hset"

record Federation =
  fed_name :: string
  fom :: MergedFom
  federates :: "(FederateHandle, FederateSession) hmap"
  object_instances :: "(ObjectInstanceHandle, ObjectInstance) hmap"
  subscriptions :: SubscriptionMatrix
  sync_points :: "(string, SyncPoint) hmap"
  regions :: "(RegionHandle, Region) hmap"
  next_region_id :: u64
  current_save :: "SaveOperation option"
  current_restore :: "RestoreOperation option"
  last_save_label :: "string option"
  next_object_id :: u64
  next_federate_id :: u32

definition default_pub_sub :: PubSubState where
  "default_pub_sub = \<lparr>published_attrs = [], subscribed_attrs = [], published_interactions = [],
     subscribed_interactions = [], discovered_instances = [], subscribed_attrs_regions = [],
     subscribed_directed_interactions = [], published_directed_interactions = []\<rparr>"

definition default_switches :: Switches where
  "default_switches = \<lparr>object_class_relevance_advisory = True, attribute_relevance_advisory = True,
     attribute_scope_advisory = True, interaction_relevance_advisory = True,
     convey_region_designator_sets = False, service_reporting = False, exception_reporting = False,
     send_service_reports_to_file = False, auto_provide = False, delay_subscription_evaluation = False,
     advisories_use_known_class = False, allow_relaxed_ddm = True, non_regulated_grant = False,
     automatic_resign_directive = NoAction\<rparr>"

definition default_time :: TimeState where
  "default_time = \<lparr>is_regulating = False, is_constrained = False, current_time = 0, lookahead = 0,
     pending_advance = None\<rparr>"

definition new_federation :: "string \<Rightarrow> MergedFom \<Rightarrow> Federation" where
  "new_federation name f = \<lparr>fed_name = name, fom = f, federates = [], object_instances = [],
     subscriptions = empty_matrix, sync_points = [], regions = [], next_region_id = 1,
     current_save = None, current_restore = None, last_save_label = None, next_object_id = 1,
     next_federate_id = 1\<rparr>"

text \<open>Updating one federate's session in place, as the handlers do through \<^verbatim>\<open>get_mut\<close>.\<close>

definition modify_federate ::
  "FederateHandle \<Rightarrow> (FederateSession \<Rightarrow> FederateSession) \<Rightarrow> Federation \<Rightarrow> Federation" where
  "modify_federate fh g fed = fed\<lparr>federates := hmodify fh g (federates fed)\<rparr>"

definition modify_time :: "FederateHandle \<Rightarrow> (TimeState \<Rightarrow> TimeState) \<Rightarrow> Federation \<Rightarrow> Federation" where
  "modify_time fh g fed = modify_federate fh (\<lambda>fs. fs\<lparr>time_st := g (time_st fs)\<rparr>) fed"

definition modify_pub_sub :: "FederateHandle \<Rightarrow> (PubSubState \<Rightarrow> PubSubState) \<Rightarrow> Federation \<Rightarrow> Federation" where
  "modify_pub_sub fh g fed = modify_federate fh (\<lambda>fs. fs\<lparr>pub_sub := g (pub_sub fs)\<rparr>) fed"

subsection \<open>Routing\<close>

definition subscribers_for_attributes ::
  "Federation \<Rightarrow> ObjectClassHandle \<Rightarrow> AttributeHandle list \<Rightarrow> FederateHandle option \<Rightarrow> FederateHandle hset" where
  "subscribers_for_attributes fed cls attrs exclude =
     fold (\<lambda>ancestor out.
       fold (\<lambda>attr out.
         (case map_of (by_attribute (subscriptions fed)) (ancestor, attr) of
            None \<Rightarrow> out
          | Some s \<Rightarrow> fold (\<lambda>fh out. if Some fh \<noteq> exclude then hs_insert fh out else out) s out)) attrs out)
       (inheritance_chain (fom fed) cls) []"

definition subscribers_for_interaction ::
  "Federation \<Rightarrow> InteractionClassHandle \<Rightarrow> FederateHandle option \<Rightarrow> FederateHandle hset" where
  "subscribers_for_interaction fed cls exclude =
     fold (\<lambda>c out.
       (case map_of (by_interaction (subscriptions fed)) c of
          None \<Rightarrow> out
        | Some s \<Rightarrow> fold (\<lambda>fh out. if Some fh \<noteq> exclude then hs_insert fh out else out) s out))
       (interaction_chain (fom fed) cls) []"

text \<open>
  \<^verbatim>\<open>live_connections\<close>: \<open>conns\<close> are the session ids with a live connection (\<^verbatim>\<open>RtiNode::connections\<close>).
\<close>

type_synonym connections = "u64 hset"

definition live_connections :: "connections \<Rightarrow> Federation \<Rightarrow> FederateHandle hset \<Rightarrow> u64 list" where
  "live_connections conns fed fhs =
     List.map_filter (\<lambda>fh. case map_of (federates fed) fh of
         None \<Rightarrow> None
       | Some fs \<Rightarrow> if fs_session_id fs \<in> set conns then Some (fs_session_id fs) else None) fhs"

record OutboundCallback =
  target :: u64
  cb :: CallbackRequest

definition fan_out :: "u64 list \<Rightarrow> CallbackRequest \<Rightarrow> OutboundCallback list" where
  "fan_out cs callback = map (\<lambda>c. \<lparr>target = c, cb = callback\<rparr>) cs"

text \<open>The callback delivered to one federate, if it is connected.\<close>

definition notify :: "connections \<Rightarrow> Federation \<Rightarrow> FederateHandle \<Rightarrow> CallbackRequest \<Rightarrow> OutboundCallback list" where
  "notify conns fed fh callback = fan_out (live_connections conns fed [fh]) callback"

text \<open>
  \<^verbatim>\<open>OutboundCallback::into_frame\<close>: the protobuf encoder is a parameter; the claimed sequence number and
  the counter left behind are those of one pass of the claim loop.
\<close>

definition into_frame :: "(CallbackRequest \<Rightarrow> bytes) \<Rightarrow> i32 \<Rightarrow> OutboundCallback \<Rightarrow> Frame \<times> i32" where
  "into_frame enc next_seq ocb =
     (let (seq, next') = claim_step next_seq; b = enc (cb ocb) in
      (\<lparr>header = with_payload_size (of_nat (length b)) seq (target ocb) NO_SEQUENCE_NUMBER
                   HlaCallbackRequest, payload = b\<rparr>, next'))"

end
