(* ===== verification/TimeMgmt.thy ===== *)
theory TimeMgmt
  imports Federation
begin

text \<open>
  Time management: the coordinator of \<^verbatim>\<open>crates/hla-rti/src/time.rs\<close> (lower bound on time stamps, granting
  of pending advances), the timestamp-ordered queues of \<^verbatim>\<open>crates/hla-rti/src/dispatch/data_flow.rs\<close> and
  the time services of \<^verbatim>\<open>crates/hla-rti/src/dispatch/time_mgmt.rs\<close>. A handler takes the live
  connections, the calling federate and the federation it is a member of, and returns the new
  federation, the callbacks it queues and its response.
\<close>

type_synonym 'a step = "Federation \<times> OutboundCallback list \<times> 'a resp"

subsection \<open>The coordinator\<close>

definition lbts :: "Federation \<Rightarrow> f64" where
  "lbts fed = foldl f64_min f64_infinity
     (map (\<lambda>fs. f64_add (current_time (time_st fs)) (lookahead (time_st fs)))
       (filter (\<lambda>fs. is_regulating (time_st fs)) (hvalues (federates fed))))"

definition grantable :: "f64 \<Rightarrow> Federation \<Rightarrow> (FederateHandle \<times> f64) list" where
  "grantable bound fed =
     List.map_filter (\<lambda>(fh, fs).
       case pending_advance (time_st fs) of
         None \<Rightarrow> None
       | Some pending \<Rightarrow>
           if \<not> is_constrained (time_st fs) \<or> f64_le pending bound then Some (fh, pending) else None)
       (federates fed)"

definition pending_is :: "Federation \<Rightarrow> FederateHandle \<Rightarrow> f64 \<Rightarrow> bool" where
  "pending_is fed fh t =
     (case map_of (federates fed) fh of
        None \<Rightarrow> False
      | Some fs \<Rightarrow> (case pending_advance (time_st fs) of None \<Rightarrow> False | Some p \<Rightarrow> f64_eq p t))"

definition grant_one :: "FederateHandle \<times> f64 \<Rightarrow> Federation \<times> (FederateHandle \<times> f64) list
    \<Rightarrow> Federation \<times> (FederateHandle \<times> f64) list" where
  "grant_one g st =
     (case g of (fh, t) \<Rightarrow> case st of (fed, granted) \<Rightarrow>
        if pending_is fed fh t
        then (modify_time fh (\<lambda>ts. ts\<lparr>current_time := t, pending_advance := None\<rparr>) fed, granted @ [(fh, t)])
        else (fed, granted))"

definition grant_all :: "(FederateHandle \<times> f64) list \<Rightarrow> Federation \<Rightarrow> Federation \<times> (FederateHandle \<times> f64) list" where
  "grant_all gs fed = fold grant_one gs (fed, [])"

definition grant_callbacks :: "connections \<Rightarrow> Federation \<Rightarrow> (FederateHandle \<times> f64) list \<Rightarrow> OutboundCallback list" where
  "grant_callbacks conns fed gs = concat (map (\<lambda>(fh, t). notify conns fed fh (time_advance_grant t)) gs)"

definition pending_count :: "Federation \<Rightarrow> nat" where
  "pending_count fed = length (filter (\<lambda>fs. pending_advance (time_st fs) \<noteq> None) (hvalues (federates fed)))"

lemma hmodify_values: "hvalues (hmodify k g m) = map (\<lambda>(j, v). if j = k then g v else v) m"
  by (induction m) (auto simp: hmodify_def)

lemma pending_count_grant:
  assumes "pending_is fed fh t"
  shows "pending_count (modify_time fh (\<lambda>ts. ts\<lparr>current_time := t, pending_advance := None\<rparr>) fed)
    < pending_count fed"
proof -
  let ?P = "\<lambda>fs. pending_advance (time_st fs) \<noteq> None"
  have clear: "length (filter ?P (map (\<lambda>(j, v). if j = fh then g v else v) m)) \<le> length (filter ?P (hvalues m))"
    if "\<And>fs. \<not> ?P (g fs)" for m :: "(FederateHandle, FederateSession) hmap" and g
    using that by (induction m) (auto split: if_splits)
  have "length (filter ?P (map (\<lambda>(j, v). if j = fh then g v else v) m)) < length (filter ?P (hvalues m))"
    if "\<And>fs. \<not> ?P (g fs)" "map_of m fh = Some fs" "?P fs"
    for m :: "(FederateHandle, FederateSession) hmap" and fs g
    using that
  proof (induction m)
    case (Cons kv m)
    then show ?case using clear [of g m] by (cases kv) (auto split: if_splits)
  qed simp
  then show ?thesis using assms
    by (auto simp: pending_is_def pending_count_def modify_time_def modify_federate_def hmodify_values
        split: option.splits)
qed

lemma grant_one_simp:
  "grant_one (fh, t) (fed, granted) =
     (if pending_is fed fh t
      then (modify_time fh (\<lambda>ts. ts\<lparr>current_time := t, pending_advance := None\<rparr>) fed, granted @ [(fh, t)])
      else (fed, granted))"
  by (simp add: grant_one_def)

lemma grant_all_measure:
  "snd (grant_all gs fed) = [] \<and> fst (grant_all gs fed) = fed
   \<or> snd (grant_all gs fed) \<noteq> [] \<and> pending_count (fst (grant_all gs fed)) < pending_count fed"
proof -
  have "(fed', granted') = fold grant_one gs (fed, granted) \<Longrightarrow>
      granted' = granted \<and> fed' = fed \<or> granted' \<noteq> [] \<and> pending_count fed' < pending_count fed" for fed granted fed' granted'
  proof (induction gs arbitrary: fed granted)
    case (Cons g gs)
    obtain fh t where g: "g = (fh, t)" by force
    show ?case
    proof (cases "pending_is fed fh t")
      case True
      let ?fed1 = "modify_time fh (\<lambda>ts. ts\<lparr>current_time := t, pending_advance := None\<rparr>) fed"
      have "(fed', granted') = fold grant_one gs (?fed1, granted @ [(fh, t)])"
        using Cons.prems True by (simp add: g grant_one_simp)
      from Cons.IH [OF this] pending_count_grant [OF True] show ?thesis by auto
    next
      case False
      then show ?thesis using Cons.IH [of fed granted] Cons.prems by (simp add: g grant_one_simp)
    qed
  qed simp
  from this [of "fst (grant_all gs fed)" "snd (grant_all gs fed)" fed "[]"] show ?thesis
    by (simp add: grant_all_def)
qed

lemma f64_lt_irrefl [simp]: "\<not> f64_lt x x"
  by (simp add: f64_lt_def)

function try_grant_pending_advances ::
  "connections \<Rightarrow> Federation \<Rightarrow> Federation \<times> OutboundCallback list" where
  "try_grant_pending_advances conns fed =
     (let bound = lbts fed; to_grant = grantable bound fed in
      if to_grant = [] then (fed, [])
      else let (fed1, granted) = grant_all to_grant fed;
               cbs = grant_callbacks conns fed1 granted
           in if f64_lt bound (lbts fed1)
              then (case try_grant_pending_advances conns fed1 of (fed2, cbs2) \<Rightarrow> (fed2, cbs @ cbs2))
              else (fed1, cbs))"
  by pat_completeness auto
termination
proof (relation "measure (\<lambda>(conns, fed). pending_count fed)")
  fix conns fed bound to_grant x fed1 granted cbs
  assume "bound = lbts fed" "to_grant = grantable bound fed" "x = grant_all to_grant fed" "(fed1, granted) = x"
    "f64_lt bound (lbts fed1)"
  then show "((conns, fed1), (conns, fed)) \<in> measure (\<lambda>(conns, fed). pending_count fed)"
    using grant_all_measure [of to_grant fed] by (auto dest: arg_cong [of _ _ fst] arg_cong [of _ _ snd])
qed simp

declare try_grant_pending_advances.simps [simp del]

subsection \<open>Timestamp-ordered queues\<close>

text \<open>
  \<^verbatim>\<open>partition_point\<close> on a slice whose elements satisfying the predicate form a prefix is the length of
  that prefix; the queues are kept sorted (\<open>sorted_queue\<close> below is an invariant), so this is the case.
\<close>

definition partition_point :: "('a \<Rightarrow> bool) \<Rightarrow> 'a list \<Rightarrow> nat" where
  "partition_point p xs = length (takeWhile p xs)"

definition tso_insert :: "f64 \<Rightarrow> CallbackRequest \<Rightarrow> TsoMessage list \<Rightarrow> TsoMessage list" where
  "tso_insert time callback q =
     (let pos = partition_point (\<lambda>m. f64_le (msg_time m) time) q in
      take pos q @ [\<lparr>msg_time = time, msg_callback = callback\<rparr>] @ drop pos q)"

definition held_back :: "Federation \<Rightarrow> f64 \<Rightarrow> FederateHandle \<Rightarrow> bool" where
  "held_back fed time fh =
     (case map_of (federates fed) fh of
        None \<Rightarrow> False
      | Some fs \<Rightarrow> is_constrained (time_st fs) \<and> f64_lt (current_time (time_st fs)) time)"

definition route_tso_or_immediate :: "connections \<Rightarrow> FederateHandle hset \<Rightarrow> f64 \<Rightarrow> CallbackRequest
    \<Rightarrow> Federation \<Rightarrow> Federation \<times> OutboundCallback list" where
  "route_tso_or_immediate conns subscribers time callback fed =
     (let immediate = filter (\<lambda>fh. contains_key (federates fed) fh \<and> \<not> held_back fed time fh) subscribers;
          queued = filter (held_back fed time) subscribers;
          cbs = fan_out (live_connections conns fed immediate) callback
      in (fold (\<lambda>fh. modify_federate fh (\<lambda>fs. fs\<lparr>tso_queue := tso_insert time callback (tso_queue fs)\<rparr>))
            queued fed, cbs))"

definition tso_drain :: "f64 \<Rightarrow> TsoMessage list \<Rightarrow> TsoMessage list \<times> TsoMessage list" where
  "tso_drain up_to q =
     (let cut = partition_point (\<lambda>m. f64_le (msg_time m) up_to) q in (take cut q, drop cut q))"

definition drain_tso_up_to :: "connections \<Rightarrow> FederateHandle \<Rightarrow> f64 \<Rightarrow> Federation \<Rightarrow> Federation \<times> OutboundCallback list" where
  "drain_tso_up_to conns federate up_to fed =
     (case map_of (federates fed) federate of
        None \<Rightarrow> (fed, [])
      | Some fs \<Rightarrow>
          let (drained, rest) = tso_drain up_to (tso_queue fs);
              fed1 = modify_federate federate (\<lambda>fs. fs\<lparr>tso_queue := rest\<rparr>) fed
          in (fed1, concat (map (\<lambda>m. notify conns fed1 federate (msg_callback m)) drained)))"

definition drain_all :: "connections \<Rightarrow> (FederateHandle \<times> f64) list \<Rightarrow> Federation \<Rightarrow> Federation \<times> OutboundCallback list" where
  "drain_all conns gs fed =
     fold (\<lambda>(fh, t) (fed, cbs). case drain_tso_up_to conns fh t fed of (fed', cbs') \<Rightarrow> (fed', cbs @ cbs')) gs (fed, [])"

definition try_grant_pending_advances_with_tso ::
  "connections \<Rightarrow> Federation \<Rightarrow> Federation \<times> OutboundCallback list" where
  "try_grant_pending_advances_with_tso conns fed =
     (let pending = List.map_filter (\<lambda>(fh, fs). map_option (Pair fh) (pending_advance (time_st fs))) (federates fed);
          bound = lbts fed;
          to_grant = filter (\<lambda>(fh, t). case map_of (federates fed) fh of
              None \<Rightarrow> False
            | Some fs \<Rightarrow> \<not> is_constrained (time_st fs) \<or> f64_le t bound) pending;
          (fed1, cbs1) = drain_all conns to_grant fed;
          (fed2, cbs2) = try_grant_pending_advances conns fed1
      in (fed2, cbs1 @ cbs2))"

subsection \<open>Services\<close>

abbreviation not_member :: "'a resp" where
  "not_member \<equiv> exception_variant FederateNotExecutionMember []"

definition enable_time_regulation :: "connections \<Rightarrow> FederateHandle \<Rightarrow> bytes option \<Rightarrow> Federation \<Rightarrow> unit step" where
  "enable_time_regulation conns me look fed =
     (case map_option decode_logical_time_interval look of
        None \<Rightarrow> (fed, [], exception_variant InvalidLookahead [DStr ''missing''])
      | Some (Inl n) \<Rightarrow> (fed, [], exception_variant n [])
      | Some (Inr v) \<Rightarrow>
          if \<not> (f64_is_finite v \<and> f64_le 0 v) then (fed, [], exception_variant InvalidLookahead [DF64 v])
          else (case map_of (federates fed) me of
              None \<Rightarrow> (fed, [], not_member)
            | Some fs \<Rightarrow>
                if is_regulating (time_st fs) then (fed, [], exception_variant TimeRegulationAlreadyEnabled [])
                else let fed1 = modify_time me (\<lambda>ts. ts\<lparr>is_regulating := True, lookahead := v\<rparr>) fed;
                         cbs1 = notify conns fed1 me (time_regulation_enabled (current_time (time_st fs)));
                         (fed2, cbs2) = try_grant_pending_advances conns fed1
                     in (fed2, cbs1 @ cbs2, Inr ())))"

definition disable_time_regulation :: "connections \<Rightarrow> FederateHandle \<Rightarrow> Federation \<Rightarrow> unit step" where
  "disable_time_regulation conns me fed =
     (case map_of (federates fed) me of
        None \<Rightarrow> (fed, [], not_member)
      | Some fs \<Rightarrow>
          if \<not> is_regulating (time_st fs) then (fed, [], exception_variant TimeRegulationIsNotEnabled [])
          else let (fed2, cbs) = try_grant_pending_advances conns
                     (modify_time me (\<lambda>ts. ts\<lparr>is_regulating := False\<rparr>) fed)
               in (fed2, cbs, Inr ()))"

definition enable_time_constrained :: "connections \<Rightarrow> FederateHandle \<Rightarrow> Federation \<Rightarrow> unit step" where
  "enable_time_constrained conns me fed =
     (case map_of (federates fed) me of
        None \<Rightarrow> (fed, [], not_member)
      | Some fs \<Rightarrow>
          if is_constrained (time_st fs) then (fed, [], exception_variant TimeConstrainedAlreadyEnabled [])
          else let fed1 = modify_time me (\<lambda>ts. ts\<lparr>is_constrained := True\<rparr>) fed
               in (fed1, notify conns fed1 me (time_constrained_enabled (current_time (time_st fs))), Inr ()))"

definition disable_time_constrained :: "FederateHandle \<Rightarrow> Federation \<Rightarrow> unit step" where
  "disable_time_constrained me fed =
     (case map_of (federates fed) me of
        None \<Rightarrow> (fed, [], not_member)
      | Some fs \<Rightarrow>
          if \<not> is_constrained (time_st fs) then (fed, [], exception_variant TimeConstrainedIsNotEnabled [])
          else (modify_time me (\<lambda>ts. ts\<lparr>is_constrained := False\<rparr>) fed, [], Inr ()))"

definition time_advance_request :: "connections \<Rightarrow> FederateHandle \<Rightarrow> bytes option \<Rightarrow> Federation \<Rightarrow> unit step" where
  "time_advance_request conns me time fed =
     (case map_option decode_logical_time time of
        None \<Rightarrow> (fed, [], exception_variant InvalidLogicalTime [DStr ''missing''])
      | Some (Inl n) \<Rightarrow> (fed, [], exception_variant n [])
      | Some (Inr v) \<Rightarrow>
          if \<not> f64_is_finite v then (fed, [], exception_variant LogicalTimeAlreadyPassed [DF64 v])
          else (case map_of (federates fed) me of
              None \<Rightarrow> (fed, [], not_member)
            | Some fs \<Rightarrow>
                if pending_advance (time_st fs) \<noteq> None then (fed, [], exception_variant InTimeAdvancingState [])
                else if f64_lt v (current_time (time_st fs))
                then (fed, [], exception_variant LogicalTimeAlreadyPassed [])
                else let fed1 = modify_time me (\<lambda>ts. ts\<lparr>pending_advance := Some v\<rparr>) fed in
                  if \<not> is_constrained (time_st fs)
                  then let fed2 = (if pending_is fed1 me v
                                   then modify_time me (\<lambda>ts. ts\<lparr>current_time := v, pending_advance := None\<rparr>) fed1
                                   else fed1);
                           (fed3, cbs1) = drain_tso_up_to conns me v fed2;
                           cbs2 = notify conns fed3 me (time_advance_grant v);
                           (fed4, cbs3) = try_grant_pending_advances_with_tso conns fed3
                       in (fed4, cbs1 @ cbs2 @ cbs3, Inr ())
                  else let (fed2, cbs) = try_grant_pending_advances_with_tso conns fed1
                       in (fed2, cbs, Inr ())))"

definition query_logical_time :: "FederateHandle \<Rightarrow> Federation \<Rightarrow> bytes resp" where
  "query_logical_time me fed =
     (case map_of (federates fed) me of
        None \<Rightarrow> not_member
      | Some fs \<Rightarrow> Inr (encode_logical_time (current_time (time_st fs))))"

definition modify_lookahead :: "FederateHandle \<Rightarrow> bytes option \<Rightarrow> Federation \<Rightarrow> unit step" where
  "modify_lookahead me look fed =
     (case Option.bind look (\<lambda>b. ok (decode_logical_time_interval b)) of
        None \<Rightarrow> (fed, [], exception_variant InvalidLookahead [])
      | Some v \<Rightarrow>
          if \<not> (f64_is_finite v \<and> f64_le 0 v) then (fed, [], exception_variant InvalidLookahead [])
          else (case map_of (federates fed) me of
              None \<Rightarrow> (fed, [], not_member)
            | Some fs \<Rightarrow>
                if \<not> is_regulating (time_st fs) then (fed, [], exception_variant TimeRegulationIsNotEnabled [])
                else (modify_time me (\<lambda>ts. ts\<lparr>lookahead := v\<rparr>) fed, [], Inr ())))"

definition query_lits :: "Federation \<Rightarrow> (bool \<times> bytes) resp" where
  "query_lits fed =
     (let bound = lbts fed in
      Inr (f64_is_finite bound, encode_logical_time (if f64_is_finite bound then bound else 0)))"

definition query_lookahead :: "FederateHandle \<Rightarrow> Federation \<Rightarrow> bytes resp" where
  "query_lookahead me fed =
     (case map_of (federates fed) me of
        None \<Rightarrow> not_member
      | Some fs \<Rightarrow>
          if \<not> is_regulating (time_st fs) then exception_variant TimeRegulationIsNotEnabled []
          else Inr (encode_logical_time_interval (lookahead (time_st fs))))"

end
