(* ===== verification/Time_Props.thy ===== *)
theory Time_Props
  imports TimeMgmt
begin

text \<open>
  What time management guarantees: the invariant of the time states, the bound computed by \<^verbatim>\<open>lbts\<close>,
  the state reached by \<^verbatim>\<open>try_grant_pending_advances\<close>, the order of the timestamp-ordered queues and
  the outcome of a time advance request.
\<close>

subsection \<open>Invariants of the time states and queues\<close>

definition time_ok :: "TimeState \<Rightarrow> bool" where
  "time_ok ts \<longleftrightarrow> f64_is_finite (current_time ts) \<and> f64_is_finite (lookahead ts) \<and> f64_le 0 (lookahead ts) \<and>
     (case pending_advance ts of None \<Rightarrow> True | Some p \<Rightarrow> f64_is_finite p \<and> f64_le (current_time ts) p)"

definition sorted_queue :: "TsoMessage list \<Rightarrow> bool" where
  "sorted_queue q \<longleftrightarrow> sorted_wrt (\<lambda>a b. f64_le (msg_time a) (msg_time b)) q \<and>
     list_all (\<lambda>m. \<not> f64_is_nan (msg_time m)) q"

definition session_time_ok :: "FederateSession \<Rightarrow> bool" where
  "session_time_ok fs \<longleftrightarrow> time_ok (time_st fs) \<and> sorted_queue (tso_queue fs)"

definition times_ok :: "Federation \<Rightarrow> bool" where
  "times_ok fed \<longleftrightarrow> wf_hmap (federates fed) \<and> list_all (\<lambda>(fh, fs). session_time_ok fs) (federates fed)"

lemma times_okD:
  assumes "times_ok fed" "(fh, fs) \<in> set (federates fed)"
  shows "time_ok (time_st fs)" and "sorted_queue (tso_queue fs)"
  using assms by (auto simp: times_ok_def list_all_iff session_time_ok_def)

lemma times_ok_lookup:
  "times_ok fed \<Longrightarrow> map_of (federates fed) fh = Some fs \<Longrightarrow> time_ok (time_st fs) \<and> sorted_queue (tso_queue fs)"
  using times_okD map_of_SomeD by metis

lemma times_ok_modify [wf_intros]:
  assumes "times_ok fed" and "\<And>fs. map_of (federates fed) fh = Some fs \<Longrightarrow> session_time_ok (g fs)"
  shows "times_ok (modify_federate fh g fed)"
proof -
  from assms(1) have wf: "wf_hmap (federates fed)" by (simp add: times_ok_def)
  have "session_time_ok (if j = fh then g fs else fs)" if "(j, fs) \<in> set (federates fed)" for j fs
  proof (cases "j = fh")
    case True
    then have "map_of (federates fed) fh = Some fs" using that wf by (simp add: map_of_is_SomeI)
    then show ?thesis using assms(2) True by simp
  next
    case False
    then show ?thesis using times_okD [OF assms(1) that] by (simp add: session_time_ok_def)
  qed
  then have "list_all (\<lambda>(fh, fs). session_time_ok fs) (hmodify fh g (federates fed))"
    by (force simp: list_all_iff hmodify_def)
  then show ?thesis using wf by (simp add: times_ok_def modify_federate_def)
qed

lemma times_ok_modify_time:
  assumes "times_ok fed" and "\<And>fs. map_of (federates fed) fh = Some fs \<Longrightarrow> time_ok (g (time_st fs))"
  shows "times_ok (modify_time fh g fed)"
  unfolding modify_time_def
  using assms times_ok_lookup [OF assms(1)] by (intro times_ok_modify) (auto simp: session_time_ok_def)

subsection \<open>The bound\<close>

definition contribution :: "TimeState \<Rightarrow> f64" where
  "contribution ts = f64_add (current_time ts) (lookahead ts)"

lemma contribution_not_nan: "time_ok ts \<Longrightarrow> \<not> f64_is_nan (contribution ts)"
  by (simp add: time_ok_def contribution_def add_finite)

definition regulators :: "Federation \<Rightarrow> TimeState list" where
  "regulators fed = filter is_regulating (map time_st (hvalues (federates fed)))"

lemma lbts_fold: "lbts fed = foldl f64_min f64_infinity (map contribution (regulators fed))"
  by (simp add: lbts_def regulators_def contribution_def filter_map comp_def)

lemma fold_min:
  assumes "\<not> f64_is_nan b" and "list_all (\<lambda>x. \<not> f64_is_nan x) xs"
  shows "\<not> f64_is_nan (foldl f64_min b xs) \<and> f64_key (foldl f64_min b xs) = foldl min (f64_key b) (map f64_key xs)"
  using assms
  by (induction xs arbitrary: b) (simp_all add: f64_min_not_nan f64_min_key)

lemma foldl_min_le: "foldl min (b :: int) xs \<le> b \<and> (\<forall>x\<in>set xs. foldl min b xs \<le> x)"
proof (induction xs arbitrary: b)
  case (Cons x xs)
  then have "foldl min (min b x) xs \<le> min b x" "\<forall>y\<in>set xs. foldl min (min b x) xs \<le> y" by blast+
  then show ?case by simp
qed simp

lemma foldl_min_attained: "foldl min (b :: int) xs = b \<or> foldl min b xs \<in> set xs"
proof (induction xs arbitrary: b)
  case (Cons x xs)
  from Cons.IH [of "min b x"] show ?case by (auto simp: min_def split: if_splits)
qed simp

lemma regulators_ok: "times_ok fed \<Longrightarrow> ts \<in> set (regulators fed) \<Longrightarrow> time_ok ts"
  by (auto simp: regulators_def times_okD)

lemma lbts_key:
  assumes "times_ok fed"
  shows "\<not> f64_is_nan (lbts fed)"
    and "f64_key (lbts fed) = foldl min (f64_key f64_infinity) (map (f64_key \<circ> contribution) (regulators fed))"
  using fold_min [of f64_infinity "map contribution (regulators fed)"] regulators_ok [OF assms] contribution_not_nan
  by (auto simp: lbts_fold list_all_iff)

lemma lbts_le:
  assumes "times_ok fed" "ts \<in> set (regulators fed)"
  shows "f64_key (lbts fed) \<le> f64_key (contribution ts)"
  using foldl_min_le [of "f64_key f64_infinity" "map (f64_key \<circ> contribution) (regulators fed)"] assms
  by (simp add: lbts_key)

lemma lbts_attained:
  assumes "times_ok fed"
  shows "f64_key (lbts fed) = f64_key f64_infinity \<or>
    (\<exists>ts\<in>set (regulators fed). f64_key (lbts fed) = f64_key (contribution ts))"
  using foldl_min_attained [of "f64_key f64_infinity" "map (f64_key \<circ> contribution) (regulators fed)"] assms
  by (auto simp: lbts_key)

lemma lbts_greatest:
  assumes "times_ok fed" "k \<le> f64_key f64_infinity"
    and "\<And>ts. ts \<in> set (regulators fed) \<Longrightarrow> k \<le> f64_key (contribution ts)"
  shows "k \<le> f64_key (lbts fed)"
  using lbts_attained [OF assms(1)] assms by auto

subsection \<open>One round of grants\<close>

text \<open>The effect of a round of grants with bound \<open>b\<close> on a session and on the federation.\<close>

definition may_grant :: "f64 \<Rightarrow> TimeState \<Rightarrow> bool" where
  "may_grant b ts = (case pending_advance ts of None \<Rightarrow> False | Some p \<Rightarrow> \<not> is_constrained ts \<or> f64_le p b)"

definition grant :: "f64 \<Rightarrow> FederateSession \<Rightarrow> FederateSession" where
  "grant b fs = (if may_grant b (time_st fs)
     then fs\<lparr>time_st := (time_st fs)\<lparr>current_time := the (pending_advance (time_st fs)), pending_advance := None\<rparr>\<rparr>
     else fs)"

definition grant_round :: "f64 \<Rightarrow> Federation \<Rightarrow> Federation" where
  "grant_round b fed = fed\<lparr>federates := map (\<lambda>(fh, fs). (fh, grant b fs)) (federates fed)\<rparr>"

lemma grantable_Cons:
  "grantable b (fed\<lparr>federates := (fh, fs) # m\<rparr>) =
   (if may_grant b (time_st fs) then [(fh, the (pending_advance (time_st fs)))] else []) @
   grantable b (fed\<lparr>federates := m\<rparr>)"
  by (cases "pending_advance (time_st fs)") (simp_all add: grantable_def List.map_filter_simps may_grant_def)

lemma map_of_middle: "k \<notin> fst ` set xs \<Longrightarrow> map_of (xs @ (k, v) # ys) k = Some v"
  by (simp add: map_add_def map_of_eq_None_iff [THEN iffD2])

lemma grant_all_aux:
  assumes "distinct (map fst (xs @ m))" "list_all (\<lambda>(fh, fs). session_time_ok fs) m"
  shows "fold grant_one (grantable b (fed\<lparr>federates := m\<rparr>)) (fed\<lparr>federates := xs @ m\<rparr>, gs) =
    (fed\<lparr>federates := xs @ map (\<lambda>(fh, fs). (fh, grant b fs)) m\<rparr>, gs @ grantable b (fed\<lparr>federates := m\<rparr>))"
  using assms
proof (induction m arbitrary: xs gs)
  case Nil
  then show ?case by (simp add: grantable_def List.map_filter_simps)
next
  case (Cons kv m)
  obtain fh fs where kv: "kv = (fh, fs)" by force
  have notin: "fh \<notin> fst ` set xs" "fh \<notin> fst ` set m" using Cons.prems(1) by (auto simp: kv)
  have IH: "fold grant_one (grantable b (fed\<lparr>federates := m\<rparr>)) (fed\<lparr>federates := (xs @ [(fh, grant b fs)]) @ m\<rparr>, gs') =
      (fed\<lparr>federates := (xs @ [(fh, grant b fs)]) @ map (\<lambda>(fh, fs). (fh, grant b fs)) m\<rparr>,
       gs' @ grantable b (fed\<lparr>federates := m\<rparr>))" for gs'
    using Cons.prems by (intro Cons.IH) (auto simp: kv)
  show ?case
  proof (cases "may_grant b (time_st fs)")
    case False
    then have "grant b fs = fs" by (simp add: grant_def)
    then show ?thesis using IH [of gs] False by (simp add: grantable_Cons kv)
  next
    case True
    then obtain p where p: "pending_advance (time_st fs) = Some p" by (auto simp: may_grant_def split: option.splits)
    have "\<not> f64_is_nan p" using Cons.prems(2) p by (simp add: kv session_time_ok_def time_ok_def)
    then have pend: "pending_is (fed\<lparr>federates := xs @ kv # m\<rparr>) fh p"
      using map_of_middle [OF notin(1)] p by (simp add: pending_is_def kv)
    have "grant_one (fh, p) (fed\<lparr>federates := xs @ kv # m\<rparr>, gs) =
        (fed\<lparr>federates := (xs @ [(fh, grant b fs)]) @ m\<rparr>, gs @ [(fh, p)])"
      using pend hmodify_middle [OF notin] True p
      by (simp add: grant_one_simp modify_time_def modify_federate_def kv grant_def)
    then show ?thesis using IH [of "gs @ [(fh, p)]"] True p by (simp add: grantable_Cons kv)
  qed
qed

lemma grant_all_grantable:
  assumes "times_ok fed"
  shows "grant_all (grantable b fed) fed = (grant_round b fed, grantable b fed)"
  using grant_all_aux [of "[]" "federates fed" b fed "[]"] assms
  by (simp add: times_ok_def grant_all_def grant_round_def)

lemma grant_fields [simp]:
  "is_regulating (time_st (grant b fs)) = is_regulating (time_st fs)"
  "is_constrained (time_st (grant b fs)) = is_constrained (time_st fs)"
  "lookahead (time_st (grant b fs)) = lookahead (time_st fs)"
  "tso_queue (grant b fs) = tso_queue fs" "fs_session_id (grant b fs) = fs_session_id fs"
  by (simp_all add: grant_def)

lemma time_ok_grant: "time_ok (time_st fs) \<Longrightarrow> time_ok (time_st (grant b fs))"
  by (cases "pending_advance (time_st fs)") (auto simp: grant_def time_ok_def may_grant_def)

lemma times_ok_grant_round: "times_ok fed \<Longrightarrow> times_ok (grant_round b fed)"
  by (auto simp: times_ok_def grant_round_def list_all_iff session_time_ok_def time_ok_grant comp_def split_def)

lemma grant_contribution:
  assumes "time_ok (time_st fs)"
  shows "f64_key (contribution (time_st fs)) \<le> f64_key (contribution (time_st (grant b fs)))"
proof (cases "may_grant b (time_st fs)")
  case True
  then obtain p where "pending_advance (time_st fs) = Some p" by (auto simp: may_grant_def split: option.splits)
  then show ?thesis using True assms
    by (simp add: grant_def contribution_def time_ok_def f64_le_def add_mono_key)
qed (simp add: grant_def)

lemma lbts_grant_round:
  assumes "times_ok fed"
  shows "f64_key (lbts fed) \<le> f64_key (lbts (grant_round b fed))"
proof (rule lbts_greatest [OF times_ok_grant_round [OF assms]])
  show "f64_key (lbts fed) \<le> f64_key f64_infinity" using lbts_key(1) [OF assms] by (rule key_le_infinity)
next
  fix ts assume "ts \<in> set (regulators (grant_round b fed))"
  then obtain fh fs where fs: "(fh, fs) \<in> set (federates fed)" "ts = time_st (grant b fs)" "is_regulating (time_st fs)"
    by (auto simp: regulators_def grant_round_def)
  then have "time_st fs \<in> set (regulators fed)" by (force simp: regulators_def)
  then show "f64_key (lbts fed) \<le> f64_key (contribution ts)"
    using lbts_le [OF assms] grant_contribution [of fs b] times_okD(1) [OF assms fs(1)] by (fastforce simp: fs(2))
qed

lemma may_grant_mono:
  "f64_key b \<le> f64_key b' \<Longrightarrow> \<not> f64_is_nan b' \<Longrightarrow> may_grant b ts \<Longrightarrow> may_grant b' ts"
  by (auto simp: may_grant_def f64_le_def split: option.splits)

lemma grant_grant:
  assumes "f64_key b \<le> f64_key b'" "\<not> f64_is_nan b'"
  shows "grant b' (grant b fs) = grant b' fs"
  using may_grant_mono [OF assms, of "time_st fs"] by (auto simp: grant_def may_grant_def)

lemma grant_round_round:
  assumes "f64_key b \<le> f64_key b'" "\<not> f64_is_nan b'"
  shows "grant_round b' (grant_round b fed) = grant_round b' fed"
  by (simp add: grant_round_def grant_grant [OF assms] comp_def split_def)

lemma may_grant_cong:
  "f64_key b = f64_key b' \<Longrightarrow> \<not> f64_is_nan b \<Longrightarrow> \<not> f64_is_nan b' \<Longrightarrow> may_grant b = may_grant b'"
  by (auto simp: may_grant_def f64_le_def fun_eq_iff split: option.splits)

lemma grantable_eq:
  "grantable b fed = map (\<lambda>(fh, fs). (fh, the (pending_advance (time_st fs))))
     (filter (\<lambda>(fh, fs). may_grant b (time_st fs)) (federates fed))"
proof -
  have "grantable b (fed\<lparr>federates := m\<rparr>) = map (\<lambda>(fh, fs). (fh, the (pending_advance (time_st fs))))
     (filter (\<lambda>(fh, fs). may_grant b (time_st fs)) m)" for m
  proof (induction m)
    case (Cons kv m)
    then show ?case by (cases kv) (simp add: grantable_Cons)
  qed (simp add: grantable_def List.map_filter_simps)
  from this [of "federates fed"] show ?thesis by simp
qed

lemma grant_round_none: "grantable b fed = [] \<Longrightarrow> grant_round b fed = fed"
proof -
  assume "grantable b fed = []"
  then have "\<forall>(fh, fs)\<in>set (federates fed). \<not> may_grant b (time_st fs)"
    by (auto simp: grantable_eq filter_empty_conv)
  then have "map (\<lambda>(fh, fs). (fh, grant b fs)) (federates fed) = federates fed"
    by (intro map_idI) (auto simp: grant_def)
  then show ?thesis by (simp add: grant_round_def)
qed

subsection \<open>The state after granting\<close>

lemma map_of_grant_round: "map_of (federates (grant_round b fed)) fh = map_option (grant b) (map_of (federates fed) fh)"
  by (simp add: grant_round_def map_of_map)

lemma notify_grant_round [simp]: "notify conns (grant_round b fed) fh c = notify conns fed fh c"
  by (simp add: notify_def live_connections_def map_of_grant_round List.map_filter_simps split: option.split)

lemma mset_grant_callbacks:
  "mset (grant_callbacks conns fed gs) =
     (\<Sum>g\<in>#mset gs. mset (case g of (fh, t) \<Rightarrow> notify conns fed fh (time_advance_grant t)))"
  by (induction gs) (auto simp: grant_callbacks_def)

lemma mset_grantable_split:
  assumes "f64_key b \<le> f64_key b'" "\<not> f64_is_nan b'"
  shows "mset (grantable b fed) + mset (grantable b' (grant_round b fed)) = mset (grantable b' fed)"
proof -
  have "mset (grantable b (fed\<lparr>federates := m\<rparr>)) +
      mset (grantable b' (fed\<lparr>federates := map (\<lambda>(fh, fs). (fh, grant b fs)) m\<rparr>)) =
      mset (grantable b' (fed\<lparr>federates := m\<rparr>))" for m
  proof (induction m)
    case (Cons kv m)
    obtain fh fs where kv: "kv = (fh, fs)" by force
    have "may_grant b' (time_st (grant b fs)) \<longleftrightarrow> may_grant b' (time_st fs) \<and> \<not> may_grant b (time_st fs)"
      by (auto simp: grant_def may_grant_def)
    moreover have "\<not> may_grant b (time_st fs) \<Longrightarrow> grant b fs = fs" by (simp add: grant_def)
    ultimately show ?case using Cons.IH may_grant_mono [OF assms, of "time_st fs"]
      by (cases "may_grant b (time_st fs)") (auto simp: kv grantable_Cons)
  qed (simp add: grantable_def List.map_filter_simps)
  from this [of "federates fed"] show ?thesis by (simp add: grant_round_def)
qed

lemma try_grant_round:
  assumes "times_ok fed"
  shows "try_grant_pending_advances conns fed =
     (let b = lbts fed; fed1 = grant_round b fed; cbs = grant_callbacks conns fed1 (grantable b fed) in
      if grantable b fed \<noteq> [] \<and> f64_lt b (lbts fed1)
      then (case try_grant_pending_advances conns fed1 of (fed2, cbs2) \<Rightarrow> (fed2, cbs @ cbs2))
      else (fed1, cbs))"
  using grant_round_none [of "lbts fed" fed]
  by (subst try_grant_pending_advances.simps)
    (auto simp: grant_all_grantable [OF assms] Let_def grant_callbacks_def)

lemma try_grant_correct:
  assumes "times_ok fed" and "try_grant_pending_advances conns fed = (fed', cbs)"
  shows "fed' = grant_round (lbts fed') fed \<and> f64_key (lbts fed) \<le> f64_key (lbts fed') \<and>
    mset cbs = mset (grant_callbacks conns fed (grantable (lbts fed') fed))"
  using assms
proof (induction conns fed arbitrary: fed' cbs rule: try_grant_pending_advances.induct)
  case (1 conns fed)
  let ?b = "lbts fed" and ?fed1 = "grant_round (lbts fed) fed"
  note ok1 = times_ok_grant_round [OF "1.prems"(1), of ?b]
  have mono1: "f64_key ?b \<le> f64_key (lbts ?fed1)" by (rule lbts_grant_round [OF "1.prems"(1)])
  have nan: "\<not> f64_is_nan ?b" "\<not> f64_is_nan (lbts ?fed1)" using lbts_key(1) "1.prems"(1) ok1 by blast+
  have gc: "grant_callbacks conns (grant_round b fed) gs = grant_callbacks conns fed gs" for b gs
    by (simp add: grant_callbacks_def)
  show ?case
  proof (cases "grantable ?b fed \<noteq> [] \<and> f64_lt ?b (lbts ?fed1)")
    case True
    obtain cbs2 where rec: "try_grant_pending_advances conns ?fed1 = (fed', cbs2)"
      and cbs: "cbs = grant_callbacks conns ?fed1 (grantable ?b fed) @ cbs2"
      using "1.prems"(2) True by (auto simp: try_grant_round [OF "1.prems"(1)] Let_def split: prod.splits)
    have IH: "fed' = grant_round (lbts fed') ?fed1 \<and> f64_key (lbts ?fed1) \<le> f64_key (lbts fed') \<and>
        mset cbs2 = mset (grant_callbacks conns ?fed1 (grantable (lbts fed') ?fed1))"
      using "1.IH" [OF refl refl _ _ _ refl _ ok1 rec] True grant_all_grantable [OF "1.prems"(1)] by simp
    then have okf: "times_ok fed'" using times_ok_grant_round [OF ok1] by metis
    have le: "f64_key ?b \<le> f64_key (lbts fed')" using IH mono1 by linarith
    note split = mset_grantable_split [OF le lbts_key(1) [OF okf], of fed]
    show ?thesis using IH le grant_round_round [OF le lbts_key(1) [OF okf]]
      by (simp add: cbs gc mset_grant_callbacks flip: split)
  next
    case False
    then have res: "fed' = ?fed1" "cbs = grant_callbacks conns fed (grantable ?b fed)"
      using "1.prems"(2) by (auto simp: try_grant_round [OF "1.prems"(1)] Let_def gc)
    have "f64_key (lbts ?fed1) = f64_key ?b"
    proof (cases "grantable ?b fed = []")
      case False
      then have "\<not> f64_lt ?b (lbts ?fed1)" using \<open>\<not> (grantable ?b fed \<noteq> [] \<and> f64_lt ?b (lbts ?fed1))\<close> by blast
      then show ?thesis using mono1 nan by (simp add: f64_lt_def)
    qed (simp add: grant_round_none)
    then have "may_grant (lbts ?fed1) = may_grant ?b" using may_grant_cong nan by blast
    then have "grant (lbts ?fed1) = grant ?b" "grantable (lbts ?fed1) fed = grantable ?b fed"
      by (auto simp: grant_def grantable_eq fun_eq_iff)
    moreover from this(1) have "grant_round (lbts ?fed1) fed = ?fed1" unfolding grant_round_def by simp
    ultimately show ?thesis using mono1 by (simp add: res)
  qed
qed

end
