(* ===== verification/Tso.thy ===== *)
theory Tso
  imports Time_Props
begin

text \<open>
  The timestamp-ordered queues: whatever order messages arrive in, a queue holds them by time stamp and
  in order of arrival among equal time stamps, and draining takes exactly those up to the bound. The
  contract is a locale, so that its consequences hold for any queue that keeps it.
\<close>

abbreviation upto_time :: "f64 \<Rightarrow> TsoMessage \<Rightarrow> bool" where
  "upto_time t m \<equiv> f64_le (msg_time m) t"

lemma takeWhile_sorted_queue:
  assumes "sorted_queue q"
  shows "takeWhile (upto_time t) q = filter (upto_time t) q" "dropWhile (upto_time t) q = filter (\<lambda>m. \<not> upto_time t m) q"
  using assms
proof (induction q)
  case (Cons m q)
  {
    case 1
    have "filter (upto_time t) q = []" if "\<not> upto_time t m"
      using that 1 f64_le_trans by (fastforce simp: sorted_queue_def filter_empty_conv)
    then show ?case using Cons.IH(1) 1 by (simp add: sorted_queue_def)
  next
    case 2
    have "filter (\<lambda>m. \<not> upto_time t m) q = q" if "\<not> upto_time t m"
      using that 2 f64_le_trans by (fastforce simp: sorted_queue_def filter_id_conv)
    then show ?case using Cons.IH(2) 2 by (simp add: sorted_queue_def)
  }
qed simp_all

lemma take_partition: "take (partition_point P xs) xs = takeWhile P xs" "drop (partition_point P xs) xs = dropWhile P xs"
  by (simp_all add: partition_point_def takeWhile_eq_take [symmetric] dropWhile_eq_drop [symmetric])

lemma tso_insert_eq:
  assumes "sorted_queue q"
  shows "tso_insert t c q = filter (upto_time t) q @ \<lparr>msg_time = t, msg_callback = c\<rparr> # filter (\<lambda>m. \<not> upto_time t m) q"
  by (simp add: tso_insert_def take_partition takeWhile_sorted_queue [OF assms])

lemma tso_drain_eq:
  assumes "sorted_queue q"
  shows "tso_drain t q = (filter (upto_time t) q, filter (\<lambda>m. \<not> upto_time t m) q)"
  by (simp add: tso_drain_def take_partition takeWhile_sorted_queue [OF assms])

lemma sorted_queue_filter: "sorted_queue q \<Longrightarrow> sorted_queue (filter P q)"
  by (simp add: sorted_queue_def sorted_wrt_filter list_all_iff)

lemma sorted_queue_insert:
  assumes "sorted_queue q" "\<not> f64_is_nan t"
  shows "sorted_queue (tso_insert t c q)"
proof -
  have late: "f64_le t (msg_time m)" if "m \<in> set q" "\<not> upto_time t m" for m
    using that assms by (auto simp: sorted_queue_def list_all_iff f64_le_def)
  have "sorted_wrt (\<lambda>a b. f64_le (msg_time a) (msg_time b)) (filter P q)" for P
    using assms(1) by (simp add: sorted_queue_def sorted_wrt_filter)
  then show ?thesis using assms late f64_le_trans
    by (fastforce simp: tso_insert_eq [OF assms(1)] sorted_queue_def sorted_wrt_append list_all_iff)
qed

locale timed_queue =
  fixes ins :: "f64 \<Rightarrow> CallbackRequest \<Rightarrow> 'q \<Rightarrow> 'q" and drain :: "f64 \<Rightarrow> 'q \<Rightarrow> TsoMessage list \<times> 'q"
    and invar :: "'q \<Rightarrow> bool" and held :: "'q \<Rightarrow> TsoMessage list"
  assumes held_sorted: "invar q \<Longrightarrow> sorted_queue (held q)"
    and ins_invar: "invar q \<Longrightarrow> \<not> f64_is_nan t \<Longrightarrow> invar (ins t c q)"
    and ins_held: "invar q \<Longrightarrow> held (ins t c q) =
      filter (upto_time t) (held q) @ \<lparr>msg_time = t, msg_callback = c\<rparr> # filter (\<lambda>m. \<not> upto_time t m) (held q)"
    and drain_invar: "invar q \<Longrightarrow> invar (snd (drain t q))"
    and drain_out: "invar q \<Longrightarrow> fst (drain t q) = filter (upto_time t) (held q)"
    and drain_held: "invar q \<Longrightarrow> held (snd (drain t q)) = filter (\<lambda>m. \<not> upto_time t m) (held q)"
begin

lemma drain_complete: "invar q \<Longrightarrow> fst (drain t q) @ held (snd (drain t q)) = held q"
  using takeWhile_dropWhile_id [of "upto_time t" "held q"]
  by (simp add: drain_out drain_held flip: takeWhile_sorted_queue [OF held_sorted])

lemma drain_twice:
  assumes "invar q" "f64_le t u"
  shows "fst (drain t q) @ fst (drain u (snd (drain t q))) = fst (drain u q)"
proof -
  have "filter (upto_time u) (held q) = filter (upto_time u) (fst (drain t q) @ held (snd (drain t q)))"
    by (simp only: drain_complete [OF assms(1)])
  also have "\<dots> = fst (drain t q) @ filter (upto_time u) (held (snd (drain t q)))"
    using f64_le_trans [OF _ assms(2)] by (auto simp: drain_out [OF assms(1)] intro!: filter_cong)
  finally show ?thesis using assms(1) by (simp add: drain_out drain_invar)
qed

lemma arrivals_invar:
  "invar q \<Longrightarrow> list_all (\<lambda>m. \<not> f64_is_nan (msg_time m)) ms \<Longrightarrow> invar (fold (\<lambda>m. ins (msg_time m) (msg_callback m)) ms q)"
  by (induction ms arbitrary: q) (auto simp: ins_invar)

lemma arrivals_mset:
  assumes "invar q" "list_all (\<lambda>m. \<not> f64_is_nan (msg_time m)) ms"
  shows "mset (held (fold (\<lambda>m. ins (msg_time m) (msg_callback m)) ms q)) = mset (held q) + mset ms"
  using assms
proof (induction ms arbitrary: q)
  case (Cons m ms)
  then show ?case by (simp add: ins_invar ins_held)
qed simp

lemma arrivals_stable:
  assumes "invar q" "list_all (\<lambda>m. \<not> f64_is_nan (msg_time m)) ms"
  shows "filter (\<lambda>m. k = f64_key (msg_time m)) (held (fold (\<lambda>m. ins (msg_time m) (msg_callback m)) ms q)) =
    filter (\<lambda>m. k = f64_key (msg_time m)) (held q) @ filter (\<lambda>m. k = f64_key (msg_time m)) ms"
  using assms
proof (induction ms arbitrary: q)
  case (Cons m ms)
  have "filter (\<lambda>x. k = f64_key (msg_time x)) (filter (\<lambda>x. \<not> upto_time (msg_time m) x) (held q)) = []"
    and "filter (\<lambda>x. k = f64_key (msg_time x)) (filter (upto_time (msg_time m)) (held q)) =
      filter (\<lambda>x. k = f64_key (msg_time x)) (held q)"
    if "k = f64_key (msg_time m)"
    using that Cons.prems held_sorted [OF Cons.prems(1)]
    by (auto simp: filter_empty_conv filter_filter f64_le_def sorted_queue_def list_all_iff intro!: filter_cong)
  moreover have "filter (\<lambda>x. k = f64_key (msg_time x)) (held q) =
      filter (\<lambda>x. k = f64_key (msg_time x)) (filter (upto_time (msg_time m)) (held q)) @
      filter (\<lambda>x. k = f64_key (msg_time x)) (filter (\<lambda>x. \<not> upto_time (msg_time m) x) (held q))"
    using arg_cong [OF drain_complete [OF Cons.prems(1), of "msg_time m"], of "filter (\<lambda>x. k = f64_key (msg_time x))"]
    by (simp only: filter_append drain_out [OF Cons.prems(1)] drain_held [OF Cons.prems(1)])
  ultimately show ?case using Cons by (cases "k = f64_key (msg_time m)") (simp_all add: ins_invar ins_held)
qed simp

lemma arrivals_sorted:
  assumes "invar q" "held q = []" "list_all (\<lambda>m. \<not> f64_is_nan (msg_time m)) ms"
  shows "held (fold (\<lambda>m. ins (msg_time m) (msg_callback m)) ms q) = sort_key (f64_key \<circ> msg_time) ms"
proof (rule properties_for_sort_key [symmetric])
  show "mset (held (fold (\<lambda>m. ins (msg_time m) (msg_callback m)) ms q)) = mset ms" using arrivals_mset [OF assms(1,3)] assms(2) by simp
next
  fix k show "filter (\<lambda>x. (f64_key \<circ> msg_time) k = (f64_key \<circ> msg_time) x) (held (fold (\<lambda>m. ins (msg_time m) (msg_callback m)) ms q)) =
      filter (\<lambda>x. (f64_key \<circ> msg_time) k = (f64_key \<circ> msg_time) x) ms"
    using arrivals_stable [OF assms(1,3)] assms(2) by simp
next
  have "sorted_wrt (\<lambda>a b. f64_key (msg_time a) \<le> f64_key (msg_time b)) (held (fold (\<lambda>m. ins (msg_time m) (msg_callback m)) ms q))"
    using held_sorted [OF arrivals_invar [OF assms(1,3)]]
    by (auto simp: sorted_queue_def f64_le_def elim: sorted_wrt_mono_rel [rotated])
  then show "sorted (map (f64_key \<circ> msg_time) (held (fold (\<lambda>m. ins (msg_time m) (msg_callback m)) ms q)))" by (simp add: sorted_wrt_map)
qed

end

interpretation tso: timed_queue tso_insert tso_drain sorted_queue "\<lambda>q. q"
  by unfold_locales (rule sorted_queue_insert | simp add: tso_insert_eq tso_drain_eq sorted_queue_filter)+

subsection \<open>Queues inside the federation\<close>

lemma drain_tso_up_to_some:
  assumes "times_ok fed" "map_of (federates fed) fh = Some fs"
  shows "drain_tso_up_to conns fh t fed =
    (modify_federate fh (\<lambda>fs. fs\<lparr>tso_queue := filter (\<lambda>m. \<not> upto_time t m) (tso_queue fs)\<rparr>) fed,
     concat (map (\<lambda>m. notify conns fed fh (msg_callback m)) (filter (upto_time t) (tso_queue fs))))"
proof -
  let ?q = "filter (\<lambda>m. \<not> upto_time t m) (tso_queue fs)"
  have "hmodify fh (\<lambda>fs'. fs'\<lparr>tso_queue := ?q\<rparr>) (federates fed) =
      hmodify fh (\<lambda>fs'. fs'\<lparr>tso_queue := filter (\<lambda>m. \<not> upto_time t m) (tso_queue fs')\<rparr>) (federates fed)"
    using assms by (intro hmodify_cong_at) (auto simp: times_ok_def)
  moreover have "notify conns (modify_federate fh (\<lambda>fs'. fs'\<lparr>tso_queue := ?q\<rparr>) fed) fh c = notify conns fed fh c" for c
    using assms(2) by (simp add: notify_def live_connections_def modify_federate_def List.map_filter_simps)
  ultimately show ?thesis using assms times_ok_lookup [OF assms]
    by (simp add: drain_tso_up_to_def tso_drain_eq modify_federate_def)
qed

lemma times_ok_drain:
  assumes "times_ok fed"
  shows "times_ok (fst (drain_tso_up_to conns fh t fed))"
proof (cases "map_of (federates fed) fh")
  case (Some fs)
  show ?thesis using times_ok_lookup [OF assms]
    by (auto simp: drain_tso_up_to_some [OF assms Some] session_time_ok_def sorted_queue_filter
        intro!: times_ok_modify [OF assms])
qed (simp add: drain_tso_up_to_def assms)

lemma times_ok_drain_all:
  assumes "times_ok fed"
  shows "times_ok (fst (drain_all conns gs fed))"
proof -
  have "times_ok (fst (fold (\<lambda>(fh, t) (fed, cbs).
      case drain_tso_up_to conns fh t fed of (fed', cbs') \<Rightarrow> (fed', cbs @ cbs')) gs (fed, cbs)))"
    if "times_ok fed" for fed cbs
    using that
  proof (induction gs arbitrary: fed cbs)
    case (Cons g gs)
    obtain fh t where g: "g = (fh, t)" by force
    obtain fed' cbs' where d: "drain_tso_up_to conns fh t fed = (fed', cbs')" by force
    then have "times_ok fed'" using times_ok_drain [OF Cons.prems, of conns fh t] by simp
    then show ?case using Cons.IH by (simp add: g d)
  qed simp
  then show ?thesis using assms by (simp add: drain_all_def)
qed

lemma times_ok_try_grant:
  "times_ok fed \<Longrightarrow> times_ok (fst (try_grant_pending_advances conns fed))"
proof -
  assume ok: "times_ok fed"
  obtain fed' cbs where r: "try_grant_pending_advances conns fed = (fed', cbs)" by force
  show ?thesis using try_grant_correct [OF ok r] times_ok_grant_round [OF ok, of "lbts fed'"] by (simp add: r)
qed

lemma times_ok_try_grant_with_tso:
  "times_ok fed \<Longrightarrow> times_ok (fst (try_grant_pending_advances_with_tso conns fed))"
  using times_ok_try_grant [OF times_ok_drain_all]
  by (simp add: try_grant_pending_advances_with_tso_def Let_def split_def)

lemma times_ok_route:
  assumes "times_ok fed"
  shows "times_ok (fst (route_tso_or_immediate conns subs time c fed))"
proof -
  have "times_ok (fold (\<lambda>fh. modify_federate fh (\<lambda>fs. fs\<lparr>tso_queue := tso_insert time c (tso_queue fs)\<rparr>)) q fed)"
    if "times_ok fed" "\<not> f64_is_nan time" for q fed
    using that
  proof (induction q arbitrary: fed)
    case (Cons fh q)
    show ?case using times_ok_lookup [OF Cons.prems(1)] Cons.prems
      by (auto simp: session_time_ok_def sorted_queue_insert intro!: Cons.IH times_ok_modify)
  qed simp
  moreover have "filter (held_back fed time) subs = []" if "f64_is_nan time"
    using that by (auto simp: filter_empty_conv held_back_def f64_lt_def split: option.splits)
  ultimately show ?thesis using assms
    by (cases "f64_is_nan time") (simp_all add: route_tso_or_immediate_def Let_def)
qed

subsection \<open>The time services keep the invariant\<close>

lemma time_ok_updates:
  "time_ok ts \<Longrightarrow> f64_is_finite v \<Longrightarrow> f64_le 0 v \<Longrightarrow> time_ok (ts\<lparr>is_regulating := r, lookahead := v\<rparr>)"
  "time_ok ts \<Longrightarrow> f64_is_finite v \<Longrightarrow> f64_le 0 v \<Longrightarrow> time_ok (ts\<lparr>lookahead := v\<rparr>)"
  "time_ok ts \<Longrightarrow> time_ok (ts\<lparr>is_regulating := r\<rparr>)" "time_ok ts \<Longrightarrow> time_ok (ts\<lparr>is_constrained := r\<rparr>)"
  "time_ok ts \<Longrightarrow> f64_is_finite v \<Longrightarrow> \<not> f64_lt v (current_time ts) \<Longrightarrow> time_ok (ts\<lparr>pending_advance := Some v\<rparr>)"
  "time_ok ts \<Longrightarrow> pending_advance ts = Some v \<Longrightarrow> time_ok (ts\<lparr>current_time := v, pending_advance := None\<rparr>)"
  by (simp_all add: time_ok_def f64_lt_def f64_le_def split: option.splits)

lemma pending_is_set: "pending_is (modify_time fh (\<lambda>ts. ts\<lparr>pending_advance := Some v\<rparr>) fed) fh v \<longleftrightarrow>
    map_of (federates fed) fh \<noteq> None \<and> \<not> f64_is_nan v"
  by (auto simp: pending_is_def modify_time_def modify_federate_def split: option.splits)

lemma modify_time_modify_time: "modify_time fh f (modify_time fh g fed) = modify_time fh (f \<circ> g) fed"
  by (simp add: modify_time_def modify_federate_def hmodify_hmodify comp_def)

lemma times_ok_enable_time_regulation: "times_ok fed \<Longrightarrow> times_ok (fst (enable_time_regulation conns me l fed))"
proof -
  assume ok: "times_ok fed"
  have "times_ok (modify_time me (\<lambda>ts. ts\<lparr>is_regulating := True, lookahead := v\<rparr>) fed)"
    if "f64_is_finite v" "f64_le 0 v" for v
    using that times_ok_lookup [OF ok] by (intro times_ok_modify_time [OF ok] time_ok_updates) auto
  from times_ok_try_grant [OF this] show ?thesis using ok
    by (simp add: enable_time_regulation_def Let_def split_def split: option.split sum.split)
qed

lemma times_ok_disable_time_regulation: "times_ok fed \<Longrightarrow> times_ok (fst (disable_time_regulation conns me fed))"
proof -
  assume ok: "times_ok fed"
  have "times_ok (modify_time me (\<lambda>ts. ts\<lparr>is_regulating := False\<rparr>) fed)"
    using times_ok_lookup [OF ok] by (intro times_ok_modify_time [OF ok] time_ok_updates) auto
  from times_ok_try_grant [OF this] show ?thesis using ok
    by (simp add: disable_time_regulation_def Let_def split_def split: option.split)
qed

lemma times_ok_enable_time_constrained: "times_ok fed \<Longrightarrow> times_ok (fst (enable_time_constrained conns me fed))"
  using times_ok_lookup [of fed]
  by (auto simp: enable_time_constrained_def Let_def intro!: times_ok_modify_time time_ok_updates split: option.split)

lemma times_ok_disable_time_constrained: "times_ok fed \<Longrightarrow> times_ok (fst (disable_time_constrained me fed))"
  using times_ok_lookup [of fed]
  by (auto simp: disable_time_constrained_def intro!: times_ok_modify_time time_ok_updates split: option.split)

lemma times_ok_modify_lookahead: "times_ok fed \<Longrightarrow> times_ok (fst (modify_lookahead me l fed))"
  using times_ok_lookup [of fed]
  by (auto simp: modify_lookahead_def intro!: times_ok_modify_time time_ok_updates split: option.split)

lemma times_ok_pending:
  assumes "times_ok fed" "map_of (federates fed) me = Some fs" "f64_is_finite v" "\<not> f64_lt v (current_time (time_st fs))"
  shows "times_ok (modify_time me (\<lambda>ts. ts\<lparr>pending_advance := Some v\<rparr>) fed)"
    and "times_ok (modify_time me (\<lambda>ts. ts\<lparr>current_time := v, pending_advance := None\<rparr>)
      (modify_time me (\<lambda>ts. ts\<lparr>pending_advance := Some v\<rparr>) fed))"
proof -
  let ?fed1 = "modify_time me (\<lambda>ts. ts\<lparr>pending_advance := Some v\<rparr>) fed"
  show ok1: "times_ok ?fed1"
    using assms times_ok_lookup [OF assms(1)] by (intro times_ok_modify_time [OF assms(1)] time_ok_updates) auto
  show "times_ok (modify_time me (\<lambda>ts. ts\<lparr>current_time := v, pending_advance := None\<rparr>) ?fed1)"
  proof (rule times_ok_modify_time [OF ok1])
    fix fs' assume fs': "map_of (federates ?fed1) me = Some fs'"
    then have "pending_advance (time_st fs') = Some v"
      using assms(2) by (auto simp: modify_time_def modify_federate_def)
    then show "time_ok ((time_st fs')\<lparr>current_time := v, pending_advance := None\<rparr>)"
      using times_ok_lookup [OF ok1 fs'] by (intro time_ok_updates(6)) auto
  qed
qed

lemma times_ok_time_advance_request: "times_ok fed \<Longrightarrow> times_ok (fst (time_advance_request conns me t fed))"
  using times_ok_pending times_ok_try_grant_with_tso times_ok_drain
  by (simp add: time_advance_request_def Let_def split_def pending_is_set split: option.split sum.split)

lemmas times_ok_services =
  times_ok_enable_time_regulation times_ok_disable_time_regulation times_ok_enable_time_constrained
  times_ok_disable_time_constrained times_ok_modify_lookahead times_ok_time_advance_request

subsection \<open>A time advance request\<close>

text \<open>A federation is settled when no pending advance can be granted.\<close>

definition settled :: "Federation \<Rightarrow> bool" where
  "settled fed \<longleftrightarrow> grantable (lbts fed) fed = []"

lemma lbts_cong:
  assumes "map (\<lambda>(fh, fs). (is_regulating (time_st fs), contribution (time_st fs))) (federates a) =
    map (\<lambda>(fh, fs). (is_regulating (time_st fs), contribution (time_st fs))) (federates b)"
  shows "lbts a = lbts b"
proof -
  have "lbts fed = foldl f64_min f64_infinity
      (map snd (filter fst (map (\<lambda>(fh, fs). (is_regulating (time_st fs), contribution (time_st fs))) (federates fed))))" for fed
    by (simp add: lbts_def contribution_def filter_map comp_def split_def)
  then show ?thesis using assms by simp
qed

lemma lbts_modify_federate:
  assumes "\<And>fs. is_regulating (time_st (g fs)) = is_regulating (time_st fs)"
    and "\<And>fs. contribution (time_st (g fs)) = contribution (time_st fs)"
  shows "lbts (modify_federate fh g fed) = lbts fed"
  using assms by (intro lbts_cong) (simp add: modify_federate_def hmodify_def comp_def split_def if_distrib cong: if_cong)

lemma notify_cong:
  "map_option fs_session_id (map_of (federates a) fh) = map_option fs_session_id (map_of (federates b) fh) \<Longrightarrow>
   notify conns a fh c = notify conns b fh c"
  by (auto simp: notify_def live_connections_def List.map_filter_simps split: option.splits)

lemma try_grant_none:
  "times_ok fed \<Longrightarrow> settled fed \<Longrightarrow> try_grant_pending_advances conns fed = (fed, [])"
  by (subst try_grant_pending_advances.simps) (simp add: settled_def Let_def)

text \<open>The snapshot of the wrapper is the list of grantable advances.\<close>

lemma to_grant_eq:
  assumes "wf_hmap (federates fed)"
  shows "filter (\<lambda>(fh, t). case map_of (federates fed) fh of None \<Rightarrow> False
           | Some fs \<Rightarrow> \<not> is_constrained (time_st fs) \<or> f64_le t b)
         (List.map_filter (\<lambda>(fh, fs). map_option (Pair fh) (pending_advance (time_st fs))) (federates fed)) =
    grantable b fed"
proof -
  have "filter (\<lambda>(fh, t). case map_of (federates fed) fh of None \<Rightarrow> False
           | Some fs \<Rightarrow> \<not> is_constrained (time_st fs) \<or> f64_le t b)
         (List.map_filter (\<lambda>(fh, fs). map_option (Pair fh) (pending_advance (time_st fs))) m) =
      grantable b (fed\<lparr>federates := m\<rparr>)" if "set m \<subseteq> set (federates fed)" for m
    using that
  proof (induction m)
    case (Cons kv m)
    obtain fh fs where kv: "kv = (fh, fs)" by force
    have "map_of (federates fed) fh = Some fs" using Cons.prems assms by (simp add: kv map_of_is_SomeI)
    then show ?case using Cons
      by (cases "pending_advance (time_st fs)") (simp_all add: kv List.map_filter_simps grantable_Cons may_grant_def)
  qed (simp add: List.map_filter_simps grantable_def)
  from this [of "federates fed"] show ?thesis by simp
qed

lemma with_tso_eq:
  assumes "times_ok fed"
  shows "try_grant_pending_advances_with_tso conns fed =
    (let (fed1, cbs1) = drain_all conns (grantable (lbts fed) fed) fed;
         (fed2, cbs2) = try_grant_pending_advances conns fed1 in (fed2, cbs1 @ cbs2))"
  using assms by (simp add: try_grant_pending_advances_with_tso_def to_grant_eq times_ok_def Let_def)

lemma drain_other: "j \<noteq> fh \<Longrightarrow> map_of (federates (fst (drain_tso_up_to conns fh t fed))) j = map_of (federates fed) j"
  by (simp add: drain_tso_up_to_def modify_federate_def Let_def split_def split: option.split)

lemma drain_all_other:
  assumes "j \<notin> fst ` set gs"
  shows "map_of (federates (fst (drain_all conns gs fed))) j = map_of (federates fed) j"
proof -
  have "map_of (federates (fst (fold (\<lambda>(fh, t) (fed, cbs).
      case drain_tso_up_to conns fh t fed of (fed', cbs') \<Rightarrow> (fed', cbs @ cbs')) gs (fed, cbs)))) j =
      map_of (federates fed) j" for cbs
    using assms
  proof (induction gs arbitrary: fed cbs)
    case (Cons g gs)
    obtain fh t where g: "g = (fh, t)" by force
    obtain fed' cbs' where d: "drain_tso_up_to conns fh t fed = (fed', cbs')" by force
    have "map_of (federates fed') j = map_of (federates fed) j"
      using drain_other [of j fh conns t fed] Cons.prems by (simp add: d g)
    then show ?case using Cons.IH [of fed' "cbs @ cbs'"] Cons.prems by (simp add: g d)
  qed simp
  then show ?thesis by (simp add: drain_all_def)
qed

lemma grantable_times:
  "grantable b fed = map (\<lambda>(fh, ts). (fh, the (pending_advance ts)))
     (filter (\<lambda>(fh, ts). may_grant b ts) (map (\<lambda>(fh, fs). (fh, time_st fs)) (federates fed)))"
  by (simp add: grantable_eq filter_map comp_def split_def)

lemma grantable_member:
  assumes "times_ok fed" "map_of (federates fed) fh = Some fs"
  shows "fh \<in> fst ` set (grantable b fed) \<longleftrightarrow> may_grant b (time_st fs)"
proof
  assume "fh \<in> fst ` set (grantable b fed)"
  then obtain fs' where fs': "(fh, fs') \<in> set (federates fed)" "may_grant b (time_st fs')"
    by (auto simp: grantable_eq)
  then have "map_of (federates fed) fh = Some fs'" using assms(1) by (simp add: times_ok_def map_of_is_SomeI)
  then show "may_grant b (time_st fs)" using fs'(2) assms(2) by simp
next
  assume "may_grant b (time_st fs)"
  then show "fh \<in> fst ` set (grantable b fed)"
    using map_of_SomeD [OF assms(2)] by (force simp: grantable_eq image_iff)
qed

lemma with_tso_frame:
  assumes ok: "times_ok fed" and fs: "map_of (federates fed) me = Some fs" "pending_advance (time_st fs) = None"
  shows "map_of (federates (fst (try_grant_pending_advances_with_tso conns fed))) me = Some fs"
proof -
  obtain fed1 cbs1 where d: "drain_all conns (grantable (lbts fed) fed) fed = (fed1, cbs1)" by force
  obtain fed2 cbs2 where r: "try_grant_pending_advances conns fed1 = (fed2, cbs2)" by force
  have "me \<notin> fst ` set (grantable (lbts fed) fed)"
    using fs(2) grantable_member [OF ok fs(1)] by (simp add: may_grant_def)
  then have "map_of (federates fed1) me = Some fs"
    using drain_all_other [of me "grantable (lbts fed) fed" conns fed] d fs(1) by simp
  moreover have "times_ok fed1" using times_ok_drain_all [OF ok, of conns "grantable (lbts fed) fed"] d by simp
  ultimately have "map_of (federates fed2) me = Some (grant (lbts fed2) fs)"
    using try_grant_correct [OF _ r] map_of_grant_round [of "lbts fed2" fed1 me] by simp
  then show ?thesis using fs(2) by (simp add: with_tso_eq [OF ok] d r grant_def may_grant_def)
qed

lemma grantable_pending:
  assumes "wf_hmap (federates fed)" "grantable b fed = []" "map_of (federates fed) me = Some fs"
  shows "grantable b (modify_time me (\<lambda>ts. ts\<lparr>pending_advance := Some v\<rparr>) fed) =
    (if \<not> is_constrained (time_st fs) \<or> f64_le v b then [(me, v)] else [])"
proof -
  from assms(3) obtain xs ys where m: "federates fed = xs @ (me, fs) # ys" by (meson map_of_SomeD split_list)
  then have mem: "me \<notin> fst ` set xs" "me \<notin> fst ` set ys" using assms(1) by auto
  have empty: "filter (\<lambda>(fh, fs). may_grant b (time_st fs)) xs = []" "filter (\<lambda>(fh, fs). may_grant b (time_st fs)) ys = []"
    using assms(2) by (auto simp: grantable_eq m split: if_splits)
  have "may_grant b ((time_st fs)\<lparr>pending_advance := Some v\<rparr>) \<longleftrightarrow> \<not> is_constrained (time_st fs) \<or> f64_le v b"
    by (simp add: may_grant_def)
  then show ?thesis
    by (simp add: grantable_eq modify_time_def modify_federate_def m hmodify_middle [OF mem] empty)
qed

lemma request_granted:
  assumes ok: "times_ok fed1" and g: "grantable (lbts fed1) fed1 = [(me, v)]"
    and me: "map_of (federates fed1) me = Some fs1" "pending_advance (time_st fs1) = Some v"
    and r: "try_grant_pending_advances_with_tso conns fed1 = (fed', cbs)"
  shows "map_of (federates fed') me = Some (fs1\<lparr>tso_queue := filter (\<lambda>m. \<not> upto_time v m) (tso_queue fs1),
      time_st := (time_st fs1)\<lparr>current_time := v, pending_advance := None\<rparr>\<rparr>) \<and>
    (\<exists>rest. cbs = concat (map (\<lambda>m. notify conns fed1 me (msg_callback m)) (filter (upto_time v) (tso_queue fs1))) @
      notify conns fed1 me (time_advance_grant v) @ rest)"
proof -
  let ?g = "\<lambda>fs. fs\<lparr>tso_queue := filter (\<lambda>m. \<not> upto_time v m) (tso_queue fs)\<rparr>"
  let ?fed2 = "modify_federate me ?g fed1"
  let ?out = "concat (map (\<lambda>m. notify conns fed1 me (msg_callback m)) (filter (upto_time v) (tso_queue fs1)))"
  have d: "drain_tso_up_to conns me v fed1 = (?fed2, ?out)" by (rule drain_tso_up_to_some [OF ok me(1)])
  obtain cbs2 where r2: "try_grant_pending_advances conns ?fed2 = (fed', cbs2)" and cbs: "cbs = ?out @ cbs2"
    using r by (auto simp: with_tso_eq [OF ok] g drain_all_def d split: prod.splits)
  have ok2: "times_ok ?fed2" using times_ok_drain [OF ok, of conns me v] by (simp add: d)
  have l2: "lbts ?fed2 = lbts fed1" by (rule lbts_modify_federate) simp_all
  have "map (\<lambda>(fh, fs). (fh, time_st fs)) (federates ?fed2) = map (\<lambda>(fh, fs). (fh, time_st fs)) (federates fed1)"
    by (simp add: modify_federate_def hmodify_def comp_def split_def if_distrib cong: if_cong)
  then have "grantable (lbts ?fed2) ?fed2 = grantable (lbts fed1) fed1" by (simp add: l2 grantable_times)
  then have g2: "grantable (lbts ?fed2) ?fed2 = [(me, v)]" by (simp only: g)
  have n: "notify conns ?fed2 me c = notify conns fed1 me c" for c
    by (rule notify_cong) (simp add: modify_federate_def me(1))
  have me2: "map_of (federates ?fed2) me = Some (?g fs1)" by (simp add: modify_federate_def me(1))
  note correct = try_grant_correct [OF ok2 r2]
  have "may_grant (lbts ?fed2) (time_st (?g fs1))" using grantable_member [OF ok2 me2, of "lbts ?fed2"] by (simp add: g2)
  moreover have "\<not> f64_is_nan (lbts fed')" using lbts_key(1) times_ok_try_grant [OF ok2, of conns] r2 by simp
  ultimately have "may_grant (lbts fed') (time_st (?g fs1))" using may_grant_mono correct by blast
  then have "grant (lbts fed') (?g fs1) = (?g fs1)\<lparr>time_st := (time_st fs1)\<lparr>current_time := v, pending_advance := None\<rparr>\<rparr>"
    by (simp add: grant_def me(2))
  moreover have "map_of (federates fed') me = Some (grant (lbts fed') (?g fs1))"
    using correct map_of_grant_round [of "lbts fed'" ?fed2 me] by (simp add: me2)
  moreover have "\<exists>rest. cbs2 = notify conns fed1 me (time_advance_grant v) @ rest"
    using r2 by (auto simp: try_grant_round [OF ok2] g2 Let_def grant_callbacks_def n split: prod.splits if_splits)
  ultimately show ?thesis by (auto simp: cbs)
qed

lemma settled_grant_round:
  assumes "times_ok fed" "fed' = grant_round (lbts fed') fed"
  shows "settled fed'"
proof -
  have "\<not> f64_is_nan (lbts fed')" using lbts_key(1) times_ok_grant_round [OF assms(1)] assms(2) by metis
  from mset_grantable_split [OF order_refl this, of fed]
  have "mset (grantable (lbts fed') (grant_round (lbts fed') fed)) = {#}" by simp
  then show ?thesis using assms(2) by (simp add: settled_def)
qed

lemma accepted_request:
  assumes "time_advance_request conns me (Some (encode_logical_time v)) fed = (fed', cbs, Inr ())"
  obtains fs where "map_of (federates fed) me = Some fs" "f64_is_finite v" "pending_advance (time_st fs) = None"
    "\<not> f64_lt v (current_time (time_st fs))"
  using assms logical_time.dec_enc [of v]
  by (auto simp: time_advance_request_def exception_variant_def Let_def split: option.splits sum.splits if_splits)

lemma tso_queues_grant:
  "times_ok fed \<Longrightarrow> try_grant_pending_advances conns fed = (fed', cbs) \<Longrightarrow>
   map_option tso_queue (map_of (federates fed') fh) = map_option tso_queue (map_of (federates fed) fh)"
  using try_grant_correct [of fed conns fed' cbs] map_of_grant_round [of "lbts fed'" fed fh]
  by (cases "map_of (federates fed) fh") auto

lemma request_unconstrained:
  assumes ok: "times_ok fed" and me: "map_of (federates fed) me = Some fs" "\<not> is_constrained (time_st fs)"
    and r: "time_advance_request conns me (Some (encode_logical_time v)) fed = (fed', cbs, Inr ())"
  shows "map_of (federates fed') me = Some (fs\<lparr>tso_queue := filter (\<lambda>m. \<not> upto_time v m) (tso_queue fs),
      time_st := (time_st fs)\<lparr>current_time := v, pending_advance := None\<rparr>\<rparr>) \<and>
    (\<exists>rest. cbs = concat (map (\<lambda>m. notify conns fed me (msg_callback m)) (filter (upto_time v) (tso_queue fs))) @
      notify conns fed me (time_advance_grant v) @ rest)"
proof -
  obtain fin: "f64_is_finite v" and pend: "pending_advance (time_st fs) = None"
    and le: "\<not> f64_lt v (current_time (time_st fs))"
    using accepted_request [OF r] me(1) by (metis option.inject)
  let ?fed2 = "modify_time me (\<lambda>ts. ts\<lparr>current_time := v, pending_advance := None\<rparr>)
    (modify_time me (\<lambda>ts. ts\<lparr>pending_advance := Some v\<rparr>) fed)"
  let ?fs2 = "fs\<lparr>time_st := (time_st fs)\<lparr>current_time := v, pending_advance := None\<rparr>\<rparr>"
  let ?g = "\<lambda>fs. fs\<lparr>tso_queue := filter (\<lambda>m. \<not> upto_time v m) (tso_queue fs)\<rparr>"
  let ?fed3 = "modify_federate me ?g ?fed2"
  note ok2 = times_ok_pending(2) [OF ok me(1) fin le]
  have me2: "map_of (federates ?fed2) me = Some ?fs2" by (simp add: modify_time_def modify_federate_def me)
  note d = drain_tso_up_to_some [OF ok2 me2]
  have n: "notify conns ?fed2 me c = notify conns fed me c" "notify conns ?fed3 me c = notify conns fed me c" for c
    by (rule notify_cong, simp add: modify_time_def modify_federate_def me)+
  obtain cbs3 where w: "try_grant_pending_advances_with_tso conns ?fed3 = (fed', cbs3)"
    and cbs: "cbs = concat (map (\<lambda>m. notify conns fed me (msg_callback m)) (filter (upto_time v) (tso_queue fs))) @
      notify conns fed me (time_advance_grant v) @ cbs3"
    using r me pend fin le
    by (auto simp: time_advance_request_def logical_time.dec_enc Let_def pending_is_set d n split: prod.splits)
  have me3: "map_of (federates ?fed3) me = Some (?g ?fs2)" by (simp add: modify_federate_def [of me ?g ?fed2] me2)
  have "times_ok ?fed3" using times_ok_drain [OF ok2, of conns me v] by (simp add: d)
  from with_tso_frame [OF this me3, of conns] w show ?thesis by (simp add: cbs)
qed

subsection \<open>A sample federation\<close>

definition sample_session :: "FederateHandle \<Rightarrow> u64 \<Rightarrow> FederateSession" where
  "sample_session fh sid = \<lparr>fs_handle = fh, fs_name = ''f'', federate_type = ''t'', fs_session_id = sid,
     pub_sub = default_pub_sub, time_st = default_time, switches = default_switches, tso_queue = []\<rparr>"

text \<open>Federate 1 is constrained and holds messages with the time stamps 1 and 3; nobody is regulating.\<close>

definition constrained_fed :: Federation where
  "constrained_fed = (new_federation ''F'' empty_fom)\<lparr>federates :=
     [(1, (sample_session 1 7)\<lparr>time_st := default_time\<lparr>is_constrained := True\<rparr>,
        tso_queue := [\<lparr>msg_time = 0x3FF0000000000000, msg_callback = FederationSaved\<rparr>,
                      \<lparr>msg_time = 0x4008000000000000, msg_callback = FederationRestored\<rparr>]\<rparr>)]\<rparr>"

text \<open>Federate 2 regulates; federate 1 waits for time 2 and holds a message with time stamp 1.\<close>

definition waiting_fed :: Federation where
  "waiting_fed = (new_federation ''F'' empty_fom)\<lparr>federates :=
     [(1, (sample_session 1 7)\<lparr>time_st := default_time\<lparr>is_constrained := True, pending_advance := Some 0x4000000000000000\<rparr>,
        tso_queue := [\<lparr>msg_time = 0x3FF0000000000000, msg_callback = FederationSaved\<rparr>]\<rparr>),
      (2, (sample_session 2 8)\<lparr>time_st := default_time\<lparr>is_regulating := True, lookahead := 0x3FF0000000000000\<rparr>\<rparr>)]\<rparr>"

text \<open>Federate 1 waits for time 2 and nobody regulates.\<close>

definition due_fed :: Federation where
  "due_fed = (new_federation ''F'' empty_fom)\<lparr>federates :=
     [(1, (sample_session 1 7)\<lparr>time_st := default_time\<lparr>is_constrained := True, pending_advance := Some 0x4000000000000000\<rparr>\<rparr>)]\<rparr>"

lemma sample_order:
  "f64_le 0 0x3FF0000000000000" "f64_le 0 0x4000000000000000" "f64_le 0x3FF0000000000000 0x4000000000000000"
  "f64_le 0x3FF0000000000000 0x4008000000000000" "\<not> f64_le 0x4008000000000000 0x4000000000000000"
  "\<not> f64_le 0x4008000000000000 0x3FF0000000000000" "\<not> f64_lt 0x4000000000000000 0"
  by (simp_all add: f64_le_def f64_lt_def f64_samples)

lemma sample_infinity: "f64_le 0x4000000000000000 f64_infinity"
  unfolding f64_le_def using key_le_infinity by (simp add: f64_samples(7))

lemma sample_finite:
  "f64_is_finite 0" "f64_is_finite 0x3FF0000000000000" "f64_is_finite 0x4000000000000000" "f64_is_finite 0x4008000000000000"
  "\<not> f64_is_nan 0" "\<not> f64_is_nan 0x3FF0000000000000" "\<not> f64_is_nan 0x4000000000000000" "\<not> f64_is_nan 0x4008000000000000"
  by (simp_all add: f64_samples)

lemmas sample_defs = sample_session_def default_time_def new_federation_def sample_order sample_finite sample_infinity

lemma sample_feds_ok: "times_ok constrained_fed" "times_ok waiting_fed" "settled constrained_fed" "times_ok due_fed"
  by (simp_all add: constrained_fed_def waiting_fed_def due_fed_def sample_defs times_ok_def session_time_ok_def time_ok_def
      sorted_queue_def settled_def grantable_def List.map_filter_simps)

subsection \<open>Properties\<close>

text \<open>C32. The lower bound on time stamps is the greatest lower bound of the regulating federates'
  current times plus lookahead: a time is at or below it exactly when it is at or below every one of
  these sums (and every time is, when nobody is regulating).\<close>

theorem lbts_greatest_lower_bound:
  assumes "times_ok fed" and "\<not> f64_is_nan t"
  shows "f64_le t (lbts fed) \<longleftrightarrow>
    (\<forall>(fh, fs)\<in>set (federates fed). is_regulating (time_st fs) \<longrightarrow>
       f64_le t (f64_add (current_time (time_st fs)) (lookahead (time_st fs))))"
proof -
  have nan: "\<not> f64_is_nan (contribution (time_st fs))" if "(fh, fs) \<in> set (federates fed)" for fh fs
    using contribution_not_nan times_okD(1) [OF assms(1) that] by blast
  have "f64_le t (lbts fed) \<longleftrightarrow> (\<forall>ts\<in>set (regulators fed). f64_key t \<le> f64_key (contribution ts))"
    using lbts_le [OF assms(1)] lbts_greatest [OF assms(1) key_le_infinity [OF assms(2)]] lbts_key(1) [OF assms(1)] assms(2)
    by (fastforce simp: f64_le_def)
  then show ?thesis using nan assms(2)
    by (fastforce simp: regulators_def f64_le_def contribution_def)
qed

theorem lbts_greatest_lower_bound_witness:
  "times_ok waiting_fed \<and> f64_le 0x3FF0000000000000 (lbts waiting_fed)"
  using lbts_greatest_lower_bound [OF sample_feds_ok(2), of "0x3FF0000000000000"] sample_feds_ok(2)
  by (simp add: waiting_fed_def sample_defs f64_sample_sums)

text \<open>C8. Granting reaches a fixed point. Afterwards every federate whose advance was pending has been
  granted it exactly when it is unconstrained or its time is within the final bound, with one grant
  callback each and nothing else changed; no grantable advance is left waiting, and the bound has not
  gone down.\<close>

theorem grant_fixpoint:
  assumes "times_ok fed" and "try_grant_pending_advances conns fed = (fed', cbs)"
  shows "federates fed' = map (\<lambda>(fh, fs). (fh, grant (lbts fed') fs)) (federates fed) \<and>
    grantable (lbts fed') fed' = [] \<and> f64_le (lbts fed) (lbts fed') \<and>
    mset cbs = mset (concat (map (\<lambda>(fh, t). notify conns fed fh (time_advance_grant t)) (grantable (lbts fed') fed)))"
proof -
  note c = try_grant_correct [OF assms]
  have ok: "times_ok fed'" using times_ok_try_grant [OF assms(1), of conns] assms(2) by simp
  have "federates fed' = map (\<lambda>(fh, fs). (fh, grant (lbts fed') fs)) (federates fed)"
    by (subst c [THEN conjunct1]) (simp add: grant_round_def)
  moreover have "grantable (lbts fed') fed' = []"
    using settled_grant_round [OF assms(1) c [THEN conjunct1]] by (simp only: settled_def)
  moreover have "f64_le (lbts fed) (lbts fed')"
    using c [THEN conjunct2, THEN conjunct1] lbts_key(1) [OF assms(1)] lbts_key(1) [OF ok] by (simp add: f64_le_def)
  ultimately show ?thesis using c [THEN conjunct2, THEN conjunct2] by (simp add: grant_callbacks_def)
qed

theorem grant_fixpoint_witness:
  "\<exists>fed' fs'. times_ok due_fed \<and> try_grant_pending_advances [7] due_fed = (fed', [\<lparr>target = 7, cb = time_advance_grant 0x4000000000000000\<rparr>]) \<and>
     map_of (federates fed') 1 = Some fs' \<and> current_time (time_st fs') = 0x4000000000000000 \<and> pending_advance (time_st fs') = None"
proof -
  obtain fed' cbs where g: "try_grant_pending_advances [7] due_fed = (fed', cbs)" by force
  note w = grant_fixpoint [OF sample_feds_ok(4) g]
  have "f64_le 0x4000000000000000 (lbts due_fed)" by (simp add: lbts_def due_fed_def sample_defs)
  then have le: "f64_le 0x4000000000000000 (lbts fed')" using w f64_le_trans by blast
  have "mset cbs = mset [\<lparr>target = 7, cb = time_advance_grant 0x4000000000000000\<rparr>]"
    using w le by (simp add: due_fed_def sample_defs grantable_def notify_def fan_out_def live_connections_def List.map_filter_simps)
  moreover have "map_of (federates fed') 1 = Some (grant (lbts fed') (snd (hd (federates due_fed))))"
    using w by (simp add: due_fed_def)
  ultimately show ?thesis using g le sample_feds_ok(4) by (simp add: due_fed_def sample_defs grant_def may_grant_def)
qed

text \<open>C7. An accepted time advance request of a federate in a settled federation. If the federate is
  unconstrained or the requested time is within the bound, the federate moves to that time; its queued
  messages with a time stamp up to it are delivered in time-stamp order before the grant, and exactly the
  later ones stay queued. Otherwise the request is recorded as pending, and nothing is sent.\<close>

theorem time_advance_request_outcome:
  assumes "times_ok fed" and "settled fed"
    and "time_advance_request conns me (Some (encode_logical_time v)) fed = (fed', cbs, Inr ())"
    and "map_of (federates fed) me = Some fs"
  shows "if \<not> is_constrained (time_st fs) \<or> f64_le v (lbts fed)
    then (\<exists>fs' rest. map_of (federates fed') me = Some fs' \<and> current_time (time_st fs') = v \<and>
           pending_advance (time_st fs') = None \<and> tso_queue fs' = filter (\<lambda>m. \<not> f64_le (msg_time m) v) (tso_queue fs) \<and>
           cbs = concat (map (\<lambda>m. notify conns fed me (msg_callback m)) (filter (\<lambda>m. f64_le (msg_time m) v) (tso_queue fs))) @
             notify conns fed me (time_advance_grant v) @ rest)
    else fed' = modify_time me (\<lambda>ts. ts\<lparr>pending_advance := Some v\<rparr>) fed \<and> cbs = []"
proof -
  obtain fin: "f64_is_finite v" and pend: "pending_advance (time_st fs) = None"
    and le: "\<not> f64_lt v (current_time (time_st fs))"
    using accepted_request [OF assms(3)] assms(4) by (metis option.inject)
  let ?fed1 = "modify_time me (\<lambda>ts. ts\<lparr>pending_advance := Some v\<rparr>) fed"
  have wf: "wf_hmap (federates fed)" using assms(1) by (simp add: times_ok_def)
  note ok1 = times_ok_pending [OF assms(1,4) fin le]
  have l1: "lbts ?fed1 = lbts fed" unfolding modify_time_def by (rule lbts_modify_federate) (simp_all add: contribution_def)
  have g1: "grantable (lbts ?fed1) ?fed1 = (if \<not> is_constrained (time_st fs) \<or> f64_le v (lbts fed) then [(me, v)] else [])"
    unfolding l1 using assms(2) by (intro grantable_pending [OF wf _ assms(4)]) (simp add: settled_def)
  have me1: "map_of (federates ?fed1) me = Some (fs\<lparr>time_st := (time_st fs)\<lparr>pending_advance := Some v\<rparr>\<rparr>)"
    by (simp add: modify_time_def modify_federate_def assms(4))
  have n1: "notify conns ?fed1 me c = notify conns fed me c" for c by (rule notify_cong) (simp add: me1 assms(4))
  show ?thesis
  proof (cases "is_constrained (time_st fs)")
    case True
    then have r: "try_grant_pending_advances_with_tso conns ?fed1 = (fed', cbs)"
      using assms(3,4) pend fin le by (simp add: time_advance_request_def logical_time.dec_enc Let_def split: prod.splits)
    show ?thesis
    proof (cases "f64_le v (lbts fed)")
      case le_bound: True
      show ?thesis using request_granted [OF ok1(1) _ me1 _ r] g1 le_bound by (simp add: n1)
    next
      case False
      then have "grantable (lbts ?fed1) ?fed1 = []" using g1 True by simp
      then show ?thesis using r True False try_grant_none [OF ok1(1)]
        by (simp add: with_tso_eq [OF ok1(1)] drain_all_def settled_def)
    qed
  next
    case False
    show ?thesis using request_unconstrained [OF assms(1,4) False assms(3)] False by auto
  qed
qed

lemma sample_request:
  "\<exists>fed' cbs. time_advance_request [7] 1 (Some (encode_logical_time 0x4000000000000000)) constrained_fed = (fed', cbs, Inr ())"
proof -
  have "map_of (federates constrained_fed) 1 \<noteq> None" "f64_is_finite 0x4000000000000000"
    by (simp_all add: constrained_fed_def sample_finite)
  moreover have "pending_advance (time_st fs) = None" "current_time (time_st fs) = 0" "is_constrained (time_st fs)"
    if "map_of (federates constrained_fed) 1 = Some fs" for fs
    using that by (auto simp: constrained_fed_def default_time_def)
  ultimately show ?thesis
    by (auto simp: time_advance_request_def logical_time.dec_enc Let_def sample_order split: prod.split)
qed

theorem time_advance_request_outcome_witness:
  "\<exists>fed' cbs fs' rest. time_advance_request [7] 1 (Some (encode_logical_time 0x4000000000000000)) constrained_fed =
       (fed', cbs, Inr ()) \<and>
     map_of (federates fed') 1 = Some fs' \<and> current_time (time_st fs') = 0x4000000000000000 \<and>
     map msg_callback (tso_queue fs') = [FederationRestored] \<and>
     cbs = [\<lparr>target = 7, cb = FederationSaved\<rparr>, \<lparr>target = 7, cb = time_advance_grant 0x4000000000000000\<rparr>] @ rest"
proof -
  obtain fed' cbs where r:
    "time_advance_request [7] 1 (Some (encode_logical_time 0x4000000000000000)) constrained_fed = (fed', cbs, Inr ())"
    using sample_request by blast
  have "f64_le 0x4000000000000000 (lbts constrained_fed)"
    by (simp add: lbts_def constrained_fed_def sample_defs)
  then show ?thesis using time_advance_request_outcome [OF sample_feds_ok(1,3) r, of "snd (hd (federates constrained_fed))"] r
    by (auto simp: constrained_fed_def sample_defs notify_def fan_out_def live_connections_def List.map_filter_simps)
qed

text \<open>C33. Whatever order messages are routed to a waiting federate in, its queue holds them sorted by
  time stamp, those with equal time stamps in order of arrival; draining to a time takes exactly the
  messages up to it, and draining in two steps delivers the same messages in the same order as
  draining once.\<close>

theorem tso_queue_order:
  assumes "list_all (\<lambda>m. \<not> f64_is_nan (msg_time m)) ms"
  shows "let q = fold (\<lambda>m. tso_insert (msg_time m) (msg_callback m)) ms [] in
    q = sort_key (f64_key \<circ> msg_time) ms \<and>
    tso_drain t q = (filter (\<lambda>m. f64_le (msg_time m) t) q, filter (\<lambda>m. \<not> f64_le (msg_time m) t) q) \<and>
    (f64_le t u \<longrightarrow> fst (tso_drain t q) @ fst (tso_drain u (snd (tso_drain t q))) = fst (tso_drain u q))"
proof -
  have nil: "sorted_queue []" by (simp add: sorted_queue_def)
  note inv = tso.arrivals_invar [OF nil assms]
  show ?thesis using tso.arrivals_sorted [OF nil refl assms] tso_drain_eq [OF inv] tso.drain_twice [OF inv, of t u]
    by (simp add: Let_def)
qed

theorem tso_queue_order_witness:
  "fst (tso_drain 0x4000000000000000 (fold (\<lambda>m. tso_insert (msg_time m) (msg_callback m))
     [\<lparr>msg_time = 0x4008000000000000, msg_callback = FederationSaved\<rparr>,
      \<lparr>msg_time = 0x3FF0000000000000, msg_callback = FederationRestored\<rparr>] [])) =
   [\<lparr>msg_time = 0x3FF0000000000000, msg_callback = FederationRestored\<rparr>]"
proof -
  let ?ms = "[\<lparr>msg_time = 0x4008000000000000, msg_callback = FederationSaved\<rparr>,
      \<lparr>msg_time = 0x3FF0000000000000, msg_callback = FederationRestored\<rparr>]"
  have "list_all (\<lambda>m. \<not> f64_is_nan (msg_time m)) ?ms" by (simp add: sample_finite)
  from tso_queue_order [OF this, of "0x4000000000000000", unfolded Let_def, THEN conjunct2, THEN conjunct1]
  show ?thesis by (simp add: tso_insert_def partition_point_def sample_order)
qed

text \<open>C34. Disabling time regulation may grant the advances it unblocks, but it leaves every queue as it
  was: a federate granted by it does not get the messages queued for it, not even those with a time
  stamp before its new time.\<close>

theorem disable_time_regulation_keeps_queues:
  assumes "times_ok fed" and "disable_time_regulation conns me fed = (fed', cbs, r)"
  shows "map_option tso_queue (map_of (federates fed') fh) = map_option tso_queue (map_of (federates fed) fh) \<and>
    (\<forall>c\<in>set cbs. \<exists>t. cb c = time_advance_grant t)"
proof -
  let ?fed1 = "modify_time me (\<lambda>ts. ts\<lparr>is_regulating := False\<rparr>) fed"
  have ok1: "times_ok ?fed1"
    using times_ok_lookup [OF assms(1)] by (intro times_ok_modify_time [OF assms(1)] time_ok_updates) auto
  have q1: "map_option tso_queue (map_of (federates ?fed1) fh) = map_option tso_queue (map_of (federates fed) fh)"
    by (cases "map_of (federates fed) fh") (auto simp: modify_time_def modify_federate_def)
  from assms(2) consider "fed' = fed" "cbs = []" | "try_grant_pending_advances conns ?fed1 = (fed', cbs)"
    by (auto simp: disable_time_regulation_def Let_def split: option.splits if_splits prod.splits)
  then show ?thesis
  proof cases
    case 2
    have "set cbs = set (grant_callbacks conns ?fed1 (grantable (lbts fed') ?fed1))"
      using try_grant_correct [OF ok1 2] mset_eq_setD by blast
    then show ?thesis using tso_queues_grant [OF ok1 2, of fh] q1
      by (auto simp: grant_callbacks_def notify_def fan_out_def)
  qed simp
qed

theorem disable_time_regulation_keeps_queues_witness:
  "\<exists>fed' cbs fs'. disable_time_regulation [7, 8] 2 waiting_fed = (fed', cbs, Inr ()) \<and>
     map_of (federates fed') 1 = Some fs' \<and> current_time (time_st fs') = 0x4000000000000000 \<and>
     map msg_time (tso_queue fs') = [0x3FF0000000000000]"
proof -
  let ?fed1 = "modify_time 2 (\<lambda>ts. ts\<lparr>is_regulating := False\<rparr>) waiting_fed"
  let ?fed2 = "modify_time 1 (\<lambda>ts. ts\<lparr>current_time := 0x4000000000000000, pending_advance := None\<rparr>) ?fed1"
  note eval = waiting_fed_def sample_defs modify_time_def modify_federate_def hmodify_def lbts_def
  have g: "grantable f64_infinity ?fed1 = [(1, 0x4000000000000000)]"
    by (simp add: eval grantable_def List.map_filter_simps)
  have l: "lbts ?fed1 = f64_infinity" "lbts ?fed2 = f64_infinity" by (simp_all add: eval)
  have p: "pending_is ?fed1 1 0x4000000000000000" by (simp add: eval pending_is_def)
  have t: "try_grant_pending_advances [7, 8] ?fed1 = (?fed2, grant_callbacks [7, 8] ?fed2 [(1, 0x4000000000000000)])"
    by (subst try_grant_pending_advances.simps) (simp add: Let_def g l p grant_all_def grant_one_simp)
  have d: "disable_time_regulation [7, 8] 2 waiting_fed =
      (?fed2, grant_callbacks [7, 8] ?fed2 [(1, 0x4000000000000000)], Inr ())"
    using t by (simp add: disable_time_regulation_def) (simp add: waiting_fed_def)
  have "map_of (federates ?fed2) 1 \<noteq> None" "map_of (federates waiting_fed) 1 \<noteq> None"
    by (simp_all add: eval)
  then show ?thesis using disable_time_regulation_keeps_queues [OF sample_feds_ok(2) d, of 1] d
    by (auto simp: eval)
qed

end
