(* ===== verification/Declaration.thy ===== *)
theory Declaration
  imports Tso
begin

text \<open>
  Declaration management (\<^verbatim>\<open>crates/hla-rti/src/dispatch/declaration.rs\<close>): publication and subscription of
  object class attributes and interaction classes, and the registration and interaction advisories sent
  when the first subscriber arrives or the last one leaves. Every caller passes the node, so the
  optional node of the source is present throughout.
\<close>

definition decode_handle_set :: "bytes list option \<Rightarrow> AttributeHandleSet resp" where
  "decode_handle_set s =
     (case s of
        None \<Rightarrow> Inr []
      | Some hs \<Rightarrow> try_fold (\<lambda>a out. case decode_attribute a of
            Inl n \<Rightarrow> exception_variant n []
          | Inr h \<Rightarrow> Inr (hs_insert h out)) hs [])"

text \<open>Remove elements from the set under a key, and the key with its last element.\<close>

definition prune_entry :: "'k \<Rightarrow> 'a list \<Rightarrow> ('k, 'a hset) hmap \<Rightarrow> ('k, 'a hset) hmap" where
  "prune_entry k xs m =
     (case map_of m k of
        None \<Rightarrow> m
      | Some existing \<Rightarrow>
          let existing' = fold hs_remove xs existing in
          if existing' = [] then hremove k m else hinsert k existing' m)"

definition publish_object_class_attributes ::
  "FederateHandle \<Rightarrow> wire_handle \<Rightarrow> bytes list option \<Rightarrow> Federation \<Rightarrow> unit step" where
  "publish_object_class_attributes me cls attrs fed =
     (case Option.bind cls (\<lambda>h. ok (decode_object_class h)) of
        None \<Rightarrow> (fed, [], exception_variant InvalidObjectClassHandle [])
      | Some c \<Rightarrow>
          if object_class_def (fom fed) c = None then (fed, [], exception_variant ObjectClassNotDefined [])
          else (case decode_handle_set attrs of
              Inl e \<Rightarrow> (fed, [], Inl e)
            | Inr s \<Rightarrow>
                (modify_pub_sub me (\<lambda>ps. ps\<lparr>published_attrs := hentry c [] (\<lambda>old. hs_extend old s) (published_attrs ps)\<rparr>) fed,
                 [], Inr ())))"

definition unpublish_object_class_attributes ::
  "FederateHandle \<Rightarrow> wire_handle \<Rightarrow> bytes list option \<Rightarrow> Federation \<Rightarrow> unit step" where
  "unpublish_object_class_attributes me cls attrs fed =
     (case Option.bind cls (\<lambda>h. ok (decode_object_class h)) of
        None \<Rightarrow> (fed, [], exception_variant InvalidObjectClassHandle [])
      | Some c \<Rightarrow>
          (case decode_handle_set attrs of
             Inl e \<Rightarrow> (fed, [], Inl e)
           | Inr s \<Rightarrow>
               (modify_pub_sub me (\<lambda>ps. ps\<lparr>published_attrs := prune_entry c s (published_attrs ps)\<rparr>) fed, [], Inr ())))"

text \<open>The functions of \<^verbatim>\<open>declaration.rs\<close> on the federation that read its subscription matrix.\<close>

definition fed_class_has_subscribers :: "Federation \<Rightarrow> ObjectClassHandle \<Rightarrow> bool" where
  "fed_class_has_subscribers fed c = class_has_subscribers (subscriptions fed) c"

definition interaction_has_subscribers :: "Federation \<Rightarrow> InteractionClassHandle \<Rightarrow> bool" where
  "interaction_has_subscribers fed c = contains_key (by_interaction (subscriptions fed)) c"

definition emit_start_registration ::
  "connections \<Rightarrow> Federation \<Rightarrow> ObjectClassHandle \<Rightarrow> FederateHandle \<Rightarrow> OutboundCallback list" where
  "emit_start_registration conns fed c exclude =
     (let targets = map fs_handle (filter (\<lambda>fs. fs_handle fs \<noteq> exclude \<and>
            object_class_relevance_advisory (switches fs) \<and> contains_key (published_attrs (pub_sub fs)) c)
            (hvalues (federates fed)))
      in fan_out (live_connections conns fed targets) (start_registration_for_object_class c))"

definition emit_stop_registration ::
  "connections \<Rightarrow> Federation \<Rightarrow> ObjectClassHandle \<Rightarrow> OutboundCallback list" where
  "emit_stop_registration conns fed c =
     (let targets = map fs_handle (filter (\<lambda>fs. object_class_relevance_advisory (switches fs) \<and>
            contains_key (published_attrs (pub_sub fs)) c) (hvalues (federates fed)))
      in fan_out (live_connections conns fed targets) (stop_registration_for_object_class c))"

definition emit_turn_interactions_on ::
  "connections \<Rightarrow> Federation \<Rightarrow> InteractionClassHandle \<Rightarrow> FederateHandle \<Rightarrow> OutboundCallback list" where
  "emit_turn_interactions_on conns fed c exclude =
     (let targets = map fs_handle (filter (\<lambda>fs. fs_handle fs \<noteq> exclude \<and>
            interaction_relevance_advisory (switches fs) \<and> c \<in> set (published_interactions (pub_sub fs)))
            (hvalues (federates fed)))
      in fan_out (live_connections conns fed targets) (turn_interactions_on c))"

definition emit_turn_interactions_off ::
  "connections \<Rightarrow> Federation \<Rightarrow> InteractionClassHandle \<Rightarrow> OutboundCallback list" where
  "emit_turn_interactions_off conns fed c =
     (let targets = map fs_handle (filter (\<lambda>fs. interaction_relevance_advisory (switches fs) \<and>
            c \<in> set (published_interactions (pub_sub fs))) (hvalues (federates fed)))
      in fan_out (live_connections conns fed targets) (turn_interactions_off c))"

definition subscribe_object_class_attributes_inner ::
  "connections \<Rightarrow> FederateHandle \<Rightarrow> wire_handle \<Rightarrow> bytes list option \<Rightarrow> Federation \<Rightarrow> unit step" where
  "subscribe_object_class_attributes_inner conns me cls attrs fed =
     (case Option.bind cls (\<lambda>h. ok (decode_object_class h)) of
        None \<Rightarrow> (fed, [], exception_variant InvalidObjectClassHandle [])
      | Some c \<Rightarrow>
          if object_class_def (fom fed) c = None then (fed, [], exception_variant ObjectClassNotDefined [])
          else (case decode_handle_set attrs of
              Inl e \<Rightarrow> (fed, [], Inl e)
            | Inr s \<Rightarrow>
                let was_subscribed = fed_class_has_subscribers fed c;
                    fed1 = modify_pub_sub me
                      (\<lambda>ps. ps\<lparr>subscribed_attrs := hentry c [] (\<lambda>old. hs_extend old s) (subscribed_attrs ps)\<rparr>) fed;
                    fed2 = fed1\<lparr>subscriptions := fold (\<lambda>a m. fst (subscribe_attribute c a me m)) s (subscriptions fed1)\<rparr>;
                    cbs = (if \<not> was_subscribed \<and> fed_class_has_subscribers fed2 c
                           then emit_start_registration conns fed2 c me else [])
                in (fed2, cbs, Inr ())))"

definition unsubscribe_object_class_attributes_inner ::
  "connections \<Rightarrow> FederateHandle \<Rightarrow> wire_handle \<Rightarrow> bytes list option \<Rightarrow> Federation \<Rightarrow> unit step" where
  "unsubscribe_object_class_attributes_inner conns me cls attrs fed =
     (case Option.bind cls (\<lambda>h. ok (decode_object_class h)) of
        None \<Rightarrow> (fed, [], exception_variant InvalidObjectClassHandle [])
      | Some c \<Rightarrow>
          (case decode_handle_set attrs of
              Inl e \<Rightarrow> (fed, [], Inl e)
            | Inr s \<Rightarrow>
                let was_subscribed = fed_class_has_subscribers fed c;
                    fed1 = modify_pub_sub me (\<lambda>ps. ps\<lparr>subscribed_attrs := prune_entry c s (subscribed_attrs ps)\<rparr>) fed;
                    fed2 = fed1\<lparr>subscriptions := fold (\<lambda>a m. fst (unsubscribe_attribute c a me m)) s (subscriptions fed1)\<rparr>;
                    cbs = (if was_subscribed \<and> \<not> fed_class_has_subscribers fed2 c
                           then emit_stop_registration conns fed2 c else [])
                in (fed2, cbs, Inr ())))"

definition decode_interaction_or_err :: "wire_handle \<Rightarrow> InteractionClassHandle resp" where
  "decode_interaction_or_err h =
     (case Option.bind h (\<lambda>x. ok (decode_interaction_class x)) of
        None \<Rightarrow> exception_variant InvalidInteractionClassHandle []
      | Some c \<Rightarrow> Inr c)"

definition publish_interaction_class :: "FederateHandle \<Rightarrow> wire_handle \<Rightarrow> Federation \<Rightarrow> unit step" where
  "publish_interaction_class me cls fed =
     (case decode_interaction_or_err cls of
        Inl e \<Rightarrow> (fed, [], Inl e)
      | Inr c \<Rightarrow>
          if interaction_class_def (fom fed) c = None then (fed, [], exception_variant InteractionClassNotDefined [])
          else (modify_pub_sub me (\<lambda>ps. ps\<lparr>published_interactions := hs_insert c (published_interactions ps)\<rparr>) fed,
                [], Inr ()))"

definition unpublish_interaction_class :: "FederateHandle \<Rightarrow> wire_handle \<Rightarrow> Federation \<Rightarrow> unit step" where
  "unpublish_interaction_class me cls fed =
     (case decode_interaction_or_err cls of
        Inl e \<Rightarrow> (fed, [], Inl e)
      | Inr c \<Rightarrow>
          (modify_pub_sub me (\<lambda>ps. ps\<lparr>published_interactions := hs_remove c (published_interactions ps)\<rparr>) fed,
           [], Inr ()))"

definition subscribe_interaction_class_inner ::
  "connections \<Rightarrow> FederateHandle \<Rightarrow> wire_handle \<Rightarrow> Federation \<Rightarrow> unit step" where
  "subscribe_interaction_class_inner conns me cls fed =
     (case decode_interaction_or_err cls of
        Inl e \<Rightarrow> (fed, [], Inl e)
      | Inr c \<Rightarrow>
          if interaction_class_def (fom fed) c = None then (fed, [], exception_variant InteractionClassNotDefined [])
          else let was_subscribed = interaction_has_subscribers fed c;
                   fed1 = modify_pub_sub me (\<lambda>ps. ps\<lparr>subscribed_interactions := hs_insert c (subscribed_interactions ps)\<rparr>) fed;
                   subs = subscriptions fed1;
                   fed2 = fed1\<lparr>subscriptions := subs\<lparr>by_interaction := hentry c [] (hs_insert me) (by_interaction subs)\<rparr>\<rparr>;
                   cbs = (if \<not> was_subscribed \<and> interaction_has_subscribers fed2 c
                          then emit_turn_interactions_on conns fed2 c me else [])
               in (fed2, cbs, Inr ()))"

definition unsubscribe_interaction_class_inner ::
  "connections \<Rightarrow> FederateHandle \<Rightarrow> wire_handle \<Rightarrow> Federation \<Rightarrow> unit step" where
  "unsubscribe_interaction_class_inner conns me cls fed =
     (case decode_interaction_or_err cls of
        Inl e \<Rightarrow> (fed, [], Inl e)
      | Inr c \<Rightarrow>
          let was_subscribed = interaction_has_subscribers fed c;
              fed1 = modify_pub_sub me (\<lambda>ps. ps\<lparr>subscribed_interactions := hs_remove c (subscribed_interactions ps)\<rparr>) fed;
              subs = subscriptions fed1;
              fed2 = fed1\<lparr>subscriptions := subs\<lparr>by_interaction := prune_entry c [me] (by_interaction subs)\<rparr>\<rparr>;
              cbs = (if was_subscribed \<and> \<not> interaction_has_subscribers fed2 c
                     then emit_turn_interactions_off conns fed2 c else [])
          in (fed2, cbs, Inr ()))"

end
