(* ===== verification/ObjectMgmt.thy ===== *)
theory ObjectMgmt
  imports Declaration
begin

text \<open>
  Object instances: registration and discovery
  (\<^verbatim>\<open>crates/hla-rti/src/dispatch/object_mgmt.rs\<close>), regions and their matching
  (\<^verbatim>\<open>ddm_lifecycle.rs\<close>, \<^verbatim>\<open>ddm_matching.rs\<close>), directed interactions (\<^verbatim>\<open>directed.rs\<close>), and
  updates, interactions and deletions, with and without time stamps (\<^verbatim>\<open>data_flow.rs\<close>).
\<close>

subsection \<open>Registration\<close>

text \<open>Numbers as the formatting macros of the language print them.\<close>

definition show_digit :: "nat \<Rightarrow> char" where
  "show_digit d = char_of (if d < 10 then 48 + d else 55 + d)"

fun show_radix :: "nat \<Rightarrow> nat \<Rightarrow> string" where
  "show_radix base n =
     (if n < base \<or> base < 2 then [show_digit n] else show_radix base (n div base) @ [show_digit (n mod base)])"

declare show_radix.simps [simp del]

text \<open>
  The loop that marks an instance as discovered: the federates for which it was new, in the order
  of the candidates.
\<close>

definition discover_one :: "ObjectInstanceHandle \<Rightarrow> FederateHandle \<Rightarrow> Federation \<times> FederateHandle list
    \<Rightarrow> Federation \<times> FederateHandle list" where
  "discover_one inst fh st =
     (case st of (fed, to_notify) \<Rightarrow>
        (case map_of (federates fed) fh of
           None \<Rightarrow> (fed, to_notify)
         | Some fs \<Rightarrow>
             if inst \<in> set (discovered_instances (pub_sub fs)) then (fed, to_notify)
             else (modify_pub_sub fh (\<lambda>ps. ps\<lparr>discovered_instances := hs_insert inst (discovered_instances ps)\<rparr>) fed,
                   to_notify @ [fh])))"

definition discover_all :: "ObjectInstanceHandle \<Rightarrow> FederateHandle list \<Rightarrow> Federation \<Rightarrow> Federation \<times> FederateHandle list" where
  "discover_all inst candidates fed = fold (discover_one inst) candidates (fed, [])"

definition registration_candidates :: "Federation \<Rightarrow> ObjectClassHandle \<Rightarrow> FederateHandle \<Rightarrow> FederateHandle hset" where
  "registration_candidates fed cls producer =
     fold (\<lambda>ancestor out.
       fold (\<lambda>fh out. if fh \<noteq> producer then hs_insert fh out else out)
         (subscribers_of_class (subscriptions fed) ancestor) out)
       (inheritance_chain (fom fed) cls) []"

definition notify_subscribers_of_registration :: "connections \<Rightarrow> ObjectInstanceHandle \<Rightarrow> ObjectClassHandle \<Rightarrow> string
    \<Rightarrow> FederateHandle \<Rightarrow> Federation \<Rightarrow> Federation \<times> OutboundCallback list" where
  "notify_subscribers_of_registration conns inst cls name producer fed =
     (let (fed1, targets) = discover_all inst (registration_candidates fed cls producer) fed
      in (fed1, fan_out (live_connections conns fed1 targets) (discover_object_instance inst cls name producer)))"

definition register_object_instance ::
  "connections \<Rightarrow> FederateHandle \<Rightarrow> wire_handle \<Rightarrow> string option \<Rightarrow> Federation \<Rightarrow> ObjectInstanceHandle step" where
  "register_object_instance conns me cls requested_name fed =
     (case Option.bind cls (\<lambda>h. ok (decode_object_class h)) of
        None \<Rightarrow> (fed, [], exception_variant InvalidObjectClassHandle [])
      | Some c \<Rightarrow>
          if object_class_def (fom fed) c = None then (fed, [], exception_variant ObjectClassNotDefined [])
          else (case map_of (federates fed) me of
              None \<Rightarrow> (fed, [], not_member)
            | Some fs \<Rightarrow>
                (case map_of (published_attrs (pub_sub fs)) c of
                   None \<Rightarrow> (fed, [], exception_variant ObjectClassNotPublished [])
                 | Some published \<Rightarrow>
                     let raw_id = next_object_id fed;
                         fed1 = fed\<lparr>next_object_id := raw_id + 1\<rparr>;
                         name = (case requested_name of Some n \<Rightarrow> n | None \<Rightarrow> ''HLA'' @ show_radix 10 (unat raw_id))
                     in if requested_name \<noteq> None \<and> name \<in> oi_name ` set (hvalues (object_instances fed1))
                        then (fed1, [], exception_variant ObjectInstanceNameInUse [DStr name])
                        else let inst = \<lparr>oi_handle = raw_id, oi_class = c, oi_name = name, registrar = me,
                                   attribute_owners = hcollect (map (\<lambda>a. (a, me)) published), attribute_regions = []\<rparr>;
                                 fed2 = fed1\<lparr>object_instances := hinsert raw_id inst (object_instances fed1)\<rparr>;
                                 (fed3, cbs) = notify_subscribers_of_registration conns raw_id c name me fed2
                             in (fed3, cbs, Inr raw_id))))"

subsection \<open>Regions\<close>

definition decode_dimension :: "bytes \<Rightarrow> DimensionHandle option" where
  "decode_dimension b = (if length b = 4 then Some (from_be_bytes b) else None)"

definition decode_region :: "bytes \<Rightarrow> RegionHandle option" where
  "decode_region b = (if length b = 8 then Some (from_be_bytes b) else None)"

definition create_region :: "FederateHandle \<Rightarrow> bytes list option \<Rightarrow> Federation \<Rightarrow> bytes step" where
  "create_region me dimensions fed =
     (let dims = (case dimensions of
            None \<Rightarrow> []
          | Some ds \<Rightarrow> hcollect (List.map_filter (\<lambda>h. map_option (\<lambda>raw. (raw, (0, - 1))) (decode_dimension h)) ds));
          raw_id = next_region_id fed
      in (fed\<lparr>next_region_id := raw_id + 1,
              regions := hinsert raw_id \<lparr>rg_handle = raw_id, rg_owner = me, committed = dims, staged = dims\<rparr> (regions fed)\<rparr>,
          [], Inr (to_be_bytes raw_id)))"

text \<open>The commit loop stops at the first region of another federate; regions before it stay committed.\<close>

fun commit_regions :: "FederateHandle \<Rightarrow> RegionHandle list \<Rightarrow> (RegionHandle, Region) hmap
    \<Rightarrow> (RegionHandle, Region) hmap \<times> unit resp" where
  "commit_regions me [] rs = (rs, Inr ())"
| "commit_regions me (rh # rhs) rs =
     (case map_of rs rh of
        None \<Rightarrow> commit_regions me rhs rs
      | Some r \<Rightarrow>
          if rg_owner r \<noteq> me then (rs, exception_variant RegionNotCreatedByThisFederate [])
          else commit_regions me rhs (hmodify rh (\<lambda>r. r\<lparr>committed := staged r\<rparr>) rs))"

definition commit_region_modifications :: "FederateHandle \<Rightarrow> bytes list option \<Rightarrow> Federation \<Rightarrow> unit step" where
  "commit_region_modifications me rhs fed =
     (let handles = (case rhs of None \<Rightarrow> [] | Some hs \<Rightarrow> List.map_filter decode_region hs);
          (rs, r) = commit_regions me handles (regions fed)
      in (fed\<lparr>regions := rs\<rparr>, [], r))"

definition delete_region :: "FederateHandle \<Rightarrow> wire_handle \<Rightarrow> Federation \<Rightarrow> unit step" where
  "delete_region me region fed =
     (case Option.bind region decode_region of
        None \<Rightarrow> (fed, [], exception_variant InvalidRegion [])
      | Some rh \<Rightarrow>
          (case map_of (regions fed) rh of
             None \<Rightarrow> (fed, [], exception_variant InvalidRegion [])
           | Some r \<Rightarrow>
               if rg_owner r = me then (fed\<lparr>regions := hremove rh (regions fed)\<rparr>, [], Inr ())
               else (fed, [], exception_variant RegionNotCreatedByThisFederate [])))"

definition get_range_bounds :: "wire_handle \<Rightarrow> wire_handle \<Rightarrow> Federation \<Rightarrow> (u32 \<times> u32) resp" where
  "get_range_bounds region dimension fed =
     (case Option.bind region decode_region of
        None \<Rightarrow> exception_variant InvalidRegion []
      | Some rh \<Rightarrow>
          (case Option.bind dimension decode_dimension of
             None \<Rightarrow> exception_variant InvalidDimension []
           | Some dh \<Rightarrow>
               (case map_of (regions fed) rh of
                  None \<Rightarrow> exception_variant InvalidRegion []
                | Some r \<Rightarrow> Inr (case map_of (committed r) dh of None \<Rightarrow> (0, - 1) | Some b \<Rightarrow> b))))"

definition set_range_bounds ::
  "FederateHandle \<Rightarrow> wire_handle \<Rightarrow> wire_handle \<Rightarrow> (u32 \<times> u32) option \<Rightarrow> Federation \<Rightarrow> unit step" where
  "set_range_bounds me region dimension bounds fed =
     (case Option.bind region decode_region of
        None \<Rightarrow> (fed, [], exception_variant InvalidRegion [])
      | Some rh \<Rightarrow>
          (case Option.bind dimension decode_dimension of
             None \<Rightarrow> (fed, [], exception_variant InvalidDimension [])
           | Some dh \<Rightarrow>
               (case bounds of
                  None \<Rightarrow> (fed, [], exception_variant InvalidRangeBound [DStr ''missing''])
                | Some (lower, upper) \<Rightarrow>
                    if \<not> lower \<le> upper then (fed, [], exception_variant InvalidRangeBound [DStr ''lower > upper''])
                    else (case map_of (regions fed) rh of
                        None \<Rightarrow> (fed, [], exception_variant InvalidRegion [])
                      | Some r \<Rightarrow>
                          if rg_owner r = me
                          then (fed\<lparr>regions := hmodify rh (\<lambda>r. r\<lparr>staged := hinsert dh (lower, upper) (staged r)\<rparr>) (regions fed)\<rparr>,
                                [], Inr ())
                          else (fed, [], exception_variant RegionNotCreatedByThisFederate [])))))"

subsection \<open>Region matching\<close>

definition regions_intersect :: "Region \<Rightarrow> Region \<Rightarrow> bool" where
  "regions_intersect rp rs =
     list_all (\<lambda>d. case (map_of (committed rp) d, map_of (committed rs) d) of
         (Some (lp, up), Some (ls, us)) \<Rightarrow> lp \<le> us \<and> ls \<le> up
       | _ \<Rightarrow> True)
       (filter (\<lambda>d. contains_key (committed rs) d) (hkeys (committed rp)))"

definition regions_overlap_any :: "Federation \<Rightarrow> RegionHandle hset \<Rightarrow> RegionHandle hset \<Rightarrow> bool" where
  "regions_overlap_any fed pub_regions sub_regions =
     (if pub_regions = [] \<or> sub_regions = [] then True
      else list_ex (\<lambda>p. list_ex (\<lambda>s.
             case (map_of (regions fed) p, map_of (regions fed) s) of
               (Some rp, Some rs) \<Rightarrow> regions_intersect rp rs
             | _ \<Rightarrow> False) sub_regions) pub_regions)"

definition filter_subscribers_by_regions :: "Federation \<Rightarrow> FederateHandle hset \<Rightarrow> ObjectInstanceHandle
    \<Rightarrow> ObjectClassHandle \<Rightarrow> AttributeHandle \<Rightarrow> FederateHandle hset" where
  "filter_subscribers_by_regions fed subscribers inst cls attr =
     (case map_of (object_instances fed) inst of
        None \<Rightarrow> []
      | Some i \<Rightarrow>
          let pub_regions = unwrap_or [] (map_of (attribute_regions i) attr) in
          if pub_regions = [] then subscribers
          else filter (\<lambda>fh. case map_of (federates fed) fh of
                   None \<Rightarrow> False
                 | Some fs \<Rightarrow>
                     regions_overlap_any fed pub_regions
                       (unwrap_or [] (map_of (subscribed_attrs_regions (pub_sub fs)) (cls, attr)))) subscribers)"

subsection \<open>Directed interactions\<close>

definition decode_interaction_class_set :: "bytes list option \<Rightarrow> InteractionClassHandle list" where
  "decode_interaction_class_set s =
     (case s of None \<Rightarrow> [] | Some hs \<Rightarrow> List.map_filter (\<lambda>h. ok (decode_interaction_class h)) hs)"

definition publish_object_class_directed_interactions ::
  "FederateHandle \<Rightarrow> wire_handle \<Rightarrow> bytes list option \<Rightarrow> Federation \<Rightarrow> unit step" where
  "publish_object_class_directed_interactions me cls ixs fed =
     (case Option.bind cls (\<lambda>h. ok (decode_object_class h)) of
        None \<Rightarrow> (fed, [], exception_variant InvalidObjectClassHandle [])
      | Some c \<Rightarrow>
          (modify_pub_sub me (\<lambda>ps. ps\<lparr>published_directed_interactions :=
             hentry c [] (\<lambda>old. hs_extend old (decode_interaction_class_set ixs)) (published_directed_interactions ps)\<rparr>) fed,
           [], Inr ()))"

definition unpublish_object_class_directed_interactions ::
  "FederateHandle \<Rightarrow> wire_handle \<Rightarrow> bytes list option \<Rightarrow> Federation \<Rightarrow> unit step" where
  "unpublish_object_class_directed_interactions me cls ixs fed =
     (case Option.bind cls (\<lambda>h. ok (decode_object_class h)) of
        None \<Rightarrow> (fed, [], exception_variant InvalidObjectClassHandle [])
      | Some c \<Rightarrow>
          (modify_pub_sub me (\<lambda>ps. ps\<lparr>published_directed_interactions :=
             (case ixs of
                Some hs \<Rightarrow> prune_entry c (decode_interaction_class_set (Some hs)) (published_directed_interactions ps)
              | None \<Rightarrow> hremove c (published_directed_interactions ps))\<rparr>) fed,
           [], Inr ()))"

definition subscribe_object_class_directed_interactions ::
  "FederateHandle \<Rightarrow> wire_handle \<Rightarrow> bytes list option \<Rightarrow> Federation \<Rightarrow> unit step" where
  "subscribe_object_class_directed_interactions me cls ixs fed =
     (case Option.bind cls (\<lambda>h. ok (decode_object_class h)) of
        None \<Rightarrow> (fed, [], exception_variant InvalidObjectClassHandle [])
      | Some c \<Rightarrow>
          (modify_pub_sub me (\<lambda>ps. ps\<lparr>subscribed_directed_interactions :=
             hentry c [] (\<lambda>old. hs_extend old (decode_interaction_class_set ixs)) (subscribed_directed_interactions ps)\<rparr>) fed,
           [], Inr ()))"

definition unsubscribe_object_class_directed_interactions ::
  "FederateHandle \<Rightarrow> wire_handle \<Rightarrow> bytes list option \<Rightarrow> Federation \<Rightarrow> unit step" where
  "unsubscribe_object_class_directed_interactions me cls ixs fed =
     (case Option.bind cls (\<lambda>h. ok (decode_object_class h)) of
        None \<Rightarrow> (fed, [], exception_variant InvalidObjectClassHandle [])
      | Some c \<Rightarrow>
          (modify_pub_sub me (\<lambda>ps. ps\<lparr>subscribed_directed_interactions :=
             (case ixs of
                Some hs \<Rightarrow> prune_entry c (decode_interaction_class_set (Some hs)) (subscribed_directed_interactions ps)
              | None \<Rightarrow> hremove c (subscribed_directed_interactions ps))\<rparr>) fed,
           [], Inr ()))"

subsection \<open>Values\<close>

definition decode_attribute_value_map :: "wire_values option \<Rightarrow> AttributeHandleValueMap resp" where
  "decode_attribute_value_map m =
     (case m of
        None \<Rightarrow> Inr []
      | Some entries \<Rightarrow> try_fold (\<lambda>(handle, value) out.
            case handle of
              None \<Rightarrow> exception_variant InvalidAttributeHandle [DStr ''missing handle'']
            | Some h \<Rightarrow> (case decode_attribute h of
                  Inl n \<Rightarrow> exception_variant n []
                | Inr a \<Rightarrow> Inr (hinsert a value out))) entries [])"

definition decode_parameter_value_map :: "wire_values option \<Rightarrow> ParameterHandleValueMap resp" where
  "decode_parameter_value_map m =
     (case m of
        None \<Rightarrow> Inr []
      | Some entries \<Rightarrow> try_fold (\<lambda>(handle, value) out.
            case handle of
              None \<Rightarrow> exception_variant InvalidParameterHandle [DStr ''missing handle'']
            | Some h \<Rightarrow> (case decode_parameter h of
                  Inl n \<Rightarrow> exception_variant n []
                | Inr p \<Rightarrow> Inr (hinsert p value out))) entries [])"

definition send_directed_interaction :: "connections \<Rightarrow> FederateHandle \<Rightarrow> wire_handle \<Rightarrow> wire_handle
    \<Rightarrow> wire_values option \<Rightarrow> bytes \<Rightarrow> Federation \<Rightarrow> unit step" where
  "send_directed_interaction conns me cls instance_h params tag fed =
     (case Option.bind cls (\<lambda>h. ok (decode_interaction_class h)) of
        None \<Rightarrow> (fed, [], exception_variant InvalidInteractionClassHandle [])
      | Some c \<Rightarrow>
          (case Option.bind instance_h (\<lambda>h. ok (decode_object_instance h)) of
             None \<Rightarrow> (fed, [], exception_variant ObjectInstanceNotKnown [])
           | Some inst \<Rightarrow>
               (case decode_parameter_value_map params of
                  Inl e \<Rightarrow> (fed, [], Inl e)
                | Inr ps \<Rightarrow>
                    (case map_of (object_instances fed) inst of
                       None \<Rightarrow> (fed, [], exception_variant ObjectInstanceNotKnown [])
                     | Some i \<Rightarrow>
                         let targets0 = (if registrar i \<noteq> me then [registrar i] else []);
                             targets = fold (\<lambda>fs out.
                               if fs_handle fs = me then out
                               else (case map_of (subscribed_directed_interactions (pub_sub fs)) (oi_class i) of
                                   None \<Rightarrow> out
                                 | Some ixs \<Rightarrow> if c \<in> set ixs then hs_insert (fs_handle fs) out else out))
                               (hvalues (federates fed)) targets0
                         in (fed, fan_out (live_connections conns fed targets)
                                    (receive_directed_interaction c inst ps tag me), Inr ())))))"

end
