(* ===== verification/DataFlow.thy ===== *)
theory DataFlow
  imports ObjectMgmt
begin

text \<open>
  Data flow (\<^verbatim>\<open>crates/hla-rti/src/dispatch/data_flow.rs\<close>): attribute updates, interactions and deletions,
  in receive order and in time-stamp order.
\<close>

text \<open>The per-attribute ownership check of both update services.\<close>

definition owns_all :: "FederateHandle \<Rightarrow> ObjectInstance \<Rightarrow> AttributeHandle list \<Rightarrow> bool" where
  "owns_all me inst attrs = list_all (\<lambda>a. map_of (attribute_owners inst) a = Some me) attrs"

definition notify_subscribers_of_registration_subset :: "connections \<Rightarrow> ObjectInstanceHandle \<Rightarrow> ObjectClassHandle
    \<Rightarrow> FederateHandle \<Rightarrow> FederateHandle hset \<Rightarrow> Federation \<Rightarrow> Federation \<times> OutboundCallback list" where
  "notify_subscribers_of_registration_subset conns inst cls producer candidates fed =
     (if candidates = [] then (fed, [])
      else (case map_of (object_instances fed) inst of
          None \<Rightarrow> (fed, [])
        | Some i \<Rightarrow>
            let (fed1, targets) = discover_all inst candidates fed
            in (fed1, fan_out (live_connections conns fed1 targets)
                        (discover_object_instance inst cls (oi_name i) producer))))"

definition update_attribute_values :: "connections \<Rightarrow> FederateHandle \<Rightarrow> wire_handle \<Rightarrow> wire_values option \<Rightarrow> bytes
    \<Rightarrow> Federation \<Rightarrow> unit step" where
  "update_attribute_values conns me instance_h values tag fed =
     (case Option.bind instance_h (\<lambda>h. ok (decode_object_instance h)) of
        None \<Rightarrow> (fed, [], exception_variant ObjectInstanceNotKnown [DStr ''missing handle''])
      | Some inst \<Rightarrow>
          (case decode_attribute_value_map values of
             Inl e \<Rightarrow> (fed, [], Inl e)
           | Inr vs \<Rightarrow>
               (case map_of (object_instances fed) inst of
                  None \<Rightarrow> (fed, [], exception_variant ObjectInstanceNotKnown [])
                | Some i \<Rightarrow>
                    let attrs = hkeys vs in
                    if \<not> owns_all me i attrs then (fed, [], exception_variant AttributeNotOwned [])
                    else let subs = subscribers_for_attributes fed (oi_class i) attrs (Some me);
                             matched = fold (\<lambda>attr out.
                               hs_extend out (filter_subscribers_by_regions fed subs inst (oi_class i) attr)) attrs [];
                             (fed1, cbs1) = notify_subscribers_of_registration_subset conns inst (oi_class i) me matched fed;
                             cbs2 = fan_out (live_connections conns fed1 matched) (reflect_attribute_values inst vs tag me)
                         in (fed1, cbs1 @ cbs2, Inr ()))))"

definition update_attribute_values_with_time :: "connections \<Rightarrow> FederateHandle \<Rightarrow> wire_handle \<Rightarrow> wire_values option
    \<Rightarrow> bytes \<Rightarrow> bytes option \<Rightarrow> Federation \<Rightarrow> unit step" where
  "update_attribute_values_with_time conns me instance_h values tag time fed =
     (case Option.bind instance_h (\<lambda>h. ok (decode_object_instance h)) of
        None \<Rightarrow> (fed, [], exception_variant ObjectInstanceNotKnown [])
      | Some inst \<Rightarrow>
          (case decode_attribute_value_map values of
             Inl e \<Rightarrow> (fed, [], Inl e)
           | Inr vs \<Rightarrow>
               (case map_option decode_logical_time time of
                  None \<Rightarrow> (fed, [], exception_variant InvalidLogicalTime [])
                | Some (Inl n) \<Rightarrow> (fed, [], exception_variant n [])
                | Some (Inr t) \<Rightarrow>
                    (case map_of (object_instances fed) inst of
                       None \<Rightarrow> (fed, [], exception_variant ObjectInstanceNotKnown [])
                     | Some i \<Rightarrow>
                         let attrs = hkeys vs;
                             bound = (case map_of (federates fed) me of
                                 None \<Rightarrow> None
                               | Some fs \<Rightarrow> if is_regulating (time_st fs)
                                   then Some (f64_add (current_time (time_st fs)) (lookahead (time_st fs))) else None)
                         in if \<not> owns_all me i attrs then (fed, [], exception_variant AttributeNotOwned [])
                            else if (case bound of None \<Rightarrow> False | Some b \<Rightarrow> f64_lt t b)
                            then (fed, [], exception_variant InvalidLogicalTime
                                   [DStr ''time '', DF64 t, DStr '' < current+lookahead '', DF64 (the bound)])
                            else let subs = subscribers_for_attributes fed (oi_class i) attrs (Some me);
                                     (fed1, cbs1) = notify_subscribers_of_registration_subset conns inst (oi_class i) me subs fed;
                                     (fed2, cbs2) = route_tso_or_immediate conns subs t
                                       (reflect_attribute_values_with_time inst vs tag me t) fed1
                                 in (fed2, cbs1 @ cbs2, Inr ())))))"

text \<open>The checks both interaction services start with.\<close>

definition check_interaction ::
  "FederateHandle \<Rightarrow> wire_handle \<Rightarrow> wire_values option \<Rightarrow> Federation \<Rightarrow> (InteractionClassHandle \<times> ParameterHandleValueMap) resp" where
  "check_interaction me cls params fed =
     (case Option.bind cls (\<lambda>h. ok (decode_interaction_class h)) of
        None \<Rightarrow> exception_variant InvalidInteractionClassHandle []
      | Some c \<Rightarrow>
          if interaction_class_def (fom fed) c = None then exception_variant InteractionClassNotDefined []
          else (case map_of (federates fed) me of
              None \<Rightarrow> not_member
            | Some fs \<Rightarrow>
                if c \<notin> set (published_interactions (pub_sub fs)) then exception_variant InteractionClassNotPublished []
                else (case decode_parameter_value_map params of Inl e \<Rightarrow> Inl e | Inr ps \<Rightarrow> Inr (c, ps))))"

definition send_interaction :: "connections \<Rightarrow> FederateHandle \<Rightarrow> wire_handle \<Rightarrow> wire_values option \<Rightarrow> bytes
    \<Rightarrow> Federation \<Rightarrow> unit step" where
  "send_interaction conns me cls params tag fed =
     (case check_interaction me cls params fed of
        Inl e \<Rightarrow> (fed, [], Inl e)
      | Inr (c, ps) \<Rightarrow>
          (fed, fan_out (live_connections conns fed (subscribers_for_interaction fed c (Some me)))
                  (receive_interaction c ps tag me), Inr ()))"

definition send_interaction_with_time :: "connections \<Rightarrow> FederateHandle \<Rightarrow> wire_handle \<Rightarrow> wire_values option \<Rightarrow> bytes
    \<Rightarrow> bytes option \<Rightarrow> Federation \<Rightarrow> unit step" where
  "send_interaction_with_time conns me cls params tag time fed =
     (case check_interaction me cls params fed of
        Inl e \<Rightarrow> (fed, [], Inl e)
      | Inr (c, ps) \<Rightarrow>
          (case map_option decode_logical_time time of
             None \<Rightarrow> (fed, [], exception_variant InvalidLogicalTime [])
           | Some (Inl n) \<Rightarrow> (fed, [], exception_variant n [])
           | Some (Inr t) \<Rightarrow>
               let (fed1, cbs) = route_tso_or_immediate conns (subscribers_for_interaction fed c (Some me)) t
                     (receive_interaction_with_time c ps tag me t) fed
               in (fed1, cbs, Inr ())))"

text \<open>
  The common part of the two deletions: the instance is removed, and every other federate that had
  discovered it forgets it.
\<close>

definition forget_instance :: "FederateHandle \<Rightarrow> ObjectInstanceHandle \<Rightarrow> Federation \<Rightarrow> Federation \<times> FederateHandle hset" where
  "forget_instance me inst fed =
     (fed\<lparr>federates := map (\<lambda>(fh, fs). (fh, if fh = me then fs
         else fs\<lparr>pub_sub := (pub_sub fs)\<lparr>discovered_instances := hs_remove inst (discovered_instances (pub_sub fs))\<rparr>\<rparr>)) (federates fed)\<rparr>,
      map fst (filter (\<lambda>(fh, fs). fh \<noteq> me \<and> inst \<in> set (discovered_instances (pub_sub fs))) (federates fed)))"

definition remove_instance ::
  "FederateHandle \<Rightarrow> ObjectInstanceHandle \<Rightarrow> Federation \<Rightarrow> ExceptionData + Federation \<times> FederateHandle hset" where
  "remove_instance me inst fed =
     (case map_of (object_instances fed) inst of
        None \<Rightarrow> exception_variant ObjectInstanceNotKnown []
      | Some i \<Rightarrow>
          if registrar i \<noteq> me then exception_variant DeletePrivilegeNotHeld []
          else Inr (forget_instance me inst (fed\<lparr>object_instances := hremove inst (object_instances fed)\<rparr>)))"

definition delete_object_instance ::
  "connections \<Rightarrow> FederateHandle \<Rightarrow> wire_handle \<Rightarrow> bytes \<Rightarrow> Federation \<Rightarrow> unit step" where
  "delete_object_instance conns me instance_h tag fed =
     (case Option.bind instance_h (\<lambda>h. ok (decode_object_instance h)) of
        None \<Rightarrow> (fed, [], exception_variant ObjectInstanceNotKnown [])
      | Some inst \<Rightarrow>
          (case remove_instance me inst fed of
             Inl e \<Rightarrow> (fed, [], Inl e)
           | Inr (fed1, to_notify) \<Rightarrow>
               (fed1, fan_out (live_connections conns fed1 to_notify) (remove_object_instance inst tag me), Inr ())))"

definition delete_object_instance_with_time ::
  "connections \<Rightarrow> FederateHandle \<Rightarrow> wire_handle \<Rightarrow> bytes \<Rightarrow> bytes option \<Rightarrow> Federation \<Rightarrow> unit step" where
  "delete_object_instance_with_time conns me instance_h tag time fed =
     (case Option.bind instance_h (\<lambda>h. ok (decode_object_instance h)) of
        None \<Rightarrow> (fed, [], exception_variant ObjectInstanceNotKnown [])
      | Some inst \<Rightarrow>
          (case map_option decode_logical_time time of
             None \<Rightarrow> (fed, [], exception_variant InvalidLogicalTime [])
           | Some (Inl n) \<Rightarrow> (fed, [], exception_variant n [])
           | Some (Inr t) \<Rightarrow>
               (case remove_instance me inst fed of
                  Inl e \<Rightarrow> (fed, [], Inl e)
                | Inr (fed1, to_notify) \<Rightarrow>
                    let (fed2, cbs) = route_tso_or_immediate conns to_notify t
                          (remove_object_instance_with_time inst tag me t) fed1
                    in (fed2, cbs, Inr ()))))"

end
