(* ===== verification/SyncPoints.thy ===== *)
theory SyncPoints
  imports DataFlow
begin

text \<open>
  Synchronization points (\<^verbatim>\<open>crates/hla-rti/src/dispatch/sync_points.rs\<close>).
\<close>

definition register_synchronization_point ::
  "connections \<Rightarrow> FederateHandle \<Rightarrow> string \<Rightarrow> bytes \<Rightarrow> FederateHandle hset option \<Rightarrow> Federation \<Rightarrow> unit step" where
  "register_synchronization_point conns me label tag participant_subset fed =
     (if label = [] then (fed, [], exception_variant InvalidSynchronizationPointLabel [DStr ''label must not be empty''])
      else let parts = (case participant_subset of
                 Some s \<Rightarrow> if s \<noteq> [] then s else hkeys (federates fed)
               | None \<Rightarrow> hkeys (federates fed))
           in if contains_key (sync_points fed) label
              then (fed, notify conns fed me (synchronization_point_registration_failed label 0), Inr ())
              else let fed1 = fed\<lparr>sync_points := hinsert label
                         \<lparr>sp_label = label, sp_tag = tag, participants = parts, achieved = [], failed_to_sync = []\<rparr>
                         (sync_points fed)\<rparr>
                   in (fed1, notify conns fed1 me (synchronization_point_registration_succeeded label) @
                             fan_out (live_connections conns fed1 parts) (announce_synchronization_point label tag), Inr ()))"

definition synchronization_point_achieved ::
  "connections \<Rightarrow> FederateHandle \<Rightarrow> string \<Rightarrow> bool \<Rightarrow> Federation \<Rightarrow> unit step" where
  "synchronization_point_achieved conns me label successfully fed =
     (case map_of (sync_points fed) label of
        None \<Rightarrow> (fed, [], exception_variant SynchronizationPointLabelNotAnnounced [DStr label])
      | Some sp \<Rightarrow>
          if me \<notin> set (participants sp)
          then (fed, [], exception_variant FederateNotInSynchronizationGroup
                 [DStr ''federate '', DNat (unat me), DStr '' not in sync set for '', DStr label])
          else let sp1 = sp\<lparr>achieved := hs_insert me (achieved sp)\<rparr>;
                   sp2 = (if \<not> successfully then sp1\<lparr>failed_to_sync := hs_insert me (failed_to_sync sp1)\<rparr> else sp1)
               in if length (achieved sp2) = length (participants sp2)
                  then let fed1 = fed\<lparr>sync_points := hremove label (sync_points fed)\<rparr>
                       in (fed1, fan_out (live_connections conns fed1 (participants sp2))
                                   (federation_synchronized label (failed_to_sync sp2)), Inr ())
                  else (fed\<lparr>sync_points := hinsert label sp2 (sync_points fed)\<rparr>, [], Inr ()))"

subsection \<open>Running a synchronization point\<close>

definition sync_ok :: "SyncPoint \<Rightarrow> bool" where
  "sync_ok sp \<longleftrightarrow> distinct (participants sp) \<and> distinct (achieved sp) \<and> set (achieved sp) \<subseteq> set (participants sp)"

definition sync_achieve :: "FederateHandle \<Rightarrow> bool \<Rightarrow> SyncPoint \<Rightarrow> SyncPoint" where
  "sync_achieve me successfully sp = sp\<lparr>achieved := hs_insert me (achieved sp),
     failed_to_sync := (if successfully then failed_to_sync sp else hs_insert me (failed_to_sync sp))\<rparr>"

text \<open>A sequence of calls, by federate and success flag, with the callbacks they emit.\<close>

primrec achieve_calls :: "connections \<Rightarrow> string \<Rightarrow> (FederateHandle \<times> bool) list \<Rightarrow> Federation \<Rightarrow> Federation \<times> OutboundCallback list" where
  "achieve_calls conns label [] fed = (fed, [])"
| "achieve_calls conns label (c # calls) fed =
     (case synchronization_point_achieved conns (fst c) label (snd c) fed of (fed1, cbs, _) \<Rightarrow>
        (case achieve_calls conns label calls fed1 of (fed2, cbs') \<Rightarrow> (fed2, cbs @ cbs')))"

lemma sync_ok_achieve: "sync_ok sp \<Longrightarrow> me \<in> set (participants sp) \<Longrightarrow> sync_ok (sync_achieve me b sp)"
  by (auto simp: sync_ok_def sync_achieve_def)

lemma sync_complete_iff:
  assumes "sync_ok sp"
  shows "length (achieved sp) = length (participants sp) \<longleftrightarrow> set (participants sp) \<subseteq> set (achieved sp)"
proof -
  have s: "set (achieved sp) \<subseteq> set (participants sp)" and d: "distinct (achieved sp)" "distinct (participants sp)"
    using assms by (auto simp: sync_ok_def)
  show ?thesis using s d card_subset_eq [OF finite_set s]
    by (auto simp: length_distinct_card)
qed

lemma achieved_step:
  assumes "map_of (sync_points fed) label = Some sp" "sync_ok sp" "me \<in> set (participants sp)"
  shows "synchronization_point_achieved conns me label b fed =
    (if set (participants sp) \<subseteq> insert me (set (achieved sp))
     then (fed\<lparr>sync_points := hremove label (sync_points fed)\<rparr>,
           fan_out (live_connections conns fed (participants sp))
             (federation_synchronized label (failed_to_sync (sync_achieve me b sp))), Inr ())
     else (fed\<lparr>sync_points := hinsert label (sync_achieve me b sp) (sync_points fed)\<rparr>, [], Inr ()))"
proof -
  let ?sp = "sync_achieve me b sp"
  have "synchronization_point_achieved conns me label b fed =
    (if length (achieved ?sp) = length (participants ?sp)
     then let fed1 = fed\<lparr>sync_points := hremove label (sync_points fed)\<rparr>
          in (fed1, fan_out (live_connections conns fed1 (participants ?sp)) (federation_synchronized label (failed_to_sync ?sp)), Inr ())
     else (fed\<lparr>sync_points := hinsert label ?sp (sync_points fed)\<rparr>, [], Inr ()))"
    using assms by (cases b) (simp_all add: synchronization_point_achieved_def sync_achieve_def Let_def)
  moreover have "live_connections conns (fed\<lparr>sync_points := x\<rparr>) = live_connections conns fed" for x
    by (simp add: live_connections_def fun_eq_iff)
  moreover have "participants ?sp = participants sp" "set (achieved ?sp) = insert me (set (achieved sp))"
    by (simp_all add: sync_achieve_def)
  ultimately show ?thesis using sync_complete_iff [OF sync_ok_achieve [OF assms(2,3), of b]] by (simp add: Let_def)
qed

lemma achieved_other:
  assumes "map_of (sync_points fed) label = Some sp" "me \<notin> set (participants sp)"
  shows "fst (synchronization_point_achieved conns me label b fed) = fed"
    "fst (snd (synchronization_point_achieved conns me label b fed)) = []"
  using assms by (simp_all add: synchronization_point_achieved_def)

lemma achieve_calls_wait:
  assumes "map_of (sync_points fed) label = Some sp" "sync_ok sp" "p \<in> set (participants sp)" "p \<notin> set (achieved sp)"
    and "p \<notin> fst ` set calls"
  shows "\<exists>sp'. map_of (sync_points (fst (achieve_calls conns label calls fed))) label = Some sp' \<and>
    participants sp' = participants sp \<and> p \<notin> set (achieved sp') \<and> snd (achieve_calls conns label calls fed) = []"
  using assms
proof (induction calls arbitrary: fed sp)
  case (Cons c calls)
  show ?case
  proof (cases "fst c \<in> set (participants sp)")
    case True
    let ?sp = "sync_achieve (fst c) (snd c) sp"
    have "\<not> set (participants sp) \<subseteq> insert (fst c) (set (achieved sp))" using Cons.prems by auto
    moreover have "map_of (sync_points (fed\<lparr>sync_points := hinsert label ?sp (sync_points fed)\<rparr>)) label = Some ?sp" by simp
    moreover have "p \<notin> set (achieved ?sp)" "participants ?sp = participants sp"
      using Cons.prems by (auto simp: sync_achieve_def)
    ultimately show ?thesis using Cons.IH [OF _ sync_ok_achieve [OF Cons.prems(2) True, of "snd c"]] Cons.prems
      by (simp add: achieved_step [OF Cons.prems(1,2) True] split_def)
  next
    case False
    show ?thesis using Cons.IH [OF Cons.prems(1-4)] Cons.prems(5) achieved_other [OF Cons.prems(1) False, of conns "snd c"]
      by (simp add: split_def)
  qed
qed auto

lemma achieve_calls_complete:
  assumes "map_of (sync_points fed) label = Some sp" "sync_ok sp"
    and "distinct (map fst calls)" "fst ` set calls = set (participants sp) - set (achieved sp)" "calls \<noteq> []"
  shows "\<exists>failed. snd (achieve_calls conns label calls fed) =
      fan_out (live_connections conns fed (participants sp)) (federation_synchronized label failed) \<and>
    set failed = set (failed_to_sync sp) \<union> {fh. (fh, False) \<in> set calls} \<and>
    map_of (sync_points (fst (achieve_calls conns label calls fed))) = (map_of (sync_points fed))(label := None)"
  using assms
proof (induction calls arbitrary: fed sp)
  case (Cons c calls)
  let ?sp = "sync_achieve (fst c) (snd c) sp"
  let ?fed = "fed\<lparr>sync_points := hinsert label ?sp (sync_points fed)\<rparr>"
  have c: "fst c \<in> set (participants sp)" using Cons.prems(4) by auto
  have f: "set (failed_to_sync ?sp) = set (failed_to_sync sp) \<union> {fh. (fh, False) \<in> {c}}"
    by (cases c) (auto simp: sync_achieve_def)
  show ?case
  proof (cases "calls = []")
    case True
    then have "set (participants sp) \<subseteq> insert (fst c) (set (achieved sp))" using Cons.prems(4) by auto
    then show ?thesis using True f by (auto simp: achieved_step [OF Cons.prems(1,2) c])
  next
    case False
    then obtain d where d: "d \<in> set calls" by (cases calls) auto
    have more: "\<not> set (participants sp) \<subseteq> insert (fst c) (set (achieved sp))"
    proof
      assume "set (participants sp) \<subseteq> insert (fst c) (set (achieved sp))"
      moreover have "fst d \<in> set (participants sp) - set (achieved sp)" using d Cons.prems(4) by auto
      moreover have "fst d \<noteq> fst c" using imageI [OF d, of fst] Cons.prems(3)
        by (metis distinct.simps(2) list.set_map list.simps(9))
      ultimately show False by blast
    qed
    have rest: "fst ` set calls = set (participants ?sp) - set (achieved ?sp)"
    proof -
      have "set (participants ?sp) - set (achieved ?sp) = set (participants sp) - set (achieved sp) - {fst c}"
        by (auto simp: sync_achieve_def)
      moreover have "fst c \<notin> fst ` set calls" using Cons.prems(3) by simp
      ultimately show ?thesis by (simp flip: Cons.prems(4))
    qed
    have same: "participants ?sp = participants sp" "live_connections conns ?fed = live_connections conns fed"
      by (simp_all add: sync_achieve_def live_connections_def fun_eq_iff)
    have "map_of (sync_points ?fed) label = Some ?sp" "distinct (map fst calls)" using Cons.prems(3) by simp_all
    from Cons.IH [OF this(1) sync_ok_achieve [OF Cons.prems(2) c, of "snd c"] this(2) rest False, unfolded same]
    obtain failed where r: "snd (achieve_calls conns label calls ?fed) =
        fan_out (live_connections conns fed (participants sp)) (federation_synchronized label failed)"
      "set failed = set (failed_to_sync ?sp) \<union> {fh. (fh, False) \<in> set calls}"
      "map_of (sync_points (fst (achieve_calls conns label calls ?fed))) = (map_of (sync_points ?fed))(label := None)"
      by blast
    have step: "achieve_calls conns label (c # calls) fed = achieve_calls conns label calls ?fed"
      using more by (simp add: achieved_step [OF Cons.prems(1,2) c] split_def)
    have "set failed = set (failed_to_sync sp) \<union> {fh. (fh, False) \<in> set (c # calls)}" using r(2) f by auto
    moreover have "(map_of (sync_points ?fed))(label := None) = (map_of (sync_points fed))(label := None)" by auto
    ultimately show ?thesis unfolding step using r(1,3) by metis
  qed
qed simp

definition new_sync_point :: "string \<Rightarrow> bytes \<Rightarrow> Federation \<Rightarrow> SyncPoint" where
  "new_sync_point label tag fed =
     \<lparr>sp_label = label, sp_tag = tag, participants = hkeys (federates fed), achieved = [], failed_to_sync = []\<rparr>"

lemma register_new:
  assumes "label \<noteq> []" "map_of (sync_points fed) label = None"
  shows "fst (register_synchronization_point conns me label tag None fed) =
    fed\<lparr>sync_points := hinsert label (new_sync_point label tag fed) (sync_points fed)\<rparr>"
proof -
  have "label \<notin> fst ` set (sync_points fed)" using assms(2) by (simp add: map_of_eq_None_iff)
  then show ?thesis using assms by (simp add: register_synchronization_point_def new_sync_point_def Let_def)
qed

lemma new_sync_point_ok: "wf_hmap (federates fed) \<Longrightarrow> sync_ok (new_sync_point label tag fed)"
  by (simp add: sync_ok_def new_sync_point_def)

definition pair_fed :: Federation where
  "pair_fed = (new_federation ''f'' empty_fom)\<lparr>federates :=
     map (\<lambda>h. (h, \<lparr>fs_handle = h, fs_name = ''a'', federate_type = [], fs_session_id = ucast h, pub_sub = default_pub_sub,
        time_st = default_time, switches = default_switches, tso_queue = []\<rparr>)) [1, 2]\<rparr>"

lemma pair_fed_simps [simp]: "map fst (federates pair_fed) = [1, 2]" "sync_points pair_fed = []"
  by (simp_all add: pair_fed_def new_federation_def)

lemma pair_fed_keys: "fst ` set (federates pair_fed) = {1, 2}"
  by (simp flip: set_map)

subsection \<open>Properties\<close>

text \<open>C18. A synchronization point completes. After a federate registers a new label for all joined federates,
  let each of them report the point achieved, in any order: the last report announces that the federation
  is synchronized, to every participant and once, with exactly the federates that reported failure; the
  point is gone, and no other point has changed.\<close>

theorem synchronization_completes:
  assumes "wf_hmap (federates fed)" and "label \<noteq> []" and "map_of (sync_points fed) label = None"
    and "distinct (map fst calls)" and "fst ` set calls = fst ` set (federates fed)" and "calls \<noteq> []"
  shows "\<exists>failed. let fed1 = fst (register_synchronization_point conns me label tag None fed) in
      snd (achieve_calls conns label calls fed1) =
        fan_out (live_connections conns fed (hkeys (federates fed))) (federation_synchronized label failed) \<and>
      set failed = {fh. (fh, False) \<in> set calls} \<and>
      map_of (sync_points (fst (achieve_calls conns label calls fed1))) = map_of (sync_points fed)"
proof -
  let ?sp = "new_sync_point label tag fed"
  let ?fed = "fed\<lparr>sync_points := hinsert label ?sp (sync_points fed)\<rparr>"
  have at: "map_of (sync_points ?fed) label = Some ?sp" by simp
  have "fst ` set calls = set (participants ?sp) - set (achieved ?sp)" using assms(5) by (simp add: new_sync_point_def)
  from achieve_calls_complete [OF at new_sync_point_ok [OF assms(1)] assms(4) this assms(6), of conns]
  obtain failed where "snd (achieve_calls conns label calls ?fed) =
      fan_out (live_connections conns ?fed (participants ?sp)) (federation_synchronized label failed)"
    "set failed = {fh. (fh, False) \<in> set calls}"
    "map_of (sync_points (fst (achieve_calls conns label calls ?fed))) = (map_of (sync_points ?fed))(label := None)"
    by (auto simp: new_sync_point_def)
  moreover have "live_connections conns ?fed (participants ?sp) = live_connections conns fed (hkeys (federates fed))"
    by (simp add: live_connections_def new_sync_point_def)
  moreover have "(map_of (sync_points ?fed))(label := None) = map_of (sync_points fed)" using assms(3) by auto
  ultimately show ?thesis by (auto simp: register_new [OF assms(2,3)] Let_def)
qed

theorem synchronization_completes_witness:
  "\<exists>failed. snd (achieve_calls [1, 2] ''s'' [(2, True), (1, False)]
       (fst (register_synchronization_point [1, 2] 1 ''s'' [] None pair_fed))) =
     fan_out (live_connections [1, 2] pair_fed [1, 2]) (federation_synchronized ''s'' failed) \<and> set failed = {1}"
proof -
  have "{fh. (fh, False) \<in> set [(2, True), (1, False)]} = {1 :: FederateHandle}" by auto
  with synchronization_completes [of pair_fed "''s''" "[(2, True), (1, False)]" "[1, 2]" 1 "[]"] show ?thesis
    by (auto simp: Let_def pair_fed_keys)
qed

text \<open>C36. A synchronization point waits for every participant. As long as one federate that was joined when
  the point was registered has not reported, whoever else reports and however often, nothing is announced
  and the point stays, with the same participants; so a participant that resigns first leaves it pending.\<close>

theorem synchronization_waits:
  assumes "wf_hmap (federates fed)" and "label \<noteq> []" and "map_of (sync_points fed) label = None"
    and "p \<in> fst ` set (federates fed)" and "p \<notin> fst ` set calls"
  shows "\<exists>sp. let fed1 = fst (register_synchronization_point conns me label tag None fed) in
      snd (achieve_calls conns label calls fed1) = [] \<and>
      map_of (sync_points (fst (achieve_calls conns label calls fed1))) label = Some sp \<and>
      participants sp = hkeys (federates fed) \<and> p \<notin> set (achieved sp)"
proof -
  let ?sp = "new_sync_point label tag fed"
  let ?fed = "fed\<lparr>sync_points := hinsert label ?sp (sync_points fed)\<rparr>"
  have "map_of (sync_points ?fed) label = Some ?sp" "p \<in> set (participants ?sp)" "p \<notin> set (achieved ?sp)"
    using assms(4) by (simp_all add: new_sync_point_def)
  from achieve_calls_wait [OF this(1) new_sync_point_ok [OF assms(1)] this(2,3) assms(5), of conns]
  show ?thesis by (auto simp: register_new [OF assms(2,3)] new_sync_point_def)
qed

theorem synchronization_waits_witness:
  "snd (achieve_calls [1, 2] ''s'' [(2, True), (2, True)]
     (fst (register_synchronization_point [1, 2] 1 ''s'' [] None pair_fed))) = []"
  using synchronization_waits [of pair_fed "''s''" 1 "[(2, True), (2, True)]" "[1, 2]" 1 "[]"]
  by (auto simp: Let_def pair_fed_keys)

end
