(* ===== verification/SaveRestore.thy ===== *)
theory SaveRestore
  imports SyncPoints
begin

text \<open>
  Federation save and restore: the orchestration of \<^verbatim>\<open>crates/hla-rti/src/dispatch/save.rs\<close> and
  \<^verbatim>\<open>restore.rs\<close>, and the snapshots of \<^verbatim>\<open>crates/hla-rti/src/persistence.rs\<close>. The JSON serializer is a
  parameter and the file system a table from file names to contents: \<open>Disk\<close> holds the files, and the
  file names for which the operating system reports an error other than a missing file.
\<close>

subsection \<open>Snapshots\<close>

record SerInstance =
  si_handle :: u64
  si_class :: u32
  si_name :: string
  si_registrar_name :: string
  si_attribute_owners :: "(u32 \<times> string) list"

record SerSyncPoint =
  ss_label :: string
  ss_tag :: bytes
  ss_participants :: "string list"

record FederationSnapshot =
  sn_federation_name :: string
  sn_instances :: "SerInstance list"
  sn_sync_points :: "SerSyncPoint list"

definition handle_to_name :: "Federation \<Rightarrow> (FederateHandle, string) hmap" where
  "handle_to_name fed = hcollect (map (\<lambda>fs. (fs_handle fs, fs_name fs)) (hvalues (federates fed)))"

definition name_to_handle :: "Federation \<Rightarrow> (string, FederateHandle) hmap" where
  "name_to_handle fed = hcollect (map (\<lambda>fs. (fs_name fs, fs_handle fs)) (hvalues (federates fed)))"

definition ser_instance :: "(FederateHandle, string) hmap \<Rightarrow> ObjectInstance \<Rightarrow> SerInstance" where
  "ser_instance names inst =
     \<lparr>si_handle = oi_handle inst, si_class = oi_class inst, si_name = oi_name inst,
      si_registrar_name = unwrap_or ''<unknown>'' (map_of names (registrar inst)),
      si_attribute_owners = List.map_filter (\<lambda>(attr, fh). map_option (Pair attr) (map_of names fh)) (attribute_owners inst)\<rparr>"

definition ser_sync_point :: "(FederateHandle, string) hmap \<Rightarrow> SyncPoint \<Rightarrow> SerSyncPoint" where
  "ser_sync_point names sp =
     \<lparr>ss_label = sp_label sp, ss_tag = sp_tag sp, ss_participants = List.map_filter (map_of names) (participants sp)\<rparr>"

definition snapshot :: "Federation \<Rightarrow> FederationSnapshot" where
  "snapshot fed =
     (let names = handle_to_name fed in
      \<lparr>sn_federation_name = fed_name fed,
       sn_instances = map (ser_instance names) (hvalues (object_instances fed)),
       sn_sync_points = map (ser_sync_point names) (hvalues (sync_points fed))\<rparr>)"

definition restore_instance :: "(string, FederateHandle) hmap \<Rightarrow> SerInstance
    \<Rightarrow> (ObjectInstanceHandle, ObjectInstance) hmap \<times> u64 \<Rightarrow> (ObjectInstanceHandle, ObjectInstance) hmap \<times> u64" where
  "restore_instance handles ser st =
     (case st of (insts, next_id) \<Rightarrow>
        (case map_of handles (si_registrar_name ser) of
           None \<Rightarrow> (insts, next_id)
         | Some reg \<Rightarrow>
             (hinsert (si_handle ser)
                \<lparr>oi_handle = si_handle ser, oi_class = si_class ser, oi_name = si_name ser, registrar = reg,
                 attribute_owners = hcollect (List.map_filter
                   (\<lambda>(attr, name). map_option (Pair attr) (map_of handles name)) (si_attribute_owners ser)),
                 attribute_regions = []\<rparr> insts,
              if next_id \<le> si_handle ser then si_handle ser + 1 else next_id)))"

definition restore_sync_point :: "(string, FederateHandle) hmap \<Rightarrow> SerSyncPoint \<Rightarrow> (string, SyncPoint) hmap \<Rightarrow> (string, SyncPoint) hmap" where
  "restore_sync_point handles ser sps =
     hinsert (ss_label ser)
       \<lparr>sp_label = ss_label ser, sp_tag = ss_tag ser,
        participants = hs_extend [] (List.map_filter (map_of handles) (ss_participants ser)),
        achieved = [], failed_to_sync = []\<rparr> sps"

definition apply_snapshot :: "FederationSnapshot \<Rightarrow> Federation \<Rightarrow> Federation" where
  "apply_snapshot snap fed =
     (let handles = name_to_handle fed;
          (insts, next_id) = fold (restore_instance handles) (sn_instances snap) ([], next_object_id fed)
      in fed\<lparr>object_instances := insts, next_object_id := next_id,
             sync_points := fold (restore_sync_point handles) (sn_sync_points snap) []\<rparr>)"

subsection \<open>Snapshot files\<close>

definition safe_name :: "string \<Rightarrow> string" where
  "safe_name s = map (\<lambda>c. if c = CHR ''/'' \<or> c = CHR 0x5C then CHR ''_'' else c) s"

text \<open>The name of a snapshot file inside the save directory.\<close>

definition snapshot_path :: "string \<Rightarrow> string \<Rightarrow> string" where
  "snapshot_path federation label = safe_name federation @ ''__'' @ safe_name label @ ''.json''"

record Disk =
  files :: "(string, string) hmap"
  failing :: "string list"

record Serde =
  to_json :: "FederationSnapshot \<Rightarrow> string option"
  from_json :: "string \<Rightarrow> FederationSnapshot option"

datatype IoError = NotFound | OtherError

definition write_snapshot :: "Serde \<Rightarrow> string \<Rightarrow> string \<Rightarrow> FederationSnapshot \<Rightarrow> Disk \<Rightarrow> Disk" where
  "write_snapshot serde federation label snap disk =
     (let path = snapshot_path federation label in
      case to_json serde snap of
        None \<Rightarrow> disk
      | Some json \<Rightarrow> if path \<in> set (failing disk) then disk else disk\<lparr>files := hinsert path json (files disk)\<rparr>)"

definition read_snapshot :: "Serde \<Rightarrow> string \<Rightarrow> string \<Rightarrow> Disk \<Rightarrow> IoError + FederationSnapshot" where
  "read_snapshot serde federation label disk =
     (let path = snapshot_path federation label in
      if path \<in> set (failing disk) then Inl OtherError
      else (case map_of (files disk) path of
          None \<Rightarrow> Inl NotFound
        | Some text \<Rightarrow> (case from_json serde text of None \<Rightarrow> Inl OtherError | Some snap \<Rightarrow> Inr snap)))"

subsection \<open>Save\<close>

definition request_federation_save :: "connections \<Rightarrow> string \<Rightarrow> Federation \<Rightarrow> unit step" where
  "request_federation_save conns label fed =
     (if label = [] then (fed, [], exception_variant InvalidSaveLabel [])
      else if current_save fed \<noteq> None then (fed, [], exception_variant SaveInProgress [])
      else let parts = hkeys (federates fed);
               fed1 = fed\<lparr>current_save := Some \<lparr>so_label = label, so_statuses = map (\<lambda>fh. (fh, SaveInitiated)) parts\<rparr>,
                          last_save_label := Some label\<rparr>
           in (fed1, fan_out (live_connections conns fed1 parts) (initiate_federate_save label), Inr ()))"

definition federate_save_begun :: "FederateHandle \<Rightarrow> Federation \<Rightarrow> unit step" where
  "federate_save_begun me fed =
     (case current_save fed of
        None \<Rightarrow> (fed, [], exception_variant SaveNotInProgress [])
      | Some save \<Rightarrow>
          (case map_of (so_statuses save) me of
             None \<Rightarrow> (fed, [], exception_variant FederateNotInSaveSet [])
           | Some st \<Rightarrow>
               if st = SaveInitiated
               then (fed\<lparr>current_save := Some (save\<lparr>so_statuses := hinsert me BegunSave (so_statuses save)\<rparr>)\<rparr>, [], Inr ())
               else (fed, [], exception_variant FederateNotInSaveInitiated [])))"

text \<open>The disk after a completed save: the snapshot of the federation under its last save label.\<close>

definition persist_federation_snapshot_on_success :: "Serde \<Rightarrow> Federation \<Rightarrow> Disk \<Rightarrow> Disk" where
  "persist_federation_snapshot_on_success serde fed disk =
     (case last_save_label fed of
        None \<Rightarrow> disk
      | Some label \<Rightarrow> write_snapshot serde (fed_name fed) label (snapshot fed) disk)"

definition federate_save_progressed ::
  "connections \<Rightarrow> Serde \<Rightarrow> FederateHandle \<Rightarrow> bool \<Rightarrow> Disk \<Rightarrow> Federation \<Rightarrow> Disk \<times> bool step" where
  "federate_save_progressed conns serde me successfully disk fed =
     (case current_save fed of
        None \<Rightarrow> (disk, fed, [], exception_variant SaveNotInProgress [])
      | Some save \<Rightarrow>
          let statuses = hinsert me (if successfully then SaveComplete else SaveNotComplete) (so_statuses save);
              any_failed = list_ex (\<lambda>s. s = SaveNotComplete) (hvalues statuses);
              all_done = list_all (\<lambda>s. s = SaveComplete \<or> s = SaveNotComplete) (hvalues statuses)
          in if \<not> all_done then (disk, fed\<lparr>current_save := Some (save\<lparr>so_statuses := statuses\<rparr>)\<rparr>, [], Inr successfully)
             else let fed1 = fed\<lparr>current_save := None\<rparr>;
                      conn = live_connections conns fed1 (hkeys (federates fed1))
                  in if any_failed then (disk, fed1, fan_out conn (federation_not_saved 0), Inr successfully)
                     else (persist_federation_snapshot_on_success serde fed1 disk, fed1,
                           fan_out conn federation_saved, Inr successfully))"

definition abort_federation_save :: "Federation \<Rightarrow> unit step" where
  "abort_federation_save fed =
     (if current_save fed = None then (fed, [], exception_variant SaveNotInProgress [])
      else (fed\<lparr>current_save := None\<rparr>, [], Inr ()))"

subsection \<open>Restore\<close>

definition request_federation_restore ::
  "connections \<Rightarrow> Serde \<Rightarrow> FederateHandle \<Rightarrow> string \<Rightarrow> Disk \<Rightarrow> Federation \<Rightarrow> unit step" where
  "request_federation_restore conns serde me label disk fed =
     (if label = [] then (fed, [], exception_variant InvalidRestoreLabel [])
      else (case read_snapshot serde (fed_name fed) label disk of
          Inl OtherError \<Rightarrow> (fed, notify conns fed me (request_federation_restore_failed label), Inr ())
        | result \<Rightarrow>
            let parts = map (\<lambda>fs. (fs_handle fs, fs_name fs)) (hvalues (federates fed)) in
            if current_restore fed \<noteq> None then (fed, [], exception_variant RestoreInProgress [])
            else let fed1 = fed\<lparr>current_restore := Some \<lparr>ro_label = label,
                                 ro_statuses = hcollect (map (\<lambda>(h, _). (h, RestoreInitiated)) parts)\<rparr>\<rparr>;
                     fed2 = (case result of Inr snap \<Rightarrow> apply_snapshot snap fed1 | Inl _ \<Rightarrow> fed1);
                     cbs1 = notify conns fed2 me (request_federation_restore_succeeded label);
                     cbs2 = fan_out (live_connections conns fed2 (map fst parts)) federation_restore_begun;
                     cbs3 = concat (map (\<lambda>(fh, name). notify conns fed2 fh (initiate_federate_restore label name fh)) parts)
                 in (fed2, cbs1 @ cbs2 @ cbs3, Inr ())))"

definition federate_restore_progressed :: "connections \<Rightarrow> FederateHandle \<Rightarrow> bool \<Rightarrow> Federation \<Rightarrow> bool step" where
  "federate_restore_progressed conns me successfully fed =
     (case current_restore fed of
        None \<Rightarrow> (fed, [], exception_variant RestoreNotInProgress [])
      | Some restore \<Rightarrow>
          let statuses = hinsert me (if successfully then RestoreComplete else RestoreNotComplete) (ro_statuses restore);
              any_failed = list_ex (\<lambda>s. s = RestoreNotComplete) (hvalues statuses);
              all_done = list_all (\<lambda>s. s = RestoreComplete \<or> s = RestoreNotComplete) (hvalues statuses)
          in if \<not> all_done then (fed\<lparr>current_restore := Some (restore\<lparr>ro_statuses := statuses\<rparr>)\<rparr>, [], Inr successfully)
             else let fed1 = fed\<lparr>current_restore := None\<rparr>
                  in (fed1, fan_out (live_connections conns fed1 (hkeys (federates fed1)))
                              (if any_failed then federation_not_restored 0 else federation_restored), Inr successfully))"

definition abort_federation_restore :: "Federation \<Rightarrow> unit step" where
  "abort_federation_restore fed =
     (if current_restore fed = None then (fed, [], exception_variant RestoreNotInProgress [])
      else (fed\<lparr>current_restore := None\<rparr>, [], Inr ()))"

end
