(* ===== verification/Regions.thy ===== *)
theory Regions
  imports DataFlow
begin

text \<open>
  Region-restricted subscriptions and registrations (the second half of
  \<^verbatim>\<open>crates/hla-rti/src/dispatch/restore.rs\<close>).
\<close>

type_synonym wire_pairs = "(bytes list option \<times> bytes list option) list"

definition decode_attr_region_pairs :: "wire_pairs option \<Rightarrow> (AttributeHandle, RegionHandle hset) hmap" where
  "decode_attr_region_pairs pairs =
     (case pairs of
        None \<Rightarrow> []
      | Some list \<Rightarrow>
          fold (\<lambda>(attribute_set, region_set) out.
            let attrs = List.map_filter (\<lambda>h. ok (decode_attribute h)) (unwrap_or [] attribute_set);
                rs = hs_extend [] (List.map_filter decode_region (unwrap_or [] region_set))
            in fold (\<lambda>a. hentry a [] (\<lambda>old. hs_extend old rs)) attrs out) list [])"

definition subscribe_object_class_attributes_with_regions ::
  "connections \<Rightarrow> FederateHandle \<Rightarrow> wire_handle \<Rightarrow> wire_pairs option \<Rightarrow> Federation \<Rightarrow> unit step" where
  "subscribe_object_class_attributes_with_regions conns me cls pairs fed =
     (case Option.bind cls (\<lambda>h. ok (decode_object_class h)) of
        None \<Rightarrow> (fed, [], exception_variant InvalidObjectClassHandle [])
      | Some c \<Rightarrow>
          if object_class_def (fom fed) c = None then (fed, [], exception_variant ObjectClassNotDefined [])
          else let attr_regions = decode_attr_region_pairs pairs;
                   was_subscribed = fed_class_has_subscribers fed c;
                   fed1 = modify_pub_sub me (fold (\<lambda>(attr, rs) ps.
                     ps\<lparr>subscribed_attrs := hentry c [] (hs_insert attr) (subscribed_attrs ps),
                        subscribed_attrs_regions :=
                          hentry (c, attr) [] (\<lambda>old. hs_extend old rs) (subscribed_attrs_regions ps)\<rparr>) attr_regions) fed;
                   fed2 = fed1\<lparr>subscriptions :=
                     fold (\<lambda>a m. fst (subscribe_attribute c a me m)) (hkeys attr_regions) (subscriptions fed1)\<rparr>;
                   cbs = (if \<not> was_subscribed \<and> fed_class_has_subscribers fed2 c
                          then emit_start_registration conns fed2 c me else [])
               in (fed2, cbs, Inr ()))"

definition unsubscribe_object_class_attributes_with_regions ::
  "FederateHandle \<Rightarrow> wire_handle \<Rightarrow> wire_pairs option \<Rightarrow> Federation \<Rightarrow> unit step" where
  "unsubscribe_object_class_attributes_with_regions me cls pairs fed =
     (case Option.bind cls (\<lambda>h. ok (decode_object_class h)) of
        None \<Rightarrow> (fed, [], exception_variant InvalidObjectClassHandle [])
      | Some c \<Rightarrow>
          (modify_pub_sub me (fold (\<lambda>(attr, rs) ps.
             ps\<lparr>subscribed_attrs_regions := prune_entry (c, attr) rs (subscribed_attrs_regions ps)\<rparr>)
             (decode_attr_region_pairs pairs)) fed, [], Inr ()))"

definition register_object_instance_with_regions :: "connections \<Rightarrow> FederateHandle \<Rightarrow> wire_handle \<Rightarrow> string option
    \<Rightarrow> wire_pairs option \<Rightarrow> Federation \<Rightarrow> ObjectInstanceHandle step" where
  "register_object_instance_with_regions conns me cls requested_name pairs fed =
     (case register_object_instance conns me cls requested_name fed of
        (fed1, cbs, Inl e) \<Rightarrow> (fed1, cbs, Inl e)
      | (fed1, cbs, Inr handle) \<Rightarrow>
          (fed1\<lparr>object_instances :=
             hmodify handle (\<lambda>i. i\<lparr>attribute_regions := decode_attr_region_pairs pairs\<rparr>) (object_instances fed1)\<rparr>,
           cbs, Inr handle))"

end
