(* ===== verification/Lookup.thy ===== *)
theory Lookup
  imports DataFlow
begin

text \<open>
  Lookups and switches: FOM names and handles (\<^verbatim>\<open>crates/hla-rti/src/dispatch/handle_lookup.rs\<close>),
  instances and dimensions (\<^verbatim>\<open>instance_lookup.rs\<close>), federates, order and transportation types
  (\<^verbatim>\<open>introspection.rs\<close>) and the advisory switches (\<^verbatim>\<open>advisories.rs\<close>).
\<close>

subsection \<open>FOM handles\<close>

definition get_object_class_handle :: "string \<Rightarrow> Federation \<Rightarrow> bytes resp" where
  "get_object_class_handle name fed =
     (case object_class_handle (fom fed) name of
        Some h \<Rightarrow> Inr (encode_object_class h)
      | None \<Rightarrow> exception_variant NameNotFound [DStr name])"

definition get_object_class_name :: "bytes \<Rightarrow> Federation \<Rightarrow> string resp" where
  "get_object_class_name h fed =
     (case decode_object_class h of
        Inl n \<Rightarrow> exception_variant n []
      | Inr handle \<Rightarrow>
          (case object_class_def (fom fed) handle of
             Some d \<Rightarrow> Inr (oc_name d)
           | None \<Rightarrow> exception_variant InvalidObjectClassHandle [DStr ''ObjectClassHandle('', DNat (unat handle), DStr '')'']))"

definition get_attribute_handle :: "bytes \<Rightarrow> string \<Rightarrow> Federation \<Rightarrow> bytes resp" where
  "get_attribute_handle cls attr_name fed =
     (case decode_object_class cls of
        Inl n \<Rightarrow> exception_variant n []
      | Inr c \<Rightarrow>
          if object_class_def (fom fed) c = None
          then exception_variant InvalidObjectClassHandle [DStr ''ObjectClassHandle('', DNat (unat c), DStr '')'']
          else (case attribute_handle (fom fed) c attr_name of
              Some h \<Rightarrow> Inr (encode_attribute h)
            | None \<Rightarrow> exception_variant NameNotFound [DStr attr_name]))"

definition get_attribute_name :: "bytes \<Rightarrow> bytes \<Rightarrow> Federation \<Rightarrow> string resp" where
  "get_attribute_name cls attr fed =
     (case decode_object_class cls of
        Inl n \<Rightarrow> exception_variant n []
      | Inr c \<Rightarrow>
          (case decode_attribute attr of
             Inl n \<Rightarrow> exception_variant n []
           | Inr a \<Rightarrow>
               (case object_class_def (fom fed) c of
                  None \<Rightarrow> exception_variant InvalidObjectClassHandle []
                | Some d \<Rightarrow>
                    (case find (\<lambda>x. attribute_handle (fom fed) c (at_name x) = Some a) (oc_attributes d) of
                       Some x \<Rightarrow> Inr (at_name x)
                     | None \<Rightarrow> exception_variant AttributeNotDefined [DStr ''AttributeHandle('', DNat (unat a), DStr '')'']))))"

definition get_interaction_class_handle :: "string \<Rightarrow> Federation \<Rightarrow> bytes resp" where
  "get_interaction_class_handle name fed =
     (case interaction_class_handle (fom fed) name of
        Some h \<Rightarrow> Inr (encode_interaction_class h)
      | None \<Rightarrow> exception_variant NameNotFound [DStr name])"

definition get_interaction_class_name :: "bytes \<Rightarrow> Federation \<Rightarrow> string resp" where
  "get_interaction_class_name h fed =
     (case decode_interaction_class h of
        Inl n \<Rightarrow> exception_variant n []
      | Inr handle \<Rightarrow>
          (case interaction_class_def (fom fed) handle of
             Some d \<Rightarrow> Inr (ic_name d)
           | None \<Rightarrow> exception_variant InvalidInteractionClassHandle []))"

definition get_parameter_handle :: "bytes \<Rightarrow> string \<Rightarrow> Federation \<Rightarrow> bytes resp" where
  "get_parameter_handle cls param_name fed =
     (case decode_interaction_class cls of
        Inl n \<Rightarrow> exception_variant n []
      | Inr c \<Rightarrow>
          if interaction_class_def (fom fed) c = None then exception_variant InvalidInteractionClassHandle []
          else (case parameter_handle (fom fed) c param_name of
              Some h \<Rightarrow> Inr (encode_parameter h)
            | None \<Rightarrow> exception_variant NameNotFound [DStr param_name]))"

definition get_parameter_name :: "bytes \<Rightarrow> bytes \<Rightarrow> Federation \<Rightarrow> string resp" where
  "get_parameter_name cls param fed =
     (case decode_interaction_class cls of
        Inl n \<Rightarrow> exception_variant n []
      | Inr c \<Rightarrow>
          (case decode_parameter param of
             Inl n \<Rightarrow> exception_variant n []
           | Inr p \<Rightarrow>
               (case interaction_class_def (fom fed) c of
                  None \<Rightarrow> exception_variant InvalidInteractionClassHandle []
                | Some d \<Rightarrow>
                    (case find (\<lambda>x. parameter_handle (fom fed) c (pa_name x) = Some p) (ic_parameters d) of
                       Some x \<Rightarrow> Inr (pa_name x)
                     | None \<Rightarrow> exception_variant InteractionParameterNotDefined []))))"

subsection \<open>Instances and dimensions\<close>

definition get_object_instance_handle :: "string \<Rightarrow> Federation \<Rightarrow> bytes resp" where
  "get_object_instance_handle name fed =
     (case find (\<lambda>i. oi_name i = name) (hvalues (object_instances fed)) of
        Some i \<Rightarrow> Inr (encode_object_instance (oi_handle i))
      | None \<Rightarrow> exception_variant ObjectInstanceNotKnown [DStr name])"

definition known_instance :: "wire_handle \<Rightarrow> Federation \<Rightarrow> ObjectInstance option" where
  "known_instance instance_h fed =
     Option.bind (Option.bind instance_h (\<lambda>h. ok (decode_object_instance h))) (map_of (object_instances fed))"

definition get_object_instance_name :: "wire_handle \<Rightarrow> Federation \<Rightarrow> string resp" where
  "get_object_instance_name instance_h fed =
     (case known_instance instance_h fed of
        Some i \<Rightarrow> Inr (oi_name i)
      | None \<Rightarrow> exception_variant ObjectInstanceNotKnown [])"

definition get_known_object_class_handle :: "wire_handle \<Rightarrow> Federation \<Rightarrow> bytes resp" where
  "get_known_object_class_handle instance_h fed =
     (case known_instance instance_h fed of
        Some i \<Rightarrow> Inr (encode_object_class (oi_class i))
      | None \<Rightarrow> exception_variant ObjectInstanceNotKnown [])"

definition local_delete_object_instance :: "FederateHandle \<Rightarrow> wire_handle \<Rightarrow> Federation \<Rightarrow> unit step" where
  "local_delete_object_instance me instance_h fed =
     (case Option.bind instance_h (\<lambda>h. ok (decode_object_instance h)) of
        None \<Rightarrow> (fed, [], exception_variant ObjectInstanceNotKnown [])
      | Some h \<Rightarrow>
          (modify_pub_sub me (\<lambda>ps. ps\<lparr>discovered_instances := hs_remove h (discovered_instances ps)\<rparr>) fed, [], Inr ()))"

definition get_dimension_handle :: "string \<Rightarrow> Federation \<Rightarrow> bytes resp" where
  "get_dimension_handle name fed =
     (case dimension_handle (fom fed) name of
        Some h \<Rightarrow> Inr (to_be_bytes h)
      | None \<Rightarrow> exception_variant NameNotFound [DStr name])"

definition get_dimension_name :: "wire_handle \<Rightarrow> string resp" where
  "get_dimension_name dimension =
     (case Option.bind dimension decode_dimension of
        Some h \<Rightarrow> Inr (''Dim'' @ show_radix 10 (unat h))
      | None \<Rightarrow> exception_variant InvalidDimensionHandle [])"

definition get_dimension_upper_bound :: "u32 resp" where
  "get_dimension_upper_bound = Inr (- 1)"

definition get_dimension_handle_set :: "wire_handle \<Rightarrow> Federation \<Rightarrow> bytes list resp" where
  "get_dimension_handle_set region fed =
     (case Option.bind region decode_region of
        None \<Rightarrow> exception_variant InvalidRegion []
      | Some rh \<Rightarrow>
          (case map_of (regions fed) rh of
             None \<Rightarrow> exception_variant InvalidRegion []
           | Some r \<Rightarrow> Inr (map to_be_bytes (hkeys (committed r)))))"

definition get_available_dimensions_for_object_class :: "bytes list resp" where
  "get_available_dimensions_for_object_class = Inr []"

definition get_available_dimensions_for_interaction_class :: "bytes list resp" where
  "get_available_dimensions_for_interaction_class = Inr []"

subsection \<open>Federates, order and transportation types\<close>

definition get_federate_handle :: "string \<Rightarrow> Federation \<Rightarrow> bytes resp" where
  "get_federate_handle name fed =
     (case find (\<lambda>f. fs_name f = name) (hvalues (federates fed)) of
        Some fs \<Rightarrow> Inr (encode_federate (fs_handle fs))
      | None \<Rightarrow> exception_variant NameNotFound [DStr name])"

definition get_federate_name :: "bytes \<Rightarrow> Federation \<Rightarrow> string resp" where
  "get_federate_name h fed =
     (if length h \<noteq> 4 then exception_variant InvalidFederateHandle []
      else (case map_of (federates fed) (from_be_bytes h) of
          Some fs \<Rightarrow> Inr (fs_name fs)
        | None \<Rightarrow> exception_variant InvalidFederateHandle []))"

definition get_order_type :: "string \<Rightarrow> int resp" where
  "get_order_type name =
     (if name = ''Receive'' then Inr 0
      else if name = ''TimeStamp'' \<or> name = ''TimestampOrder'' then Inr 1
      else exception_variant InvalidOrderName [DStr name])"

definition get_order_name :: "i32 \<Rightarrow> string resp" where
  "get_order_name order_type =
     (if order_type = 0 then Inr ''Receive''
      else if order_type = 1 then Inr ''TimeStamp''
      else exception_variant InvalidOrderType [DInt (sint order_type)])"

definition get_transportation_type_handle :: "string \<Rightarrow> bytes resp" where
  "get_transportation_type_handle name =
     (if name = ''HLAreliable'' then Inr (to_be_bytes (1 :: u32))
      else if name = ''HLAbestEffort'' then Inr (to_be_bytes (2 :: u32))
      else exception_variant InvalidTransportationName [DStr name])"

definition get_transportation_type_name :: "bytes \<Rightarrow> string resp" where
  "get_transportation_type_name h =
     (if length h \<noteq> 4 then exception_variant InvalidTransportationTypeHandle []
      else let raw = (from_be_bytes h :: u32) in
        if raw = 1 then Inr ''HLAreliable''
        else if raw = 2 then Inr ''HLAbestEffort''
        else exception_variant InvalidTransportationTypeHandle [DNat (unat raw)])"

subsection \<open>Switches\<close>

definition get_switch_bool :: "FederateHandle \<Rightarrow> (Switches \<Rightarrow> bool) \<Rightarrow> Federation \<Rightarrow> bool resp" where
  "get_switch_bool me getter fed =
     (case map_of (federates fed) me of
        Some fs \<Rightarrow> Inr (getter (switches fs))
      | None \<Rightarrow> not_member)"

definition set_switch_bool ::
  "FederateHandle \<Rightarrow> bool \<Rightarrow> (bool \<Rightarrow> Switches \<Rightarrow> Switches) \<Rightarrow> Federation \<Rightarrow> unit step" where
  "set_switch_bool me v setter fed =
     (case map_of (federates fed) me of
        Some fs \<Rightarrow> (modify_federate me (\<lambda>fs. fs\<lparr>switches := setter v (switches fs)\<rparr>) fed, [], Inr ())
      | None \<Rightarrow> (fed, [], not_member))"

definition encode_resign_action :: "ResignAction \<Rightarrow> int" where
  "encode_resign_action a =
     (case a of
        UnconditionallyDivestAttributes \<Rightarrow> 0
      | DeleteObjects \<Rightarrow> 1
      | CancelPendingOwnershipAcquisitions \<Rightarrow> 2
      | DeleteObjectsThenDivest \<Rightarrow> 3
      | CancelThenDeleteThenDivest \<Rightarrow> 4
      | NoAction \<Rightarrow> 5)"

definition get_automatic_resign_directive :: "FederateHandle \<Rightarrow> Federation \<Rightarrow> int resp" where
  "get_automatic_resign_directive me fed =
     (case map_of (federates fed) me of
        Some fs \<Rightarrow> Inr (encode_resign_action (automatic_resign_directive (switches fs)))
      | None \<Rightarrow> not_member)"

definition resign_action_of :: "i32 \<Rightarrow> ResignAction option" where
  "resign_action_of v =
     (if v = 0 then Some UnconditionallyDivestAttributes
      else if v = 1 then Some DeleteObjects
      else if v = 2 then Some CancelPendingOwnershipAcquisitions
      else if v = 3 then Some DeleteObjectsThenDivest
      else if v = 4 then Some CancelThenDeleteThenDivest
      else if v = 5 then Some NoAction
      else None)"

definition set_automatic_resign_directive :: "FederateHandle \<Rightarrow> i32 \<Rightarrow> Federation \<Rightarrow> unit step" where
  "set_automatic_resign_directive me v fed =
     (case resign_action_of v of
        None \<Rightarrow> (fed, [], exception_variant InvalidResignAction [DInt (sint v)])
      | Some action \<Rightarrow>
          (case map_of (federates fed) me of
             Some fs \<Rightarrow>
               (modify_federate me (\<lambda>fs. fs\<lparr>switches := (switches fs)\<lparr>automatic_resign_directive := action\<rparr>\<rparr>) fed, [], Inr ())
           | None \<Rightarrow> (fed, [], not_member)))"

end
