(* ===== verification/Ownership.thy ===== *)
theory Ownership
  imports DataFlow
begin

text \<open>
  Attribute ownership (\<^verbatim>\<open>crates/hla-rti/src/dispatch/ownership.rs\<close>): queries, acquisition of unowned
  attributes and unconditional divestiture.
\<close>

definition is_attribute_owned_by_federate :: "FederateHandle \<Rightarrow> wire_handle \<Rightarrow> wire_handle \<Rightarrow> Federation \<Rightarrow> bool resp" where
  "is_attribute_owned_by_federate me instance_h attribute_h fed =
     (case Option.bind instance_h (\<lambda>h. ok (decode_object_instance h)) of
        None \<Rightarrow> exception_variant ObjectInstanceNotKnown []
      | Some inst \<Rightarrow>
          (case Option.bind attribute_h (\<lambda>h. ok (decode_attribute h)) of
             None \<Rightarrow> exception_variant InvalidAttributeHandle []
           | Some a \<Rightarrow>
               (case map_of (object_instances fed) inst of
                  None \<Rightarrow> exception_variant ObjectInstanceNotKnown []
                | Some i \<Rightarrow> Inr (map_of (attribute_owners i) a = Some me))))"

text \<open>The checks the three other services start with.\<close>

definition check_instance_attributes ::
  "wire_handle \<Rightarrow> bytes list option \<Rightarrow> Federation \<Rightarrow> (ObjectInstanceHandle \<times> AttributeHandleSet \<times> ObjectInstance) resp" where
  "check_instance_attributes instance_h attrs fed =
     (case Option.bind instance_h (\<lambda>h. ok (decode_object_instance h)) of
        None \<Rightarrow> exception_variant ObjectInstanceNotKnown []
      | Some inst \<Rightarrow>
          (case decode_handle_set attrs of
             Inl e \<Rightarrow> Inl e
           | Inr s \<Rightarrow>
               (case map_of (object_instances fed) inst of
                  None \<Rightarrow> exception_variant ObjectInstanceNotKnown []
                | Some i \<Rightarrow> Inr (inst, s, i))))"

definition owner_groups :: "ObjectInstance \<Rightarrow> AttributeHandle list \<Rightarrow> (FederateHandle option, AttributeHandle list) hmap" where
  "owner_groups i attrs = fold (\<lambda>a groups. hentry (map_of (attribute_owners i) a) [] (\<lambda>l. l @ [a]) groups) attrs []"

definition query_attribute_ownership ::
  "connections \<Rightarrow> FederateHandle \<Rightarrow> wire_handle \<Rightarrow> bytes list option \<Rightarrow> Federation \<Rightarrow> unit step" where
  "query_attribute_ownership conns me instance_h attrs fed =
     (case check_instance_attributes instance_h attrs fed of
        Inl e \<Rightarrow> (fed, [], Inl e)
      | Inr (inst, s, i) \<Rightarrow>
          (fed, concat (map (\<lambda>(owner, group).
               notify conns fed me (case owner of
                   Some owner_h \<Rightarrow> inform_attribute_ownership inst group owner_h
                 | None \<Rightarrow> attribute_is_not_owned inst group)) (owner_groups i s)), Inr ()))"

definition acquire_one :: "FederateHandle \<Rightarrow> AttributeHandle
    \<Rightarrow> (AttributeHandle, FederateHandle) hmap \<times> AttributeHandle list \<times> AttributeHandle list
    \<Rightarrow> (AttributeHandle, FederateHandle) hmap \<times> AttributeHandle list \<times> AttributeHandle list" where
  "acquire_one me a st =
     (case st of (owners, secured, unavailable) \<Rightarrow>
        (case map_of owners a of
           Some _ \<Rightarrow> (owners, secured, unavailable @ [a])
         | None \<Rightarrow> (hinsert a me owners, secured @ [a], unavailable)))"

definition attribute_ownership_acquisition_if_available ::
  "connections \<Rightarrow> FederateHandle \<Rightarrow> wire_handle \<Rightarrow> bytes list option \<Rightarrow> bytes \<Rightarrow> Federation \<Rightarrow> unit step" where
  "attribute_ownership_acquisition_if_available conns me instance_h attrs tag fed =
     (case check_instance_attributes instance_h attrs fed of
        Inl e \<Rightarrow> (fed, [], Inl e)
      | Inr (inst, s, i) \<Rightarrow>
          let (owners, secured, unavailable) = fold (acquire_one me) s (attribute_owners i, [], []);
              fed1 = fed\<lparr>object_instances := hmodify inst (\<lambda>i. i\<lparr>attribute_owners := owners\<rparr>) (object_instances fed)\<rparr>;
              cbs1 = (if secured \<noteq> [] then notify conns fed1 me (attribute_ownership_acquisition_notification inst secured tag) else []);
              cbs2 = (if unavailable \<noteq> [] then notify conns fed1 me (attribute_ownership_unavailable inst unavailable tag) else [])
          in (fed1, cbs1 @ cbs2, Inr ()))"

definition divest_one :: "FederateHandle \<Rightarrow> AttributeHandle
    \<Rightarrow> (AttributeHandle, FederateHandle) hmap \<times> AttributeHandle list
    \<Rightarrow> (AttributeHandle, FederateHandle) hmap \<times> AttributeHandle list" where
  "divest_one me a st =
     (case st of (owners, divested) \<Rightarrow>
        if map_of owners a = Some me then (hremove a owners, divested @ [a]) else (owners, divested))"

definition unconditional_attribute_ownership_divestiture ::
  "connections \<Rightarrow> FederateHandle \<Rightarrow> wire_handle \<Rightarrow> bytes list option \<Rightarrow> Federation \<Rightarrow> unit step" where
  "unconditional_attribute_ownership_divestiture conns me instance_h attrs fed =
     (case check_instance_attributes instance_h attrs fed of
        Inl e \<Rightarrow> (fed, [], Inl e)
      | Inr (inst, s, i) \<Rightarrow>
          let (owners, divested) = fold (divest_one me) s (attribute_owners i, []);
              fed1 = fed\<lparr>object_instances := hmodify inst (\<lambda>i. i\<lparr>attribute_owners := owners\<rparr>) (object_instances fed)\<rparr>;
              cbs = (if divested = [] then []
                     else (case map_of (object_instances fed1) inst of
                         None \<Rightarrow> []
                       | Some i \<Rightarrow>
                           fan_out (live_connections conns fed1 (subscribers_for_attributes fed1 (oi_class i) divested None))
                             (attribute_is_not_owned inst divested)))
          in (fed1, cbs, Inr ()))"

subsection \<open>What acquisition and divestiture do to the owners\<close>

lemma decode_handle_set_distinct: "decode_handle_set attrs = Inr s \<Longrightarrow> distinct s"
proof -
  have step: "try_fold (\<lambda>a out. case decode_attribute a of Inl n \<Rightarrow> exception_variant n [] | Inr h \<Rightarrow> Inr (hs_insert h out)) hs acc = Inr s
      \<Longrightarrow> distinct acc \<Longrightarrow> distinct s" for hs acc
    by (induction hs arbitrary: acc) (auto simp: exception_variant_def split: sum.splits)
  show "decode_handle_set attrs = Inr s \<Longrightarrow> distinct s"
    using step [where acc = "[]"] by (auto simp: decode_handle_set_def split: option.splits)
qed

lemma acquire_all:
  "distinct s \<Longrightarrow> fold (acquire_one me) s (owners, sec, un) = (owners', sec', un') \<Longrightarrow>
     map_of owners' = (\<lambda>a. if a \<in> set s \<and> map_of owners a = None then Some me else map_of owners a) \<and>
     sec' = sec @ filter (\<lambda>a. map_of owners a = None) s \<and> un' = un @ filter (\<lambda>a. map_of owners a \<noteq> None) s"
proof (induction s arbitrary: owners sec un)
  case (Cons a s)
  have same: "filter (\<lambda>x. ((map_of owners)(a \<mapsto> me)) x = None) s = filter (\<lambda>x. map_of owners x = None) s"
    "filter (\<lambda>x. ((map_of owners)(a \<mapsto> me)) x \<noteq> None) s = filter (\<lambda>x. map_of owners x \<noteq> None) s"
    using Cons.prems(1) by (auto intro!: filter_cong)
  show ?case
  proof (cases "map_of owners a")
    case None
    with Cons.prems Cons.IH [of "hinsert a me owners" "sec @ [a]" un] same show ?thesis
      by (auto simp: acquire_one_def fun_eq_iff)
  next
    case (Some f)
    with Cons.prems Cons.IH [of owners sec "un @ [a]"] show ?thesis by (auto simp: acquire_one_def fun_eq_iff)
  qed
qed auto

lemma divest_all:
  "distinct s \<Longrightarrow> fold (divest_one me) s (owners, d) = (owners', d') \<Longrightarrow>
     map_of owners' = (\<lambda>a. if a \<in> set s \<and> map_of owners a = Some me then None else map_of owners a) \<and>
     d' = d @ filter (\<lambda>a. map_of owners a = Some me) s"
proof (induction s arbitrary: owners d)
  case (Cons a s)
  have same: "filter (\<lambda>x. ((map_of owners)(a := None)) x = Some me) s = filter (\<lambda>x. map_of owners x = Some me) s"
    using Cons.prems(1) by (auto intro!: filter_cong)
  show ?case
  proof (cases "map_of owners a = Some me")
    case True
    with Cons.prems Cons.IH [of "hremove a owners" "d @ [a]"] same show ?thesis
      by (auto simp: divest_one_def fun_eq_iff)
  next
    case False
    with Cons.prems Cons.IH [of owners d] show ?thesis by (auto simp: divest_one_def fun_eq_iff)
  qed
qed auto

definition owner_of :: "Federation \<Rightarrow> ObjectInstanceHandle \<Rightarrow> AttributeHandle \<Rightarrow> FederateHandle option" where
  "owner_of fed inst a = Option.bind (map_of (object_instances fed) inst) (\<lambda>i. map_of (attribute_owners i) a)"

lemma check_instance_attributes_Inr:
  assumes "check_instance_attributes instance_h attrs fed = Inr (inst, s, i)"
  shows "map_of (object_instances fed) inst = Some i" and "distinct s"
  using assms by (auto simp: check_instance_attributes_def exception_variant_def dest: decode_handle_set_distinct
      split: option.splits sum.splits)

lemma owner_of_replace:
  "map_of (object_instances fed) inst = Some i \<Longrightarrow>
   owner_of (fed\<lparr>object_instances := hmodify inst (\<lambda>i. i\<lparr>attribute_owners := owners\<rparr>) (object_instances fed)\<rparr>) j a =
   (if j = inst then map_of owners a else owner_of fed j a)"
  by (simp add: owner_of_def)

definition owned_fed :: Federation where
  "owned_fed = (new_federation ''f'' empty_fom)\<lparr>
     federates := [(1, \<lparr>fs_handle = 1, fs_name = ''a'', federate_type = [], fs_session_id = 7, pub_sub = default_pub_sub,
        time_st = default_time, switches = default_switches, tso_queue = []\<rparr>)],
     object_instances := [(5, \<lparr>oi_handle = 5, oi_class = 3, oi_name = ''x'', registrar = 2,
        attribute_owners = [(1, 2), (4, 1)], attribute_regions = []\<rparr>)]\<rparr>"

lemma owned_fed_check:
  "check_instance_attributes (Some [0, 0, 0, 0, 0, 0, 0, 5]) (Some [[0, 0, 0, 1], [0, 0, 0, 4], [0, 0, 0, 6]]) owned_fed =
   Inr (5, [1, 4, 6], snd (hd (object_instances owned_fed)))"
  by code_simp

lemma owned_fed_owners: "owner_of owned_fed 5 1 = Some 2" "owner_of owned_fed 5 4 = Some 1" "owner_of owned_fed 5 6 = None"
  by (simp_all add: owner_of_def owned_fed_def)

subsection \<open>Properties\<close>

text \<open>C21. Acquisition if available: exactly the requested attributes that had no owner become the caller's,
  every other attribute of every instance keeps its owner, and the caller is told which requested
  attributes it secured and which were unavailable.\<close>

theorem acquisition_takes_unowned:
  assumes "check_instance_attributes instance_h attrs fed = Inr (inst, s, i)"
    and "attribute_ownership_acquisition_if_available conns me instance_h attrs tag fed = (fed', cbs, r)"
  shows "r = Inr () \<and>
    owner_of fed' j a = (if j = inst \<and> a \<in> set s \<and> owner_of fed j a = None then Some me else owner_of fed j a) \<and>
    (let secured = filter (\<lambda>a. owner_of fed inst a = None) s; unavailable = filter (\<lambda>a. owner_of fed inst a \<noteq> None) s
     in cbs = (if secured \<noteq> [] then notify conns fed' me (attribute_ownership_acquisition_notification inst secured tag) else []) @
              (if unavailable \<noteq> [] then notify conns fed' me (attribute_ownership_unavailable inst unavailable tag) else []))"
proof -
  note c = check_instance_attributes_Inr [OF assms(1)]
  obtain owners sec un where f: "fold (acquire_one me) s (attribute_owners i, [], []) = (owners, sec, un)"
    by (metis prod_cases3)
  have here: "owner_of fed inst b = map_of (attribute_owners i) b" for b by (simp add: owner_of_def c)
  show ?thesis using assms(2) acquire_all [OF c(2) f] owner_of_replace [OF c(1), of owners j a]
    by (auto simp: attribute_ownership_acquisition_if_available_def assms(1) f Let_def here)
qed

theorem acquisition_takes_unowned_witness:
  "\<exists>fed' cbs. attribute_ownership_acquisition_if_available [7] 1 (Some [0, 0, 0, 0, 0, 0, 0, 5])
       (Some [[0, 0, 0, 1], [0, 0, 0, 4], [0, 0, 0, 6]]) [] owned_fed = (fed', cbs, Inr ()) \<and>
     owner_of fed' 5 1 = Some 2 \<and> owner_of fed' 5 4 = Some 1 \<and> owner_of fed' 5 6 = Some 1"
proof -
  let ?r = "attribute_ownership_acquisition_if_available [7] 1 (Some [0, 0, 0, 0, 0, 0, 0, 5])
       (Some [[0, 0, 0, 1], [0, 0, 0, 4], [0, 0, 0, 6]]) [] owned_fed"
  obtain fed' cbs r where e: "?r = (fed', cbs, r)" by (metis prod_cases3)
  from acquisition_takes_unowned [OF owned_fed_check e, of 5 1] acquisition_takes_unowned [OF owned_fed_check e, of 5 4]
    acquisition_takes_unowned [OF owned_fed_check e, of 5 6]
  show ?thesis by (auto simp: e owned_fed_owners)
qed

text \<open>C35. Unconditional divestiture: exactly the listed attributes that the caller owns lose their owner; no
  attribute of another federate, and no attribute that is not listed, changes hands.\<close>

theorem divestiture_gives_up_own:
  assumes "check_instance_attributes instance_h attrs fed = Inr (inst, s, i)"
    and "unconditional_attribute_ownership_divestiture conns me instance_h attrs fed = (fed', cbs, r)"
  shows "r = Inr () \<and>
    owner_of fed' j a = (if j = inst \<and> a \<in> set s \<and> owner_of fed j a = Some me then None else owner_of fed j a)"
proof -
  note c = check_instance_attributes_Inr [OF assms(1)]
  obtain owners d where f: "fold (divest_one me) s (attribute_owners i, []) = (owners, d)" by force
  have here: "owner_of fed inst b = map_of (attribute_owners i) b" for b by (simp add: owner_of_def c)
  show ?thesis using assms(2) divest_all [OF c(2) f] owner_of_replace [OF c(1), of owners j a]
    by (auto simp: unconditional_attribute_ownership_divestiture_def assms(1) f Let_def here)
qed

theorem divestiture_gives_up_own_witness:
  "\<exists>fed' cbs. unconditional_attribute_ownership_divestiture [7] 1 (Some [0, 0, 0, 0, 0, 0, 0, 5])
       (Some [[0, 0, 0, 1], [0, 0, 0, 4], [0, 0, 0, 6]]) owned_fed = (fed', cbs, Inr ()) \<and>
     owner_of fed' 5 1 = Some 2 \<and> owner_of fed' 5 4 = None"
proof -
  let ?r = "unconditional_attribute_ownership_divestiture [7] 1 (Some [0, 0, 0, 0, 0, 0, 0, 5])
       (Some [[0, 0, 0, 1], [0, 0, 0, 4], [0, 0, 0, 6]]) owned_fed"
  obtain fed' cbs r where e: "?r = (fed', cbs, r)" by (metis prod_cases3)
  from divestiture_gives_up_own [OF owned_fed_check e, of 5 1] divestiture_gives_up_own [OF owned_fed_check e, of 5 4]
  show ?thesis by (auto simp: e owned_fed_owners)
qed

end
