(* ===== verification/FederationMgmt.thy ===== *)
theory FederationMgmt
  imports SaveRestore Regions Lookup Ownership
begin

text \<open>
  The node and its federations (\<^verbatim>\<open>RtiNode\<close> of \<^verbatim>\<open>crates/hla-rti/src/lib.rs\<close>), the session context
  (\<^verbatim>\<open>session.rs\<close>) and federation management (\<^verbatim>\<open>crates/hla-rti/src/dispatch/federation_mgmt.rs\<close>).

  An \<^verbatim>\<open>Arc<Federation>\<close> is a number: \<open>fed_heap\<close> holds the federation behind each number, the registry
  maps names to numbers, and a membership keeps the number of its federation, so a session and the
  registry share one federation. Time is counted in milliseconds. The fields of the node that only
  serve the runtime (bind address, shutdown token, writer channels) are not represented.
\<close>

record Membership =
  mb_federation :: nat
  mb_federate_handle :: FederateHandle
  mb_federate_name :: string

record SessionContext =
  sc_session_id :: u64
  membership :: "Membership option"

record SuspendedSession =
  su_membership :: "Membership option"
  deadline :: nat

record ConnectionLimits =
  max_total :: "nat option"
  max_per_ip :: "nat option"

record HeartbeatConfig =
  interval :: nat
  missing_timeout :: nat
  reconnect_window :: nat

record ServerMetrics =
  calls_dispatched :: u64
  call_exceptions :: u64
  callbacks_emitted :: u64
  connections_accepted :: u64
  connections_rejected :: u64
  sessions_opened :: u64
  sessions_reaped :: u64

record RtiNode =
  federations :: "(string, nat) hmap"
  fed_heap :: "nat \<Rightarrow> Federation"
  next_federation :: nat
  next_session_id :: u64
  default_fom :: MergedFom
  connections :: "u64 hset"
  heartbeat :: HeartbeatConfig
  limits :: ConnectionLimits
  connections_per_ip :: "(nat, nat) hmap"
  metrics :: ServerMetrics
  disk :: Disk
  suspended_sessions :: "(u64, SuspendedSession) hmap"

definition default_heartbeat :: HeartbeatConfig where
  "default_heartbeat = \<lparr>interval = 60000, missing_timeout = 180000, reconnect_window = 0\<rparr>"

definition default_metrics :: ServerMetrics where
  "default_metrics = \<lparr>calls_dispatched = 0, call_exceptions = 0, callbacks_emitted = 0, connections_accepted = 0,
     connections_rejected = 0, sessions_opened = 0, sessions_reaped = 0\<rparr>"

definition new_node :: RtiNode where
  "new_node = \<lparr>federations = [], fed_heap = (\<lambda>_. new_federation [] empty_fom), next_federation = 0, next_session_id = 1,
     default_fom = empty_fom, connections = [], heartbeat = default_heartbeat,
     limits = \<lparr>max_total = None, max_per_ip = None\<rparr>, connections_per_ip = [], metrics = default_metrics,
     disk = \<lparr>files = [], failing = []\<rparr>, suspended_sessions = []\<rparr>"

definition new_session_context :: "u64 \<Rightarrow> SessionContext" where
  "new_session_context sid = \<lparr>sc_session_id = sid, membership = None\<rparr>"

definition is_joined :: "SessionContext \<Rightarrow> bool" where
  "is_joined ctx \<longleftrightarrow> membership ctx \<noteq> None"

definition set_federation :: "nat \<Rightarrow> Federation \<Rightarrow> RtiNode \<Rightarrow> RtiNode" where
  "set_federation i fed node = node\<lparr>fed_heap := (fed_heap node)(i := fed)\<rparr>"

subsection \<open>FOM modules on the wire\<close>

text \<open>Well-formed UTF-8, as \<^verbatim>\<open>std::str::from_utf8\<close> accepts it: no overlong forms, no surrogates.\<close>

definition cont :: "u8 \<Rightarrow> bool" where
  "cont b \<longleftrightarrow> 0x80 \<le> b \<and> b \<le> 0xBF"

fun valid_utf8 :: "bytes \<Rightarrow> bool" where
  "valid_utf8 [] = True"
| "valid_utf8 (a # bs) =
     (if a \<le> 0x7F then valid_utf8 bs
      else if 0xC2 \<le> a \<and> a \<le> 0xDF then (case bs of b # bs' \<Rightarrow> cont b \<and> valid_utf8 bs' | _ \<Rightarrow> False)
      else if 0xE0 \<le> a \<and> a \<le> 0xEF
      then (case bs of b # c # bs' \<Rightarrow>
              (if a = 0xE0 then 0xA0 \<le> b \<and> b \<le> 0xBF else if a = 0xED then 0x80 \<le> b \<and> b \<le> 0x9F else cont b) \<and>
              cont c \<and> valid_utf8 bs'
            | _ \<Rightarrow> False)
      else if 0xF0 \<le> a \<and> a \<le> 0xF4
      then (case bs of b # c # d # bs' \<Rightarrow>
              (if a = 0xF0 then 0x90 \<le> b \<and> b \<le> 0xBF else if a = 0xF4 then 0x80 \<le> b \<and> b \<le> 0x8F else cont b) \<and>
              cont c \<and> cont d \<and> valid_utf8 bs'
            | _ \<Rightarrow> False)
      else False)"

text \<open>The \<^verbatim>\<open>oneof\<close> of a FOM module message.\<close>

datatype FomModuleMsg = File string bytes | CompressedModule | Url | Unset

definition fom_error_text :: "FomError \<Rightarrow> Detail list" where
  "fom_error_text e =
     (case e of
        Xml s \<Rightarrow> [DStr ''XML parse error: '', DStr s]
      | MergeConflict ds \<Rightarrow> DStr ''modular FOM merge conflict on '' # ds
      | UnknownReference s \<Rightarrow> [DStr ''unknown reference: '', DStr s]
      | InvalidEnum ds \<Rightarrow> DStr ''invalid enum value: '' # ds)"

definition decode_fom_module :: "(string \<Rightarrow> string + XmlObjectModel) \<Rightarrow> FomModuleMsg \<Rightarrow> Detail list + FomModule" where
  "decode_fom_module from_str pm =
     (case pm of
        File name content \<Rightarrow>
          if \<not> valid_utf8 content then Inl [DStr ''FOM module '', DName name, DStr '' content is not UTF-8'']
          else (case parse_fom_module from_str (map (\<lambda>b. char_of (unat b)) content) of
              Inl e \<Rightarrow> Inl ([DStr name, DStr '': ''] @ fom_error_text e)
            | Inr m \<Rightarrow> Inr m)
      | CompressedModule \<Rightarrow> Inl [DStr ''compressed FOM modules not yet supported'']
      | Url \<Rightarrow> Inl [DStr ''URL FOM modules not yet supported'']
      | Unset \<Rightarrow> Inl [DStr ''FomModule has no oneof variant set''])"

subsection \<open>Federation management\<close>

text \<open>The result is \<open>None\<close> where the merge of the modules would not return.\<close>

definition create_federation_inner ::
  "(string \<Rightarrow> string + XmlObjectModel) \<Rightarrow> string \<Rightarrow> FomModuleMsg list \<Rightarrow> RtiNode \<Rightarrow> (RtiNode \<times> unit resp) option" where
  "create_federation_inner from_str name proto_modules node =
     (if name = [] then Some (node, exception_variant ErrorReadingFdd [DStr ''federationName must not be empty''])
      else if contains_key (federations node) name
      then Some (node, exception_variant FederationExecutionAlreadyExists [DStr name])
      else let insert = (\<lambda>f. (node\<lparr>federations := hinsert name (next_federation node) (federations node),
               fed_heap := (fed_heap node)(next_federation node := new_federation name f),
               next_federation := Suc (next_federation node)\<rparr>, Inr ()))
           in (case try_map (decode_fom_module from_str) proto_modules of
              Inl e \<Rightarrow> Some (node, exception_variant CouldNotOpenFdd e)
            | Inr mods \<Rightarrow>
                if mods = [] then Some (insert (default_fom node))
                else (case merge_modules mods of
                    Inl e \<Rightarrow> Some (node, exception_variant ErrorReadingFdd (fom_error_text e))
                  | Inr None \<Rightarrow> None
                  | Inr (Some f) \<Rightarrow> Some (insert f))))"

definition destroy_federation_execution :: "string \<Rightarrow> RtiNode \<Rightarrow> RtiNode \<times> unit resp" where
  "destroy_federation_execution name node =
     (case map_of (federations node) name of
        None \<Rightarrow> (node, exception_variant FederationExecutionDoesNotExist [DStr name])
      | Some i \<Rightarrow>
          if federates (fed_heap node i) \<noteq> [] then (node, exception_variant FederatesCurrentlyJoined [DStr name])
          else (node\<lparr>federations := hremove name (federations node)\<rparr>, Inr ()))"

definition federate_auto_name :: "u32 \<Rightarrow> string" where
  "federate_auto_name raw =
     (let hex = show_radix 16 (unat raw) in ''federate-'' @ replicate (8 - length hex) (CHR ''0'') @ hex)"

definition join :: "string option \<Rightarrow> string \<Rightarrow> SessionContext \<Rightarrow> RtiNode
    \<Rightarrow> RtiNode \<times> SessionContext \<times> (bytes \<times> string) resp" where
  "join requested_name federation_name ctx node =
     (if is_joined ctx
      then (node, ctx, exception_variant FederateAlreadyExecutionMember [DStr ''session '', DNat (unat (sc_session_id ctx))])
      else (case map_of (federations node) federation_name of
          None \<Rightarrow> (node, ctx, exception_variant FederationExecutionDoesNotExist [DStr federation_name])
        | Some i \<Rightarrow>
            let fed = fed_heap node i;
                raw = next_federate_id fed;
                fed1 = fed\<lparr>next_federate_id := raw + 1\<rparr>;
                name = (case requested_name of Some n \<Rightarrow> n | None \<Rightarrow> federate_auto_name raw)
            in if requested_name \<noteq> None \<and> name \<in> fs_name ` set (hvalues (federates fed1))
               then (set_federation i fed1 node, ctx, exception_variant FederateNameAlreadyInUse [DStr name])
               else let fs = \<lparr>fs_handle = raw, fs_name = name, federate_type = [], fs_session_id = sc_session_id ctx,
                          pub_sub = default_pub_sub, time_st = default_time, switches = default_switches, tso_queue = []\<rparr>;
                        fed2 = fed1\<lparr>federates := hinsert raw fs (federates fed1)\<rparr>
                    in (set_federation i fed2 node,
                        ctx\<lparr>membership := Some \<lparr>mb_federation = i, mb_federate_handle = raw, mb_federate_name = name\<rparr>\<rparr>,
                        Inr (encode_federate raw, ''HLAfloat64Time''))))"

definition remove_federate :: "Membership \<Rightarrow> RtiNode \<Rightarrow> RtiNode" where
  "remove_federate m node =
     (let fed = fed_heap node (mb_federation m)
      in set_federation (mb_federation m) (fed\<lparr>federates := hremove (mb_federate_handle m) (federates fed)\<rparr>) node)"

definition resign :: "SessionContext \<Rightarrow> RtiNode \<Rightarrow> RtiNode \<times> SessionContext \<times> unit resp" where
  "resign ctx node =
     (case membership ctx of
        None \<Rightarrow> (node, ctx, not_member)
      | Some m \<Rightarrow> (remove_federate m node, ctx\<lparr>membership := None\<rparr>, Inr ()))"

end
