(* ===== verification/Dispatch.thy ===== *)
theory Dispatch
  imports FederationMgmt
begin

text \<open>
  The dispatcher (\<^verbatim>\<open>crates/hla-rti/src/dispatch/mod.rs\<close>). Requests are grouped as the source groups its
  match arms; a response is the name of its variant with its payload, or an exception. Every handler
  that needs a membership starts with the same check, which is \<open>with_membership\<close> here. Where a request
  ends in \<^verbatim>\<open>WithRate\<close>, \<^verbatim>\<open>WithTime\<close> and the like and the arm only drops the extra fields, they are dropped
  here too.
\<close>

datatype Payload =
    PUnit | PBool bool | PInt int | PStr string | PHandle bytes | PHandles "bytes list"
  | PTimeQuery bool bytes | PBounds u32 u32 | PU32 u32 | PF64 f64 | PJoin bytes string | PNoResult

type_synonym CallResponse = "(string \<times> Payload) resp"

text \<open>Node, session context, callbacks and response after a call.\<close>

type_synonym outcome = "RtiNode \<times> SessionContext \<times> OutboundCallback list \<times> CallResponse"

definition respond :: "string \<Rightarrow> ('a \<Rightarrow> Payload) \<Rightarrow> 'a resp \<Rightarrow> CallResponse" where
  "respond name f r = (case r of Inl e \<Rightarrow> Inl e | Inr x \<Rightarrow> Inr (name, f x))"

abbreviation ack :: "string \<Rightarrow> unit resp \<Rightarrow> CallResponse" where
  "ack name \<equiv> respond name (\<lambda>_. PUnit)"

definition with_membership :: "RtiNode \<Rightarrow> SessionContext \<Rightarrow> string \<Rightarrow> ('a \<Rightarrow> Payload)
    \<Rightarrow> (FederateHandle \<Rightarrow> Federation \<Rightarrow> 'a step) \<Rightarrow> outcome" where
  "with_membership node ctx name f handler =
     (case membership ctx of
        None \<Rightarrow> (node, ctx, [], not_member)
      | Some m \<Rightarrow>
          (case handler (mb_federate_handle m) (fed_heap node (mb_federation m)) of
             (fed, cbs, r) \<Rightarrow> (set_federation (mb_federation m) fed node, ctx, cbs, respond name f r)))"

definition query_membership :: "RtiNode \<Rightarrow> SessionContext \<Rightarrow> string \<Rightarrow> ('a \<Rightarrow> Payload)
    \<Rightarrow> (FederateHandle \<Rightarrow> Federation \<Rightarrow> 'a resp) \<Rightarrow> outcome" where
  "query_membership node ctx name f handler =
     with_membership node ctx name f (\<lambda>me fed. (fed, [], handler me fed))"

subsection \<open>Federations\<close>

datatype FederationRequest =
    CreateFederationExecution string "FomModuleMsg option"
  | CreateFederationExecutionWithTime string "FomModuleMsg option"
  | CreateFederationExecutionWithModulesAndTime string "FomModuleMsg list option"
  | CreateFederationExecutionWithMim string "FomModuleMsg list option" "FomModuleMsg option"
  | CreateFederationExecutionWithMimAndTime string "FomModuleMsg list option" "FomModuleMsg option"
  | CreateFederationExecutionWithModules string "FomModuleMsg list option"
  | DestroyFederationExecution string

datatype MemberRequest =
    ListFederationExecutionMembers string
  | ListFederationExecutions
  | JoinFederationExecution string
  | JoinFederationExecutionWithName string string
  | JoinFederationExecutionWithModules string
  | JoinFederationExecutionWithNameAndModules string string
  | ResignFederationExecution

definition create_outcome :: "(string \<Rightarrow> string + XmlObjectModel) \<Rightarrow> RtiNode \<Rightarrow> SessionContext \<Rightarrow> string
    \<Rightarrow> string \<Rightarrow> FomModuleMsg list \<Rightarrow> outcome option" where
  "create_outcome from_str node ctx response name mods =
     map_option (\<lambda>(node', r). (node', ctx, [], ack response r)) (create_federation_inner from_str name mods node)"

definition join_outcome :: "RtiNode \<Rightarrow> SessionContext \<Rightarrow> string \<Rightarrow> string option \<Rightarrow> string \<Rightarrow> outcome" where
  "join_outcome node ctx response requested_name name =
     (case join requested_name name ctx node of
        (node', ctx', r) \<Rightarrow> (node', ctx', [], respond response (\<lambda>(h, impl). PJoin h impl) r))"

text \<open>The caller's own connection, if it is registered.\<close>

definition own_connection :: "RtiNode \<Rightarrow> SessionContext \<Rightarrow> u64 list" where
  "own_connection node ctx = (if sc_session_id ctx \<in> set (connections node) then [sc_session_id ctx] else [])"

definition option_list :: "'a option \<Rightarrow> 'a list" where
  "option_list x = (case x of None \<Rightarrow> [] | Some y \<Rightarrow> [y])"

definition dispatch_federation :: "(string \<Rightarrow> string + XmlObjectModel) \<Rightarrow> RtiNode \<Rightarrow> SessionContext
    \<Rightarrow> FederationRequest \<Rightarrow> outcome option" where
  "dispatch_federation from_str node ctx req =
     (case req of
        CreateFederationExecution name m \<Rightarrow>
          create_outcome from_str node ctx ''CreateFederationExecutionResponse'' name (option_list m)
      | CreateFederationExecutionWithTime name m \<Rightarrow>
          create_outcome from_str node ctx ''CreateFederationExecutionWithTimeResponse'' name (option_list m)
      | CreateFederationExecutionWithModulesAndTime name ms \<Rightarrow>
          create_outcome from_str node ctx ''CreateFederationExecutionWithModulesAndTimeResponse'' name (unwrap_or [] ms)
      | CreateFederationExecutionWithMim name ms mim \<Rightarrow>
          create_outcome from_str node ctx ''CreateFederationExecutionWithMimResponse'' name (unwrap_or [] ms @ option_list mim)
      | CreateFederationExecutionWithMimAndTime name ms mim \<Rightarrow>
          create_outcome from_str node ctx ''CreateFederationExecutionWithMimAndTimeResponse'' name
            (unwrap_or [] ms @ option_list mim)
      | CreateFederationExecutionWithModules name ms \<Rightarrow>
          create_outcome from_str node ctx ''CreateFederationExecutionWithModulesResponse'' name (unwrap_or [] ms)
      | DestroyFederationExecution name \<Rightarrow>
          (case destroy_federation_execution name node of
             (node', r) \<Rightarrow> Some (node', ctx, [], ack ''DestroyFederationExecutionResponse'' r)))"

definition dispatch_member :: "RtiNode \<Rightarrow> SessionContext \<Rightarrow> MemberRequest \<Rightarrow> outcome" where
  "dispatch_member node ctx req =
     (case req of
        ListFederationExecutionMembers name \<Rightarrow>
          (node, ctx, fan_out (own_connection node ctx)
             (case map_of (federations node) name of
                Some i \<Rightarrow> report_federation_execution_members name
                  (map (\<lambda>fs. (fs_name fs, federate_type fs)) (hvalues (federates (fed_heap node i))))
              | None \<Rightarrow> report_federation_execution_does_not_exist name),
             Inr (''ListFederationExecutionMembersResponse'', PUnit))
      | ListFederationExecutions \<Rightarrow>
          (node, ctx, fan_out (own_connection node ctx) (report_federation_executions (hkeys (federations node))),
             Inr (''ListFederationExecutionsResponse'', PUnit))
      | JoinFederationExecution name \<Rightarrow>
          join_outcome node ctx ''JoinFederationExecutionResponse'' None name
      | JoinFederationExecutionWithName federate name \<Rightarrow>
          join_outcome node ctx ''JoinFederationExecutionWithNameResponse'' (Some federate) name
      | JoinFederationExecutionWithModules name \<Rightarrow>
          join_outcome node ctx ''JoinFederationExecutionWithModulesResponse'' None name
      | JoinFederationExecutionWithNameAndModules federate name \<Rightarrow>
          join_outcome node ctx ''JoinFederationExecutionWithNameAndModulesResponse'' (Some federate) name
      | ResignFederationExecution \<Rightarrow>
          (case resign ctx node of
             (node', ctx', r) \<Rightarrow> (node', ctx', [], ack ''ResignFederationExecutionResponse'' r)))"

subsection \<open>Switches\<close>

datatype Switch =
    ObjectClassRelevanceAdvisory | AttributeRelevanceAdvisory | AttributeScopeAdvisory | InteractionRelevanceAdvisory
  | ConveyRegionDesignatorSets | ServiceReporting | ExceptionReporting | SendServiceReportsToFile

datatype ReadOnlySwitch =
    AutoProvide | DelaySubscriptionEvaluation | AdvisoriesUseKnownClass | AllowRelaxedDdm | NonRegulatedGrant

datatype SwitchRequest =
    GetSwitch Switch | SetSwitch Switch bool | GetReadOnlySwitch ReadOnlySwitch
  | GetAutomaticResignDirective | SetAutomaticResignDirective i32

definition switch_name :: "Switch \<Rightarrow> string" where
  "switch_name s =
     (case s of
        ObjectClassRelevanceAdvisory \<Rightarrow> ''ObjectClassRelevanceAdvisorySwitchResponse''
      | AttributeRelevanceAdvisory \<Rightarrow> ''AttributeRelevanceAdvisorySwitchResponse''
      | AttributeScopeAdvisory \<Rightarrow> ''AttributeScopeAdvisorySwitchResponse''
      | InteractionRelevanceAdvisory \<Rightarrow> ''InteractionRelevanceAdvisorySwitchResponse''
      | ConveyRegionDesignatorSets \<Rightarrow> ''ConveyRegionDesignatorSetsSwitchResponse''
      | ServiceReporting \<Rightarrow> ''ServiceReportingSwitchResponse''
      | ExceptionReporting \<Rightarrow> ''ExceptionReportingSwitchResponse''
      | SendServiceReportsToFile \<Rightarrow> ''SendServiceReportsToFileSwitchResponse'')"

definition switch_getter :: "Switch \<Rightarrow> Switches \<Rightarrow> bool" where
  "switch_getter s =
     (case s of
        ObjectClassRelevanceAdvisory \<Rightarrow> object_class_relevance_advisory
      | AttributeRelevanceAdvisory \<Rightarrow> attribute_relevance_advisory
      | AttributeScopeAdvisory \<Rightarrow> attribute_scope_advisory
      | InteractionRelevanceAdvisory \<Rightarrow> interaction_relevance_advisory
      | ConveyRegionDesignatorSets \<Rightarrow> convey_region_designator_sets
      | ServiceReporting \<Rightarrow> service_reporting
      | ExceptionReporting \<Rightarrow> exception_reporting
      | SendServiceReportsToFile \<Rightarrow> send_service_reports_to_file)"

definition switch_setter :: "Switch \<Rightarrow> bool \<Rightarrow> Switches \<Rightarrow> Switches" where
  "switch_setter s v sw =
     (case s of
        ObjectClassRelevanceAdvisory \<Rightarrow> sw\<lparr>object_class_relevance_advisory := v\<rparr>
      | AttributeRelevanceAdvisory \<Rightarrow> sw\<lparr>attribute_relevance_advisory := v\<rparr>
      | AttributeScopeAdvisory \<Rightarrow> sw\<lparr>attribute_scope_advisory := v\<rparr>
      | InteractionRelevanceAdvisory \<Rightarrow> sw\<lparr>interaction_relevance_advisory := v\<rparr>
      | ConveyRegionDesignatorSets \<Rightarrow> sw\<lparr>convey_region_designator_sets := v\<rparr>
      | ServiceReporting \<Rightarrow> sw\<lparr>service_reporting := v\<rparr>
      | ExceptionReporting \<Rightarrow> sw\<lparr>exception_reporting := v\<rparr>
      | SendServiceReportsToFile \<Rightarrow> sw\<lparr>send_service_reports_to_file := v\<rparr>)"

definition read_only_switch :: "ReadOnlySwitch \<Rightarrow> string \<times> (Switches \<Rightarrow> bool)" where
  "read_only_switch s =
     (case s of
        AutoProvide \<Rightarrow> (''GetAutoProvideSwitchResponse'', auto_provide)
      | DelaySubscriptionEvaluation \<Rightarrow> (''GetDelaySubscriptionEvaluationSwitchResponse'', delay_subscription_evaluation)
      | AdvisoriesUseKnownClass \<Rightarrow> (''GetAdvisoriesUseKnownClassSwitchResponse'', advisories_use_known_class)
      | AllowRelaxedDdm \<Rightarrow> (''GetAllowRelaxedDdmSwitchResponse'', allow_relaxed_ddm)
      | NonRegulatedGrant \<Rightarrow> (''GetNonRegulatedGrantSwitchResponse'', non_regulated_grant))"

definition dispatch_switch :: "RtiNode \<Rightarrow> SessionContext \<Rightarrow> SwitchRequest \<Rightarrow> outcome" where
  "dispatch_switch node ctx req =
     (case req of
        GetSwitch s \<Rightarrow> query_membership node ctx (''Get'' @ switch_name s) PBool (\<lambda>me. get_switch_bool me (switch_getter s))
      | SetSwitch s v \<Rightarrow>
          with_membership node ctx (''Set'' @ switch_name s) (\<lambda>_. PUnit) (\<lambda>me. set_switch_bool me v (switch_setter s))
      | GetReadOnlySwitch s \<Rightarrow>
          query_membership node ctx (fst (read_only_switch s)) PBool (\<lambda>me. get_switch_bool me (snd (read_only_switch s)))
      | GetAutomaticResignDirective \<Rightarrow>
          query_membership node ctx ''GetAutomaticResignDirectiveResponse'' PInt get_automatic_resign_directive
      | SetAutomaticResignDirective v \<Rightarrow>
          with_membership node ctx ''SetAutomaticResignDirectiveResponse'' (\<lambda>_. PUnit)
            (\<lambda>me. set_automatic_resign_directive me v))"

subsection \<open>Lookups\<close>

datatype LookupRequest =
    GetObjectInstanceHandle string | GetObjectInstanceName wire_handle | GetKnownObjectClassHandle wire_handle
  | LocalDeleteObjectInstance wire_handle
  | GetDimensionHandle string | GetDimensionName wire_handle | GetDimensionUpperBound | GetDimensionHandleSet wire_handle
  | GetAvailableDimensionsForObjectClass | GetAvailableDimensionsForInteractionClass
  | GetFederateHandle string | GetFederateName wire_handle
  | GetOrderType string | GetOrderName i32
  | GetTransportationTypeHandle string | GetTransportationTypeName wire_handle

definition dispatch_lookup :: "RtiNode \<Rightarrow> SessionContext \<Rightarrow> LookupRequest \<Rightarrow> outcome" where
  "dispatch_lookup node ctx req =
     (case req of
        GetObjectInstanceHandle name \<Rightarrow>
          query_membership node ctx ''GetObjectInstanceHandleResponse'' PHandle (\<lambda>_. get_object_instance_handle name)
      | GetObjectInstanceName i \<Rightarrow>
          query_membership node ctx ''GetObjectInstanceNameResponse'' PStr (\<lambda>_. get_object_instance_name i)
      | GetKnownObjectClassHandle i \<Rightarrow>
          query_membership node ctx ''GetKnownObjectClassHandleResponse'' PHandle (\<lambda>_. get_known_object_class_handle i)
      | LocalDeleteObjectInstance i \<Rightarrow>
          with_membership node ctx ''LocalDeleteObjectInstanceResponse'' (\<lambda>_. PUnit) (\<lambda>me. local_delete_object_instance me i)
      | GetDimensionHandle name \<Rightarrow>
          query_membership node ctx ''GetDimensionHandleResponse'' PHandle (\<lambda>_. get_dimension_handle name)
      | GetDimensionName d \<Rightarrow> (node, ctx, [], respond ''GetDimensionNameResponse'' PStr (get_dimension_name d))
      | GetDimensionUpperBound \<Rightarrow> (node, ctx, [], respond ''GetDimensionUpperBoundResponse'' PU32 get_dimension_upper_bound)
      | GetDimensionHandleSet r \<Rightarrow>
          query_membership node ctx ''GetDimensionHandleSetResponse'' PHandles (\<lambda>_. get_dimension_handle_set r)
      | GetAvailableDimensionsForObjectClass \<Rightarrow>
          (node, ctx, [], respond ''GetAvailableDimensionsForObjectClassResponse'' PHandles
            get_available_dimensions_for_object_class)
      | GetAvailableDimensionsForInteractionClass \<Rightarrow>
          (node, ctx, [], respond ''GetAvailableDimensionsForInteractionClassResponse'' PHandles
            get_available_dimensions_for_interaction_class)
      | GetFederateHandle name \<Rightarrow>
          query_membership node ctx ''GetFederateHandleResponse'' PHandle (\<lambda>_. get_federate_handle name)
      | GetFederateName None \<Rightarrow> (node, ctx, [], exception_variant InvalidFederateHandle [])
      | GetFederateName (Some h) \<Rightarrow> query_membership node ctx ''GetFederateNameResponse'' PStr (\<lambda>_. get_federate_name h)
      | GetOrderType name \<Rightarrow> (node, ctx, [], respond ''GetOrderTypeResponse'' PInt (get_order_type name))
      | GetOrderName t \<Rightarrow> (node, ctx, [], respond ''GetOrderNameResponse'' PStr (get_order_name t))
      | GetTransportationTypeHandle name \<Rightarrow>
          (node, ctx, [], respond ''GetTransportationTypeHandleResponse'' PHandle (get_transportation_type_handle name))
      | GetTransportationTypeName None \<Rightarrow> (node, ctx, [], exception_variant InvalidTransportationTypeHandle [])
      | GetTransportationTypeName (Some h) \<Rightarrow>
          (node, ctx, [], respond ''GetTransportationTypeNameResponse'' PStr (get_transportation_type_name h)))"

datatype HandleRequest =
    GetObjectClassHandle string | GetObjectClassName wire_handle
  | GetAttributeHandle wire_handle string | GetAttributeName wire_handle wire_handle
  | GetInteractionClassHandle string | GetInteractionClassName wire_handle
  | GetParameterHandle wire_handle string | GetParameterName wire_handle wire_handle

definition dispatch_handle :: "RtiNode \<Rightarrow> SessionContext \<Rightarrow> HandleRequest \<Rightarrow> outcome" where
  "dispatch_handle node ctx req =
     (case req of
        GetObjectClassHandle name \<Rightarrow>
          query_membership node ctx ''GetObjectClassHandleResponse'' PHandle (\<lambda>_. get_object_class_handle name)
      | GetObjectClassName (Some h) \<Rightarrow>
          query_membership node ctx ''GetObjectClassNameResponse'' PStr (\<lambda>_. get_object_class_name h)
      | GetObjectClassName None \<Rightarrow> (node, ctx, [], exception_variant InvalidObjectClassHandle [DStr ''missing handle''])
      | GetAttributeHandle (Some h) name \<Rightarrow>
          query_membership node ctx ''GetAttributeHandleResponse'' PHandle (\<lambda>_. get_attribute_handle h name)
      | GetAttributeHandle None name \<Rightarrow> (node, ctx, [], exception_variant InvalidObjectClassHandle [DStr ''missing handle''])
      | GetAttributeName c a \<Rightarrow>
          (case (c, a) of
             (Some c, Some a) \<Rightarrow> query_membership node ctx ''GetAttributeNameResponse'' PStr (\<lambda>_. get_attribute_name c a)
           | _ \<Rightarrow> (node, ctx, [], exception_variant InvalidObjectClassHandle [DStr ''missing handle(s)'']))
      | GetInteractionClassHandle name \<Rightarrow>
          query_membership node ctx ''GetInteractionClassHandleResponse'' PHandle (\<lambda>_. get_interaction_class_handle name)
      | GetInteractionClassName (Some h) \<Rightarrow>
          query_membership node ctx ''GetInteractionClassNameResponse'' PStr (\<lambda>_. get_interaction_class_name h)
      | GetInteractionClassName None \<Rightarrow>
          (node, ctx, [], exception_variant InvalidInteractionClassHandle [DStr ''missing handle''])
      | GetParameterHandle (Some h) name \<Rightarrow>
          query_membership node ctx ''GetParameterHandleResponse'' PHandle (\<lambda>_. get_parameter_handle h name)
      | GetParameterHandle None name \<Rightarrow>
          (node, ctx, [], exception_variant InvalidInteractionClassHandle [DStr ''missing handle''])
      | GetParameterName c p \<Rightarrow>
          (case (c, p) of
             (Some c, Some p) \<Rightarrow> query_membership node ctx ''GetParameterNameResponse'' PStr (\<lambda>_. get_parameter_name c p)
           | _ \<Rightarrow> (node, ctx, [], exception_variant InvalidInteractionClassHandle [DStr ''missing handle(s)''])))"

subsection \<open>Declarations\<close>

datatype DeclarationRequest =
    PublishObjectClassAttributes wire_handle "bytes list option"
  | UnpublishObjectClassAttributes wire_handle "bytes list option"
  | SubscribeObjectClassAttributes wire_handle "bytes list option"
  | UnsubscribeObjectClassAttributes wire_handle "bytes list option"
  | PublishInteractionClass wire_handle
  | UnpublishInteractionClass wire_handle
  | SubscribeInteractionClass wire_handle
  | UnsubscribeInteractionClass wire_handle
  | UnpublishObjectClass wire_handle
  | UnsubscribeObjectClass wire_handle

text \<open>The arms \<^verbatim>\<open>UnpublishObjectClassRequest\<close> and \<^verbatim>\<open>UnsubscribeObjectClassRequest\<close>, written in place in the source.\<close>

definition unpublish_object_class :: "FederateHandle \<Rightarrow> wire_handle \<Rightarrow> Federation \<Rightarrow> unit step" where
  "unpublish_object_class me cls fed =
     (case Option.bind cls (\<lambda>h. ok (decode_object_class h)) of
        None \<Rightarrow> (fed, [], exception_variant InvalidObjectClassHandle [])
      | Some c \<Rightarrow> (modify_pub_sub me (\<lambda>ps. ps\<lparr>published_attrs := hremove c (published_attrs ps)\<rparr>) fed, [], Inr ()))"

definition unsubscribe_object_class :: "FederateHandle \<Rightarrow> wire_handle \<Rightarrow> Federation \<Rightarrow> unit step" where
  "unsubscribe_object_class me cls fed =
     (case Option.bind cls (\<lambda>h. ok (decode_object_class h)) of
        None \<Rightarrow> (fed, [], exception_variant InvalidObjectClassHandle [])
      | Some c \<Rightarrow>
          let fed1 = modify_pub_sub me (\<lambda>ps. ps\<lparr>subscribed_attrs := hremove c (subscribed_attrs ps)\<rparr>) fed
          in (fed1\<lparr>subscriptions := remove_class c (subscriptions fed1)\<rparr>, [], Inr ()))"

definition dispatch_declaration :: "RtiNode \<Rightarrow> SessionContext \<Rightarrow> DeclarationRequest \<Rightarrow> outcome" where
  "dispatch_declaration node ctx req =
     (let unit = (\<lambda>_. PUnit); cs = connections node;
          subscribe = (\<lambda>c a. with_membership node ctx ''SubscribeObjectClassAttributesResponse'' unit
            (\<lambda>me. subscribe_object_class_attributes_inner cs me c a))
      in case req of
        PublishObjectClassAttributes c a \<Rightarrow>
          with_membership node ctx ''PublishObjectClassAttributesResponse'' unit (\<lambda>me. publish_object_class_attributes me c a)
      | UnpublishObjectClassAttributes c a \<Rightarrow>
          with_membership node ctx ''UnpublishObjectClassAttributesResponse'' unit (\<lambda>me. unpublish_object_class_attributes me c a)
      | SubscribeObjectClassAttributes c a \<Rightarrow> subscribe c a
      | UnsubscribeObjectClassAttributes c a \<Rightarrow>
          with_membership node ctx ''UnsubscribeObjectClassAttributesResponse'' unit
            (\<lambda>me. unsubscribe_object_class_attributes_inner cs me c a)
      | PublishInteractionClass c \<Rightarrow>
          with_membership node ctx ''PublishInteractionClassResponse'' unit (\<lambda>me. publish_interaction_class me c)
      | UnpublishInteractionClass c \<Rightarrow>
          with_membership node ctx ''UnpublishInteractionClassResponse'' unit (\<lambda>me. unpublish_interaction_class me c)
      | SubscribeInteractionClass c \<Rightarrow>
          with_membership node ctx ''SubscribeInteractionClassResponse'' unit (\<lambda>me. subscribe_interaction_class_inner cs me c)
      | UnsubscribeInteractionClass c \<Rightarrow>
          with_membership node ctx ''UnsubscribeInteractionClassResponse'' unit (\<lambda>me. unsubscribe_interaction_class_inner cs me c)
      | UnpublishObjectClass c \<Rightarrow>
          with_membership node ctx ''UnpublishObjectClassResponse'' unit (\<lambda>me. unpublish_object_class me c)
      | UnsubscribeObjectClass c \<Rightarrow>
          with_membership node ctx ''UnsubscribeObjectClassResponse'' unit (\<lambda>me. unsubscribe_object_class me c))"

text \<open>The passive variants and those with an update rate: the plain subscriptions, with their responses.\<close>

datatype PassiveRequest =
    SubscribeObjectClassAttributesWithRate wire_handle "bytes list option"
  | SubscribeObjectClassAttributesPassively wire_handle "bytes list option"
  | SubscribeObjectClassAttributesPassivelyWithRate wire_handle "bytes list option"
  | SubscribeInteractionClassPassively wire_handle

definition dispatch_passive :: "RtiNode \<Rightarrow> SessionContext \<Rightarrow> PassiveRequest \<Rightarrow> outcome" where
  "dispatch_passive node ctx req =
     (let cs = connections node;
          subscribe = (\<lambda>c a. with_membership node ctx ''SubscribeObjectClassAttributesResponse'' (\<lambda>_. PUnit)
            (\<lambda>me. subscribe_object_class_attributes_inner cs me c a))
      in case req of
        SubscribeObjectClassAttributesWithRate c a \<Rightarrow> subscribe c a
      | SubscribeObjectClassAttributesPassively c a \<Rightarrow> subscribe c a
      | SubscribeObjectClassAttributesPassivelyWithRate c a \<Rightarrow> subscribe c a
      | SubscribeInteractionClassPassively c \<Rightarrow>
          with_membership node ctx ''SubscribeInteractionClassResponse'' (\<lambda>_. PUnit)
            (\<lambda>me. subscribe_interaction_class_inner cs me c))"

subsection \<open>Objects and ownership\<close>

datatype ObjectRequest =
    RegisterObjectInstance wire_handle
  | RegisterObjectInstanceWithName wire_handle string
  | UpdateAttributeValues wire_handle "wire_values option" bytes
  | SendInteraction wire_handle "wire_values option" bytes
  | DeleteObjectInstance wire_handle bytes
  | UpdateAttributeValuesWithTime wire_handle "wire_values option" bytes "bytes option"
  | SendInteractionWithTime wire_handle "wire_values option" bytes "bytes option"
  | DeleteObjectInstanceWithTime wire_handle bytes "bytes option"

definition dispatch_object :: "RtiNode \<Rightarrow> SessionContext \<Rightarrow> ObjectRequest \<Rightarrow> outcome" where
  "dispatch_object node ctx req =
     (let unit = (\<lambda>_. PUnit); cs = connections node; handle = (\<lambda>h. PHandle (encode_object_instance h))
      in case req of
        RegisterObjectInstance c \<Rightarrow>
          with_membership node ctx ''RegisterObjectInstanceResponse'' handle (\<lambda>me. register_object_instance cs me c None)
      | RegisterObjectInstanceWithName c name \<Rightarrow>
          with_membership node ctx ''RegisterObjectInstanceWithNameResponse'' handle
            (\<lambda>me. register_object_instance cs me c (Some name))
      | UpdateAttributeValues i vs tag \<Rightarrow>
          with_membership node ctx ''UpdateAttributeValuesResponse'' unit (\<lambda>me. update_attribute_values cs me i vs tag)
      | SendInteraction c ps tag \<Rightarrow>
          with_membership node ctx ''SendInteractionResponse'' unit (\<lambda>me. send_interaction cs me c ps tag)
      | DeleteObjectInstance i tag \<Rightarrow>
          with_membership node ctx ''DeleteObjectInstanceResponse'' unit (\<lambda>me. delete_object_instance cs me i tag)
      | UpdateAttributeValuesWithTime i vs tag t \<Rightarrow>
          with_membership node ctx ''UpdateAttributeValuesWithTimeResponse'' (\<lambda>_. PNoResult)
            (\<lambda>me. update_attribute_values_with_time cs me i vs tag t)
      | SendInteractionWithTime c ps tag t \<Rightarrow>
          with_membership node ctx ''SendInteractionWithTimeResponse'' (\<lambda>_. PNoResult)
            (\<lambda>me. send_interaction_with_time cs me c ps tag t)
      | DeleteObjectInstanceWithTime i tag t \<Rightarrow>
          with_membership node ctx ''DeleteObjectInstanceWithTimeResponse'' (\<lambda>_. PNoResult)
            (\<lambda>me. delete_object_instance_with_time cs me i tag t))"

datatype OwnershipRequest =
    IsAttributeOwnedByFederate wire_handle wire_handle
  | QueryAttributeOwnership wire_handle "bytes list option"
  | UnconditionalAttributeOwnershipDivestiture wire_handle "bytes list option"
  | AttributeOwnershipAcquisition wire_handle "bytes list option" bytes
  | NegotiatedAttributeOwnershipDivestiture wire_handle "bytes list option"
  | AttributeOwnershipDivestitureIfWanted wire_handle "bytes list option"
  | AttributeOwnershipAcquisitionIfAvailable wire_handle "bytes list option" bytes

definition dispatch_ownership :: "RtiNode \<Rightarrow> SessionContext \<Rightarrow> OwnershipRequest \<Rightarrow> outcome" where
  "dispatch_ownership node ctx req =
     (let unit = (\<lambda>_. PUnit); cs = connections node;
          divest = (\<lambda>i a. with_membership node ctx ''UnconditionalAttributeOwnershipDivestitureResponse'' unit
            (\<lambda>me. unconditional_attribute_ownership_divestiture cs me i a));
          acquire = (\<lambda>i a tag. with_membership node ctx ''AttributeOwnershipAcquisitionIfAvailableResponse'' unit
            (\<lambda>me. attribute_ownership_acquisition_if_available cs me i a tag))
      in case req of
        IsAttributeOwnedByFederate i a \<Rightarrow>
          query_membership node ctx ''IsAttributeOwnedByFederateResponse'' PBool (\<lambda>me. is_attribute_owned_by_federate me i a)
      | QueryAttributeOwnership i a \<Rightarrow>
          with_membership node ctx ''QueryAttributeOwnershipResponse'' unit (\<lambda>me. query_attribute_ownership cs me i a)
      | UnconditionalAttributeOwnershipDivestiture i a \<Rightarrow> divest i a
      | AttributeOwnershipAcquisition i a tag \<Rightarrow> acquire i a tag
      | NegotiatedAttributeOwnershipDivestiture i a \<Rightarrow> divest i a
      | AttributeOwnershipDivestitureIfWanted i a \<Rightarrow> divest i a
      | AttributeOwnershipAcquisitionIfAvailable i a tag \<Rightarrow> acquire i a tag)"

subsection \<open>Save, restore and synchronization points\<close>

datatype SaveRequest =
    RequestFederationSave string | FederateSaveBegun | FederateSaveComplete | FederateSaveNotComplete
  | AbortFederationSave | RequestFederationSaveWithTime string
  | RequestFederationRestore string | FederateRestoreComplete | FederateRestoreNotComplete | AbortFederationRestore

definition progress_name :: "string \<Rightarrow> bool \<Rightarrow> string" where
  "progress_name service successfully = service @ (if successfully then ''CompleteResponse'' else ''NotCompleteResponse'')"

text \<open>The one handler that writes the disk.\<close>

definition save_progress_outcome :: "Serde \<Rightarrow> RtiNode \<Rightarrow> SessionContext \<Rightarrow> bool \<Rightarrow> outcome" where
  "save_progress_outcome serde node ctx successfully =
     (case membership ctx of
        None \<Rightarrow> (node, ctx, [], not_member)
      | Some m \<Rightarrow>
          (case federate_save_progressed (connections node) serde (mb_federate_handle m) successfully (disk node)
                  (fed_heap node (mb_federation m)) of
             (disk', fed, cbs, r) \<Rightarrow>
               (set_federation (mb_federation m) fed (node\<lparr>disk := disk'\<rparr>), ctx, cbs,
                respond (progress_name ''FederateSave'' successfully) (\<lambda>_. PUnit) r)))"

definition dispatch_save :: "Serde \<Rightarrow> RtiNode \<Rightarrow> SessionContext \<Rightarrow> SaveRequest \<Rightarrow> outcome" where
  "dispatch_save serde node ctx req =
     (let unit = (\<lambda>_. PUnit); cs = connections node;
          save = (\<lambda>label. with_membership node ctx ''RequestFederationSaveResponse'' unit
            (\<lambda>_. request_federation_save cs label));
          restored = (\<lambda>b. with_membership node ctx (progress_name ''FederateRestore'' b) (\<lambda>_. PUnit)
            (\<lambda>me. federate_restore_progressed cs me b))
      in case req of
        RequestFederationSave label \<Rightarrow> save label
      | FederateSaveBegun \<Rightarrow> with_membership node ctx ''FederateSaveBegunResponse'' unit federate_save_begun
      | FederateSaveComplete \<Rightarrow> save_progress_outcome serde node ctx True
      | FederateSaveNotComplete \<Rightarrow> save_progress_outcome serde node ctx False
      | AbortFederationSave \<Rightarrow> with_membership node ctx ''AbortFederationSaveResponse'' unit (\<lambda>_. abort_federation_save)
      | RequestFederationSaveWithTime label \<Rightarrow> save label
      | RequestFederationRestore label \<Rightarrow>
          with_membership node ctx ''RequestFederationRestoreResponse'' unit
            (\<lambda>me. request_federation_restore cs serde me label (disk node))
      | FederateRestoreComplete \<Rightarrow> restored True
      | FederateRestoreNotComplete \<Rightarrow> restored False
      | AbortFederationRestore \<Rightarrow>
          with_membership node ctx ''AbortFederationRestoreResponse'' unit (\<lambda>_. abort_federation_restore))"

datatype SyncRequest =
    RegisterFederationSynchronizationPoint string bytes
  | RegisterFederationSynchronizationPointWithSet string bytes "bytes list option"
  | SynchronizationPointAchieved string bool

definition dispatch_sync :: "RtiNode \<Rightarrow> SessionContext \<Rightarrow> SyncRequest \<Rightarrow> outcome" where
  "dispatch_sync node ctx req =
     (let unit = (\<lambda>_. PUnit); cs = connections node;
          register = (\<lambda>label tag sub. with_membership node ctx ''RegisterFederationSynchronizationPointResponse'' unit
            (\<lambda>me. register_synchronization_point cs me label tag sub))
      in case req of
        RegisterFederationSynchronizationPoint label tag \<Rightarrow> register label tag None
      | RegisterFederationSynchronizationPointWithSet label tag sync_set \<Rightarrow>
          register label tag
            (Some (hs_extend [] (List.map_filter (\<lambda>h. ok (decode_object_class h)) (unwrap_or [] sync_set))))
      | SynchronizationPointAchieved label successfully \<Rightarrow>
          with_membership node ctx ''SynchronizationPointAchievedResponse'' unit
            (\<lambda>me. synchronization_point_achieved cs me label successfully))"

subsection \<open>Regions, time and directed interactions\<close>

datatype RegionRequest =
    CreateRegion "bytes list option" | CommitRegionModifications "bytes list option" | DeleteRegion wire_handle
  | GetRangeBounds wire_handle wire_handle | SetRangeBounds wire_handle wire_handle "(u32 \<times> u32) option"
  | SubscribeObjectClassAttributesWithRegions wire_handle "wire_pairs option"
  | UnsubscribeObjectClassAttributesWithRegions wire_handle "wire_pairs option"
  | SendInteractionWithRegions wire_handle "wire_values option" bytes
  | RegisterObjectInstanceWithRegions wire_handle "wire_pairs option"
  | SendInteractionWithRegionsAndTime wire_handle "wire_values option" bytes "bytes option"
  | RegisterObjectInstanceWithNameAndRegions wire_handle string "wire_pairs option"

definition dispatch_region :: "RtiNode \<Rightarrow> SessionContext \<Rightarrow> RegionRequest \<Rightarrow> outcome" where
  "dispatch_region node ctx req =
     (let unit = (\<lambda>_. PUnit); cs = connections node; handle = (\<lambda>h. PHandle (encode_object_instance h))
      in case req of
        CreateRegion dims \<Rightarrow> with_membership node ctx ''CreateRegionResponse'' PHandle (\<lambda>me. create_region me dims)
      | CommitRegionModifications rs \<Rightarrow>
          with_membership node ctx ''CommitRegionModificationsResponse'' unit (\<lambda>me. commit_region_modifications me rs)
      | DeleteRegion r \<Rightarrow> with_membership node ctx ''DeleteRegionResponse'' unit (\<lambda>me. delete_region me r)
      | GetRangeBounds r d \<Rightarrow>
          query_membership node ctx ''GetRangeBoundsResponse'' (\<lambda>(l, u). PBounds l u) (\<lambda>_. get_range_bounds r d)
      | SetRangeBounds r d b \<Rightarrow>
          with_membership node ctx ''SetRangeBoundsResponse'' unit (\<lambda>me. set_range_bounds me r d b)
      | SubscribeObjectClassAttributesWithRegions c pairs \<Rightarrow>
          with_membership node ctx ''SubscribeObjectClassAttributesWithRegionsResponse'' unit
            (\<lambda>me. subscribe_object_class_attributes_with_regions cs me c pairs)
      | UnsubscribeObjectClassAttributesWithRegions c pairs \<Rightarrow>
          with_membership node ctx ''UnsubscribeObjectClassAttributesWithRegionsResponse'' unit
            (\<lambda>me. unsubscribe_object_class_attributes_with_regions me c pairs)
      | SendInteractionWithRegions c ps tag \<Rightarrow>
          with_membership node ctx ''SendInteractionResponse'' unit (\<lambda>me. send_interaction cs me c ps tag)
      | RegisterObjectInstanceWithRegions c pairs \<Rightarrow>
          with_membership node ctx ''RegisterObjectInstanceWithRegionsResponse'' handle
            (\<lambda>me. register_object_instance_with_regions cs me c None pairs)
      | SendInteractionWithRegionsAndTime c ps tag t \<Rightarrow>
          with_membership node ctx ''SendInteractionWithTimeResponse'' (\<lambda>_. PNoResult)
            (\<lambda>me. send_interaction_with_time cs me c ps tag t)
      | RegisterObjectInstanceWithNameAndRegions c name pairs \<Rightarrow>
          with_membership node ctx ''RegisterObjectInstanceWithNameAndRegionsResponse'' handle
            (\<lambda>me. register_object_instance_with_regions cs me c (Some name) pairs))"

datatype TimeRequest =
    EnableTimeRegulation "bytes option" | DisableTimeRegulation | EnableTimeConstrained | DisableTimeConstrained
  | TimeAdvanceRequest "bytes option" | NextMessageRequest "bytes option" | QueryLogicalTime | QueryLookahead
  | ModifyLookahead "bytes option" | QueryLits | TimeAdvanceRequestAvailable "bytes option"
  | NextMessageRequestAvailable "bytes option" | FlushQueueRequest "bytes option" | QueryGalt

text \<open>The arm \<^verbatim>\<open>QueryGaltRequest\<close>, written in place in the source.\<close>

definition query_galt :: "Federation \<Rightarrow> (bool \<times> bytes) resp" where
  "query_galt fed =
     (let bound = lbts fed in
      Inr (f64_is_finite bound, encode_logical_time (if f64_is_finite bound then bound else 0)))"

definition dispatch_time :: "RtiNode \<Rightarrow> SessionContext \<Rightarrow> TimeRequest \<Rightarrow> outcome" where
  "dispatch_time node ctx req =
     (let unit = (\<lambda>_. PUnit); cs = connections node; query = (\<lambda>(valid, t). PTimeQuery valid t);
          advance = (\<lambda>t. with_membership node ctx ''TimeAdvanceRequestResponse'' unit (\<lambda>me. time_advance_request cs me t))
      in case req of
        EnableTimeRegulation l \<Rightarrow>
          with_membership node ctx ''EnableTimeRegulationResponse'' unit (\<lambda>me. enable_time_regulation cs me l)
      | DisableTimeRegulation \<Rightarrow>
          with_membership node ctx ''DisableTimeRegulationResponse'' unit (disable_time_regulation cs)
      | EnableTimeConstrained \<Rightarrow>
          with_membership node ctx ''EnableTimeConstrainedResponse'' unit (enable_time_constrained cs)
      | DisableTimeConstrained \<Rightarrow>
          with_membership node ctx ''DisableTimeConstrainedResponse'' unit disable_time_constrained
      | TimeAdvanceRequest t \<Rightarrow> advance t
      | NextMessageRequest t \<Rightarrow> advance t
      | QueryLogicalTime \<Rightarrow> query_membership node ctx ''QueryLogicalTimeResponse'' PHandle query_logical_time
      | QueryLookahead \<Rightarrow> query_membership node ctx ''QueryLookaheadResponse'' PHandle query_lookahead
      | ModifyLookahead l \<Rightarrow>
          with_membership node ctx ''ModifyLookaheadResponse'' unit (\<lambda>me. modify_lookahead me l)
      | QueryLits \<Rightarrow> query_membership node ctx ''QueryLitsResponse'' query (\<lambda>_. query_lits)
      | TimeAdvanceRequestAvailable t \<Rightarrow> advance t
      | NextMessageRequestAvailable t \<Rightarrow> advance t
      | FlushQueueRequest t \<Rightarrow> advance t
      | QueryGalt \<Rightarrow> query_membership node ctx ''QueryGaltResponse'' query (\<lambda>_. query_galt))"

datatype DirectedRequest =
    PublishObjectClassDirectedInteractions wire_handle "bytes list option"
  | UnpublishObjectClassDirectedInteractions wire_handle
  | UnpublishObjectClassDirectedInteractionsWithSet wire_handle "bytes list option"
  | SubscribeObjectClassDirectedInteractions wire_handle "bytes list option"
  | SubscribeObjectClassDirectedInteractionsUniversally wire_handle "bytes list option"
  | UnsubscribeObjectClassDirectedInteractions wire_handle
  | UnsubscribeObjectClassDirectedInteractionsWithSet wire_handle "bytes list option"
  | SendDirectedInteraction wire_handle wire_handle "wire_values option" bytes

definition dispatch_directed :: "RtiNode \<Rightarrow> SessionContext \<Rightarrow> DirectedRequest \<Rightarrow> outcome" where
  "dispatch_directed node ctx req =
     (let unit = (\<lambda>_. PUnit); cs = connections node;
          unpublish = (\<lambda>c ixs. with_membership node ctx ''UnpublishObjectClassDirectedInteractionsResponse'' unit
            (\<lambda>me. unpublish_object_class_directed_interactions me c ixs));
          subscribe = (\<lambda>c ixs. with_membership node ctx ''SubscribeObjectClassDirectedInteractionsResponse'' unit
            (\<lambda>me. subscribe_object_class_directed_interactions me c ixs));
          unsubscribe = (\<lambda>c ixs. with_membership node ctx ''UnsubscribeObjectClassDirectedInteractionsResponse'' unit
            (\<lambda>me. unsubscribe_object_class_directed_interactions me c ixs))
      in case req of
        PublishObjectClassDirectedInteractions c ixs \<Rightarrow>
          with_membership node ctx ''PublishObjectClassDirectedInteractionsResponse'' unit
            (\<lambda>me. publish_object_class_directed_interactions me c ixs)
      | UnpublishObjectClassDirectedInteractions c \<Rightarrow> unpublish c None
      | UnpublishObjectClassDirectedInteractionsWithSet c ixs \<Rightarrow> unpublish c ixs
      | SubscribeObjectClassDirectedInteractions c ixs \<Rightarrow> subscribe c ixs
      | SubscribeObjectClassDirectedInteractionsUniversally c ixs \<Rightarrow> subscribe c ixs
      | UnsubscribeObjectClassDirectedInteractions c \<Rightarrow> unsubscribe c None
      | UnsubscribeObjectClassDirectedInteractionsWithSet c ixs \<Rightarrow> unsubscribe c ixs
      | SendDirectedInteraction c i ps tag \<Rightarrow>
          with_membership node ctx ''SendDirectedInteractionResponse'' unit (\<lambda>me. send_directed_interaction cs me c i ps tag))"

subsection \<open>Services that need no federation\<close>

datatype NormalizeRequest =
    NormalizeServiceGroup i32
  | NormalizeFederateHandle wire_handle | NormalizeObjectClassHandle wire_handle
  | NormalizeInteractionClassHandle wire_handle | NormalizeObjectInstanceHandle wire_handle

definition normalize_handle :: "wire_handle \<Rightarrow> u32" where
  "normalize_handle h = (case h of Some b \<Rightarrow> if length b = 4 then from_be_bytes b else 0 | None \<Rightarrow> 0)"

definition dispatch_normalize :: "NormalizeRequest \<Rightarrow> CallResponse" where
  "dispatch_normalize req =
     (case req of
        NormalizeServiceGroup g \<Rightarrow> Inr (''NormalizeServiceGroupResponse'', PU32 g)
      | NormalizeFederateHandle h \<Rightarrow> Inr (''NormalizeFederateHandleResponse'', PU32 (normalize_handle h))
      | NormalizeObjectClassHandle h \<Rightarrow> Inr (''NormalizeObjectClassHandleResponse'', PU32 (normalize_handle h))
      | NormalizeInteractionClassHandle h \<Rightarrow> Inr (''NormalizeInteractionClassHandleResponse'', PU32 (normalize_handle h))
      | NormalizeObjectInstanceHandle h \<Rightarrow>
          Inr (''NormalizeObjectInstanceHandleResponse'',
            PU32 (case h of Some b \<Rightarrow> if length b = 8 then ucast (from_be_bytes b :: u64) else 0 | None \<Rightarrow> 0)))"

text \<open>
  The arms that read neither node nor session and answer the same whatever the request carries, by the name
  of the request without its suffix: those whose response has no field, and those whose response has an
  optional field left empty or a constant.
\<close>

definition connect_services :: "string list" where
  "connect_services = [''Connect'', ''ConnectWithCredentials'', ''ConnectWithConfiguration'',
     ''ConnectWithConfigurationAndCredentials'']"

definition ownership_acks :: "string list" where
  "ownership_acks = [''AttributeOwnershipReleaseDenied'', ''CancelNegotiatedAttributeOwnershipDivestiture'',
     ''CancelAttributeOwnershipAcquisition'', ''ConfirmDivestiture'']"

definition status_acks :: "string list" where
  "status_acks = [''QueryFederationSaveStatus'', ''QueryFederationRestoreStatus'']"

definition region_acks :: "string list" where
  "region_acks = [''SubscribeInteractionClassWithRegions'', ''UnsubscribeInteractionClassWithRegions'']"

definition order_acks :: "string list" where
  "order_acks = [''Retract'', ''ChangeAttributeOrderType'', ''ChangeDefaultAttributeOrderType'',
     ''ChangeInteractionOrderType'', ''RequestAttributeTransportationTypeChange'', ''QueryAttributeTransportationType'',
     ''RequestInteractionTransportationTypeChange'', ''QueryInteractionTransportationType'']"

definition association_acks :: "string list" where
  "association_acks = [''AssociateRegionsForUpdates'', ''UnassociateRegionsForUpdates'']"

definition reservation_acks :: "string list" where
  "reservation_acks = [''ReserveObjectInstanceName'', ''ReserveMultipleObjectInstanceNames'', ''ReleaseObjectInstanceName'',
     ''ReleaseMultipleObjectInstanceNames'', ''RequestClassAttributeValueUpdate'', ''RequestInstanceAttributeValueUpdate'',
     ''EnableAsynchronousDelivery'', ''DisableAsynchronousDelivery'']"

definition single_acks :: "string list" where
  "single_acks = [''Disconnect'', ''RequestAttributeValueUpdateWithRegions'',
     ''SubscribeObjectClassAttributesWithRegionsAndRate'', ''ChangeDefaultAttributeTransportationType'']"

definition rate_services :: "string list" where
  "rate_services = [''GetUpdateRateValue'', ''GetUpdateRateValueForAttribute'']"

definition dispatch_other :: "string \<Rightarrow> CallResponse" where
  "dispatch_other service =
     (if service \<in> set (ownership_acks @ status_acks @ region_acks @ order_acks @ association_acks @ reservation_acks
          @ single_acks)
      then Inr (service @ ''Response'', PUnit)
      else if service \<in> set (''SendDirectedInteractionWithTime'' # connect_services)
      then Inr (service @ ''Response'', PNoResult)
      else if service \<in> set rate_services then Inr (service @ ''Response'', PF64 0)
      else exception_variant RtiInternalError [DStr ''service not yet implemented''])"

subsection \<open>The dispatcher\<close>

datatype CallRequest =
    FederationCall FederationRequest | MemberCall MemberRequest | SwitchCall SwitchRequest | LookupCall LookupRequest | HandleCall HandleRequest
  | DeclarationCall DeclarationRequest | PassiveCall PassiveRequest | ObjectCall ObjectRequest | OwnershipCall OwnershipRequest
  | SaveCall SaveRequest | SyncCall SyncRequest | RegionCall RegionRequest | TimeCall TimeRequest
  | DirectedCall DirectedRequest | NormalizeCall NormalizeRequest | OtherCall string

definition dispatch_call :: "(string \<Rightarrow> string + XmlObjectModel) \<Rightarrow> Serde \<Rightarrow> RtiNode \<Rightarrow> SessionContext
    \<Rightarrow> CallRequest option \<Rightarrow> outcome option" where
  "dispatch_call from_str serde node ctx request =
     (case request of
        None \<Rightarrow> Some (node, ctx, [],
          exception_variant RtiInternalError [DStr ''CallRequest envelope had no oneof variant set''])
      | Some (FederationCall r) \<Rightarrow> dispatch_federation from_str node ctx r
      | Some (MemberCall r) \<Rightarrow> Some (dispatch_member node ctx r)
      | Some (SwitchCall r) \<Rightarrow> Some (dispatch_switch node ctx r)
      | Some (LookupCall r) \<Rightarrow> Some (dispatch_lookup node ctx r)
      | Some (HandleCall r) \<Rightarrow> Some (dispatch_handle node ctx r)
      | Some (DeclarationCall r) \<Rightarrow> Some (dispatch_declaration node ctx r)
      | Some (PassiveCall r) \<Rightarrow> Some (dispatch_passive node ctx r)
      | Some (ObjectCall r) \<Rightarrow> Some (dispatch_object node ctx r)
      | Some (OwnershipCall r) \<Rightarrow> Some (dispatch_ownership node ctx r)
      | Some (SaveCall r) \<Rightarrow> Some (dispatch_save serde node ctx r)
      | Some (SyncCall r) \<Rightarrow> Some (dispatch_sync node ctx r)
      | Some (RegionCall r) \<Rightarrow> Some (dispatch_region node ctx r)
      | Some (TimeCall r) \<Rightarrow> Some (dispatch_time node ctx r)
      | Some (DirectedCall r) \<Rightarrow> Some (dispatch_directed node ctx r)
      | Some (NormalizeCall r) \<Rightarrow> Some (node, ctx, [], dispatch_normalize r)
      | Some (OtherCall service) \<Rightarrow> Some (node, ctx, [], dispatch_other service))"

end
