(* ===== verification/Session.thy ===== *)
theory Session
  imports Framing
begin

text \<open>
  The session lifecycle on the wire: \<^verbatim>\<open>crates/hla-wire/src/session.rs\<close> (configuration, the opening handshake of
  both sides) and \<^verbatim>\<open>crates/hla-wire/src/call.rs\<close> (one call at a time and the termination of a session).

  A side of a connection is a source of frames and a sink of frames. The functions over \<^verbatim>\<open>FrameSource\<close> and
  \<^verbatim>\<open>FrameSink\<close> take the two trait methods as arguments; those over a byte stream use \<^verbatim>\<open>read_frame\<close> and
  \<^verbatim>\<open>write_frame\<close>. What a sink has accepted is the list \<open>sent\<close>; a sink may fail, after letting through some
  of what it was given. Durations are in milliseconds.
\<close>

definition DEFAULT_PORT :: u16 where "DEFAULT_PORT = 15164"
definition HEARTBEAT_INTERVAL :: nat where "HEARTBEAT_INTERVAL = 60000"
definition RTI_MISSING_TIMEOUT :: nat where "RTI_MISSING_TIMEOUT = 180000"
definition RECONNECT_WINDOW :: nat where "RECONNECT_WINDOW = 600000"

datatype SessionState = NewSession | Starting | Running | Terminating | Terminated | DroppedSession | Resuming

datatype SessionError =
    Codec CodecError
  | NotRunning SessionState
  | RtiTimeout
  | SessionDropped
  | UnexpectedMessageType MessageType MessageType
  | ResponseMismatch i32 i32
  | SessionRejected NewSessionStatusReason
  | UnsupportedVersion i32

datatype Transport = Tcp | Tls | WebSocket | WebSocketSecure

record SessionConfig =
  cfg_transport :: Transport
  cfg_host :: string
  cfg_port :: u16
  cfg_heartbeat :: nat
  cfg_rti_missing_timeout :: nat
  cfg_reconnect_window :: nat

definition default_session_config :: SessionConfig where
  "default_session_config = \<lparr>cfg_transport = Tcp, cfg_host = ''localhost'', cfg_port = DEFAULT_PORT,
     cfg_heartbeat = HEARTBEAT_INTERVAL, cfg_rti_missing_timeout = RTI_MISSING_TIMEOUT,
     cfg_reconnect_window = RECONNECT_WINDOW\<rparr>"

record Session =
  se_state :: SessionState
  se_session_id :: u64
  se_config :: SessionConfig

definition session_open :: "SessionConfig \<Rightarrow> Session" where
  "session_open config = \<lparr>se_state = NewSession, se_session_id = 0, se_config = config\<rparr>"

record NewSessionAck =
  ack_session_id :: u64
  ack_state :: SessionState

subsection \<open>Sources and sinks\<close>

type_synonym 'i source_fn = "'i \<Rightarrow> (CodecError + Frame) \<times> 'i"
type_synonym 'o sink_fn = "Frame \<Rightarrow> 'o \<Rightarrow> (CodecError + unit) \<times> 'o"

record 'm Sink =
  sent :: "'m list"
  write_failure :: "(nat \<times> IoError) option"

definition push :: "'m list \<Rightarrow> 'm Sink \<Rightarrow> (CodecError + unit) \<times> 'm Sink" where
  "push ms snk =
     (case write_failure snk of
        None \<Rightarrow> (Inr (), snk\<lparr>sent := sent snk @ ms\<rparr>)
      | Some (k, e) \<Rightarrow> (Inl (Io e), snk\<lparr>sent := sent snk @ take k ms\<rparr>))"

definition byte_recv :: "bytes source_fn" where
  "byte_recv stream = (case read_frame stream of Inl e \<Rightarrow> (Inl e, stream) | Inr (f, rest) \<Rightarrow> (Inr f, rest))"

definition byte_send :: "u8 Sink sink_fn" where
  "byte_send frame = push (write_frame frame [])"

definition ws_send :: "WsMessage Sink sink_fn" where
  "ws_send frame = push [ws_send_frame frame]"

subsection \<open>The handshake\<close>

definition parse_new_session_status :: "Frame \<Rightarrow> SessionError + NewSessionAck" where
  "parse_new_session_status response =
     (if message_type (header response) \<noteq> CtrlNewSessionStatus
      then Inl (UnexpectedMessageType (message_type (header response)) CtrlNewSessionStatus)
      else (case status_payload_decode (payload response) of
          Inl e \<Rightarrow> Inl (Codec (FrameErr e))
        | Inr reason \<Rightarrow>
            if reason \<noteq> Success then Inl (SessionRejected reason)
            else Inr \<lparr>ack_session_id = hdr_session_id (header response), ack_state = Running\<rparr>))"

definition client_open_session_frames :: "'i source_fn \<Rightarrow> 'o sink_fn \<Rightarrow> 'i \<Rightarrow> 'o
    \<Rightarrow> (SessionError + NewSessionAck) \<times> 'i \<times> 'o" where
  "client_open_session_frames recv send src snk =
     (case send new_session_frame snk of
        (Inl e, snk') \<Rightarrow> (Inl (Codec e), src, snk')
      | (Inr _, snk') \<Rightarrow>
          (case recv src of
             (Inl e, src') \<Rightarrow> (Inl (Codec e), src', snk')
           | (Inr response, src') \<Rightarrow> (parse_new_session_status response, src', snk')))"

definition client_open_session :: "bytes \<Rightarrow> u8 Sink \<Rightarrow> (SessionError + NewSessionAck) \<times> bytes \<times> u8 Sink" where
  "client_open_session = client_open_session_frames byte_recv byte_send"

definition new_session_status_frame :: "NewSessionStatusReason \<Rightarrow> u64 \<Rightarrow> i32 \<Rightarrow> Frame" where
  "new_session_status_frame reason sid request_seq =
     \<lparr>header = with_payload_size 4 NO_SEQUENCE_NUMBER sid request_seq CtrlNewSessionStatus,
      payload = reason_encode reason\<rparr>"

definition server_accept_session_frames :: "'i source_fn \<Rightarrow> 'o sink_fn \<Rightarrow> u64 \<Rightarrow> 'i \<Rightarrow> 'o
    \<Rightarrow> (SessionError + unit) \<times> 'i \<times> 'o" where
  "server_accept_session_frames recv send assigned_session_id src snk =
     (case recv src of
        (Inl e, src') \<Rightarrow> (Inl (Codec e), src', snk)
      | (Inr request, src') \<Rightarrow>
          if message_type (header request) \<noteq> CtrlNewSession
          then (Inl (UnexpectedMessageType (message_type (header request)) CtrlNewSession), src', snk)
          else (case new_session_payload_decode (payload request) of
              Inl e \<Rightarrow> (Inl (Codec (FrameErr e)), src', snk)
            | Inr version \<Rightarrow>
                let (reason, result) =
                  if version = FEDERATE_PROTOCOL_VERSION then (Success, Inr ())
                  else (UnsupportedProtocolVersion, Inl (UnsupportedVersion version))
                in (case send (new_session_status_frame reason assigned_session_id (sequence_number (header request))) snk of
                      (Inl e, snk') \<Rightarrow> (Inl (Codec e), src', snk')
                    | (Inr _, snk') \<Rightarrow> (result, src', snk'))))"

definition server_accept_session :: "u64 \<Rightarrow> bytes \<Rightarrow> u8 Sink \<Rightarrow> (SessionError + unit) \<times> bytes \<times> u8 Sink" where
  "server_accept_session = server_accept_session_frames byte_recv byte_send"

subsection \<open>Calls\<close>

record ClientSeqState =
  cs_session_id :: u64
  next_outbound :: i32
  last_received :: i32

definition new_client_seq_state :: "u64 \<Rightarrow> ClientSeqState" where
  "new_client_seq_state sid = \<lparr>cs_session_id = sid, next_outbound = 1, last_received = 0\<rparr>"

definition send_hla_call :: "bytes \<Rightarrow> ClientSeqState \<Rightarrow> bytes \<Rightarrow> u8 Sink
    \<Rightarrow> (SessionError + bytes) \<times> ClientSeqState \<times> bytes \<times> u8 Sink" where
  "send_hla_call request_body st src snk =
     (let request_seq = next_outbound st; st1 = st\<lparr>next_outbound := next_outbound st + 1\<rparr>;
          frame = hla_call_request_frame request_seq (cs_session_id st1) (last_received st1) request_body
      in case byte_send frame snk of
           (Inl e, snk') \<Rightarrow> (Inl (Codec e), st1, src, snk')
         | (Inr _, snk') \<Rightarrow>
             (case byte_recv src of
                (Inl e, src') \<Rightarrow> (Inl (Codec e), st1, src', snk')
              | (Inr response, src') \<Rightarrow>
                  let st2 = st1\<lparr>last_received := sequence_number (header response)\<rparr>
                  in if message_type (header response) \<noteq> HlaCallResponse
                     then (Inl (UnexpectedMessageType (message_type (header response)) HlaCallResponse), st2, src', snk')
                     else (case call_response_decode (payload response) of
                         Inl e \<Rightarrow> (Inl (Codec (FrameErr e)), st2, src', snk')
                       | Inr p \<Rightarrow>
                           if response_to_sequence_number p \<noteq> request_seq
                           then (Inl (ResponseMismatch request_seq (response_to_sequence_number p)), st2, src', snk')
                           else (Inr (body p), st2, src', snk'))))"

definition terminate_session :: "ClientSeqState \<Rightarrow> bytes \<Rightarrow> u8 Sink
    \<Rightarrow> (SessionError + unit) \<times> ClientSeqState \<times> bytes \<times> u8 Sink" where
  "terminate_session st src snk =
     (let frame = \<lparr>header = with_payload_size 0 (next_outbound st) (cs_session_id st) (last_received st) CtrlTerminateSession,
                   payload = []\<rparr>;
          st1 = st\<lparr>next_outbound := next_outbound st + 1\<rparr>
      in case byte_send frame snk of
           (Inl e, snk') \<Rightarrow> (Inl (Codec e), st1, src, snk')
         | (Inr _, snk') \<Rightarrow>
             (case byte_recv src of
                (Inl e, src') \<Rightarrow> (Inl (Codec e), st1, src', snk')
              | (Inr response, src') \<Rightarrow>
                  if message_type (header response) \<noteq> CtrlSessionTerminated
                  then (Inl (UnexpectedMessageType (message_type (header response)) CtrlSessionTerminated), st1, src', snk')
                  else (Inr (), st1, src', snk')))"

subsection \<open>Transports\<close>

definition open_sink :: "'m Sink" where
  "open_sink = \<lparr>sent = [], write_failure = None\<rparr>"

text \<open>
  A run of both sides of the handshake over a pair of pipes: each reads what the other has sent. The outcome
  is the client's result with what it left unread, then the server's.
\<close>

definition handshake_run :: "'i source_fn \<Rightarrow> 'm Sink sink_fn \<Rightarrow> ('m list \<Rightarrow> 'i) \<Rightarrow> u64
    \<Rightarrow> (SessionError + NewSessionAck) \<times> 'i \<times> (SessionError + unit) \<times> 'i \<Rightarrow> bool" where
  "handshake_run recv send input sid out \<longleftrightarrow>
     (\<exists>c s. case out of (cr, crest, sr, srest) \<Rightarrow>
        client_open_session_frames recv send (input (sent s)) open_sink = (cr, crest, c) \<and>
        server_accept_session_frames recv send sid (input (sent c)) open_sink = (sr, srest, s))"

text \<open>A request to open a session for a protocol version.\<close>

definition version_request :: "i32 \<Rightarrow> i32 \<Rightarrow> Frame" where
  "version_request v q =
     \<lparr>header = with_payload_size 4 q NO_SESSION_ID NO_SEQUENCE_NUMBER CtrlNewSession, payload = new_session_payload_encode v\<rparr>"

lemma wf_version_request: "wf_frame (version_request v q)"
  by (simp add: wf_frame_def version_request_def with_payload_size_def new_session_payload_encode_def
      HEADER_SIZE_def MAX_PACKET_SIZE_def)

lemma wf_status_frame: "wf_frame (new_session_status_frame reason sid q)"
  by (simp add: wf_frame_def new_session_status_frame_def with_payload_size_def reason_encode_def
      HEADER_SIZE_def MAX_PACKET_SIZE_def)

lemma version_request_fields:
  "message_type (header (version_request v q)) = CtrlNewSession"
  "sequence_number (header (version_request v q)) = q"
  "new_session_payload_decode (payload (version_request v q)) = Inr v"
  by (simp_all add: version_request_def with_payload_size_def new_session_payload_encode_def new_session_payload_decode_def)

lemma new_session_version_request: "new_session_frame = version_request FEDERATE_PROTOCOL_VERSION INITIAL_SEQUENCE_NUMBER"
  by (simp add: new_session_frame_def version_request_def)

lemma parse_status_frame:
  "parse_new_session_status (new_session_status_frame reason sid q) =
     (if reason = Success then Inr \<lparr>ack_session_id = sid, ack_state = Running\<rparr> else Inl (SessionRejected reason))"
  by (simp add: parse_new_session_status_def new_session_status_frame_def with_payload_size_def status_payload_decode_def
      reason_encode_def)

text \<open>
  The contract of a transport: frames of correct size put into its sink come out of its source, one after
  the other. \<open>input\<close> is the source on which the peer finds what has been sent.
\<close>

locale frame_transport =
  fixes recv :: "'i source_fn" and send :: "'m Sink sink_fn" and wire :: "Frame \<Rightarrow> 'm list" and input :: "'m list \<Rightarrow> 'i"
  assumes send_wire: "send f = push (wire f)"
    and recv_wire: "wf_frame f \<Longrightarrow> recv (input (wire f @ ms)) = (Inr f, input ms)"
begin

lemma send_ok: "write_failure snk = None \<Longrightarrow> send f snk = (Inr (), snk\<lparr>sent := sent snk @ wire f\<rparr>)"
  by (simp add: send_wire push_def)

lemma recv_only: "wf_frame f \<Longrightarrow> recv (input (wire f)) = (Inr f, input [])"
  using recv_wire [of f "[]"] by simp

lemma open_send: "send f open_sink = (Inr (), \<lparr>sent = wire f, write_failure = None\<rparr>)"
  by (simp add: send_ok open_sink_def)

text \<open>The server's answer to a request for any protocol version, and what the client makes of an answer.\<close>

lemma server_answers:
  "server_accept_session_frames recv send sid (input (wire (version_request v q))) open_sink =
    (if v = FEDERATE_PROTOCOL_VERSION then Inr () else Inl (UnsupportedVersion v), input [],
     \<lparr>sent = wire (new_session_status_frame
        (if v = FEDERATE_PROTOCOL_VERSION then Success else UnsupportedProtocolVersion) sid q), write_failure = None\<rparr>)"
  by (simp add: server_accept_session_frames_def recv_only wf_version_request version_request_fields open_send)

lemma client_reads:
  "client_open_session_frames recv send (input (wire (new_session_status_frame reason sid q))) open_sink =
    (if reason = Success then Inr \<lparr>ack_session_id = sid, ack_state = Running\<rparr> else Inl (SessionRejected reason), input [],
     \<lparr>sent = wire new_session_frame, write_failure = None\<rparr>)"
  by (simp add: client_open_session_frames_def recv_only wf_status_frame open_send parse_status_frame)

lemma client_sends:
  "client_open_session_frames recv send src open_sink = (r, rest, c) \<Longrightarrow> sent c = wire new_session_frame"
  by (auto simp: client_open_session_frames_def open_send split: prod.splits sum.splits)

lemma handshake_iff:
  "handshake_run recv send input sid out \<longleftrightarrow>
     out = (Inr \<lparr>ack_session_id = sid, ack_state = Running\<rparr>, input [], Inr (), input [])"
proof
  assume "handshake_run recv send input sid out"
  then obtain cr crest sr srest c s where out: "out = (cr, crest, sr, srest)"
    and c: "client_open_session_frames recv send (input (sent s)) open_sink = (cr, crest, c)"
    and s: "server_accept_session_frames recv send sid (input (sent c)) open_sink = (sr, srest, s)"
    by (auto simp: handshake_run_def)
  from s have s': "sr = Inr ()" "srest = input []" "sent s = wire (new_session_status_frame Success sid INITIAL_SEQUENCE_NUMBER)"
    using client_sends [OF c] by (auto simp: new_session_version_request server_answers)
  with c out show "out = (Inr \<lparr>ack_session_id = sid, ack_state = Running\<rparr>, input [], Inr (), input [])"
    by (simp add: client_reads)
next
  assume "out = (Inr \<lparr>ack_session_id = sid, ack_state = Running\<rparr>, input [], Inr (), input [])"
  then show "handshake_run recv send input sid out"
    unfolding handshake_run_def
    by (intro exI [of _ "\<lparr>sent = wire new_session_frame, write_failure = None\<rparr>"]
        exI [of _ "\<lparr>sent = wire (new_session_status_frame Success sid INITIAL_SEQUENCE_NUMBER), write_failure = None\<rparr>"])
      (simp add: client_reads, simp add: new_session_version_request server_answers)
qed

end

interpretation tcp: frame_transport byte_recv byte_send "\<lambda>f. write_frame f []" "\<lambda>ms. ms"
  using wf_frame_decode
  by unfold_locales (simp_all add: byte_send_def byte_recv_def read_frame_eq write_frame_def frame_encode_def)

interpretation ws: frame_transport ws_recv_frame ws_send "\<lambda>f. [ws_send_frame f]" "map Inr"
  by unfold_locales (simp_all add: ws_send_def ws_roundtrip)

text \<open>The handshake succeeds. When client and server run against each other over working pipes, that is, the
  server reads what the client sent and the client reads what the server sent, the server accepts, the client
  ends in a running session with the identifier the server assigned, and both have read everything; this holds
  over byte streams and over WebSocket messages. A request for another protocol version is refused by the
  server, and its answer makes the client fail with that reason.\<close>

theorem handshake_agrees:
  "(handshake_run byte_recv byte_send (\<lambda>ms. ms) sid out \<longleftrightarrow>
      out = (Inr \<lparr>ack_session_id = sid, ack_state = Running\<rparr>, [], Inr (), [])) \<and>
   (handshake_run ws_recv_frame ws_send (map Inr) sid out' \<longleftrightarrow>
      out' = (Inr \<lparr>ack_session_id = sid, ack_state = Running\<rparr>, [], Inr (), [])) \<and>
   (case server_accept_session sid (write_frame (version_request v q) []) open_sink of (sr, srest, s) \<Rightarrow>
      case client_open_session (sent s) open_sink of (cr, crest, c) \<Rightarrow>
        (sr, cr) = (if v = FEDERATE_PROTOCOL_VERSION
           then (Inr (), Inr \<lparr>ack_session_id = sid, ack_state = Running\<rparr>)
           else (Inl (UnsupportedVersion v), Inl (SessionRejected UnsupportedProtocolVersion))))"
  using tcp.handshake_iff [of sid out] ws.handshake_iff [of sid out']
  by (simp add: server_accept_session_def client_open_session_def tcp.server_answers tcp.client_reads)

end
