(* ===== verification/Server.thy ===== *)
theory Server
  imports Dispatch Session
begin

text \<open>
  The server around the dispatcher (\<^verbatim>\<open>crates/hla-rti/src/lib.rs\<close>): connection limits, the accept loops of the three
  transports, the opening of a connection by a new or a resumed session, the session loop, the end of a
  session, and the janitor of suspended sessions.

  The body of a loop is a function of the event it waits for; the events come in any order (\<open>server_step\<close> at the
  end). One event is handled before the next is taken. The channel to a writer task is the list of the
  frames it has accepted, and a writer that has stopped refuses frames; the bound of the channel, which
  makes a sender wait, is not represented. Time is counted in milliseconds. The protobuf codec, the XML parser
  and the snapshot format are arguments, collected in \<open>Lib\<close>.
\<close>

record Lib =
  lib_from_str :: "string \<Rightarrow> string + XmlObjectModel"
  lib_serde :: Serde
  lib_decode_request :: "bytes \<Rightarrow> string + CallRequest option"
  lib_encode_response :: "CallResponse \<Rightarrow> bytes"
  lib_encode_callback :: "CallbackRequest \<Rightarrow> bytes"

text \<open>A connection handle: the counter of outbound sequence numbers and the channel to the writer.\<close>

record ConnectionHandle =
  ch_next_outbound_seq :: i32
  ch_frames :: "Frame list"
  ch_writer_gone :: bool

type_synonym handles = "(u64, ConnectionHandle) hmap"

text \<open>\<^verbatim>\<open>frame_tx.send(frame)\<close> of a connection, with whether the channel took the frame.\<close>

definition channel_send :: "u64 \<Rightarrow> Frame \<Rightarrow> handles \<Rightarrow> handles \<times> bool" where
  "channel_send sid frame hs =
     (case map_of hs sid of
        None \<Rightarrow> (hs, False)
      | Some h \<Rightarrow> if ch_writer_gone h then (hs, False)
                  else (hinsert sid (h\<lparr>ch_frames := ch_frames h @ [frame]\<rparr>) hs, True))"

subsection \<open>Limits and the accept loops\<close>

definition check_limits :: "nat \<Rightarrow> RtiNode \<Rightarrow> string + unit" where
  "check_limits ip node =
     (let l = limits node in
      if (case max_total l of None \<Rightarrow> False | Some m \<Rightarrow> m \<le> length (connections node)) then Inl ''max_total''
      else (case max_per_ip l of
          None \<Rightarrow> Inr ()
        | Some m \<Rightarrow> if m \<le> (case map_of (connections_per_ip node) ip of Some c \<Rightarrow> c | None \<Rightarrow> 0)
                    then Inl ''max_per_ip'' else Inr ()))"

text \<open>
  One accepted socket: the candidate session identifier if the connection is kept. The TLS loop leaves the
  metrics alone; the other two count.
\<close>

definition count_accept :: "bool \<Rightarrow> RtiNode \<Rightarrow> RtiNode" where
  "count_accept accepted node =
     node\<lparr>metrics := (if accepted then (metrics node)\<lparr>connections_accepted := connections_accepted (metrics node) + 1\<rparr>
                      else (metrics node)\<lparr>connections_rejected := connections_rejected (metrics node) + 1\<rparr>)\<rparr>"

definition take_session_id :: "nat \<Rightarrow> RtiNode \<Rightarrow> RtiNode \<times> u64" where
  "take_session_id ip node =
     (node\<lparr>next_session_id := next_session_id node + 1, connections_per_ip := hentry ip 0 Suc (connections_per_ip node)\<rparr>,
      next_session_id node)"

definition accept_plain :: "nat \<Rightarrow> RtiNode \<Rightarrow> RtiNode \<times> u64 option" where
  "accept_plain ip node =
     (case check_limits ip node of
        Inl _ \<Rightarrow> (count_accept False node, None)
      | Inr _ \<Rightarrow> (case take_session_id ip (count_accept True node) of (node', sid) \<Rightarrow> (node', Some sid)))"

definition accept_ws :: "nat \<Rightarrow> RtiNode \<Rightarrow> RtiNode \<times> u64 option" where
  "accept_ws ip node =
     (case check_limits ip node of
        Inl _ \<Rightarrow> (count_accept False node, None)
      | Inr _ \<Rightarrow> (case take_session_id ip (count_accept True node) of (node', sid) \<Rightarrow> (node', Some sid)))"

definition accept_tls :: "nat \<Rightarrow> RtiNode \<Rightarrow> RtiNode \<times> u64 option" where
  "accept_tls ip node =
     (case check_limits ip node of
        Inl _ \<Rightarrow> (node, None)
      | Inr _ \<Rightarrow> (case take_session_id ip node of (node', sid) \<Rightarrow> (node', Some sid)))"

text \<open>The count of an address when a WebSocket or TLS upgrade fails, and when a connection has ended.\<close>

definition upgrade_failed :: "nat \<Rightarrow> RtiNode \<Rightarrow> RtiNode" where
  "upgrade_failed ip node = node\<lparr>connections_per_ip := hmodify ip (\<lambda>c. c - 1) (connections_per_ip node)\<rparr>"

definition connection_ended :: "nat \<Rightarrow> RtiNode \<Rightarrow> RtiNode" where
  "connection_ended ip node =
     (case map_of (connections_per_ip node) ip of
        None \<Rightarrow> node
      | Some c \<Rightarrow>
          if c - 1 = 0 then node\<lparr>connections_per_ip := hremove ip (connections_per_ip node)\<rparr>
          else node\<lparr>connections_per_ip := hinsert ip (c - 1) (connections_per_ip node)\<rparr>)"

subsection \<open>Opening a connection\<close>

definition resume_status_frame :: "NewSessionStatusReason \<Rightarrow> u64 \<Rightarrow> i32 \<Rightarrow> Frame" where
  "resume_status_frame reason sid request_seq =
     \<lparr>header = with_payload_size 4 NO_SEQUENCE_NUMBER sid request_seq CtrlResumeStatus, payload = reason_encode reason\<rparr>"

text \<open>
  The first frame of a connection: the node, the frame answered if any, and either the result with which the
  handler returns or the session that starts. \<open>send_result\<close> is what the sink says to the answer.
\<close>

definition open_connection :: "nat \<Rightarrow> (CodecError + unit) \<Rightarrow> u64 \<Rightarrow> Frame \<Rightarrow> RtiNode
    \<Rightarrow> RtiNode \<times> Frame option \<times> ((SessionError + unit) + (u64 \<times> Membership option))" where
  "open_connection now send_result candidate first node =
     (case message_type (header first) of
        CtrlNewSession \<Rightarrow>
          (case new_session_payload_decode (payload first) of
             Inl e \<Rightarrow> (node, None, Inl (Inl (Codec (FrameErr e))))
           | Inr version \<Rightarrow>
               let reason = (if version = FEDERATE_PROTOCOL_VERSION then Success else UnsupportedProtocolVersion);
                   reply = new_session_status_frame reason candidate (sequence_number (header first))
               in (node, Some reply,
                   (case send_result of
                      Inl e \<Rightarrow> Inl (Inl (Codec e))
                    | Inr _ \<Rightarrow> if reason \<noteq> Success then Inl (Inl (UnsupportedVersion version)) else Inr (candidate, None))))
      | CtrlResumeRequest \<Rightarrow>
          let requested = hdr_session_id (header first);
              restored = map_of (suspended_sessions node) requested;
              node1 = node\<lparr>suspended_sessions := hremove requested (suspended_sessions node)\<rparr>;
              (reason, mship) =
                (case restored of
                   Some s \<Rightarrow> if now < deadline s then (Success, su_membership s) else (NewSessionStatusReason.OtherError, None)
                 | None \<Rightarrow> (NewSessionStatusReason.OtherError, None));
              reply = resume_status_frame reason (if reason = Success then requested else NO_SESSION_ID)
                        (sequence_number (header first))
          in (node1, Some reply,
              (case send_result of
                 Inl e \<Rightarrow> Inl (Inl (Codec e))
               | Inr _ \<Rightarrow> if reason \<noteq> Success then Inl (Inr ()) else Inr (requested, mship)))
      | other \<Rightarrow> (node, None, Inl (Inl (UnexpectedMessageType other CtrlNewSession))))"

text \<open>The session that starts: it is counted, and its connection is registered.\<close>

record SessionLoop =
  sl_ctx :: SessionContext
  sl_hb :: HeartbeatConfig
  sl_last_inbound :: nat

definition start_session :: "nat \<Rightarrow> u64 \<Rightarrow> Membership option \<Rightarrow> RtiNode \<Rightarrow> handles \<Rightarrow> RtiNode \<times> handles \<times> SessionLoop" where
  "start_session now sid restored_membership node hs =
     (node\<lparr>metrics := (metrics node)\<lparr>sessions_opened := sessions_opened (metrics node) + 1\<rparr>,
           connections := hs_insert sid (connections node)\<rparr>,
      hinsert sid \<lparr>ch_next_outbound_seq = 0, ch_frames = [], ch_writer_gone = False\<rparr> hs,
      \<lparr>sl_ctx = (new_session_context sid)\<lparr>membership := restored_membership\<rparr>, sl_hb = heartbeat node, sl_last_inbound = now\<rparr>)"

subsection \<open>The session loop\<close>

definition control_frame :: "i32 \<Rightarrow> u64 \<Rightarrow> i32 \<Rightarrow> MessageType \<Rightarrow> Frame" where
  "control_frame seq sid last_seq mt = \<lparr>header = with_payload_size 0 seq sid last_seq mt, payload = []\<rparr>"

text \<open>The delivery of callbacks: each claims a sequence number of its target, also when the writer there is gone.\<close>

definition deliver_callback :: "Lib \<Rightarrow> OutboundCallback \<Rightarrow> handles \<Rightarrow> handles" where
  "deliver_callback lib ocb hs =
     (case map_of hs (target ocb) of
        None \<Rightarrow> hs
      | Some h \<Rightarrow>
          (case into_frame (lib_encode_callback lib) (ch_next_outbound_seq h) ocb of
             (frame, next') \<Rightarrow>
               fst (channel_send (target ocb) frame (hinsert (target ocb) (h\<lparr>ch_next_outbound_seq := next'\<rparr>) hs))))"

definition deliver_callbacks :: "Lib \<Rightarrow> OutboundCallback list \<Rightarrow> handles \<Rightarrow> handles" where
  "deliver_callbacks lib ocbs hs = fold (deliver_callback lib) ocbs hs"

definition call_response_frame :: "Lib \<Rightarrow> u64 \<Rightarrow> i32 \<Rightarrow> CallResponse \<Rightarrow> Frame" where
  "call_response_frame lib sid request_seq response =
     (let encoded = call_response_encode \<lparr>response_to_sequence_number = request_seq, body = lib_encode_response lib response\<rparr>
      in \<lparr>header = with_payload_size (of_nat (length encoded)) NO_SEQUENCE_NUMBER sid request_seq HlaCallResponse,
          payload = encoded\<rparr>)"

text \<open>
  A call request: the node, the channels, the session context and whether the session goes on. The result is
  \<open>None\<close> where the dispatcher would not return. The response precedes the callbacks; when the writer is gone, the
  session ends and the callbacks are dropped.
\<close>

definition handle_call_request :: "Lib \<Rightarrow> Frame \<Rightarrow> SessionContext \<Rightarrow> RtiNode \<Rightarrow> handles
    \<Rightarrow> (RtiNode \<times> handles \<times> SessionContext \<times> bool) option" where
  "handle_call_request lib frame ctx node hs =
     (let node1 = node\<lparr>metrics := (metrics node)\<lparr>calls_dispatched := calls_dispatched (metrics node) + 1\<rparr>\<rparr>;
          outcome = (case lib_decode_request lib (payload frame) of
             Inr req \<Rightarrow> dispatch_call (lib_from_str lib) (lib_serde lib) node1 ctx req
           | Inl e \<Rightarrow> Some (node1, ctx, [], exception_variant RtiInternalError [DStr ''malformed CallRequest: '', DStr e]))
      in map_option (\<lambda>(node2, ctx', cbs, response).
           let m = metrics node2;
               m1 = (case response of Inl _ \<Rightarrow> m\<lparr>call_exceptions := call_exceptions m + 1\<rparr> | Inr _ \<Rightarrow> m);
               node3 = node2\<lparr>metrics := m1\<lparr>callbacks_emitted := callbacks_emitted m1 + of_nat (length cbs)\<rparr>\<rparr>
           in (case channel_send (sc_session_id ctx) (call_response_frame lib (sc_session_id ctx)
                  (sequence_number (header frame)) response) hs of
                 (hs1, False) \<Rightarrow> (node3, hs1, ctx', False)
               | (hs1, True) \<Rightarrow> (node3, deliver_callbacks lib cbs hs1, ctx', True))) outcome)"

text \<open>A frame received in the session loop. The flag tells whether the loop goes on.\<close>

definition session_frame :: "Lib \<Rightarrow> nat \<Rightarrow> Frame \<Rightarrow> SessionLoop \<Rightarrow> RtiNode \<Rightarrow> handles
    \<Rightarrow> (RtiNode \<times> handles \<times> SessionLoop \<times> bool) option" where
  "session_frame lib now frame sl node hs =
     (let sl1 = sl\<lparr>sl_last_inbound := now\<rparr>; sid = sc_session_id (sl_ctx sl); seq = sequence_number (header frame)
      in case message_type (header frame) of
           HlaCallRequest \<Rightarrow>
             map_option (\<lambda>(node', hs', ctx', goes_on). (node', hs', sl1\<lparr>sl_ctx := ctx'\<rparr>, goes_on))
               (handle_call_request lib frame (sl_ctx sl) node hs)
         | CtrlTerminateSession \<Rightarrow>
             Some (node, fst (channel_send sid (control_frame NO_SEQUENCE_NUMBER sid seq CtrlSessionTerminated) hs), sl1, False)
         | CtrlHeartbeat \<Rightarrow>
             Some (node, fst (channel_send sid (control_frame NO_SEQUENCE_NUMBER sid seq CtrlHeartbeatResponse) hs), sl1, True)
         | _ \<Rightarrow> Some (node, hs, sl1, True))"

definition liveness_tick :: "HeartbeatConfig \<Rightarrow> nat" where
  "liveness_tick hb = max (missing_timeout hb div 4) 50"

text \<open>A tick of the liveness interval: whether the session is reaped.\<close>

definition liveness_check :: "nat \<Rightarrow> SessionLoop \<Rightarrow> RtiNode \<Rightarrow> RtiNode \<times> bool" where
  "liveness_check now sl node =
     (if missing_timeout (sl_hb sl) < now - sl_last_inbound sl
      then (node\<lparr>metrics := (metrics node)\<lparr>sessions_reaped := sessions_reaped (metrics node) + 1\<rparr>\<rparr>, True)
      else (node, False))"

text \<open>A tick of the heartbeat task of a connection.\<close>

definition heartbeat_tick :: "u64 \<Rightarrow> handles \<Rightarrow> handles" where
  "heartbeat_tick sid hs =
     (case map_of hs sid of
        None \<Rightarrow> hs
      | Some h \<Rightarrow>
          (case claim_step (ch_next_outbound_seq h) of
             (seq, next') \<Rightarrow> fst (channel_send sid (control_frame seq sid NO_SEQUENCE_NUMBER CtrlHeartbeat)
                                   (hinsert sid (h\<lparr>ch_next_outbound_seq := next'\<rparr>) hs))))"

text \<open>After the loop: a joined session is suspended or its federate removed, and the connection goes.\<close>

definition end_session :: "nat \<Rightarrow> SessionLoop \<Rightarrow> RtiNode \<Rightarrow> handles \<Rightarrow> RtiNode \<times> handles" where
  "end_session now sl node hs =
     (let sid = sc_session_id (sl_ctx sl); window = reconnect_window (sl_hb sl);
          node1 = (case membership (sl_ctx sl) of
             None \<Rightarrow> node
           | Some m \<Rightarrow>
               if 0 < window
               then node\<lparr>suspended_sessions :=
                      hinsert sid \<lparr>su_membership = Some m, deadline = now + window\<rparr> (suspended_sessions node)\<rparr>
               else remove_federate m node)
      in (node1\<lparr>connections := hs_remove sid (connections node1)\<rparr>, hremove sid hs))"

subsection \<open>The janitor\<close>

definition expire_session :: "u64 \<Rightarrow> RtiNode \<Rightarrow> RtiNode" where
  "expire_session sid node =
     (case map_of (suspended_sessions node) sid of
        None \<Rightarrow> node
      | Some s \<Rightarrow>
          let node1 = node\<lparr>suspended_sessions := hremove sid (suspended_sessions node)\<rparr>
          in (case su_membership s of None \<Rightarrow> node1 | Some m \<Rightarrow> remove_federate m node1))"

definition janitor_tick :: "nat \<Rightarrow> RtiNode \<Rightarrow> RtiNode" where
  "janitor_tick now node =
     fold expire_session (map fst (filter (\<lambda>(sid, s). deadline s \<le> now) (suspended_sessions node))) node"

subsection \<open>Configuration and inspection\<close>

definition set_connection_limits :: "ConnectionLimits \<Rightarrow> RtiNode \<Rightarrow> RtiNode" where
  "set_connection_limits l node = node\<lparr>limits := l\<rparr>"

definition set_default_fom :: "MergedFom \<Rightarrow> RtiNode \<Rightarrow> RtiNode" where
  "set_default_fom f node = node\<lparr>default_fom := f\<rparr>"

definition set_heartbeat_config :: "HeartbeatConfig \<Rightarrow> RtiNode \<Rightarrow> RtiNode" where
  "set_heartbeat_config cfg node = node\<lparr>heartbeat := cfg\<rparr>"

definition connection_count :: "RtiNode \<Rightarrow> nat" where
  "connection_count node = length (connections node)"

definition has_connection :: "u64 \<Rightarrow> RtiNode \<Rightarrow> bool" where
  "has_connection sid node \<longleftrightarrow> sid \<in> set (connections node)"

definition suspended_session_count :: "RtiNode \<Rightarrow> nat" where
  "suspended_session_count node = length (suspended_sessions node)"

definition has_suspended_session :: "u64 \<Rightarrow> RtiNode \<Rightarrow> bool" where
  "has_suspended_session sid node \<longleftrightarrow> contains_key (suspended_sessions node) sid"

definition federation_names :: "RtiNode \<Rightarrow> string list" where
  "federation_names node = hkeys (federations node)"

text \<open>The snapshot of the counters, with the number of registered federations.\<close>

definition metrics_snapshot :: "RtiNode \<Rightarrow> ServerMetrics \<times> u64" where
  "metrics_snapshot node = (metrics node, of_nat (length (federations node)))"

subsection \<open>The server\<close>

text \<open>
  The tasks of the server: a connection whose transport is being upgraded, one that waits for its first frame,
  and one in its session loop. Tasks are numbered as they are spawned.
\<close>

datatype Phase = Upgrading | AwaitingFirst | InSession SessionLoop

record Task =
  tk_ip :: nat
  tk_candidate :: u64
  tk_phase :: Phase

record Server =
  sv_node :: RtiNode
  sv_handles :: handles
  sv_tasks :: "(nat, Task) hmap"
  sv_next_task :: nat
  sv_now :: nat
  sv_shutdown :: bool

definition new_server :: Server where
  "new_server = \<lparr>sv_node = new_node, sv_handles = [], sv_tasks = [], sv_next_task = 0, sv_now = 0, sv_shutdown = False\<rparr>"

text \<open>An accepted connection is spawned; a rejected one is dropped.\<close>

definition spawn :: "nat \<Rightarrow> Phase \<Rightarrow> RtiNode \<times> u64 option \<Rightarrow> Server \<Rightarrow> Server" where
  "spawn ip phase accepted sv =
     (case accepted of
        (node, None) \<Rightarrow> sv\<lparr>sv_node := node\<rparr>
      | (node, Some sid) \<Rightarrow>
          sv\<lparr>sv_node := node,
             sv_tasks := hinsert (sv_next_task sv) \<lparr>tk_ip = ip, tk_candidate = sid, tk_phase = phase\<rparr> (sv_tasks sv),
             sv_next_task := Suc (sv_next_task sv)\<rparr>)"

text \<open>The end of a task with its session, and of one without.\<close>

definition finish :: "nat \<Rightarrow> Task \<Rightarrow> SessionLoop \<Rightarrow> RtiNode \<Rightarrow> handles \<Rightarrow> Server \<Rightarrow> Server" where
  "finish k t sl node hs sv =
     (case end_session (sv_now sv) sl node hs of
        (node', hs') \<Rightarrow>
          sv\<lparr>sv_node := connection_ended (tk_ip t) node', sv_handles := hs', sv_tasks := hremove k (sv_tasks sv)\<rparr>)"

definition abandon :: "nat \<Rightarrow> Task \<Rightarrow> RtiNode \<Rightarrow> Server \<Rightarrow> Server" where
  "abandon k t node sv = sv\<lparr>sv_node := connection_ended (tk_ip t) node, sv_tasks := hremove k (sv_tasks sv)\<rparr>"

definition begin_session :: "nat \<Rightarrow> Task \<Rightarrow> u64 \<Rightarrow> Membership option \<Rightarrow> RtiNode \<Rightarrow> Server \<Rightarrow> Server" where
  "begin_session k t sid mship node sv =
     (case start_session (sv_now sv) sid mship node (sv_handles sv) of
        (node', hs', sl) \<Rightarrow>
          sv\<lparr>sv_node := node', sv_handles := hs', sv_tasks := hinsert k (t\<lparr>tk_phase := InSession sl\<rparr>) (sv_tasks sv)\<rparr>)"

definition continue_session :: "nat \<Rightarrow> Task \<Rightarrow> SessionLoop \<Rightarrow> RtiNode \<Rightarrow> handles \<Rightarrow> Server \<Rightarrow> Server" where
  "continue_session k t sl node hs sv =
     sv\<lparr>sv_node := node, sv_handles := hs, sv_tasks := hinsert k (t\<lparr>tk_phase := InSession sl\<rparr>) (sv_tasks sv)\<rparr>"

text \<open>
  What can happen to a server, as its transports and timers see it: an accept, the upgrade of a connection or its failure, a connection
  that closes or stays silent before its first frame, the first frame with the result of sending the answer, a later frame, a
  session whose connection is lost or silent, a tick of the janitor, and what concerns no session.
\<close>

datatype Occurrence =
    OnAccept
  | OnUpgrade nat
  | OnUpgradeFailed nat
  | OnFirstLost nat
  | OnFirst nat Frame "CodecError + unit"
  | OnFrame nat Frame
  | OnClosed nat
  | OnJanitor
  | OnBackground

text \<open>What can happen next. A frame is taken only while the server is not shut down, as the loops look there first.\<close>

inductive server_event :: "Lib \<Rightarrow> Occurrence \<Rightarrow> Server \<Rightarrow> Server \<Rightarrow> bool" for lib :: Lib where
  tcp_accept: "\<not> sv_shutdown sv \<Longrightarrow>
    server_event lib OnAccept sv (spawn ip AwaitingFirst (accept_plain ip (sv_node sv)) sv)"
| ws_accept: "\<not> sv_shutdown sv \<Longrightarrow>
    server_event lib OnAccept sv (spawn ip Upgrading (accept_ws ip (sv_node sv)) sv)"
| tls_accept: "\<not> sv_shutdown sv \<Longrightarrow>
    server_event lib OnAccept sv (spawn ip Upgrading (accept_tls ip (sv_node sv)) sv)"
| upgrade: "map_of (sv_tasks sv) k = Some t \<Longrightarrow> tk_phase t = Upgrading \<Longrightarrow>
    server_event lib (OnUpgrade k) sv (sv\<lparr>sv_tasks := hinsert k (t\<lparr>tk_phase := AwaitingFirst\<rparr>) (sv_tasks sv)\<rparr>)"
| upgrade_fails: "map_of (sv_tasks sv) k = Some t \<Longrightarrow> tk_phase t = Upgrading \<Longrightarrow>
    server_event lib (OnUpgradeFailed k) sv (sv\<lparr>sv_node := upgrade_failed (tk_ip t) (sv_node sv), sv_tasks := hremove k (sv_tasks sv)\<rparr>)"
| first_lost: "map_of (sv_tasks sv) k = Some t \<Longrightarrow> tk_phase t = AwaitingFirst \<Longrightarrow>
    server_event lib (OnFirstLost k) sv (abandon k t (sv_node sv) sv)"
| refuse: "map_of (sv_tasks sv) k = Some t \<Longrightarrow> tk_phase t = AwaitingFirst \<Longrightarrow>
    open_connection (sv_now sv) sent_ok (tk_candidate t) first (sv_node sv) = (node, reply, Inl result) \<Longrightarrow>
    server_event lib (OnFirst k first sent_ok) sv (abandon k t node sv)"
| opened: "map_of (sv_tasks sv) k = Some t \<Longrightarrow> tk_phase t = AwaitingFirst \<Longrightarrow>
    open_connection (sv_now sv) sent_ok (tk_candidate t) first (sv_node sv) = (node, reply, Inr (sid, mship)) \<Longrightarrow>
    server_event lib (OnFirst k first sent_ok) sv (begin_session k t sid mship node sv)"
| frame: "map_of (sv_tasks sv) k = Some t \<Longrightarrow> tk_phase t = InSession sl \<Longrightarrow> \<not> sv_shutdown sv \<Longrightarrow>
    session_frame lib (sv_now sv) fr sl (sv_node sv) (sv_handles sv) = Some (node, hs, sl', True) \<Longrightarrow>
    server_event lib (OnFrame k fr) sv (continue_session k t sl' node hs sv)"
| last_frame: "map_of (sv_tasks sv) k = Some t \<Longrightarrow> tk_phase t = InSession sl \<Longrightarrow> \<not> sv_shutdown sv \<Longrightarrow>
    session_frame lib (sv_now sv) fr sl (sv_node sv) (sv_handles sv) = Some (node, hs, sl', False) \<Longrightarrow>
    server_event lib (OnFrame k fr) sv (finish k t sl' node hs sv)"
| disconnected: "map_of (sv_tasks sv) k = Some t \<Longrightarrow> tk_phase t = InSession sl \<Longrightarrow>
    server_event lib (OnClosed k) sv (finish k t sl (sv_node sv) (sv_handles sv) sv)"
| reaped: "map_of (sv_tasks sv) k = Some t \<Longrightarrow> tk_phase t = InSession sl \<Longrightarrow>
    liveness_check (sv_now sv) sl (sv_node sv) = (node, True) \<Longrightarrow>
    server_event lib (OnClosed k) sv (finish k t sl node (sv_handles sv) sv)"
| heartbeat_due: "server_event lib OnBackground sv (sv\<lparr>sv_handles := heartbeat_tick sid (sv_handles sv)\<rparr>)"
| writer_stops: "server_event lib OnBackground sv (sv\<lparr>sv_handles := hmodify sid (\<lambda>h. h\<lparr>ch_writer_gone := True\<rparr>) (sv_handles sv)\<rparr>)"
| janitor: "\<not> sv_shutdown sv \<Longrightarrow> server_event lib OnJanitor sv (sv\<lparr>sv_node := janitor_tick (sv_now sv) (sv_node sv)\<rparr>)"
| configure: "node \<in> {set_connection_limits l (sv_node sv), set_default_fom f (sv_node sv), set_heartbeat_config c (sv_node sv)} \<Longrightarrow>
    server_event lib OnBackground sv (sv\<lparr>sv_node := node\<rparr>)"
| shutdown: "server_event lib OnBackground sv (sv\<lparr>sv_shutdown := True\<rparr>)"
| time_passes: "server_event lib OnBackground sv (sv\<lparr>sv_now := sv_now sv + d\<rparr>)"

definition server_step :: "Lib \<Rightarrow> Server \<Rightarrow> Server \<Rightarrow> bool" where
  "server_step lib sv sv' \<longleftrightarrow> (\<exists>e. server_event lib e sv sv')"

text \<open>The states a server reaches, with the number of steps it has taken.\<close>

inductive server_run :: "Lib \<Rightarrow> nat \<Rightarrow> Server \<Rightarrow> bool" for lib :: Lib where
  start: "server_run lib 0 new_server"
| step: "server_run lib n sv \<Longrightarrow> server_step lib sv sv' \<Longrightarrow> server_run lib (Suc n) sv'"

lemma server_stepI: "server_event lib e sv sv' \<Longrightarrow> server_step lib sv sv'"
  by (auto simp: server_step_def)

end
