(* ===== verification/Flow_Props.thy ===== *)
theory Flow_Props
  imports DataFlow
begin

text \<open>
  What routing and data flow guarantee: the recipients of an update are the subscribers, only owners update,
  registered handles are new, and an instance is discovered once and before its first reflection.
\<close>

subsection \<open>Recipients\<close>

lemma fold_exclude:
  "set (fold (\<lambda>fh out. if Some fh \<noteq> ex then hs_insert fh out else out) s out) = set out \<union> {fh \<in> set s. Some fh \<noteq> ex}"
  by (induction s arbitrary: out) auto

lemma fold_union:
  assumes "\<And>x out. set (f x out) = set out \<union> F x"
  shows "set (fold f xs out) = set out \<union> (\<Union>x\<in>set xs. F x)"
  by (induction xs arbitrary: out) (auto simp: assms)

lemma set_subscribers_for_attributes:
  "set (subscribers_for_attributes fed cls attrs ex) =
   {fh. Some fh \<noteq> ex \<and> (\<exists>c\<in>set (inheritance_chain (fom fed) cls). \<exists>a\<in>set attrs. subscribed (subscriptions fed) c a fh)}"
proof -
  let ?one = "\<lambda>c a out. case map_of (by_attribute (subscriptions fed)) (c, a) of None \<Rightarrow> out
      | Some s \<Rightarrow> fold (\<lambda>fh out. if Some fh \<noteq> ex then hs_insert fh out else out) s out"
  have one: "set (?one c a out) = set out \<union> {fh. Some fh \<noteq> ex \<and> subscribed (subscriptions fed) c a fh}" for c a out
    by (auto simp: subscribed_def fold_exclude split: option.split)
  have "set (fold (?one c) attrs out) = set out \<union> (\<Union>a\<in>set attrs. {fh. Some fh \<noteq> ex \<and> subscribed (subscriptions fed) c a fh})" for c out
    by (rule fold_union) (rule one)
  note two = this
  have "set (fold (\<lambda>c. fold (?one c) attrs) (inheritance_chain (fom fed) cls) []) = set [] \<union>
      (\<Union>c\<in>set (inheritance_chain (fom fed) cls). \<Union>a\<in>set attrs. {fh. Some fh \<noteq> ex \<and> subscribed (subscriptions fed) c a fh})"
    by (rule fold_union) (rule two)
  then show ?thesis by (auto simp: subscribers_for_attributes_def)
qed

lemma distinct_subscribers_for_attributes: "distinct (subscribers_for_attributes fed cls attrs ex)"
proof -
  have inner: "distinct out \<Longrightarrow> distinct (fold (\<lambda>fh out. if Some fh \<noteq> ex then hs_insert fh out else out) s out)" for s out
    by (induction s arbitrary: out) auto
  have fold: "distinct out \<Longrightarrow> distinct (fold f xs out)" if "\<And>x out. distinct out \<Longrightarrow> distinct (f x out)" for f and xs :: "'x list" and out :: "FederateHandle list"
    using that by (induction xs arbitrary: out) auto
  show ?thesis unfolding subscribers_for_attributes_def
    by (intro fold) (auto intro: inner split: option.split)
qed

lemma set_live_connections:
  "set (live_connections conns fed fhs) =
   {s \<in> set conns. \<exists>fh\<in>set fhs. \<exists>fs. map_of (federates fed) fh = Some fs \<and> fs_session_id fs = s}"
  by (induction fhs) (auto simp: live_connections_def List.map_filter_simps split: option.splits)

subsection \<open>Discovery\<close>

definition undiscovered :: "Federation \<Rightarrow> ObjectInstanceHandle \<Rightarrow> FederateHandle \<Rightarrow> bool" where
  "undiscovered fed inst fh =
     (case map_of (federates fed) fh of None \<Rightarrow> False | Some fs \<Rightarrow> inst \<notin> set (discovered_instances (pub_sub fs)))"

definition mark_discovered :: "ObjectInstanceHandle \<Rightarrow> FederateSession \<Rightarrow> FederateSession" where
  "mark_discovered inst fs =
     fs\<lparr>pub_sub := (pub_sub fs)\<lparr>discovered_instances := hs_insert inst (discovered_instances (pub_sub fs))\<rparr>\<rparr>"

lemma mark_discovered_known: "inst \<in> set (discovered_instances (pub_sub fs)) \<Longrightarrow> mark_discovered inst fs = fs"
  by (simp add: mark_discovered_def hs_insert_def)

lemma discover_one_alt:
  "discover_one inst fh (fed, acc) =
     (modify_federate fh (mark_discovered inst) fed, if undiscovered fed inst fh then acc @ [fh] else acc)"
  if "wf_hmap (federates fed)"
proof (cases "map_of (federates fed) fh")
  case None
  then have "fh \<notin> fst ` set (federates fed)" by (simp add: map_of_eq_None_iff)
  with None show ?thesis by (simp add: discover_one_def undiscovered_def modify_federate_def hmodify_notin)
next
  case (Some fs)
  have "hmodify fh (mark_discovered inst) (federates fed) = federates fed" if "inst \<in> set (discovered_instances (pub_sub fs))"
  proof -
    have "hmodify fh (mark_discovered inst) (federates fed) = hmodify fh id (federates fed)"
      using Some mark_discovered_known [OF that] \<open>wf_hmap (federates fed)\<close> by (intro hmodify_cong_at) auto
    also have "\<dots> = federates fed" by (induction "federates fed") (auto simp: hmodify_def)
    finally show ?thesis .
  qed
  with Some show ?thesis
    by (auto simp: discover_one_def undiscovered_def modify_federate_def modify_pub_sub_def mark_discovered_def [abs_def])
qed

lemma undiscovered_modify:
  "fh \<noteq> j \<Longrightarrow> undiscovered (modify_federate j g fed) inst fh = undiscovered fed inst fh"
  by (simp add: undiscovered_def modify_federate_def)

definition discover_mark :: "ObjectInstanceHandle \<Rightarrow> FederateHandle list \<Rightarrow> Federation \<Rightarrow> Federation" where
  "discover_mark inst fhs fed = fold (\<lambda>fh. modify_federate fh (mark_discovered inst)) fhs fed"

lemma discover_all_eq:
  assumes "wf_hmap (federates fed)" "distinct fhs"
  shows "discover_all inst fhs fed = (discover_mark inst fhs fed, filter (undiscovered fed inst) fhs)"
proof -
  have "fold (discover_one inst) fhs (fed, acc) = (discover_mark inst fhs fed, acc @ filter (undiscovered fed inst) fhs)" for acc
    using assms
  proof (induction fhs arbitrary: fed acc)
    case (Cons fh fhs)
    have "filter (undiscovered (modify_federate fh (mark_discovered inst) fed) inst) fhs = filter (undiscovered fed inst) fhs"
      using Cons.prems(2) undiscovered_modify by (intro filter_cong refl) (metis distinct.simps(2))
    moreover have "wf_hmap (federates (modify_federate fh (mark_discovered inst) fed))"
      using Cons.prems(1) by (simp add: modify_federate_def)
    ultimately show ?case using Cons by (simp add: discover_one_alt discover_mark_def)
  qed (simp add: discover_mark_def)
  then show ?thesis by (simp add: discover_all_def)
qed

lemma discover_mark_lookup:
  "map_of (federates (discover_mark inst fhs fed)) fh =
     map_option (\<lambda>fs. if fh \<in> set fhs then mark_discovered inst fs else fs) (map_of (federates fed) fh)"
proof (induction fhs arbitrary: fed)
  case (Cons j fhs)
  have "mark_discovered inst (mark_discovered inst fs) = mark_discovered inst fs" for fs
    by (rule mark_discovered_known) (simp add: mark_discovered_def)
  then show ?case using Cons [of "modify_federate j (mark_discovered inst) fed"]
    by (cases "map_of (federates fed) fh") (auto simp: discover_mark_def modify_federate_def)
qed (simp add: discover_mark_def option.map_ident)

lemma live_connections_cong:
  assumes "\<And>fh. map_option fs_session_id (map_of (federates a) fh) = map_option fs_session_id (map_of (federates b) fh)"
  shows "live_connections conns a fhs = live_connections conns b fhs"
proof -
  have "(case map_of (federates a) fh of None \<Rightarrow> None | Some fs \<Rightarrow> if fs_session_id fs \<in> set conns then Some (fs_session_id fs) else None) =
        (case map_of (federates b) fh of None \<Rightarrow> None | Some fs \<Rightarrow> if fs_session_id fs \<in> set conns then Some (fs_session_id fs) else None)" for fh
    using assms [of fh] by (cases "map_of (federates a) fh"; cases "map_of (federates b) fh") auto
  then show ?thesis by (simp add: live_connections_def)
qed

lemma live_discover_mark: "live_connections conns (discover_mark inst fhs fed) = live_connections conns fed"
  by (rule ext, rule live_connections_cong)
     (auto simp: discover_mark_lookup mark_discovered_def option.map_comp comp_def intro: option.map_cong)

lemma discover_mark_frame:
  "object_instances (discover_mark inst fhs fed) = object_instances fed"
  "subscriptions (discover_mark inst fhs fed) = subscriptions fed" "fom (discover_mark inst fhs fed) = fom fed"
  "next_object_id (discover_mark inst fhs fed) = next_object_id fed"
  by (induction fhs arbitrary: fed) (simp_all add: discover_mark_def modify_federate_def)

lemma notify_subset_eq:
  assumes "wf_hmap (federates fed)" "distinct fhs" "map_of (object_instances fed) inst = Some i"
  shows "notify_subscribers_of_registration_subset conns inst cls producer fhs fed =
    (discover_mark inst fhs fed,
     fan_out (live_connections conns fed (filter (undiscovered fed inst) fhs)) (discover_object_instance inst cls (oi_name i) producer))"
proof (cases "fhs = []")
  case True
  then show ?thesis by (simp add: notify_subscribers_of_registration_subset_def discover_mark_def live_connections_def
        List.map_filter_simps fan_out_def)
next
  case False
  then show ?thesis using assms
    by (simp add: notify_subscribers_of_registration_subset_def discover_all_eq live_discover_mark)
qed

subsection \<open>Updates\<close>

definition region_match :: "Federation \<Rightarrow> ObjectInstance \<Rightarrow> AttributeHandle \<Rightarrow> FederateHandle \<Rightarrow> bool" where
  "region_match fed i a fh \<longleftrightarrow>
     (let published = unwrap_or [] (map_of (attribute_regions i) a) in
      published = [] \<or> (\<exists>fs. map_of (federates fed) fh = Some fs \<and>
        regions_overlap_any fed published (unwrap_or [] (map_of (subscribed_attrs_regions (pub_sub fs)) (oi_class i, a)))))"

definition recipients :: "Federation \<Rightarrow> ObjectInstance \<Rightarrow> AttributeHandle set \<Rightarrow> FederateHandle \<Rightarrow> FederateHandle set" where
  "recipients fed i attrs me =
     {fh. fh \<noteq> me \<and> (\<exists>c\<in>set (inheritance_chain (fom fed) (oi_class i)). \<exists>a\<in>attrs. subscribed (subscriptions fed) c a fh) \<and>
        (\<exists>a\<in>attrs. region_match fed i a fh)}"

lemma set_filter_by_regions:
  "map_of (object_instances fed) inst = Some i \<Longrightarrow>
   set (filter_subscribers_by_regions fed subs inst (oi_class i) a) = {fh \<in> set subs. region_match fed i a fh}"
  by (auto simp: filter_subscribers_by_regions_def region_match_def Let_def split: option.splits)

lemma matched_recipients:
  fixes me :: FederateHandle and attrs :: "AttributeHandle list"
  assumes "map_of (object_instances fed) inst = Some i"
  defines "subs \<equiv> subscribers_for_attributes fed (oi_class i) attrs (Some me)"
  defines "matched \<equiv> fold (\<lambda>a out. hs_extend out (filter_subscribers_by_regions fed (subs) inst (oi_class i) a)) attrs []"
  shows "set (matched) = recipients fed i (set attrs) me" and "distinct (matched)"
proof -
  have "set (matched) = set [] \<union> (\<Union>a\<in>set attrs. {fh \<in> set (subs). region_match fed i a fh})"
    unfolding matched_def by (rule fold_union) (simp add: set_filter_by_regions [OF assms(1)])
  then show "set (matched) = recipients fed i (set attrs) me"
    by (auto simp: recipients_def subs_def set_subscribers_for_attributes)
  have "distinct out \<Longrightarrow> distinct (fold (\<lambda>a out. hs_extend out (g a)) as out)" for g :: "AttributeHandle \<Rightarrow> FederateHandle list" and as out
    by (induction as arbitrary: out) auto
  then show "distinct (matched)" by (simp add: matched_def)
qed

subsection \<open>Registration\<close>

lemma fold_producer:
  "set (fold (\<lambda>fh out. if fh \<noteq> producer then hs_insert fh out else out) s out) = set out \<union> (set s - {producer})"
  "distinct out \<Longrightarrow> distinct (fold (\<lambda>fh out. if fh \<noteq> producer then hs_insert fh out else out) s out)"
  by (induction s arbitrary: out) auto

lemma map_of_const_rev: "map_of (rev (map (\<lambda>k. (k, v)) ks)) k = (if k \<in> set ks then Some v else None)"
  by (induction ks) (auto simp: map_add_def split: option.split)

lemma fold_distinct: "(\<And>x out. distinct out \<Longrightarrow> distinct (f x out)) \<Longrightarrow> distinct out \<Longrightarrow> distinct (fold f xs out)"
  by (induction xs arbitrary: out) auto

lemma registration_candidates:
  assumes "matrix_inv (subscriptions fed)"
  shows "set (registration_candidates fed cls producer) =
      {fh. fh \<noteq> producer \<and> (\<exists>c\<in>set (inheritance_chain (fom fed) cls). \<exists>a. subscribed (subscriptions fed) c a fh)}"
    and "distinct (registration_candidates fed cls producer)"
proof -
  have "set (registration_candidates fed cls producer) = set [] \<union>
      (\<Union>c\<in>set (inheritance_chain (fom fed) cls). set (subscribers_of_class (subscriptions fed) c) - {producer})"
    unfolding registration_candidates_def by (rule fold_union) (rule fold_producer(1))
  then show "set (registration_candidates fed cls producer) =
      {fh. fh \<noteq> producer \<and> (\<exists>c\<in>set (inheritance_chain (fom fed) cls). \<exists>a. subscribed (subscriptions fed) c a fh)}"
    by (auto simp: subscribers_of_class_iff [OF assms])
  show "distinct (registration_candidates fed cls producer)"
    unfolding registration_candidates_def by (intro fold_distinct fold_producer(2)) simp_all
qed

lemma notify_registration_eq:
  fixes cls :: ObjectClassHandle and producer :: FederateHandle
  assumes "wf_hmap (federates fed)" "matrix_inv (subscriptions fed)"
  defines "fhs \<equiv> registration_candidates fed cls producer"
  shows "notify_subscribers_of_registration conns inst cls name producer fed =
    (discover_mark inst fhs fed,
     fan_out (live_connections conns fed (filter (undiscovered fed inst) fhs)) (discover_object_instance inst cls name producer))"
  using discover_all_eq [OF assms(1) registration_candidates(2) [OF assms(2)], of inst cls producer]
  by (simp add: notify_subscribers_of_registration_def fhs_def live_discover_mark)

subsection \<open>A sample federation\<close>

text \<open>Federate 1 publishes attribute 4 of class 3 and owns it on instance 5; federate 2 subscribes to it.\<close>

definition sample_federate :: "FederateHandle \<Rightarrow> u64 \<Rightarrow> PubSubState \<Rightarrow> FederateSession" where
  "sample_federate h sid ps = \<lparr>fs_handle = h, fs_name = ''a'', federate_type = [], fs_session_id = sid, pub_sub = ps,
     time_st = default_time, switches = default_switches, tso_queue = []\<rparr>"

definition flow_fed :: Federation where
  "flow_fed = (new_federation ''f''
       (empty_fom\<lparr>object_classes := [(3, \<lparr>oc_name = ''C'', oc_parent = None, oc_attributes = [], oc_semantics = None\<rparr>)]\<rparr>))\<lparr>
     federates := [(1, sample_federate 1 7 (default_pub_sub\<lparr>published_attrs := [(3, [4])]\<rparr>)),
       (2, sample_federate 2 8 (default_pub_sub\<lparr>subscribed_attrs := [(3, [4])]\<rparr>))],
     object_instances := [(5, \<lparr>oi_handle = 5, oi_class = 3, oi_name = ''x'', registrar = 1,
        attribute_owners = [(4, 1)], attribute_regions = []\<rparr>)],
     subscriptions := fst (subscribe_attribute 3 4 2 empty_matrix), next_object_id := 6\<rparr>"

lemma flow_fed_chain: "inheritance_chain (fom flow_fed) 3 = [3]"
  by code_simp

lemma flow_fed_ok: "wf_hmap (federates flow_fed)" "matrix_inv (subscriptions flow_fed)"
proof -
  show "wf_hmap (federates flow_fed)" by (simp add: flow_fed_def)
  have "card (attrs_of empty_matrix 3 2) = 0" by (simp add: attrs_of_def subscribed_def empty_matrix_def)
  then have "matrix_inv (fst (subscribe_attribute 3 4 2 empty_matrix))"
    by (intro subscribe_inv empty_matrix_inv) simp_all
  then show "matrix_inv (subscriptions flow_fed)" by (simp add: flow_fed_def)
qed

lemma flow_fed_subscribed: "subscribed (subscriptions flow_fed) 3 4 2"
  by (simp add: flow_fed_def subscribe_attribute_def empty_matrix_def subscribed_def Let_def)

lemma flow_fed_update:
  "\<exists>fed' cbs. update_attribute_values [7, 8] 1 (Some [0, 0, 0, 0, 0, 0, 0, 5]) (Some [(Some [0, 0, 0, 4], [9])]) [] flow_fed =
     (fed', cbs, Inr ())"
proof -
  have "snd (snd (update_attribute_values [7, 8] 1 (Some [0, 0, 0, 0, 0, 0, 0, 5]) (Some [(Some [0, 0, 0, 4], [9])]) [] flow_fed)) = Inr ()"
    by code_simp
  then show ?thesis by (metis prod.collapse)
qed

lemma flow_fed_register: "\<exists>fed' cbs. register_object_instance [7, 8] 1 (Some [0, 0, 0, 3]) (Some ''y'') flow_fed = (fed', cbs, Inr 6)"
proof -
  have "snd (snd (register_object_instance [7, 8] 1 (Some [0, 0, 0, 3]) (Some ''y'') flow_fed)) = Inr 6" by code_simp
  then show ?thesis by (metis prod.collapse)
qed

lemma update_outcome:
  assumes "wf_hmap (federates fed)" and "update_attribute_values conns me instance_h values tag fed = (fed', cbs, Inr ())"
  shows "\<exists>inst vs i fhs. Option.bind instance_h (\<lambda>h. ok (decode_object_instance h)) = Some inst \<and>
    decode_attribute_value_map values = Inr vs \<and> map_of (object_instances fed) inst = Some i \<and>
    owns_all me i (hkeys vs) \<and> set fhs = recipients fed i (set (hkeys vs)) me \<and> distinct fhs \<and>
    cbs = fan_out (live_connections conns fed (filter (undiscovered fed inst) fhs))
            (discover_object_instance inst (oi_class i) (oi_name i) me) @
          fan_out (live_connections conns fed fhs) (reflect_attribute_values inst vs tag me) \<and>
    fed' = discover_mark inst fhs fed \<and> \<not> list_ex (undiscovered fed' inst) fhs"
proof -
  obtain inst vs i where d: "Option.bind instance_h (\<lambda>h. ok (decode_object_instance h)) = Some inst"
    "decode_attribute_value_map values = Inr vs" "map_of (object_instances fed) inst = Some i" "owns_all me i (hkeys vs)"
    using assms(2) by (auto simp: update_attribute_values_def exception_variant_def Let_def split: option.splits sum.splits if_splits)
  let ?subs = "subscribers_for_attributes fed (oi_class i) (hkeys vs) (Some me)"
  let ?fhs = "fold (\<lambda>a out. hs_extend out (filter_subscribers_by_regions fed ?subs inst (oi_class i) a)) (hkeys vs) []"
  note m = matched_recipients [OF d(3), where me = me and attrs = "hkeys vs"]
  have "fed' = discover_mark inst ?fhs fed \<and>
    cbs = fan_out (live_connections conns fed (filter (undiscovered fed inst) ?fhs))
            (discover_object_instance inst (oi_class i) (oi_name i) me) @
          fan_out (live_connections conns fed ?fhs) (reflect_attribute_values inst vs tag me)"
    using assms(2) d notify_subset_eq [OF assms(1) m(2) d(3)]
    by (simp add: update_attribute_values_def Let_def live_discover_mark)
  moreover have "\<not> undiscovered (discover_mark inst ?fhs fed) inst fh" if "fh \<in> set ?fhs" for fh
    using that by (auto simp: undiscovered_def discover_mark_lookup mark_discovered_def split: option.split)
  ultimately show ?thesis using d m by (intro exI [of _ inst] exI [of _ vs] exI [of _ i] exI [of _ ?fhs]) (auto simp: list_ex_iff)
qed

subsection \<open>Properties\<close>

text \<open>C6. An update reaches the right federates. A successful update is of an existing instance, by the
  owner of every attribute it carries; it is reflected to exactly the other federates that subscribe to one
  of these attributes at the class of the instance or an ancestor and whose regions match for one of them, as
  far as they are connected; those of them that had not discovered the instance are told of it before, and
  afterwards all of them have.\<close>

theorem update_reaches_recipients:
  assumes "wf_hmap (federates fed)" and "update_attribute_values conns me instance_h values tag fed = (fed', cbs, Inr ())"
  shows "\<exists>inst vs i fhs. Option.bind instance_h (\<lambda>h. ok (decode_object_instance h)) = Some inst \<and>
    decode_attribute_value_map values = Inr vs \<and> map_of (object_instances fed) inst = Some i \<and>
    owns_all me i (hkeys vs) \<and> set fhs = recipients fed i (set (hkeys vs)) me \<and> distinct fhs \<and>
    cbs = fan_out (live_connections conns fed (filter (undiscovered fed inst) fhs))
            (discover_object_instance inst (oi_class i) (oi_name i) me) @
          fan_out (live_connections conns fed fhs) (reflect_attribute_values inst vs tag me) \<and>
    fed' = discover_mark inst fhs fed \<and> \<not> list_ex (undiscovered fed' inst) fhs"
  by (rule update_outcome [OF assms])

theorem update_reaches_recipients_witness:
  "\<exists>fed' cbs. update_attribute_values [7, 8] 1 (Some [0, 0, 0, 0, 0, 0, 0, 5]) (Some [(Some [0, 0, 0, 4], [9])]) [] flow_fed =
     (fed', cbs, Inr ()) \<and> \<not> undiscovered fed' 5 2"
proof -
  obtain fed' cbs where u: "update_attribute_values [7, 8] 1 (Some [0, 0, 0, 0, 0, 0, 0, 5]) (Some [(Some [0, 0, 0, 4], [9])]) [] flow_fed =
     (fed', cbs, Inr ())" using flow_fed_update by blast
  have dec: "decode_object_instance [0, 0, 0, 0, 0, 0, 0, 5] = Inr 5"
    "decode_attribute_value_map (Some [(Some [0, 0, 0, 4], [9])]) = Inr [(4, [9])]"
    "map_of (object_instances flow_fed) 5 = Some (snd (hd (object_instances flow_fed)))"
    by code_simp+
  have i: "oi_class (snd (hd (object_instances flow_fed))) = 3" "attribute_regions (snd (hd (object_instances flow_fed))) = []"
    by (simp_all add: flow_fed_def)
  from update_reaches_recipients [OF flow_fed_ok(1) u] obtain fhs where
    "set fhs = recipients flow_fed (snd (hd (object_instances flow_fed))) {4} 1" "\<not> list_ex (undiscovered fed' 5) fhs"
    by (auto simp: dec)
  moreover have "2 \<in> recipients flow_fed (snd (hd (object_instances flow_fed))) {4} 1"
    using flow_fed_subscribed by (simp add: recipients_def region_match_def i flow_fed_chain unwrap_or_def)
  ultimately show ?thesis using u by (auto simp: list_ex_iff)
qed

text \<open>C19. A registration creates one new instance. It gets the next handle, which the counter then passes, and
  is registered by the caller, who owns exactly the attributes it publishes for the class; no other instance
  changes, and a name the caller asks for is not in use. Exactly the other federates that subscribe to an
  attribute of the class or of an ancestor discover it.\<close>

theorem registration_creates_instance:
  assumes "wf_hmap (federates fed)" and "matrix_inv (subscriptions fed)"
    and "register_object_instance conns me cls requested_name fed = (fed', cbs, Inr h)"
  shows "\<exists>c fs published i fhs. Option.bind cls (\<lambda>h. ok (decode_object_class h)) = Some c \<and>
    map_of (federates fed) me = Some fs \<and> map_of (published_attrs (pub_sub fs)) c = Some published \<and>
    h = next_object_id fed \<and> next_object_id fed' = h + 1 \<and>
    map_of (object_instances fed') = (map_of (object_instances fed))(h \<mapsto> i) \<and> oi_class i = c \<and> registrar i = me \<and>
    map_of (attribute_owners i) = (\<lambda>a. if a \<in> set published then Some me else None) \<and>
    (requested_name = None \<or> requested_name = Some (oi_name i) \<and> oi_name i \<notin> oi_name ` set (hvalues (object_instances fed))) \<and>
    set fhs = {fh. fh \<noteq> me \<and> (\<exists>c'\<in>set (inheritance_chain (fom fed) c). \<exists>a. subscribed (subscriptions fed) c' a fh)} \<and>
    cbs = fan_out (live_connections conns fed (filter (undiscovered fed h) fhs)) (discover_object_instance h c (oi_name i) me)"
proof -
  obtain c fs published cd where d: "Option.bind cls (\<lambda>h. ok (decode_object_class h)) = Some c" "object_class_def (fom fed) c = Some cd"
    "map_of (federates fed) me = Some fs" "map_of (published_attrs (pub_sub fs)) c = Some published"
    using assms(3) by (auto simp: register_object_instance_def exception_variant_def split: option.splits if_splits)
  define name where "name = (case requested_name of Some n \<Rightarrow> n | None \<Rightarrow> ''HLA'' @ show_radix 10 (unat (next_object_id fed)))"
  define i where "i = \<lparr>oi_handle = next_object_id fed, oi_class = c, oi_name = name, registrar = me,
     attribute_owners = hcollect (map (\<lambda>a. (a, me)) published), attribute_regions = []\<rparr>"
  let ?h = "next_object_id fed"
  let ?fed2 = "fed\<lparr>next_object_id := ?h + 1, object_instances := hinsert ?h i (object_instances fed)\<rparr>"
  have fresh: "requested_name = None \<or> name \<notin> oi_name ` set (hvalues (object_instances fed))"
    using assms(3) d by (auto simp: register_object_instance_def exception_variant_def Let_def name_def split: if_splits)
  have r: "(case notify_subscribers_of_registration conns ?h c name me ?fed2 of (f, cs) \<Rightarrow> (f, cs, (Inr ?h :: ObjectInstanceHandle resp))) = (fed', cbs, Inr h)"
    using assms(3) d fresh by (cases requested_name) (simp_all add: register_object_instance_def Let_def name_def i_def)
  have frame: "live_connections conns ?fed2 = live_connections conns fed" "undiscovered ?fed2 ?h = undiscovered fed ?h"
    by (simp_all add: live_connections_def undiscovered_def fun_eq_iff)
  have wf2: "wf_hmap (federates ?fed2)" "matrix_inv (subscriptions ?fed2)" using assms(1,2) by simp_all
  let ?fhs = "registration_candidates ?fed2 c me"
  note q = r [unfolded notify_registration_eq [OF wf2, of conns ?h c name me] frame prod.case prod.inject sum.inject]
  note n = q [THEN conjunct1, symmetric] q [THEN conjunct2, THEN conjunct1, symmetric] q [THEN conjunct2, THEN conjunct2, symmetric]
  have obj: "map_of (object_instances fed') = (map_of (object_instances fed))(h \<mapsto> i)" "next_object_id fed' = h + 1"
    unfolding n discover_mark_frame by simp_all
  have owners: "map_of (attribute_owners i) = (\<lambda>a. if a \<in> set published then Some me else None)"
    by (simp add: i_def map_of_hcollect map_of_const_rev fun_eq_iff)
  have fhs: "set ?fhs = {fh. fh \<noteq> me \<and> (\<exists>c'\<in>set (inheritance_chain (fom fed) c). \<exists>a. subscribed (subscriptions fed) c' a fh)}"
    unfolding registration_candidates(1) [OF wf2(2)] by simp
  have name: "requested_name = None \<or> requested_name = Some (oi_name i) \<and> oi_name i \<notin> oi_name ` set (hvalues (object_instances fed))"
    using fresh by (cases requested_name) (simp_all add: i_def name_def)
  have i: "oi_class i = c" "registrar i = me" "oi_name i = name" by (simp_all add: i_def)
  show ?thesis
    using d(1,3,4) n(3) obj i(1,2) owners name fhs n(2) [folded i(3) n(3)] by blast
qed

theorem registration_creates_instance_witness:
  "\<exists>fed' cbs. register_object_instance [7, 8] 1 (Some [0, 0, 0, 3]) (Some ''y'') flow_fed = (fed', cbs, Inr 6) \<and>
     next_object_id fed' = 7 \<and> (\<exists>i. map_of (object_instances fed') 6 = Some i \<and> registrar i = 1 \<and> oi_name i = ''y'')"
proof -
  obtain fed' cbs where r: "register_object_instance [7, 8] 1 (Some [0, 0, 0, 3]) (Some ''y'') flow_fed = (fed', cbs, Inr 6)"
    using flow_fed_register by blast
  from registration_creates_instance [OF flow_fed_ok r] r show ?thesis by auto
qed

end
