(* ===== verification/Region_Props.thy ===== *)
theory Region_Props
  imports Regions
begin

text \<open>
  What the region services guarantee: ranges stay well formed, the overlap test decides whether two
  regions have a point in common, and a change of bounds is seen only after it is committed.
\<close>

definition ranges_ok :: "(DimensionHandle, u32 \<times> u32) hmap \<Rightarrow> bool" where
  "ranges_ok m \<longleftrightarrow> wf_hmap m \<and> (\<forall>d l u. map_of m d = Some (l, u) \<longrightarrow> l \<le> u)"

definition region_ok :: "Region \<Rightarrow> bool" where
  "region_ok r \<longleftrightarrow> ranges_ok (committed r) \<and> ranges_ok (staged r)"

definition all_regions_ok :: "(RegionHandle, Region) hmap \<Rightarrow> bool" where
  "all_regions_ok rs \<longleftrightarrow> (\<forall>h r. map_of rs h = Some r \<longrightarrow> region_ok r)"

abbreviation regions_ok :: "Federation \<Rightarrow> bool" where
  "regions_ok fed \<equiv> all_regions_ok (regions fed)"

text \<open>A point of the routing space gives a coordinate for every dimension.\<close>

definition in_region :: "(DimensionHandle \<Rightarrow> u32) \<Rightarrow> Region \<Rightarrow> bool" where
  "in_region x r \<longleftrightarrow> (\<forall>d l u. map_of (committed r) d = Some (l, u) \<longrightarrow> l \<le> x d \<and> x d \<le> u)"

lemma intersect_iff:
  "regions_intersect rp rs \<longleftrightarrow>
   (\<forall>d lp up ls us. map_of (committed rp) d = Some (lp, up) \<longrightarrow> map_of (committed rs) d = Some (ls, us) \<longrightarrow>
      lp \<le> us \<and> ls \<le> up)"
  (is "_ \<longleftrightarrow> ?R")
proof -
  have keys: "d \<in> set (hkeys m)" if "map_of m d = Some b" for m :: "(DimensionHandle, u32 \<times> u32) hmap" and d b
    using map_of_SomeD [OF that] by force
  have "regions_intersect rp rs \<longleftrightarrow> (\<forall>d. d \<in> set (hkeys (committed rp)) \<longrightarrow> map_of (committed rs) d \<noteq> None \<longrightarrow>
      (case (map_of (committed rp) d, map_of (committed rs) d) of
         (Some (lp, up), Some (ls, us)) \<Rightarrow> lp \<le> us \<and> ls \<le> up | _ \<Rightarrow> True))"
    unfolding regions_intersect_def list_all_iff by (auto simp del: set_map)
  also have "\<dots> \<longleftrightarrow> (\<forall>d. case (map_of (committed rp) d, map_of (committed rs) d) of
         (Some (lp, up), Some (ls, us)) \<Rightarrow> lp \<le> us \<and> ls \<le> up | _ \<Rightarrow> True)"
    using keys [of "committed rp"] by (fastforce split: option.splits simp del: set_map)
  also have "\<dots> \<longleftrightarrow> ?R" by (auto split: option.splits)
  finally show ?thesis .
qed

lemma intersect_point:
  assumes "ranges_ok (committed rp)" "ranges_ok (committed rs)"
  shows "regions_intersect rp rs \<longleftrightarrow> (\<exists>x. in_region x rp \<and> in_region x rs)"
proof
  assume i: "regions_intersect rp rs"
  define low where "low r d = (case map_of (committed r) d of None \<Rightarrow> 0 | Some b \<Rightarrow> fst b)" for r :: Region and d
  define x where "x d = max (low rp d) (low rs d)" for d
  have "in_region x rp" "in_region x rs"
    using i assms by (auto simp: in_region_def x_def low_def intersect_iff ranges_ok_def max_def split: option.splits)
  then show "\<exists>x. in_region x rp \<and> in_region x rs" by blast
next
  assume "\<exists>x. in_region x rp \<and> in_region x rs"
  then show "regions_intersect rp rs" by (fastforce simp: intersect_iff in_region_def)
qed

definition handles_intersect :: "Federation \<Rightarrow> RegionHandle \<Rightarrow> RegionHandle \<Rightarrow> bool" where
  "handles_intersect fed p s =
     (case (map_of (regions fed) p, map_of (regions fed) s) of (Some rp, Some rs) \<Rightarrow> regions_intersect rp rs | _ \<Rightarrow> False)"

lemma handles_intersect_iff:
  "handles_intersect fed p s \<longleftrightarrow>
   (\<exists>rp rs. map_of (regions fed) p = Some rp \<and> map_of (regions fed) s = Some rs \<and> regions_intersect rp rs)"
  by (simp add: handles_intersect_def split: option.split)

lemma overlap_any_iff:
  "regions_overlap_any fed P S \<longleftrightarrow> P = [] \<or> S = [] \<or> (\<exists>p\<in>set P. \<exists>s\<in>set S. handles_intersect fed p s)"
  by (simp add: regions_overlap_any_def handles_intersect_def list_ex_iff)

lemma handles_intersect_cong:
  assumes "\<And>h. map_option committed (map_of (regions a) h) = map_option committed (map_of (regions b) h)"
  shows "handles_intersect a p s = handles_intersect b p s"
  using assms [of p] assms [of s]
  by (cases "map_of (regions a) p"; cases "map_of (regions a) s"; cases "map_of (regions b) p"; cases "map_of (regions b) s")
     (simp_all add: handles_intersect_def intersect_iff)

lemma ranges_ok_Nil: "ranges_ok []"
  by (simp add: ranges_ok_def)

lemma ranges_ok_hinsert: "ranges_ok m \<Longrightarrow> l \<le> u \<Longrightarrow> ranges_ok (hinsert d (l, u) m)"
  unfolding ranges_ok_def by (simp add: wf_hinsert)

lemma ranges_ok_full:
  assumes "\<And>e. e \<in> set kvs \<Longrightarrow> snd e = (0, - 1)"
  shows "ranges_ok (hcollect kvs)"
proof -
  have "l \<le> u" if "map_of (hcollect kvs) d = Some (l, u)" for d l u
  proof -
    have "(d, (l, u)) \<in> set kvs" using map_of_SomeD [of "rev kvs" d "(l, u)"] that by (simp add: map_of_hcollect)
    from assms [OF this] show ?thesis by simp
  qed
  then show ?thesis by (simp add: ranges_ok_def)
qed

lemma all_regions_ok_hinsert: "all_regions_ok rs \<Longrightarrow> region_ok r \<Longrightarrow> all_regions_ok (hinsert h r rs)"
  by (simp add: all_regions_ok_def)

lemma all_regions_ok_hremove: "all_regions_ok rs \<Longrightarrow> all_regions_ok (hremove h rs)"
  by (simp add: all_regions_ok_def)

lemma all_regions_ok_hmodify:
  assumes "all_regions_ok rs" "\<And>r. region_ok r \<Longrightarrow> region_ok (f r)"
  shows "all_regions_ok (hmodify h f rs)"
  using assms by (auto simp: all_regions_ok_def split: option.splits if_splits)

lemma regions_ok_create: "regions_ok fed \<Longrightarrow> regions_ok (fst (create_region me dims fed))"
proof -
  have "ranges_ok (case dims of None \<Rightarrow> []
      | Some ds \<Rightarrow> hcollect (List.map_filter (\<lambda>h. map_option (\<lambda>raw. (raw, (0, - 1))) (decode_dimension h)) ds))"
    by (auto simp: ranges_ok_Nil List.map_filter_def intro!: ranges_ok_full split: option.split)
  then show "regions_ok fed \<Longrightarrow> ?thesis"
    unfolding create_region_def Let_def by (simp add: all_regions_ok_hinsert region_ok_def)
qed

lemma regions_ok_set: "regions_ok fed \<Longrightarrow> regions_ok (fst (set_range_bounds me r d b fed))"
  by (auto simp: set_range_bounds_def region_ok_def ranges_ok_hinsert intro!: all_regions_ok_hmodify split: option.split)

lemma regions_ok_delete: "regions_ok fed \<Longrightarrow> regions_ok (fst (delete_region me r fed))"
  by (simp add: delete_region_def all_regions_ok_hremove split: option.split)

lemma commit_regions_ok: "all_regions_ok rs \<Longrightarrow> all_regions_ok (fst (commit_regions me hs rs))"
proof (induction me hs rs rule: commit_regions.induct)
  case (2 me rh rhs rs)
  have "all_regions_ok (hmodify rh (\<lambda>r. r\<lparr>committed := staged r\<rparr>) rs)"
    using "2.prems" by (rule all_regions_ok_hmodify) (simp add: region_ok_def)
  with 2 show ?case by (simp split: option.split)
qed simp

lemma regions_ok_commit: "regions_ok fed \<Longrightarrow> regions_ok (fst (commit_region_modifications me hs fed))"
  by (simp add: commit_region_modifications_def Let_def split_def commit_regions_ok)

subsection \<open>Properties\<close>

text \<open>The region services a federate can call, and a run of them by several federates.\<close>

datatype region_call =
    Create FederateHandle "bytes list option" | Set_Bounds FederateHandle wire_handle wire_handle "(u32 \<times> u32) option"
  | Commit FederateHandle "bytes list option" | Delete FederateHandle wire_handle

fun run_region_call :: "region_call \<Rightarrow> Federation \<Rightarrow> Federation" where
  "run_region_call (Create me dims) fed = fst (create_region me dims fed)"
| "run_region_call (Set_Bounds me r d b) fed = fst (set_range_bounds me r d b fed)"
| "run_region_call (Commit me rs) fed = fst (commit_region_modifications me rs fed)"
| "run_region_call (Delete me r) fed = fst (delete_region me r fed)"

lemma region_calls_ok: "regions_ok fed \<Longrightarrow> regions_ok (fold run_region_call calls fed)"
proof (induction calls arbitrary: fed)
  case (Cons c calls)
  have "regions_ok (run_region_call c fed)"
    using Cons.prems by (cases c) (simp_all add: regions_ok_create regions_ok_set regions_ok_commit regions_ok_delete)
  then show ?case using Cons.IH by simp
qed simp

lemma new_regions_ok: "regions_ok (new_federation name f)"
  by (simp add: all_regions_ok_def new_federation_def)

text \<open>C20. Region matching is right. In every federation reached by calls of the region services, a non-empty
  set of publication regions and a non-empty set of subscription regions match exactly when some region of
  the first and some region of the second still exist and have a point in common, a point giving a
  coordinate to every dimension; an empty set matches everything. Hence matching is symmetric.\<close>

theorem overlap_is_common_point:
  "let fed = fold run_region_call calls (new_federation name f) in
   regions_overlap_any fed P S = (P = [] \<or> S = [] \<or>
     (\<exists>p s rp rs x. p \<in> set P \<and> s \<in> set S \<and> map_of (regions fed) p = Some rp \<and> map_of (regions fed) s = Some rs \<and>
        in_region x rp \<and> in_region x rs)) \<and>
   regions_overlap_any fed P S = regions_overlap_any fed S P"
proof -
  define fed where "fed = fold run_region_call calls (new_federation name f)"
  have ok: "ranges_ok (committed r)" if "map_of (regions fed) h = Some r" for h r
    using region_calls_ok [OF new_regions_ok, of calls name f] that by (auto simp: fed_def all_regions_ok_def region_ok_def)
  have step: "regions_overlap_any fed A B = (A = [] \<or> B = [] \<or>
     (\<exists>p s rp rs x. p \<in> set A \<and> s \<in> set B \<and> map_of (regions fed) p = Some rp \<and> map_of (regions fed) s = Some rs \<and>
        in_region x rp \<and> in_region x rs))" for A B
  proof -
    show ?thesis unfolding overlap_any_iff handles_intersect_iff using intersect_point [OF ok ok] by blast
  qed
  show ?thesis unfolding Let_def fed_def [symmetric] step by blast
qed

text \<open>A change of bounds takes effect when it is committed. When its owner sets the bounds of a
  dimension of a region, the bounds that are reported and every match stay as they were; when the owner then
  commits the region, exactly the new bounds are reported for that dimension.\<close>

theorem bounds_take_effect_on_commit:
  fixes h :: RegionHandle and d :: DimensionHandle
  assumes "map_of (regions fed) h = Some r" and "rg_owner r = me" and "l \<le> u"
  shows "\<exists>fed1 fed2. set_range_bounds me (Some (to_be_bytes h)) (Some (to_be_bytes d)) (Some (l, u)) fed = (fed1, [], Inr ()) \<and>
    get_range_bounds reg dm fed1 = get_range_bounds reg dm fed \<and>
    regions_overlap_any fed1 P S = regions_overlap_any fed P S \<and>
    commit_region_modifications me (Some [to_be_bytes h]) fed1 = (fed2, [], Inr ()) \<and>
    get_range_bounds (Some (to_be_bytes h)) (Some (to_be_bytes d)) fed2 = Inr (l, u)"
proof -
  have dec: "decode_region (to_be_bytes h) = Some h" "decode_dimension (to_be_bytes d) = Some d"
    by (simp_all add: decode_region_def decode_dimension_def)
  let ?fed1 = "fed\<lparr>regions := hmodify h (\<lambda>r. r\<lparr>staged := hinsert d (l, u) (staged r)\<rparr>) (regions fed)\<rparr>"
  let ?fed2 = "?fed1\<lparr>regions := hmodify h (\<lambda>r. r\<lparr>committed := staged r\<rparr>) (regions ?fed1)\<rparr>"
  have "set_range_bounds me (Some (to_be_bytes h)) (Some (to_be_bytes d)) (Some (l, u)) fed = (?fed1, [], Inr ())"
    using assms by (simp add: set_range_bounds_def dec)
  moreover have "get_range_bounds reg dm ?fed1 = get_range_bounds reg dm fed"
    by (auto simp: get_range_bounds_def assms(1) split: option.split)
  moreover have "regions_overlap_any ?fed1 P S = regions_overlap_any fed P S"
    using handles_intersect_cong [of ?fed1 fed] by (simp add: overlap_any_iff assms(1))
  moreover have "commit_region_modifications me (Some [to_be_bytes h]) ?fed1 = (?fed2, [], Inr ())"
    using assms by (simp add: commit_region_modifications_def dec List.map_filter_simps)
  moreover have "get_range_bounds (Some (to_be_bytes h)) (Some (to_be_bytes d)) ?fed2 = Inr (l, u)"
    using assms by (simp add: get_range_bounds_def dec)
  ultimately show ?thesis by blast
qed

definition region_fed :: Federation where
  "region_fed = (new_federation ''f'' empty_fom)\<lparr>regions := [(1, \<lparr>rg_handle = 1, rg_owner = 2, committed = [(0, (0, - 1))],
     staged = [(0, (0, - 1))]\<rparr>)]\<rparr>"

theorem bounds_take_effect_on_commit_witness:
  "\<exists>fed1 fed2. set_range_bounds 2 (Some (to_be_bytes (1 :: RegionHandle))) (Some (to_be_bytes (0 :: DimensionHandle))) (Some (3, 8)) region_fed = (fed1, [], Inr ()) \<and>
     commit_region_modifications 2 (Some [to_be_bytes (1 :: RegionHandle)]) fed1 = (fed2, [], Inr ()) \<and>
     get_range_bounds (Some (to_be_bytes (1 :: RegionHandle))) (Some (to_be_bytes (0 :: DimensionHandle))) fed2 = Inr (3, 8)"
proof -
  have "map_of (regions region_fed) 1 = Some (snd (hd (regions region_fed)))"
    "rg_owner (snd (hd (regions region_fed))) = 2" "(3 :: u32) \<le> 8"
    by (simp_all add: region_fed_def)
  from bounds_take_effect_on_commit [OF this, of 0] show ?thesis by blast
qed

end
