(* ===== verification/Save_Props.thy ===== *)
theory Save_Props
  imports SaveRestore
begin

text \<open>
  What saves and restores guarantee: a save completes when every federate has reported, a successful one
  leaves a snapshot that reads back, and a restored snapshot gives every instance to the federates that
  carry the names of its registrar and owners.
\<close>

lemma live_frame [simp]:
  "live_connections conns (fed\<lparr>current_save := s\<rparr>) = live_connections conns fed"
  "live_connections conns (fed\<lparr>last_save_label := l\<rparr>) = live_connections conns fed"
  by (simp_all add: live_connections_def fun_eq_iff)

subsection \<open>Running a save\<close>

text \<open>A sequence of reports, by federate and success flag, with the disk and the callbacks emitted.\<close>

primrec save_calls :: "connections \<Rightarrow> Serde \<Rightarrow> (FederateHandle \<times> bool) list \<Rightarrow> Disk \<Rightarrow> Federation
    \<Rightarrow> Disk \<times> Federation \<times> OutboundCallback list" where
  "save_calls conns serde [] dsk fed = (dsk, fed, [])"
| "save_calls conns serde (c # calls) dsk fed =
     (case federate_save_progressed conns serde (fst c) (snd c) dsk fed of (dsk1, fed1, cbs, _) \<Rightarrow>
        (case save_calls conns serde calls dsk1 fed1 of (dsk2, fed2, cbs') \<Rightarrow> (dsk2, fed2, cbs @ cbs')))"

definition save_done :: "SaveStatus \<Rightarrow> bool" where
  "save_done s \<longleftrightarrow> s = SaveComplete \<or> s = SaveNotComplete"

definition report_status :: "bool \<Rightarrow> SaveStatus" where
  "report_status b = (if b then SaveComplete else SaveNotComplete)"

definition outstanding :: "(FederateHandle, SaveStatus) hmap \<Rightarrow> FederateHandle set" where
  "outstanding st = {fh. \<exists>s. map_of st fh = Some s \<and> \<not> save_done s}"

definition some_failed :: "(FederateHandle, SaveStatus) hmap \<Rightarrow> bool" where
  "some_failed st \<longleftrightarrow> (\<exists>fh. map_of st fh = Some SaveNotComplete)"

lemma values_map_of:
  assumes "wf_hmap m"
  shows "list_ex P (hvalues m) \<longleftrightarrow> (\<exists>k v. map_of m k = Some v \<and> P v)"
    and "list_all P (hvalues m) \<longleftrightarrow> (\<forall>k v. map_of m k = Some v \<longrightarrow> P v)"
proof -
  have "v \<in> set (hvalues m) \<longleftrightarrow> (\<exists>k. map_of m k = Some v)" for v
    using map_of_is_SomeI [OF assms] by (force dest: map_of_SomeD)
  then show "list_ex P (hvalues m) \<longleftrightarrow> (\<exists>k v. map_of m k = Some v \<and> P v)"
    "list_all P (hvalues m) \<longleftrightarrow> (\<forall>k v. map_of m k = Some v \<longrightarrow> P v)"
    unfolding list_ex_iff list_all_iff Bex_def Ball_def by blast+
qed

lemma save_step:
  fixes save
  defines "st b me \<equiv> hinsert me (report_status b) (so_statuses save)"
  assumes "current_save fed = Some save" "wf_hmap (so_statuses save)"
  shows "federate_save_progressed conns serde me b dsk fed =
    (if outstanding (st b me) \<noteq> {} then (dsk, fed\<lparr>current_save := Some (save\<lparr>so_statuses := st b me\<rparr>)\<rparr>, [], Inr b)
     else (if some_failed (st b me) then dsk else persist_federation_snapshot_on_success serde (fed\<lparr>current_save := None\<rparr>) dsk,
           fed\<lparr>current_save := None\<rparr>,
           fan_out (live_connections conns fed (hkeys (federates fed)))
             (if some_failed (st b me) then federation_not_saved 0 else federation_saved), Inr b))"
proof -
  have wf: "wf_hmap (st b me)" using assms(3) by (simp add: st_def)
  have "list_all (\<lambda>s. s = SaveComplete \<or> s = SaveNotComplete) (hvalues (st b me)) \<longleftrightarrow> outstanding (st b me) = {}"
    unfolding values_map_of(2) [OF wf] outstanding_def save_done_def by blast
  moreover have "list_ex (\<lambda>s. s = SaveNotComplete) (hvalues (st b me)) \<longleftrightarrow> some_failed (st b me)"
    unfolding values_map_of(1) [OF wf] some_failed_def by blast
  ultimately show ?thesis
    unfolding federate_save_progressed_def st_def report_status_def using assms(2) by (simp add: Let_def)
qed

lemma outstanding_report: "outstanding (hinsert me (report_status b) st) = outstanding st - {me}"
  by (auto simp: outstanding_def save_done_def report_status_def split: if_splits)

lemma some_failed_report:
  assumes "me \<in> outstanding st"
  shows "some_failed (hinsert me (report_status b) st) \<longleftrightarrow> some_failed st \<or> \<not> b"
proof -
  have "map_of st me \<noteq> Some SaveNotComplete" using assms by (auto simp: outstanding_def save_done_def)
  then have "(\<exists>fh. fh \<noteq> me \<and> map_of st fh = Some SaveNotComplete) \<longleftrightarrow> some_failed st"
    unfolding some_failed_def by metis
  then show ?thesis by (cases b) (auto simp: some_failed_def report_status_def)
qed

lemma save_calls_complete:
  assumes "current_save fed = Some save" "wf_hmap (so_statuses save)"
    and "distinct (map fst calls)" "fst ` set calls = outstanding (so_statuses save)" "calls \<noteq> []"
  shows "save_calls conns serde calls dsk fed =
    (let failed = some_failed (so_statuses save) \<or> (\<exists>fh. (fh, False) \<in> set calls); fed' = fed\<lparr>current_save := None\<rparr>
     in (if failed then dsk else persist_federation_snapshot_on_success serde fed' dsk, fed',
         fan_out (live_connections conns fed (hkeys (federates fed)))
           (if failed then federation_not_saved 0 else federation_saved)))"
  using assms
proof (induction calls arbitrary: fed save)
  case (Cons c calls)
  obtain me b where c: "c = (me, b)" by force
  let ?st = "hinsert me (report_status b) (so_statuses save)"
  have out: "outstanding ?st = fst ` set calls"
  proof -
    have "me \<notin> fst ` set calls" using Cons.prems(3) by (simp add: c)
    then show ?thesis unfolding outstanding_report by (simp add: c flip: Cons.prems(4))
  qed
  have me: "me \<in> outstanding (so_statuses save)" by (simp add: c flip: Cons.prems(4))
  show ?case
  proof (cases "calls = []")
    case True
    then show ?thesis using out some_failed_report [OF me, of b]
      by (cases b) (simp_all add: c save_step [OF Cons.prems(1,2)] Let_def)
  next
    case False
    let ?fed = "fed\<lparr>current_save := Some (save\<lparr>so_statuses := ?st\<rparr>)\<rparr>"
    have step: "federate_save_progressed conns serde me b dsk fed = (dsk, ?fed, [], Inr b)"
      using False out by (simp add: save_step [OF Cons.prems(1,2)])
    have IH: "save_calls conns serde calls dsk ?fed =
      (let failed = some_failed ?st \<or> (\<exists>fh. (fh, False) \<in> set calls); fed' = ?fed\<lparr>current_save := None\<rparr>
       in (if failed then dsk else persist_federation_snapshot_on_success serde fed' dsk, fed',
           fan_out (live_connections conns ?fed (hkeys (federates ?fed)))
             (if failed then federation_not_saved 0 else federation_saved)))"
      using Cons.IH [of ?fed "save\<lparr>so_statuses := ?st\<rparr>"] Cons.prems(2,3) out False by simp
    have "save_calls conns serde (c # calls) dsk fed = save_calls conns serde calls dsk ?fed"
      by (simp add: c step split_def)
    moreover have "some_failed ?st \<or> (\<exists>fh. (fh, False) \<in> set calls) \<longleftrightarrow>
        some_failed (so_statuses save) \<or> (\<exists>fh. (fh, False) \<in> set (c # calls))"
      using some_failed_report [OF me, of b] by (auto simp: c)
    ultimately show ?thesis unfolding IH Let_def by simp
  qed
qed simp

lemma request_save:
  assumes "label \<noteq> []" "current_save fed = None"
  shows "request_federation_save conns label fed =
    (fed\<lparr>current_save := Some \<lparr>so_label = label, so_statuses = map (\<lambda>fh. (fh, SaveInitiated)) (hkeys (federates fed))\<rparr>,
         last_save_label := Some label\<rparr>,
     fan_out (live_connections conns fed (hkeys (federates fed))) (initiate_federate_save label), Inr ())"
proof -
  show ?thesis using assms by (simp add: request_federation_save_def Let_def)
qed

lemma map_of_const: "map_of (map (\<lambda>k. (k, v)) ks) k = (if k \<in> set ks then Some v else None)"
  by (induction ks) auto

lemma initial_statuses:
  assumes "wf_hmap (federates fed)"
  defines "st \<equiv> map (\<lambda>fh. (fh, SaveInitiated)) (hkeys (federates fed))"
  shows "wf_hmap st" and "outstanding st = fst ` set (federates fed)" and "\<not> some_failed st"
proof -
  have at: "map_of st k = (if k \<in> fst ` set (federates fed) then Some SaveInitiated else None)" for k
    unfolding st_def map_of_const by simp
  show "wf_hmap st" using assms(1) by (simp add: st_def comp_def)
  show "outstanding st = fst ` set (federates fed)" "\<not> some_failed st"
    by (auto simp: outstanding_def some_failed_def save_done_def at)
qed

lemma snapshot_frame: "snapshot (fed\<lparr>current_save := s\<rparr>) = snapshot fed" "snapshot (fed\<lparr>last_save_label := l\<rparr>) = snapshot fed"
  by (simp_all add: snapshot_def handle_to_name_def)

lemma read_after_write:
  assumes "to_json serde snap = Some j" "from_json serde j = Some snap"
    and "snapshot_path federation label \<notin> set (failing dsk)"
  shows "read_snapshot serde federation label (write_snapshot serde federation label snap dsk) = Inr snap"
  using assms by (simp add: read_snapshot_def write_snapshot_def Let_def)

subsection \<open>Restoring a snapshot\<close>

definition restored :: "(string, FederateHandle) hmap \<Rightarrow> FederateHandle \<Rightarrow> SerInstance \<Rightarrow> ObjectInstance" where
  "restored handles reg ser =
     \<lparr>oi_handle = si_handle ser, oi_class = si_class ser, oi_name = si_name ser, registrar = reg,
      attribute_owners = hcollect (List.map_filter
        (\<lambda>(attr, name). map_option (Pair attr) (map_of handles name)) (si_attribute_owners ser)),
      attribute_regions = []\<rparr>"

lemma restore_instance_alt:
  "restore_instance handles ser (insts, n) =
     (case map_of handles (si_registrar_name ser) of None \<Rightarrow> (insts, n)
      | Some reg \<Rightarrow> (hinsert (si_handle ser) (restored handles reg ser) insts,
          if n \<le> si_handle ser then si_handle ser + 1 else n))"
  by (auto simp: restore_instance_def restored_def split: option.split)

lemma restore_all_other:
  "h \<notin> si_handle ` set sers \<Longrightarrow> map_of (fst (fold (restore_instance handles) sers (insts, n))) h = map_of insts h"
  by (induction sers arbitrary: insts n) (auto simp: restore_instance_alt split: option.split)

lemma restore_all_at:
  assumes "distinct (map si_handle sers)" "ser \<in> set sers"
  shows "map_of (fst (fold (restore_instance handles) sers (insts, n))) (si_handle ser) =
    (case map_of handles (si_registrar_name ser) of None \<Rightarrow> map_of insts (si_handle ser) | Some reg \<Rightarrow> Some (restored handles reg ser))"
  using assms
proof (induction sers arbitrary: insts n)
  case (Cons s sers)
  show ?case
  proof (cases "s = ser")
    case True
    with Cons.prems show ?thesis by (simp add: restore_instance_alt restore_all_other split: option.split)
  next
    case False
    with Cons.prems have ser: "ser \<in> set sers" "distinct (map si_handle sers)" "si_handle s \<noteq> si_handle ser" by auto
    obtain insts1 n1 where r: "restore_instance handles s (insts, n) = (insts1, n1)" by force
    then have "map_of insts1 (si_handle ser) = map_of insts (si_handle ser)"
      using ser(3) by (auto simp: restore_instance_alt split: option.splits)
    with Cons.IH [OF ser(2,1), of insts1 n1] show ?thesis by (simp add: r split: option.split)
  qed
qed simp

lemma restore_all_next:
  assumes "\<forall>ser\<in>set sers. si_handle ser \<noteq> - 1" "\<forall>h\<in>fst ` set insts. h < n"
  shows "n \<le> snd (fold (restore_instance handles) sers (insts, n)) \<and>
    (\<forall>h\<in>fst ` set (fst (fold (restore_instance handles) sers (insts, n))). h < snd (fold (restore_instance handles) sers (insts, n)))"
  using assms
proof (induction sers arbitrary: insts n)
  case (Cons s sers)
  obtain insts1 n1 where r: "restore_instance handles s (insts, n) = (insts1, n1)" by force
  have "n \<le> n1" "\<forall>h\<in>fst ` set insts1. h < n1"
  proof -
    have lt: "si_handle s < si_handle s + 1"
      using Cons.prems(1) unatSuc [of "si_handle s"] by (simp add: word_less_nat_alt eq_neg_iff_add_eq_0 add.commute)
    have keys: "fst ` set insts1 = fst ` set insts \<and> n1 = n \<or>
        fst ` set insts1 = insert (si_handle s) (fst ` set insts) \<and> n1 = (if n \<le> si_handle s then si_handle s + 1 else n)"
    proof (cases "map_of handles (si_registrar_name s)")
      case None
      then show ?thesis using r by (simp add: restore_instance_alt)
    next
      case (Some reg)
      then have "insts1 = hinsert (si_handle s) (restored handles reg s) insts" "n1 = (if n \<le> si_handle s then si_handle s + 1 else n)"
        using r by (simp_all add: restore_instance_alt)
      then show ?thesis by (simp only: keys_hinsert simp_thms)
    qed
    then show "n \<le> n1" using lt by (auto split: if_splits)
    show "\<forall>h\<in>fst ` set insts1. h < n1"
    proof
      fix h assume "h \<in> fst ` set insts1"
      with keys Cons.prems(2) lt show "h < n1" by (elim disjE conjE) (auto split: if_splits)
    qed
  qed
  with Cons.IH [of insts1 n1] Cons.prems(1) show ?case by (auto simp: r)
qed simp

lemma map_filter_values:
  assumes "wf_hmap m"
  shows "map_of (List.map_filter (\<lambda>(k, v). map_option (Pair k) (f v)) m) k = Option.bind (map_of m k) f"
    and "wf_hmap (List.map_filter (\<lambda>(k, v). map_option (Pair k) (f v)) m)"
    and "fst ` set (List.map_filter (\<lambda>(k, v). map_option (Pair k) (f v)) m) \<subseteq> fst ` set m"
proof -
  let ?g = "List.map_filter (\<lambda>(k, v). map_option (Pair k) (f v))"
  have sub: "fst ` set (?g m) \<subseteq> fst ` set m" for m by (force simp: List.map_filter_def)
  show "fst ` set (?g m) \<subseteq> fst ` set m" by (rule sub)
  show "wf_hmap (?g m)" using assms
  proof (induction m)
    case (Cons e m)
    then show ?case using sub [of m] by (cases e; cases "f (snd e)") (auto simp: List.map_filter_simps)
  qed (simp add: List.map_filter_simps)
  show "map_of (?g m) k = Option.bind (map_of m k) f" using assms
  proof (induction m)
    case (Cons e m)
    have "fst e \<notin> fst ` set m" using Cons.prems by simp
    then have "map_of m (fst e) = None" by (simp add: map_of_eq_None_iff)
    with Cons show ?case by (cases e; cases "f (snd e)") (auto simp: List.map_filter_simps)
  qed (simp add: List.map_filter_simps)
qed

text \<open>The federate of \<open>fed'\<close> that carries the name a handle has in \<open>fed\<close>.\<close>

definition renamed :: "Federation \<Rightarrow> Federation \<Rightarrow> FederateHandle \<Rightarrow> FederateHandle option" where
  "renamed fed fed' fh = Option.bind (map_of (handle_to_name fed) fh) (map_of (name_to_handle fed'))"

text \<open>The name under which a snapshot records the registrar of an instance.\<close>

definition registrar_name :: "Federation \<Rightarrow> ObjectInstance \<Rightarrow> string" where
  "registrar_name fed i = unwrap_or ''<unknown>'' (map_of (handle_to_name fed) (registrar i))"

lemma restored_owners:
  assumes "wf_hmap (attribute_owners i)"
  shows "map_of (attribute_owners (restored (name_to_handle fed') reg (ser_instance (handle_to_name fed) i))) a =
    Option.bind (map_of (attribute_owners i) a) (renamed fed fed')"
proof -
  note one = map_filter_values [OF assms, of "map_of (handle_to_name fed)"]
  note two = map_filter_values [OF one(2), of "map_of (name_to_handle fed')"]
  show ?thesis
    by (simp add: restored_def ser_instance_def map_of_hcollect_distinct [OF two(2)] two(1) one(1) renamed_def Option.bind_assoc
        split: Option.bind_split)
qed

definition instances_wf :: "Federation \<Rightarrow> bool" where
  "instances_wf fed \<longleftrightarrow> wf_hmap (object_instances fed) \<and>
     (\<forall>h i. map_of (object_instances fed) h = Some i \<longrightarrow> oi_handle i = h \<and> wf_hmap (attribute_owners i))"

lemma snapshot_handles:
  assumes "instances_wf fed"
  shows "map si_handle (sn_instances (snapshot fed)) = hkeys (object_instances fed)"
proof -
  have "oi_handle i = h" if "(h, i) \<in> set (object_instances fed)" for h i
    using assms map_of_is_SomeI [OF _ that] by (simp add: instances_wf_def)
  then show ?thesis by (auto simp: snapshot_def Let_def ser_instance_def)
qed

definition sample_serde :: "FederationSnapshot \<Rightarrow> Serde" where
  "sample_serde snap = \<lparr>to_json = (\<lambda>_. Some ''{}''), from_json = (\<lambda>_. Some snap)\<rparr>"

subsection \<open>Properties\<close>

text \<open>C11. A save completes when every federate has reported. After a federate requests a save and every
  joined federate has reported once, in any order, no save is in progress, and every federate is told the
  outcome once. If all reported success, the snapshot of the federation is on the disk and reads back under
  the label, given that the JSON text of the snapshot decodes to it and that its file can be written and
  read; if one reported failure, the disk is as it was.\<close>

theorem save_completes:
  assumes "wf_hmap (federates fed)" and "label \<noteq> []" and "current_save fed = None"
    and "distinct (map fst calls)" and "fst ` set calls = fst ` set (federates fed)" and "calls \<noteq> []"
    and "to_json serde (snapshot fed) = Some j" and "from_json serde j = Some (snapshot fed)"
    and "snapshot_path (fed_name fed) label \<notin> set (failing dsk)"
    and "save_calls conns serde calls dsk (fst (request_federation_save conns label fed)) = (dsk', fed', cbs)"
  shows "current_save fed' = None \<and>
    (if \<exists>fh. (fh, False) \<in> set calls
     then dsk' = dsk \<and> cbs = fan_out (live_connections conns fed (hkeys (federates fed))) (federation_not_saved 0)
     else read_snapshot serde (fed_name fed) label dsk' = Inr (snapshot fed) \<and>
       cbs = fan_out (live_connections conns fed (hkeys (federates fed))) federation_saved)"
proof -
  let ?st = "map (\<lambda>fh. (fh, SaveInitiated)) (hkeys (federates fed))"
  let ?fed = "fed\<lparr>current_save := Some \<lparr>so_label = label, so_statuses = ?st\<rparr>, last_save_label := Some label\<rparr>"
  note st = initial_statuses [OF assms(1)]
  have "save_calls conns serde calls dsk ?fed =
    (let failed = some_failed ?st \<or> (\<exists>fh. (fh, False) \<in> set calls); fed' = ?fed\<lparr>current_save := None\<rparr>
     in (if failed then dsk else persist_federation_snapshot_on_success serde fed' dsk, fed',
         fan_out (live_connections conns ?fed (hkeys (federates ?fed)))
           (if failed then federation_not_saved 0 else federation_saved)))"
    using save_calls_complete [of ?fed "\<lparr>so_label = label, so_statuses = ?st\<rparr>" calls] st assms(4-6) by simp
  moreover have "persist_federation_snapshot_on_success serde (?fed\<lparr>current_save := None\<rparr>) dsk =
      write_snapshot serde (fed_name fed) label (snapshot fed) dsk"
    by (simp add: persist_federation_snapshot_on_success_def snapshot_frame)
  ultimately show ?thesis using assms(10) st(3) read_after_write [OF assms(7-9)]
    by (auto simp: request_save [OF assms(2,3)] Let_def split: if_splits)
qed

theorem save_completes_witness:
  "\<exists>dsk' fed' cbs. save_calls [1, 2] (sample_serde (snapshot pair_fed)) [(2, True), (1, True)] \<lparr>files = [], failing = []\<rparr>
       (fst (request_federation_save [1, 2] ''s'' pair_fed)) = (dsk', fed', cbs) \<and> current_save fed' = None \<and>
     read_snapshot (sample_serde (snapshot pair_fed)) (fed_name pair_fed) ''s'' dsk' = Inr (snapshot pair_fed)"
proof -
  let ?s = "sample_serde (snapshot pair_fed)"
  obtain dsk' fed' cbs where e: "save_calls [1, 2] ?s [(2, True), (1, True)] \<lparr>files = [], failing = []\<rparr>
       (fst (request_federation_save [1, 2] ''s'' pair_fed)) = (dsk', fed', cbs)" by (metis prod_cases3)
  have "current_save pair_fed = None" by (simp add: pair_fed_def new_federation_def)
  then show ?thesis using save_completes [OF _ _ _ _ _ _ _ _ _ e, of "''{}''"] e
    by (auto simp: sample_serde_def pair_fed_keys)
qed

text \<open>C17. A snapshot restores instances by federate name, and restores nothing else. Restored into any federation, the snapshot of a
  federation brings back each instance whose registrar's name is carried by a joined federate, with its class
  and name, registered by that federate, each attribute owned by the federate that carries its owner's name
  and unowned when there is none, and with no regions. An instance whose registrar's name nobody carries is not
  there afterwards, nor is any instance the snapshot does not have, whatever was there before. The name of a
  registrar that had resigned when the snapshot was taken is \<^verbatim>\<open><unknown>\<close>.\<close>

theorem snapshot_restores_by_name:
  assumes "instances_wf fed"
  shows "case map_of (object_instances fed) h of
      None \<Rightarrow> map_of (object_instances (apply_snapshot (snapshot fed) fed')) h = None
    | Some i \<Rightarrow>
        (case map_of (name_to_handle fed') (registrar_name fed i) of
           None \<Rightarrow> map_of (object_instances (apply_snapshot (snapshot fed) fed')) h = None
         | Some reg \<Rightarrow>
             \<exists>i'. map_of (object_instances (apply_snapshot (snapshot fed) fed')) h = Some i' \<and>
               oi_handle i' = h \<and> oi_class i' = oi_class i \<and> oi_name i' = oi_name i \<and> registrar i' = reg \<and> attribute_regions i' = [] \<and>
               map_of (attribute_owners i') = (\<lambda>a. Option.bind (map_of (attribute_owners i) a) (renamed fed fed')))"
proof -
  let ?names = "handle_to_name fed" and ?handles = "name_to_handle fed'" and ?sers = "sn_instances (snapshot fed)"
  have at: "object_instances (apply_snapshot (snapshot fed) fed') =
      fst (fold (restore_instance ?handles) ?sers ([], next_object_id fed'))"
    by (simp add: apply_snapshot_def Let_def split_def)
  have dist: "distinct (map si_handle ?sers)" using assms by (simp add: snapshot_handles [OF assms] instances_wf_def)
  show ?thesis
  proof (cases "map_of (object_instances fed) h")
    case None
    then have "h \<notin> si_handle ` set ?sers" by (simp flip: set_map add: snapshot_handles [OF assms] map_of_eq_None_iff)
    then show ?thesis using None by (simp add: at restore_all_other)
  next
    case (Some i)
    then have i: "oi_handle i = h" "wf_hmap (attribute_owners i)" using assms by (auto simp: instances_wf_def)
    have "i \<in> set (hvalues (object_instances fed))" using map_of_SomeD [OF Some] by force
    then have ser: "ser_instance ?names i \<in> set ?sers" by (auto simp: snapshot_def Let_def)
    have "map_of (object_instances (apply_snapshot (snapshot fed) fed')) h =
        map_option (\<lambda>reg. restored ?handles reg (ser_instance ?names i)) (map_of ?handles (registrar_name fed i))"
      using restore_all_at [OF dist ser, of ?handles "[]"] by (simp add: at ser_instance_def registrar_name_def i split: option.split)
    with Some show ?thesis using restored_owners [OF i(2)]
      by (auto simp: restored_def ser_instance_def i(1) split: option.split)
  qed
qed

definition named_fed :: "FederateHandle \<Rightarrow> FederateHandle \<Rightarrow> Federation" where
  "named_fed a b = (new_federation ''f'' empty_fom)\<lparr>
     federates := map (\<lambda>(h, n). (h, \<lparr>fs_handle = h, fs_name = n, federate_type = [], fs_session_id = ucast h,
        pub_sub = default_pub_sub, time_st = default_time, switches = default_switches, tso_queue = []\<rparr>)) [(a, ''a''), (b, ''b'')],
     object_instances := [(5, \<lparr>oi_handle = 5, oi_class = 3, oi_name = ''x'', registrar = a,
        attribute_owners = [(1, b)], attribute_regions = []\<rparr>)]\<rparr>"

lemma named_fed_sample:
  "instances_wf (named_fed 1 2)" "map_of (object_instances (named_fed 1 2)) 5 = Some (snd (hd (object_instances (named_fed 1 2))))"
  "registrar_name (named_fed 1 2) (snd (hd (object_instances (named_fed 1 2)))) = ''a''"
  "map_of (name_to_handle (named_fed 7 8)) ''a'' = Some 7" "map_of (name_to_handle (new_federation ''g'' empty_fom)) ''a'' = None"
  "renamed (named_fed 1 2) (named_fed 7 8) 2 = Some 8"
  by (simp_all add: instances_wf_def named_fed_def renamed_def registrar_name_def unwrap_or_def handle_to_name_def name_to_handle_def
      map_of_hcollect new_federation_def)

theorem snapshot_restores_by_name_witness:
  "(\<exists>i'. map_of (object_instances (apply_snapshot (snapshot (named_fed 1 2)) (named_fed 7 8))) 5 = Some i' \<and>
      registrar i' = 7 \<and> map_of (attribute_owners i') 1 = Some 8) \<and>
   map_of (object_instances (apply_snapshot (snapshot (named_fed 1 2)) (new_federation ''g'' empty_fom))) 5 = None"
proof -
  have "map_of (attribute_owners (snd (hd (object_instances (named_fed 1 2))))) 1 = Some 2" by (simp add: named_fed_def)
  then show ?thesis
    using snapshot_restores_by_name [OF named_fed_sample(1), where h = 5 and fed' = "named_fed 7 8"]
      snapshot_restores_by_name [OF named_fed_sample(1), where h = 5 and fed' = "new_federation ''g'' empty_fom"]
    by (auto simp: named_fed_sample)
qed

text \<open>C37. Restored handles are not handed out again. Unless the snapshot holds the largest 64-bit handle,
  every instance present after it is applied has a handle below the next one to be assigned, and that counter
  has not gone back.\<close>

theorem restored_handles_below_next:
  assumes "\<forall>ser\<in>set (sn_instances snap). si_handle ser \<noteq> - 1"
  shows "next_object_id fed \<le> next_object_id (apply_snapshot snap fed) \<and>
    (\<forall>h\<in>fst ` set (object_instances (apply_snapshot snap fed)). h < next_object_id (apply_snapshot snap fed))"
  using restore_all_next [OF assms, of "[]" "next_object_id fed"] by (simp add: apply_snapshot_def Let_def split_def)

theorem restored_handles_below_next_witness:
  "list_all (\<lambda>h. h < next_object_id (apply_snapshot (snapshot (named_fed 1 2)) (named_fed 7 8)))
     (map fst (object_instances (apply_snapshot (snapshot (named_fed 1 2)) (named_fed 7 8))))"
proof -
  have "\<forall>ser\<in>set (sn_instances (snapshot (named_fed 1 2))). si_handle ser \<noteq> - 1"
    by (simp add: snapshot_def ser_instance_def named_fed_def Let_def)
  from restored_handles_below_next [OF this] show ?thesis by (simp add: list_all_iff)
qed

end
