(* ===== verification/Service_Props.thy ===== *)
theory Service_Props
  imports Dispatch Flow_Props Region_Props Save_Props
begin

text \<open>
  The contract every service handler keeps: it neither adds nor removes federates, nor changes their handles,
  names and sessions or the next handle to be given out, and it keeps the invariant of times and queues.
\<close>

definition ident_view :: "Federation \<Rightarrow> u32 \<times> (FederateHandle \<times> FederateHandle \<times> string \<times> u64) list" where
  "ident_view fed =
     (next_federate_id fed, map (\<lambda>(fh, fs). (fh, fs_handle fs, fs_name fs, fs_session_id fs)) (federates fed))"

definition good_change :: "Federation \<Rightarrow> Federation \<Rightarrow> bool" where
  "good_change fed fed' \<longleftrightarrow> ident_view fed' = ident_view fed \<and> (times_ok fed \<longrightarrow> times_ok fed')"

definition service_ok :: "(FederateHandle \<Rightarrow> Federation \<Rightarrow> 'a step) \<Rightarrow> bool" where
  "service_ok run \<longleftrightarrow> (\<forall>me fed. times_ok fed \<longrightarrow> good_change fed (fst (run me fed)))"

lemma good_change_refl [simp]: "good_change fed fed"
  by (simp add: good_change_def)

lemma good_change_trans: "good_change a b \<Longrightarrow> good_change b c \<Longrightarrow> good_change a c"
  by (simp add: good_change_def)

lemma service_okI: "(\<And>me fed. times_ok fed \<Longrightarrow> good_change fed (fst (run me fed))) \<Longrightarrow> service_ok run"
  by (simp add: service_ok_def)

text \<open>Updates of other fields of the federation, and of a session outside its identity, times and queue.\<close>

lemma good_change_same:
  "federates fed' = federates fed \<Longrightarrow> next_federate_id fed' = next_federate_id fed \<Longrightarrow> good_change fed fed'"
  by (simp add: good_change_def ident_view_def times_ok_def)

lemma ident_view_modify:
  assumes "\<And>fs. fs_handle (g fs) = fs_handle fs \<and> fs_name (g fs) = fs_name fs \<and> fs_session_id (g fs) = fs_session_id fs"
  shows "ident_view (modify_federate fh g fed) = ident_view fed"
  using assms by (auto simp: ident_view_def modify_federate_def hmodify_def)

lemma good_change_modify:
  assumes "\<And>fs. fs_handle (g fs) = fs_handle fs \<and> fs_name (g fs) = fs_name fs \<and> fs_session_id (g fs) = fs_session_id fs \<and>
      time_st (g fs) = time_st fs \<and> tso_queue (g fs) = tso_queue fs"
  shows "good_change fed (modify_federate fh g fed)"
proof -
  have "times_ok (modify_federate fh g fed)" if "times_ok fed"
    using that times_ok_lookup [OF that] assms by (intro times_ok_modify) (auto simp: session_time_ok_def)
  then show ?thesis using assms by (simp add: good_change_def ident_view_modify)
qed

lemma good_change_pub_sub [simp]: "good_change fed (modify_pub_sub fh g fed)"
  unfolding modify_pub_sub_def by (rule good_change_modify) simp

lemma good_change_frame [simp]:
  "good_change fed (fed'\<lparr>subscriptions := a\<rparr>) = good_change fed fed'"
  "good_change fed (fed'\<lparr>object_instances := b\<rparr>) = good_change fed fed'"
  "good_change fed (fed'\<lparr>regions := c\<rparr>) = good_change fed fed'"
  "good_change fed (fed'\<lparr>next_region_id := d\<rparr>) = good_change fed fed'"
  "good_change fed (fed'\<lparr>next_object_id := d\<rparr>) = good_change fed fed'"
  "good_change fed (fed'\<lparr>sync_points := e\<rparr>) = good_change fed fed'"
  "good_change fed (fed'\<lparr>current_save := f\<rparr>) = good_change fed fed'"
  "good_change fed (fed'\<lparr>current_restore := g\<rparr>) = good_change fed fed'"
  "good_change fed (fed'\<lparr>last_save_label := h\<rparr>) = good_change fed fed'"
  by (simp_all add: good_change_def ident_view_def times_ok_def)

lemma good_change_discover_mark [simp]: "good_change fed (discover_mark inst fhs fed)"
proof (induction fhs arbitrary: fed)
  case (Cons fh fhs)
  have "good_change fed (modify_federate fh (mark_discovered inst) fed)"
    by (rule good_change_modify) (simp add: mark_discovered_def)
  then show ?case using Cons good_change_trans by (fastforce simp: discover_mark_def)
qed (simp add: discover_mark_def)

lemma good_change_discover_one: "good_change fed (fst st) \<Longrightarrow> good_change fed (fst (discover_one inst fh st))"
  by (cases st) (auto simp: discover_one_def intro: good_change_trans split: option.split)

lemma good_change_discover_all: "good_change fed (fst (discover_all inst fhs fed))"
proof -
  have "good_change fed (fst st) \<Longrightarrow> good_change fed (fst (fold (discover_one inst) fhs st))" for st
    by (induction fhs arbitrary: st) (simp_all add: good_change_discover_one)
  then show ?thesis by (simp add: discover_all_def)
qed

lemma good_change_forget: "good_change fed (fst (forget_instance me inst fed))"
proof -
  have "list_all (\<lambda>(fh, fs). session_time_ok fs) (federates (fst (forget_instance me inst fed)))" if "times_ok fed"
    using that by (auto simp: forget_instance_def times_ok_def list_all_iff session_time_ok_def)
  then show ?thesis
    by (auto simp: good_change_def ident_view_def times_ok_def forget_instance_def comp_def case_prod_unfold)
qed

subsection \<open>Declarations, regions and directed interactions\<close>

lemma service_declaration:
  "service_ok (\<lambda>me. publish_object_class_attributes me c a)"
  "service_ok (\<lambda>me. unpublish_object_class_attributes me c a)"
  "service_ok (\<lambda>me. subscribe_object_class_attributes_inner cs me c a)"
  "service_ok (\<lambda>me. unsubscribe_object_class_attributes_inner cs me c a)"
  "service_ok (\<lambda>me. publish_interaction_class me c)"
  "service_ok (\<lambda>me. unpublish_interaction_class me c)"
  "service_ok (\<lambda>me. subscribe_interaction_class_inner cs me c)"
  "service_ok (\<lambda>me. unsubscribe_interaction_class_inner cs me c)"
  "service_ok (\<lambda>me. unpublish_object_class me c)"
  "service_ok (\<lambda>me. unsubscribe_object_class me c)"
  unfolding service_ok_def
  by (simp_all add: publish_object_class_attributes_def unpublish_object_class_attributes_def
      subscribe_object_class_attributes_inner_def unsubscribe_object_class_attributes_inner_def publish_interaction_class_def
      unpublish_interaction_class_def subscribe_interaction_class_inner_def unsubscribe_interaction_class_inner_def
      unpublish_object_class_def unsubscribe_object_class_def
      Let_def split_def split: option.split sum.split)

lemma service_directed:
  "service_ok (\<lambda>me. publish_object_class_directed_interactions me c s)"
  "service_ok (\<lambda>me. unpublish_object_class_directed_interactions me c s)"
  "service_ok (\<lambda>me. subscribe_object_class_directed_interactions me c s)"
  "service_ok (\<lambda>me. unsubscribe_object_class_directed_interactions me c s)"
  "service_ok (\<lambda>me. send_directed_interaction cs me w i ps tag)"
  unfolding service_ok_def
  by (simp_all add: publish_object_class_directed_interactions_def unpublish_object_class_directed_interactions_def
      subscribe_object_class_directed_interactions_def unsubscribe_object_class_directed_interactions_def send_directed_interaction_def
      Let_def split_def split: option.split sum.split)

lemma service_region:
  "service_ok (\<lambda>me. create_region me d)"
  "service_ok (\<lambda>me. commit_region_modifications me rs)"
  "service_ok (\<lambda>me. delete_region me r)"
  "service_ok (\<lambda>me. set_range_bounds me r w b)"
  unfolding service_ok_def
  by (simp_all add: create_region_def commit_region_modifications_def delete_region_def set_range_bounds_def
      Let_def split_def split: option.split sum.split)

lemma service_region_subscription:
  "service_ok (\<lambda>me. subscribe_object_class_attributes_with_regions cs me c p)"
  "service_ok (\<lambda>me. unsubscribe_object_class_attributes_with_regions me c p)"
  unfolding service_ok_def
  by (simp_all add: subscribe_object_class_attributes_with_regions_def unsubscribe_object_class_attributes_with_regions_def
      Let_def split_def split: option.split sum.split)

subsection \<open>Objects and ownership\<close>

lemma good_change_register: "good_change fed (fst (register_object_instance cs me c n fed))"
proof -
  have "good_change fed (fst (discover_all inst fhs (fed\<lparr>next_object_id := k, object_instances := m\<rparr>)))" for inst fhs k m
    by (rule good_change_trans [OF _ good_change_discover_all]) simp
  then show ?thesis
    by (simp add: register_object_instance_def notify_subscribers_of_registration_def Let_def split_def split: option.split)
qed

lemma service_register:
  "service_ok (\<lambda>me. register_object_instance cs me c n)"
  "service_ok (\<lambda>me. register_object_instance_with_regions cs me c n p)"
proof -
  show "service_ok (\<lambda>me. register_object_instance cs me c n)" by (rule service_okI) (rule good_change_register)
  show "service_ok (\<lambda>me. register_object_instance_with_regions cs me c n p)"
  proof (rule service_okI)
    fix me fed
    obtain fed1 cbs r where "register_object_instance cs me c n fed = (fed1, cbs, r)" by (metis prod_cases3)
    then show "good_change fed (fst (register_object_instance_with_regions cs me c n p fed))"
      using good_change_register [of fed cs me c n] good_change_trans [OF _ good_change_same, of fed fed1]
      by (auto simp: register_object_instance_with_regions_def split: sum.split)
  qed
qed

lemma good_change_subset: "good_change fed (fst (notify_subscribers_of_registration_subset cs inst c me fhs fed))"
  using good_change_discover_all by (simp add: notify_subscribers_of_registration_subset_def Let_def split_def split: option.split)

lemma good_change_route: "good_change fed (fst (route_tso_or_immediate cs subs t c fed))"
proof -
  have "ident_view (fold (\<lambda>fh. modify_federate fh (\<lambda>fs. fs\<lparr>tso_queue := tso_insert t c (tso_queue fs)\<rparr>)) q fed) = ident_view fed" for q
    by (induction q arbitrary: fed) (simp_all add: ident_view_modify)
  then have "ident_view (fst (route_tso_or_immediate cs subs t c fed)) = ident_view fed"
    by (simp add: route_tso_or_immediate_def Let_def)
  then show ?thesis using times_ok_route by (simp add: good_change_def)
qed

lemma service_data_flow:
  "service_ok (\<lambda>me. update_attribute_values cs me i vs tag)"
  "service_ok (\<lambda>me. update_attribute_values_with_time cs me i vs tag t)"
  "service_ok (\<lambda>me. send_interaction cs me c ps tag)"
  "service_ok (\<lambda>me. send_interaction_with_time cs me c ps tag t)"
  "service_ok (\<lambda>me. delete_object_instance cs me i tag)"
  "service_ok (\<lambda>me. delete_object_instance_with_time cs me i tag t)"
proof -
  have removed: "good_change fed fed1" if "remove_instance me inst fed = Inr (fed1, n)" for me inst fed fed1 n
    using that good_change_trans [OF _ good_change_forget, of fed "fed\<lparr>object_instances := m\<rparr>" for m]
    by (auto simp: remove_instance_def exception_variant_def split: option.splits if_splits) (metis fst_conv good_change_frame(2) good_change_refl)
  show "service_ok (\<lambda>me. update_attribute_values cs me i vs tag)"
    unfolding service_ok_def using good_change_subset
    by (simp add: update_attribute_values_def Let_def split_def split: option.split sum.split)
  show "service_ok (\<lambda>me. update_attribute_values_with_time cs me i vs tag t)"
    unfolding service_ok_def using good_change_trans [OF good_change_subset good_change_route]
    by (simp add: update_attribute_values_with_time_def Let_def split_def split: option.split sum.split)
  show "service_ok (\<lambda>me. send_interaction cs me c ps tag)"
    unfolding service_ok_def by (simp add: send_interaction_def split_def split: sum.split)
  show "service_ok (\<lambda>me. send_interaction_with_time cs me c ps tag t)"
    unfolding service_ok_def using good_change_route
    by (simp add: send_interaction_with_time_def Let_def split_def split: option.split sum.split)
  show "service_ok (\<lambda>me. delete_object_instance cs me i tag)"
    unfolding service_ok_def using removed
    by (simp add: delete_object_instance_def split_def split: option.split sum.split) 
  show "service_ok (\<lambda>me. delete_object_instance_with_time cs me i tag t)"
    unfolding service_ok_def using good_change_trans [OF removed good_change_route]
    by (simp add: delete_object_instance_with_time_def Let_def split_def split: option.split sum.split)
qed

lemma service_ownership:
  "service_ok (\<lambda>me. query_attribute_ownership cs me i a)"
  "service_ok (\<lambda>me. attribute_ownership_acquisition_if_available cs me i a tag)"
  "service_ok (\<lambda>me. unconditional_attribute_ownership_divestiture cs me i a)"
  unfolding service_ok_def
  by (simp_all add: query_attribute_ownership_def attribute_ownership_acquisition_if_available_def
      unconditional_attribute_ownership_divestiture_def Let_def split_def split: sum.split)

subsection \<open>Synchronization, save and restore\<close>

lemma service_sync:
  "service_ok (\<lambda>me. register_synchronization_point cs me l tag sub)"
  "service_ok (\<lambda>me. synchronization_point_achieved cs me l b)"
  unfolding service_ok_def
  by (simp_all add: register_synchronization_point_def synchronization_point_achieved_def Let_def split: option.split)

lemma service_save:
  "service_ok (\<lambda>_. request_federation_save cs l)"
  "service_ok federate_save_begun"
  "service_ok (\<lambda>_. abort_federation_save)"
  "service_ok (\<lambda>me. request_federation_restore cs serde me l dsk)"
  "service_ok (\<lambda>me. federate_restore_progressed cs me b)"
  "service_ok (\<lambda>_. abort_federation_restore)"
  unfolding service_ok_def
  by (simp_all add: request_federation_save_def federate_save_begun_def abort_federation_save_def request_federation_restore_def
      federate_restore_progressed_def abort_federation_restore_def apply_snapshot_def Let_def split_def
      split: option.split sum.split IoError.split)

lemma good_change_save_progressed: "good_change fed (fst (snd (federate_save_progressed cs serde me b dsk fed)))"
  by (simp add: federate_save_progressed_def Let_def split: option.split)

subsection \<open>Switches and time\<close>

lemma good_change_switches: "good_change fed (modify_federate fh (\<lambda>fs. fs\<lparr>switches := g fs\<rparr>) fed)"
  by (rule good_change_modify) simp

lemma service_switch:
  "service_ok (\<lambda>me. set_switch_bool me v setter)"
  "service_ok (\<lambda>me. set_automatic_resign_directive me w)"
  "service_ok (\<lambda>me. local_delete_object_instance me i)"
  unfolding service_ok_def
  by (simp_all add: set_switch_bool_def set_automatic_resign_directive_def local_delete_object_instance_def good_change_switches
      split: option.split)

lemma ident_view_modify_time [simp]: "ident_view (modify_time fh g fed) = ident_view fed"
  unfolding modify_time_def by (rule ident_view_modify) simp

lemma ident_view_grant_all: "ident_view (fst (grant_all gs fed)) = ident_view fed"
proof -
  have "ident_view (fst (fold grant_one gs st)) = ident_view (fst st)" for st
    by (induction gs arbitrary: st) (simp_all add: grant_one_def split_def)
  then show ?thesis by (simp add: grant_all_def)
qed

lemma ident_view_try_grant: "ident_view (fst (try_grant_pending_advances cs fed)) = ident_view fed"
proof (induction cs fed rule: try_grant_pending_advances.induct)
  case (1 conns fed)
  obtain fed1 granted where g: "grant_all (grantable (lbts fed) fed) fed = (fed1, granted)" by force
  have "ident_view fed1 = ident_view fed" using ident_view_grant_all [of "grantable (lbts fed) fed" fed] by (simp add: g)
  with "1.IH" [OF refl refl _ g [symmetric] refl refl] show ?case
    by (subst try_grant_pending_advances.simps) (simp add: Let_def g split_def)
qed

lemma ident_view_drain: "ident_view (fst (drain_tso_up_to cs fh t fed)) = ident_view fed"
  by (simp add: drain_tso_up_to_def Let_def split_def ident_view_modify split: option.split)

lemma ident_view_drain_all: "ident_view (fst (drain_all cs gs fed)) = ident_view fed"
proof -
  have "ident_view (fst (fold (\<lambda>(fh, t) (fed, cbs).
      case drain_tso_up_to cs fh t fed of (fed', cbs') \<Rightarrow> (fed', cbs @ cbs')) gs st)) = ident_view (fst st)" for st
    by (induction gs arbitrary: st) (simp_all add: split_def ident_view_drain)
  then show ?thesis by (simp add: drain_all_def)
qed

lemma ident_view_with_tso: "ident_view (fst (try_grant_pending_advances_with_tso cs fed)) = ident_view fed"
  by (simp add: try_grant_pending_advances_with_tso_def Let_def split_def ident_view_try_grant ident_view_drain_all)

lemmas ident_views = ident_view_try_grant ident_view_with_tso ident_view_drain

lemma service_time:
  "service_ok (\<lambda>me. enable_time_regulation cs me l)"
  "service_ok (disable_time_regulation cs)"
  "service_ok (enable_time_constrained cs)"
  "service_ok disable_time_constrained"
  "service_ok (\<lambda>me. time_advance_request cs me t)"
  "service_ok (\<lambda>me. modify_lookahead me l)"
proof -
  have "ident_view (fst (enable_time_regulation cs me l fed)) = ident_view fed"
    "ident_view (fst (disable_time_regulation cs me fed)) = ident_view fed"
    "ident_view (fst (enable_time_constrained cs me fed)) = ident_view fed"
    "ident_view (fst (disable_time_constrained me fed)) = ident_view fed"
    "ident_view (fst (time_advance_request cs me t fed)) = ident_view fed"
    "ident_view (fst (modify_lookahead me l fed)) = ident_view fed" for me fed
    by (simp_all add: enable_time_regulation_def disable_time_regulation_def enable_time_constrained_def
        disable_time_constrained_def time_advance_request_def modify_lookahead_def Let_def split_def ident_views
        split: option.split sum.split)
  then show "service_ok (\<lambda>me. enable_time_regulation cs me l)" "service_ok (disable_time_regulation cs)"
    "service_ok (enable_time_constrained cs)" "service_ok disable_time_constrained"
    "service_ok (\<lambda>me. time_advance_request cs me t)" "service_ok (\<lambda>me. modify_lookahead me l)"
    by (simp_all add: service_ok_def good_change_def times_ok_services)
qed

lemmas services = service_declaration service_directed service_region service_region_subscription service_register
  service_data_flow service_ownership service_sync service_save service_switch service_time

end
