(* ===== verification/Fom_Merge.thy ===== *)
theory Fom_Merge
  imports Fom
begin

text \<open>
  Correctness of the FOM merge: the handle assignment is a depth-first listing of the class tree. The
  listing is shown to be defined within the fuel, free of repetitions and to put every class after
  its parent; handles are positions in it. From this follow the look-up round trips, the
  injectivity of all handles and the termination of the inheritance walk.
\<close>

subsection \<open>Depth-first listings\<close>

fun preorder :: "nat \<Rightarrow> ('a \<Rightarrow> 'a list) \<Rightarrow> 'a list \<Rightarrow> 'a list option" where
  "preorder n ch [] = Some []"
| "preorder 0 ch (c # cs) = None"
| "preorder (Suc n) ch (c # cs) =
     (case preorder n ch (ch c) of
        None \<Rightarrow> None
      | Some xs \<Rightarrow> map_option (\<lambda>ys. c # xs @ ys) (preorder (Suc n) ch cs))"

text \<open>The k-th ancestor under a parent function.\<close>

fun anc :: "('a \<Rightarrow> 'a option) \<Rightarrow> nat \<Rightarrow> 'a \<Rightarrow> 'a option" where
  "anc par 0 y = Some y"
| "anc par (Suc k) y = Option.bind (anc par k y) par"

definition children_in :: "('a \<Rightarrow> 'a option) \<Rightarrow> 'a list \<Rightarrow> 'a \<Rightarrow> 'a list" where
  "children_in par order p = filter (\<lambda>c. par c = Some p) order"

lemma count_list_filter: "count_list (filter P xs) z = (if P z then count_list xs z else 0)"
  by (induction xs) auto

lemma count_list_distinct: "distinct xs \<Longrightarrow> count_list xs z = (if z \<in> set xs then 1 else 0)"
  by (induction xs) auto

lemma distinct_by_count: "(\<And>y. count_list xs y \<le> 1) \<Longrightarrow> distinct xs"
proof (induction xs)
  case (Cons x xs)
  have "count_list xs y \<le> 1" for y using Cons.prems [of y] by (simp split: if_splits)
  moreover have "count_list xs x = 0" using Cons.prems [of x] by simp
  ultimately show ?case using Cons.IH by (simp add: count_list_0_iff)
qed simp

lemma preorder_count:
  assumes "preorder n (children_in par order) cs = Some xs" and "distinct order"
    and "\<And>z p. par z = Some p \<Longrightarrow> z \<in> set order"
  shows "count_list xs y = (\<Sum>k<n. case anc par k y of None \<Rightarrow> 0 | Some z \<Rightarrow> count_list cs z)"
  using assms(1)
proof (induction n "children_in par order" cs arbitrary: xs rule: preorder.induct)
  case (1 n)
  then show ?case by (simp cong: option.case_cong) (simp split: option.splits)
next
  case (3 n c cs)
  let ?ch = "children_in par order"
  from "3.prems" obtain us vs where us: "preorder n ?ch (?ch c) = Some us"
    and vs: "preorder (Suc n) ?ch cs = Some vs" and xs: "xs = c # us @ vs"
    by (auto split: option.splits)
  have ch: "(case anc par k y of None \<Rightarrow> 0 | Some z \<Rightarrow> count_list (?ch c) z)
      = (if anc par (Suc k) y = Some c then 1 else 0)" for k
    using assms(2,3) by (auto simp: children_in_def count_list_filter count_list_distinct
        split: option.splits bind_splits)
  have "(\<Sum>k<Suc n. if anc par k y = Some c then 1 else (0 :: nat))
      = (if y = c then 1 else 0) + (\<Sum>k<n. if anc par (Suc k) y = Some c then 1 else 0)"
    by (simp add: sum.lessThan_Suc_shift del: sum.lessThan_Suc anc.simps(2))
  moreover have "(case anc par k y of None \<Rightarrow> 0 | Some z \<Rightarrow> count_list (c # cs) z)
      = (if anc par k y = Some c then 1 else 0)
        + (case anc par k y of None \<Rightarrow> 0 | Some z \<Rightarrow> count_list cs z)" for k
    by (auto split: option.splits)
  ultimately show ?case
    using "3.hyps"(1) [OF us] "3.hyps"(2) [OF us vs]
    by (simp add: xs ch sum.distrib del: sum.lessThan_Suc anc.simps(2))
qed simp

lemma preorder_None:
  assumes "preorder n (children_in par order) cs = None"
  shows "\<exists>y. \<exists>c \<in> set cs. anc par n y = Some c"
  using assms
proof (induction n "children_in par order" cs rule: preorder.induct)
  case (2 c cs)
  then show ?case by (intro exI [of _ c]) simp
next
  case (3 n c cs)
  let ?ch = "children_in par order"
  show ?case
  proof (cases "preorder n ?ch (?ch c)")
    case None
    from "3.hyps"(1) [OF None] obtain y z where "anc par n y = Some z" "par z = Some c"
      by (auto simp: children_in_def)
    then have "anc par (Suc n) y = Some c" by simp
    then show ?thesis by (meson list.set_intros(1))
  next
    case (Some us)
    then have "preorder (Suc n) ?ch cs = None" using "3.prems" by simp
    from "3.hyps"(2) [OF Some this] show ?thesis by auto
  qed
qed simp

lemma anc_add: "anc par (i + j) y = Option.bind (anc par i y) (anc par j)"
  by (induction j; cases "anc par i y") simp_all

lemma anc_Some_le: "anc par n y = Some c \<Longrightarrow> k \<le> n \<Longrightarrow> anc par k y \<noteq> None"
  using anc_add [of par k "n - k" y] by (auto split: bind_splits)

text \<open>The ancestors of a class on the way to a root are distinct, so there are at most as many as classes.\<close>

lemma anc_root_depth:
  assumes root: "anc par n y = Some r" "par r = None" "r \<in> set order" and "distinct order"
    and par: "\<And>z p. par z = Some p \<Longrightarrow> z \<in> set order"
  shows "n < length order"
proof -
  let ?f = "\<lambda>k. the (anc par k y)"
  have end_: "anc par (Suc n) y = None" using root by simp
  have "?f i \<noteq> ?f j" if "i < j" "j \<le> n" for i j
  proof
    assume eq: "?f i = ?f j"
    have ij: "i \<le> n" "j \<le> n" using that by simp_all
    obtain a b where "anc par i y = Some a" "anc par j y = Some b"
      using ij anc_Some_le [OF root(1), of i] anc_Some_le [OF root(1), of j] by auto
    then have "anc par i y = anc par j y" using eq by simp
    then have "anc par (i + (Suc n - j)) y = anc par (j + (Suc n - j)) y" by (simp only: anc_add)
    then have "anc par (i + (Suc n - j)) y = None" using that end_ by simp
    moreover have "i + (Suc n - j) \<le> n" using that by simp
    ultimately show False using anc_Some_le [OF root(1)] by blast
  qed
  then have "inj_on ?f {..n}" by (intro inj_onI) (metis atMost_iff linorder_neqE_nat)
  moreover have "?f ` {..n} \<subseteq> set order"
  proof
    fix x assume "x \<in> ?f ` {..n}"
    then obtain k where k: "k \<le> n" "x = ?f k" by auto
    show "x \<in> set order"
    proof (cases "k = n")
      case True
      then show ?thesis using k root by simp
    next
      case False
      then have "anc par (Suc k) y \<noteq> None" using k anc_Some_le [OF root(1), of "Suc k"] by simp
      then have "par x \<noteq> None" using k by (auto split: bind_splits)
      then show ?thesis using par by auto
    qed
  qed
  ultimately have "card {..n} \<le> card (set order)" by (metis card_image card_mono List.finite_set)
  then show ?thesis using assms(4) by (simp add: distinct_card)
qed

lemma preorder_roots:
  assumes "distinct order" and par: "\<And>z p. par z = Some p \<Longrightarrow> z \<in> set order"
    and roots: "\<And>r. r \<in> set rs \<Longrightarrow> par r = None \<and> r \<in> set order" "distinct rs"
  obtains xs where "preorder (length order) (children_in par order) rs = Some xs" "distinct xs"
    "set xs = {y. \<exists>k. \<exists>r \<in> set rs. anc par k y = Some r}"
proof -
  let ?n = "length order"
  have "preorder ?n (children_in par order) rs \<noteq> None"
  proof
    assume "preorder ?n (children_in par order) rs = None"
    from preorder_None [OF this] obtain y r where "r \<in> set rs" "anc par ?n y = Some r" by blast
    then show False using anc_root_depth [of par ?n y r order] roots assms(1) par by simp
  qed
  then obtain xs where xs: "preorder ?n (children_in par order) rs = Some xs" by blast
  let ?t = "\<lambda>y k. case anc par k y of None \<Rightarrow> 0 | Some z \<Rightarrow> count_list rs z"
  have cnt: "count_list xs y = (\<Sum>k<?n. ?t y k)" for y
    by (rule preorder_count [OF xs assms(1) par])
  have zero: "?t y k = 0" if "anc par j y = Some r" "r \<in> set rs" "k \<noteq> j" for y k j r
  proof (cases "k < j")
    case True
    show ?thesis
    proof (cases "anc par k y")
      case (Some z)
      have "anc par (Suc k) y \<noteq> None" using anc_Some_le [OF that(1), of "Suc k"] True by (simp del: anc.simps)
      then have "z \<notin> set rs" using Some roots by auto
      then show ?thesis using Some by (simp add: count_list_0_iff)
    qed simp
  next
    case False
    have "anc par k y = None"
    proof (rule ccontr)
      assume "anc par k y \<noteq> None"
      then have "anc par (Suc j) y \<noteq> None"
        using False that(3) anc_Some_le [of par k y _ "Suc j"] by (auto simp del: anc.simps)
      then show False using that(1) roots(1) [OF that(2)] by simp
    qed
    then show ?thesis by simp
  qed
  have one: "count_list xs y = 1" if "anc par j y = Some r" "r \<in> set rs" for y j r
  proof -
    have "j < ?n" using anc_root_depth [of par j y r order] that roots(1) [OF that(2)] assms(1) par by simp
    then have "count_list xs y = ?t y j + (\<Sum>k \<in> {..<?n} - {j}. ?t y k)"
      unfolding cnt by (intro sum.remove) auto
    also have "(\<Sum>k \<in> {..<?n} - {j}. ?t y k) = 0" using zero [OF that] by (intro sum.neutral) auto
    finally show ?thesis using that roots by (simp add: count_list_distinct)
  qed
  have none: "count_list xs y = 0" if "\<And>j r. r \<in> set rs \<Longrightarrow> anc par j y \<noteq> Some r" for y
    unfolding cnt using that by (intro sum.neutral) (auto simp: count_list_0_iff split: option.splits)
  have "count_list xs y \<le> 1" for y
    using one [of _ y] none [of y] by (cases "\<exists>j. \<exists>r \<in> set rs. anc par j y = Some r") (auto simp del: anc.simps)
  then have "distinct xs" by (rule distinct_by_count)
  moreover have "set xs = {y. \<exists>k. \<exists>r \<in> set rs. anc par k y = Some r}"
  proof (intro set_eqI iffI)
    fix y assume "y \<in> set xs"
    then show "y \<in> {y. \<exists>k. \<exists>r \<in> set rs. anc par k y = Some r}"
      using none [of y] by (auto simp: count_list_0_iff)
  next
    fix y assume "y \<in> {y. \<exists>k. \<exists>r \<in> set rs. anc par k y = Some r}"
    then have "count_list xs y = 1" using one [of _ y] by (auto simp del: anc.simps)
    then show "y \<in> set xs" using count_list_0_iff [of xs y] by auto
  qed
  ultimately show ?thesis using that xs by blast
qed

text \<open>Every class of the listing that is not one of the starting ones comes after its parent.\<close>

lemma preorder_parent_first:
  assumes "preorder n (children_in par order) cs = Some xs" "xs = us @ y # vs"
  shows "y \<in> set cs \<or> (\<exists>p \<in> set us. par y = Some p)"
  using assms
proof (induction n "children_in par order" cs arbitrary: xs us vs rule: preorder.induct)
  case (3 n c cs)
  let ?ch = "children_in par order"
  from "3.prems" obtain as bs where as: "preorder n ?ch (?ch c) = Some as"
    and bs: "preorder (Suc n) ?ch cs = Some bs" and xs: "xs = c # as @ bs"
    by (auto split: option.splits)
  from "3.prems"(2) xs consider "us = []" "y = c"
    | us' ws where "us = c # us'" "as = us' @ y # ws"
    | us' where "us = c # as @ us'" "bs = us' @ y # vs"
  proof (cases us)
    case (Cons u us')
    then have eq: "as @ bs = us' @ y # vs" and u: "us = c # us'" using "3.prems"(2) xs by auto
    from eq consider t where "as = us' @ t" "t @ bs = y # vs" | t where "us' = as @ t" "bs = t @ y # vs"
      by (auto simp: append_eq_append_conv2)
    then show ?thesis
    proof cases
      case 1
      then show ?thesis using u that(2) [of us'] that(3) [of "[]"] by (cases t) auto
    next
      case 2
      then show ?thesis using u that(3) [of t] by simp
    qed
  qed (use "3.prems"(2) xs that(1) in simp)
  then show ?case
  proof cases
    case 2
    from "3.hyps"(1) [OF as 2(2)] show ?thesis using 2(1) by (auto simp: children_in_def)
  next
    case 3
    from "3.hyps"(2) [OF as bs 3(2)] show ?thesis using 3(1) by auto
  qed simp
qed simp_all

subsection \<open>The assignment is a fold over the listing\<close>

lemma assign_forest_preorder:
  assumes "preorder fuel (\<lambda>c. unwrap_or [] (map_of children_of (Some c))) cs = Some xs"
    and "set xs \<subseteq> dom (map_of merged)"
  shows "assign_forest fuel items merged children_of cs st
     = Some (fold (\<lambda>c. enter_class items c (the (map_of merged c))) xs st)"
  using assms
proof (induction fuel "\<lambda>c. unwrap_or [] (map_of children_of (Some c))" cs arbitrary: xs st
    rule: preorder.induct)
  case (3 n c cs)
  let ?ch = "\<lambda>c. unwrap_or [] (map_of children_of (Some c))"
  from "3.prems" obtain us vs where us: "preorder n ?ch (?ch c) = Some us"
    and vs: "preorder (Suc n) ?ch cs = Some vs" and xs: "xs = c # us @ vs"
    by (auto split: option.splits)
  then obtain d where "map_of merged c = Some d" using "3.prems"(2) by auto
  then show ?case using "3.hyps"(1) [OF us] "3.hyps"(2) [OF us vs] "3.prems"(2) by (simp add: xs)
qed simp_all

text \<open>The handle of the class at position \<open>k\<close> of the listing.\<close>

definition nth_handle :: "nat \<Rightarrow> u32" where "nth_handle k = of_nat (Suc k)"

lemma unat_nth_handle: "Suc k < 2 ^ 32 \<Longrightarrow> unat (nth_handle k) = Suc k"
  unfolding nth_handle_def by (rule of_nat_inverse) simp_all

lemma nth_handle_inject: "Suc i < 2 ^ 32 \<Longrightarrow> Suc j < 2 ^ 32 \<Longrightarrow> nth_handle i = nth_handle j \<longleftrightarrow> i = j"
  using unat_nth_handle by (metis Suc_inject)

lemma nth_handle_Suc: "nth_handle (Suc k) = nth_handle k + 1" and nth_handle_0: "nth_handle 0 = 1"
  by (simp_all add: nth_handle_def)

definition item_inv :: "nat \<Rightarrow> 'd handle_state \<Rightarrow> bool" where
  "item_inv t st \<longleftrightarrow> next_item st = nth_handle t \<and>
     (\<forall>key v. map_of (item_table st) key = Some v \<longrightarrow> (\<exists>i<t. v = nth_handle i)) \<and>
     inj_on (map_of (item_table st)) (dom (map_of (item_table st)))"

lemma enter_item_simps [simp]:
  "next_class (enter_item h a st) = next_class st" "class_defs (enter_item h a st) = class_defs st"
  "class_table (enter_item h a st) = class_table st"
  "next_item (enter_item h a st) = next_item st + 1"
  "item_table (enter_item h a st) = hinsert (h, a) (next_item st) (item_table st)"
  by (simp_all add: enter_item_def)

lemma enter_item_inv:
  assumes "item_inv t st" "Suc (Suc t) < 2 ^ 32"
  shows "item_inv (Suc t) (enter_item h a st)"
proof -
  let ?m = "map_of (item_table st)"
  have nx: "next_item st = nth_handle t" and vals: "\<And>key v. ?m key = Some v \<Longrightarrow> \<exists>i<t. v = nth_handle i"
    and inj: "inj_on ?m (dom ?m)" using assms(1) by (auto simp: item_inv_def)
  have fresh: "?m key \<noteq> Some (nth_handle t)" for key
  proof
    assume "?m key = Some (nth_handle t)"
    from vals [OF this] obtain i where "i < t" "nth_handle t = nth_handle i" by blast
    then show False using nth_handle_inject [of t i] assms(2) by simp
  qed
  have "inj_on (?m((h, a) \<mapsto> nth_handle t)) (insert (h, a) (dom ?m))"
    using inj fresh by (auto simp: inj_on_def)
  moreover have "\<exists>i<Suc t. v = nth_handle i" if "(?m((h, a) \<mapsto> nth_handle t)) key = Some v" for key v
    using that vals [of key v] by (auto split: if_splits simp: less_Suc_eq)
  ultimately show ?thesis by (auto simp: item_inv_def nx nth_handle_Suc simp del: fun_upd_apply)
qed

lemma fold_enter_item:
  fixes h :: u32
  assumes "item_inv t st" "Suc (t + length as) < 2 ^ 32"
  defines "st' \<equiv> fold (enter_item h) as st"
  shows "item_inv (t + length as) st'
    \<and> dom (map_of (item_table st')) = dom (map_of (item_table st)) \<union> Pair h ` set as
    \<and> next_class st' = next_class st \<and> class_defs st' = class_defs st \<and> class_table st' = class_table st"
  using assms(1,2) unfolding st'_def
proof (induction as arbitrary: t st)
  case (Cons a as)
  have "item_inv (Suc t) (enter_item h a st)" using enter_item_inv [OF Cons.prems(1)] Cons.prems(2) by simp
  from Cons.IH [OF this] Cons.prems show ?case by auto
qed simp_all

text \<open>
  \<open>numbered items d xs st\<close>: the state after the classes \<open>xs\<close>, with definitions \<open>d\<close>, have been entered.
\<close>

definition item_count :: "('d \<Rightarrow> string list) \<Rightarrow> (string \<Rightarrow> 'd) \<Rightarrow> string list \<Rightarrow> nat" where
  "item_count items d xs = (\<Sum>c\<leftarrow>xs. length (items (d c)))"

definition numbered ::
  "('d \<Rightarrow> string list) \<Rightarrow> (string \<Rightarrow> 'd) \<Rightarrow> string list \<Rightarrow> 'd handle_state \<Rightarrow> bool" where
  "numbered items d xs st \<longleftrightarrow>
     next_class st = nth_handle (length xs) \<and>
     (\<forall>n h. map_of (class_table st) n = Some h \<longleftrightarrow> (\<exists>k<length xs. xs ! k = n \<and> h = nth_handle k)) \<and>
     (\<forall>h x. map_of (class_defs st) h = Some x \<longleftrightarrow> (\<exists>k<length xs. h = nth_handle k \<and> x = d (xs ! k))) \<and>
     length (class_defs st) = length xs \<and> wf_hmap (class_defs st) \<and>
     item_inv (item_count items d xs) st \<and>
     dom (map_of (item_table st)) = {(nth_handle k, a) | k a. k < length xs \<and> a \<in> set (items (d (xs ! k)))}"

lemma numbered_initial: "numbered items d [] initial_handles"
  by (simp add: numbered_def initial_handles_def nth_handle_0 item_inv_def item_count_def)

lemma enter_class_numbered:
  assumes n: "numbered items d xs st" and "c \<notin> set xs" and lim: "Suc (Suc (length xs)) < 2 ^ 32"
    and ilim: "Suc (item_count items d (xs @ [c])) < 2 ^ 32"
  shows "numbered items d (xs @ [c]) (enter_class items c (d c) st)"
proof -
  let ?h = "nth_handle (length xs)" and ?t = "item_count items d xs"
  have nc: "next_class st = ?h" and inv: "item_inv ?t st"
    and len: "length (class_defs st) = length xs" "wf_hmap (class_defs st)"
    and tab0: "map_of (class_table st) m = Some h \<longleftrightarrow> (\<exists>k<length xs. xs ! k = m \<and> h = nth_handle k)"
    and defs0: "map_of (class_defs st) h = Some x \<longleftrightarrow> (\<exists>k<length xs. h = nth_handle k \<and> x = d (xs ! k))"
    and dom0: "dom (map_of (item_table st))
      = {(nth_handle k, a) | k a. k < length xs \<and> a \<in> set (items (d (xs ! k)))}" for m h x
    using n unfolding numbered_def by simp_all
  have fresh: "?h \<noteq> nth_handle k" if "k < length xs" for k
    using that lim nth_handle_inject [of "length xs" k] by simp
  define st1 where "st1 = st\<lparr>next_class := next_class st + 1\<rparr>"
  define st2 where "st2 = fold (enter_item ?h) (items (d c)) st1"
  have inv1: "item_inv ?t st1" using inv by (simp add: item_inv_def st1_def)
  have cnt: "item_count items d (xs @ [c]) = ?t + length (items (d c))" by (simp add: item_count_def)
  note f = fold_enter_item [OF inv1, of "items (d c)" ?h, folded st2_def]
  have f: "item_inv (item_count items d (xs @ [c])) st2"
    "dom (map_of (item_table st2)) = dom (map_of (item_table st)) \<union> Pair ?h ` set (items (d c))"
    "next_class st2 = ?h + 1" "class_defs st2 = class_defs st" "class_table st2 = class_table st"
    using f ilim cnt nc by (simp_all add: st1_def)
  have e: "enter_class items c (d c) st = st2\<lparr>class_table := hinsert c ?h (class_table st2),
      class_defs := hinsert ?h (d c) (class_defs st2)\<rparr>"
    by (simp add: enter_class_def st1_def st2_def nc Let_def)
  have new: "?h \<notin> set (hkeys (class_defs st))" 
  proof
    assume "?h \<in> set (hkeys (class_defs st))"
    then have "map_of (class_defs st) ?h \<noteq> None" by (simp add: map_of_eq_None_iff)
    then obtain x where "map_of (class_defs st) ?h = Some x" by blast
    then obtain k where "k < length xs" "?h = nth_handle k" using defs0 by auto
    then show False using fresh by simp
  qed
  have ex_Suc: "(\<exists>k<Suc m. P k) \<longleftrightarrow> (\<exists>k<m. P k) \<or> P m" for P m by (auto simp: less_Suc_eq)
  have tab: "((map_of (class_table st))(c \<mapsto> ?h)) m = Some h
      \<longleftrightarrow> (\<exists>k<Suc (length xs). (xs @ [c]) ! k = m \<and> h = nth_handle k)" for m h
    using tab0 [of m h] assms(2) by (auto simp: ex_Suc nth_append)
  have defs: "((map_of (class_defs st))(?h \<mapsto> d c)) h = Some x
      \<longleftrightarrow> (\<exists>k<Suc (length xs). h = nth_handle k \<and> x = d ((xs @ [c]) ! k))" for h x
    using defs0 [of h x] fresh by (auto simp: ex_Suc nth_append)
  have dm: "dom (map_of (item_table st)) \<union> Pair ?h ` set (items (d c))
      = {(nth_handle k, a) | k a. k < Suc (length xs) \<and> a \<in> set (items (d ((xs @ [c]) ! k)))}"
    unfolding dom0 by (auto simp: less_Suc_eq nth_append)
  show ?thesis unfolding numbered_def e using f tab defs dm new len
    by (simp add: nth_handle_Suc item_inv_def length_hinsert wf_intros del: fun_upd_apply)
qed

lemma fold_numbered:
  assumes "distinct xs" "Suc (length xs) < 2 ^ 32" "Suc (item_count items d xs) < 2 ^ 32"
  shows "numbered items d xs (fold (\<lambda>c. enter_class items c (d c)) xs initial_handles)"
  using assms
proof (induction xs rule: rev_induct)
  case Nil
  then show ?case by (simp add: numbered_initial)
next
  case (snoc c xs)
  have "item_count items d xs \<le> item_count items d (xs @ [c])" by (simp add: item_count_def)
  then have "numbered items d xs (fold (\<lambda>c. enter_class items c (d c)) xs initial_handles)"
    using snoc by simp
  from enter_class_numbered [OF this, of c] snoc.prems show ?case by simp
qed

subsection \<open>Merged classes\<close>

text \<open>
  What the merge of the class definitions keeps: the insertion order lists the merged classes without
  repetition, and their number plus the number of their items is at most what the modules define.
\<close>

definition merge_inv ::
  "('d \<Rightarrow> string) \<Rightarrow> ('d \<Rightarrow> string list) \<Rightarrow> nat \<Rightarrow> (string, 'd) hmap \<times> string list \<Rightarrow> bool" where
  "merge_inv name items n st \<longleftrightarrow>
     distinct (snd st) \<and> set (snd st) = dom (map_of (fst st)) \<and>
     (\<forall>k d. map_of (fst st) k = Some d \<longrightarrow> name d = k) \<and>
     length (snd st) + item_count items (\<lambda>c. the (map_of (fst st) c)) (snd st) \<le> n"

lemma item_count_update:
  assumes "distinct xs" "\<And>x. x \<in> set xs \<Longrightarrow> x \<noteq> c \<Longrightarrow> d' x = d x"
    "length (items (d' c)) \<le> length (items (d c)) + k"
  shows "item_count items d' xs \<le> item_count items d xs + k"
  using assms
proof (induction xs)
  case (Cons x xs)
  show ?case
  proof (cases "x = c")
    case True
    then have "item_count items d' xs = item_count items d xs"
      unfolding item_count_def using Cons.prems(1,2) by (metis (mono_tags, lifting) distinct.simps(2) list.set_intros(2) map_eq_conv)
    then show ?thesis using True Cons.prems(3) by (simp add: item_count_def)
  next
    case False
    then show ?thesis using Cons by (simp add: item_count_def)
  qed
qed (simp add: item_count_def)

lemma merge_new:
  assumes "merge_inv name items n (merged, order)" "map_of merged (name cls) = None"
  shows "merge_inv name items (n + 1 + length (items cls))
     (hinsert (name cls) cls merged, order @ [name cls])"
proof -
  have "map (\<lambda>c. length (items (the (((map_of merged)(name cls \<mapsto> cls)) c)))) order
      = map (\<lambda>c. length (items (the (map_of merged c)))) order"
    using assms by (auto simp: merge_inv_def)
  then show ?thesis using assms
    by (auto simp: merge_inv_def item_count_def simp del: map_eq_conv)
qed

lemma merge_existing:
  assumes "merge_inv name items n (merged, order)" "map_of merged (name cls) = Some e"
    "name e' = name cls" "length (items e') \<le> length (items e) + length (items cls)"
  shows "merge_inv name items (n + 1 + length (items cls)) (hinsert (name cls) e' merged, order)"
proof -
  have "item_count items (\<lambda>c. the (((map_of merged)(name cls \<mapsto> e')) c)) order
      \<le> item_count items (\<lambda>c. the (map_of merged c)) order + length (items cls)"
    using assms by (intro item_count_update [where c = "name cls"]) (auto simp: merge_inv_def)
  then show ?thesis using assms by (auto simp: merge_inv_def)
qed

lemma try_fold_length:
  assumes "try_fold f as t = Inr t'" "\<And>a t t'. f a t = Inr t' \<Longrightarrow> length t' \<le> Suc (length t)"
  shows "length t' \<le> length t + length as"
  using assms(1)
proof (induction as arbitrary: t)
  case (Cons a as)
  then obtain t1 where "f a t = Inr t1" "try_fold f as t1 = Inr t'" by (auto split: sum.splits)
  then show ?case using Cons.IH [of t1] assms(2) [of a t t1] by simp
qed simp

lemma try_fold_merge_length:
  "try_fold (merge_attribute cn) as t = Inr t' \<Longrightarrow> length t' \<le> length t + length as"
  by (rule try_fold_length) (auto simp: merge_attribute_def split: option.splits if_splits)

lemma try_fold_merge_param_length:
  "try_fold (merge_parameter cn) as t = Inr t' \<Longrightarrow> length t' \<le> length t + length as"
  by (rule try_fold_length) (auto simp: merge_parameter_def split: option.splits if_splits)

lemma merge_object_class_inv:
  assumes "merge_inv oc_name object_items n st" "merge_object_class cls st = Inr st'"
  shows "merge_inv oc_name object_items (n + 1 + length (object_items cls)) st'"
proof -
  obtain merged order where st: "st = (merged, order)" by force
  show ?thesis
  proof (cases "map_of merged (oc_name cls)")
    case None
    then show ?thesis using assms merge_new [of oc_name object_items n merged order cls]
      by (auto simp: st merge_object_class_def)
  next
    case (Some e)
    then obtain attrs where tf: "try_fold (merge_attribute (oc_name cls)) (oc_attributes cls) (oc_attributes e) = Inr attrs"
      and st': "st' = (hinsert (oc_name cls) (e\<lparr>oc_attributes := attrs,
          oc_semantics := (if oc_semantics e = None then oc_semantics cls else oc_semantics e)\<rparr>) merged, order)"
      using assms(2) by (cases "try_fold (merge_attribute (oc_name cls)) (oc_attributes cls) (oc_attributes e)")
        (simp_all add: st merge_object_class_def split: if_split_asm)
    have "oc_name e = oc_name cls" using assms(1) Some by (simp add: st merge_inv_def)
    then show ?thesis unfolding st' using assms(1) Some try_fold_merge_length [OF tf]
      by (intro merge_existing [where e = e]) (simp_all add: st object_items_def)
  qed
qed

lemma merge_interaction_class_inv:
  assumes "merge_inv ic_name interaction_items n st" "merge_interaction_class ic st = Inr st'"
  shows "merge_inv ic_name interaction_items (n + 1 + length (interaction_items ic)) st'"
proof -
  obtain merged order where st: "st = (merged, order)" by force
  show ?thesis
  proof (cases "map_of merged (ic_name ic)")
    case None
    then show ?thesis using assms merge_new [of ic_name interaction_items n merged order ic]
      by (auto simp: st merge_interaction_class_def)
  next
    case (Some e)
    then obtain ps where tf: "try_fold (merge_parameter (ic_name ic)) (ic_parameters ic) (ic_parameters e) = Inr ps"
      and st': "st' = (hinsert (ic_name ic) (e\<lparr>ic_parameters := ps,
          ic_semantics := (if ic_semantics e = None then ic_semantics ic else ic_semantics e)\<rparr>) merged, order)"
      using assms(2) by (cases "try_fold (merge_parameter (ic_name ic)) (ic_parameters ic) (ic_parameters e)")
        (simp_all add: st merge_interaction_class_def split: if_split_asm)
    have "ic_name e = ic_name ic" using assms(1) Some by (simp add: st merge_inv_def)
    then show ?thesis unfolding st' using assms(1) Some try_fold_merge_param_length [OF tf]
      by (intro merge_existing [where e = e]) (simp_all add: st interaction_items_def)
  qed
qed

lemma try_fold_weight:
  assumes "try_fold f xs s = Inr s'" "P n s"
    "\<And>x n s s'. P n s \<Longrightarrow> f x s = Inr s' \<Longrightarrow> P (n + w x) s'"
  shows "P (n + (\<Sum>x\<leftarrow>xs. w x)) s'"
  using assms(1,2)
proof (induction xs arbitrary: n s)
  case (Cons x xs)
  then obtain s1 where "f x s = Inr s1" "try_fold f xs s1 = Inr s'" by (auto split: sum.splits)
  then show ?case using Cons.IH [of s1 "n + w x"] assms(3) [OF Cons.prems(2)] by (simp add: add.assoc)
qed simp

subsection \<open>The class tree\<close>

lemma children_map_filter:
  "unwrap_or [] (map_of (children_map parent merged order) p)
   = filter (\<lambda>c. Option.bind (map_of merged c) parent = p) order"
proof -
  let ?step = "\<lambda>c m. hentry (Option.bind (map_of merged c) parent) [] (\<lambda>l. l @ [c]) m"
  have "unwrap_or [] (map_of (fold ?step order m) p)
      = unwrap_or [] (map_of m p) @ filter (\<lambda>c. Option.bind (map_of merged c) parent = p) order" for m
    by (induction order arbitrary: m) (auto simp: hentry_def unwrap_or_def split: option.splits)
  from this [of "[]"] show ?thesis by (simp add: children_map_def unwrap_or_def)
qed

text \<open>
  What the clients of a FOM rely on, for one kind of class: names and handles are in bijection,
  every class's parent is defined and has a smaller handle, and item handles are unique to their
  class and name and exist for exactly the items of the class.
\<close>

definition wf_classes :: "('d \<Rightarrow> string) \<Rightarrow> ('d \<Rightarrow> string option) \<Rightarrow> ('d \<Rightarrow> string list) \<Rightarrow>
    (u32, 'd) hmap \<Rightarrow> (string, u32) hmap \<Rightarrow> (u32 \<times> string, u32) hmap \<Rightarrow> bool" where
  "wf_classes name parent items defs tab itab \<longleftrightarrow>
     wf_hmap defs \<and>
     (\<forall>n h. map_of tab n = Some h \<longleftrightarrow> (\<exists>d. map_of defs h = Some d \<and> name d = n)) \<and>
     (\<forall>h d p. map_of defs h = Some d \<and> parent d = Some p \<longrightarrow> (\<exists>h'. map_of tab p = Some h' \<and> h' < h)) \<and>
     (\<forall>c a c' a' h. map_of itab (c, a) = Some h \<and> map_of itab (c', a') = Some h \<longrightarrow> c = c' \<and> a = a') \<and>
     (\<forall>c a. map_of itab (c, a) \<noteq> None \<longleftrightarrow> (\<exists>d. map_of defs c = Some d \<and> a \<in> set (items d)))"

lemma numbered_wf:
  assumes n: "numbered items d xs st" and "distinct xs" and lim: "Suc (length xs) < 2 ^ 32"
    and names: "\<And>c. c \<in> set xs \<Longrightarrow> name (d c) = c"
    and par: "\<And>us y vs p. xs = us @ y # vs \<Longrightarrow> parent (d y) = Some p \<Longrightarrow> p \<in> set us"
  shows "wf_classes name parent items (class_defs st) (class_table st) (item_table st)"
proof -
  let ?n = "length xs"
  have wf: "wf_hmap (class_defs st)" and inv: "item_inv (item_count items d xs) st"
    and tab: "map_of (class_table st) m = Some h \<longleftrightarrow> (\<exists>k<?n. xs ! k = m \<and> h = nth_handle k)"
    and defs: "map_of (class_defs st) h = Some x \<longleftrightarrow> (\<exists>k<?n. h = nth_handle k \<and> x = d (xs ! k))"
    and dom: "dom (map_of (item_table st)) = {(nth_handle k, a) | k a. k < ?n \<and> a \<in> set (items (d (xs ! k)))}"
    for m h x using n unfolding numbered_def by simp_all
  have "map_of (class_table st) m = Some h \<longleftrightarrow> (\<exists>x. map_of (class_defs st) h = Some x \<and> name x = m)" for m h
    unfolding tab defs using names by (metis nth_mem)
  moreover have "\<exists>h'. map_of (class_table st) p = Some h' \<and> h' < h"
    if d: "map_of (class_defs st) h = Some x" "parent x = Some p" for h x p
  proof -
    from d(1) defs obtain k where k: "k < ?n" "h = nth_handle k" "x = d (xs ! k)" by auto
    have "p \<in> set (take k xs)"
      using par [of "take k xs" "xs ! k" "drop (Suc k) xs" p] k d(2) by (simp add: id_take_nth_drop)
    then obtain j where j: "j < k" "xs ! j = p" using k(1) by (auto simp: in_set_conv_nth)
    then have "nth_handle j < h" using k lim by (simp add: word_less_nat_alt unat_nth_handle)
    moreover have "map_of (class_table st) p = Some (nth_handle j)"
      unfolding tab using j k by (intro exI [of _ j]) simp
    ultimately show ?thesis by blast
  qed
  moreover have "c = c' \<and> a = a'"
    if "map_of (item_table st) (c, a) = Some h" "map_of (item_table st) (c', a') = Some h" for c a c' a' h
  proof -
    have "inj_on (map_of (item_table st)) (dom (map_of (item_table st)))" using inv by (simp add: item_inv_def)
    then have "(c, a) = (c', a')" using that by (elim inj_onD) auto
    then show ?thesis by simp
  qed
  moreover have "map_of (item_table st) (c, a) \<noteq> None
      \<longleftrightarrow> (\<exists>x. map_of (class_defs st) c = Some x \<and> a \<in> set (items x))" for c a
  proof -
    have "map_of (item_table st) (c, a) \<noteq> None \<longleftrightarrow> (c, a) \<in> dom (map_of (item_table st))" by (simp add: domIff)
    also have "\<dots> \<longleftrightarrow> (\<exists>k<?n. c = nth_handle k \<and> a \<in> set (items (d (xs ! k))))" unfolding dom by auto
    also have "\<dots> \<longleftrightarrow> (\<exists>x. map_of (class_defs st) c = Some x \<and> a \<in> set (items x))" using defs by auto
    finally show ?thesis .
  qed
  ultimately show ?thesis using wf unfolding wf_classes_def by blast
qed

lemma item_count_subset:
  assumes "distinct xs" "distinct ys" "set xs \<subseteq> set ys"
  shows "item_count items d xs \<le> item_count items d ys"
  using assms by (simp add: item_count_def sum_list_distinct_conv_sum_set sum_mono2)

lemma assign_result:
  fixes parent :: "'d \<Rightarrow> string option"
  assumes inv: "merge_inv name items n (merged, order)" and lim: "Suc n < 2 ^ 32"
  defines "ch \<equiv> children_map parent merged order" and "par \<equiv> \<lambda>c. Option.bind (map_of merged c) parent"
  obtains xs st where
    "assign_forest (length order) items merged (hremove None ch) (unwrap_or [] (map_of ch None))
       initial_handles = Some st"
    "numbered items (\<lambda>c. the (map_of merged c)) xs st" "distinct xs"
    "wf_classes name parent items (class_defs st) (class_table st) (item_table st)"
    "set xs = {y. \<exists>k r. anc par k y = Some r \<and> r \<in> set order \<and> par r = None}"
    "set xs \<subseteq> set order"
proof -
  let ?d = "\<lambda>c. the (map_of merged c)"
  let ?roots = "filter (\<lambda>c. par c = None) order"
  have dist: "distinct order" and dom: "set order = dom (map_of merged)"
    and names: "map_of merged k = Some d \<Longrightarrow> name d = k"
    and size: "length order + item_count items ?d order \<le> n" for k d
    using inv by (simp_all add: merge_inv_def)
  have par_in: "z \<in> set order" if "par z = Some p" for z p
    using that unfolding par_def dom by (cases "map_of merged z") auto
  have roots: "unwrap_or [] (map_of ch None) = ?roots"
    unfolding ch_def par_def by (rule children_map_filter)
  have kids: "(\<lambda>c. unwrap_or [] (map_of (hremove None ch) (Some c))) = children_in par order"
    by (rule ext) (simp add: ch_def par_def children_in_def children_map_filter hmap_simps)
  obtain xs where xs: "preorder (length order) (children_in par order) ?roots = Some xs" "distinct xs"
    "set xs = {y. \<exists>k. \<exists>r \<in> set ?roots. anc par k y = Some r}"
    by (rule preorder_roots [of order par ?roots]) (use dist par_in in auto)
  have sub: "set xs \<subseteq> set order"
  proof
    fix y assume "y \<in> set xs"
    then obtain k r where kr: "anc par k y = Some r" "r \<in> set order" unfolding xs(3) by auto
    show "y \<in> set order"
    proof (cases k)
      case 0
      then show ?thesis using kr by simp
    next
      case (Suc j)
      then have "par y \<noteq> None" using anc_Some_le [OF kr(1), of 1] by auto
      then show ?thesis using par_in by auto
    qed
  qed
  let ?st = "fold (\<lambda>c. enter_class items c (?d c)) xs initial_handles"
  have "assign_forest (length order) items merged (hremove None ch) ?roots initial_handles = Some ?st"
  proof (rule assign_forest_preorder)
    show "preorder (length order) (\<lambda>c. unwrap_or [] (map_of (hremove None ch) (Some c))) ?roots = Some xs"
      unfolding kids by (rule xs(1))
  qed (use sub dom in simp)
  moreover have "length xs \<le> length order" using xs(2) sub dist by (metis List.finite_set card_mono distinct_card)
  moreover have "item_count items ?d xs \<le> item_count items ?d order" by (rule item_count_subset [OF xs(2) dist sub])
  ultimately have num: "numbered items ?d xs ?st" and len: "Suc (length xs) < 2 ^ 32"
    using size lim by (auto intro!: fold_numbered [OF xs(2)])
  have "wf_classes name parent items (class_defs ?st) (class_table ?st) (item_table ?st)"
  proof (rule numbered_wf [OF num xs(2) len])
    show "name (?d c) = c" if "c \<in> set xs" for c using that sub dom names by fastforce
    show "p \<in> set us" if split: "xs = us @ y # vs" and p: "parent (?d y) = Some p" for us y vs p
    proof -
      have "y \<in> dom (map_of merged)" using split sub dom by auto
      then have "par y = Some p" using p by (auto simp: par_def)
      then show ?thesis using preorder_parent_first [OF xs(1) split] by auto
    qed
  qed
  then show ?thesis using that [of ?st xs] roots num xs sub
      \<open>assign_forest (length order) items merged (hremove None ch) ?roots initial_handles = Some ?st\<close>
    by auto
qed

subsection \<open>Merged FOMs\<close>

definition wf_fom :: "MergedFom \<Rightarrow> bool" where
  "wf_fom fom \<longleftrightarrow>
     wf_classes oc_name oc_parent object_items (object_classes fom) (object_class_table fom)
       (attribute_table fom) \<and>
     wf_classes ic_name ic_parent interaction_items (interaction_classes fom)
       (interaction_class_table fom) (parameter_table fom)"

lemma wf_empty_fom: "wf_fom empty_fom"
  by (simp add: wf_fom_def wf_classes_def empty_fom_def)

text \<open>The number of class, attribute and parameter definitions in a list of modules.\<close>

definition fom_size :: "FomModule list \<Rightarrow> nat" where
  "fom_size mods = (\<Sum>m\<leftarrow>mods. (\<Sum>c\<leftarrow>fm_object_classes m. 1 + length (oc_attributes c))
                             + (\<Sum>c\<leftarrow>fm_interaction_classes m. 1 + length (ic_parameters c)))"

lemma length_items: "length (object_items c) = length (oc_attributes c)"
  "length (interaction_items i) = length (ic_parameters i)"
  by (simp_all add: object_items_def interaction_items_def)

lemma try_fold_objects:
  assumes "merge_inv oc_name object_items n st" "try_fold merge_object_class cs st = Inr st'"
  shows "merge_inv oc_name object_items (n + (\<Sum>c\<leftarrow>cs. 1 + length (oc_attributes c))) st'"
  unfolding length_items(1) [symmetric]
  by (rule try_fold_weight [where P = "merge_inv oc_name object_items", OF assms(2,1)])
    (metis merge_object_class_inv add.assoc)

lemma try_fold_interactions:
  assumes "merge_inv ic_name interaction_items n st" "try_fold merge_interaction_class cs st = Inr st'"
  shows "merge_inv ic_name interaction_items (n + (\<Sum>c\<leftarrow>cs. 1 + length (ic_parameters c))) st'"
  unfolding length_items(2) [symmetric]
  by (rule try_fold_weight [where P = "merge_inv ic_name interaction_items", OF assms(2,1)])
    (metis merge_interaction_class_inv add.assoc)

lemma merge_inv_mono: "merge_inv name items n st \<Longrightarrow> n \<le> m \<Longrightarrow> merge_inv name items m st"
  by (auto simp: merge_inv_def)

definition merge_step where
  "merge_step m st = (case st of (os, ics) \<Rightarrow>
     case try_fold merge_object_class (fm_object_classes m) os of Inl e \<Rightarrow> Inl e
     | Inr os' \<Rightarrow>
       (case try_fold merge_interaction_class (fm_interaction_classes m) ics of Inl e \<Rightarrow> Inl e
        | Inr ics' \<Rightarrow> Inr (os', ics')))"

lemma merge_modules_step:
  "merge_modules mods =
     (case try_fold merge_step mods (([], []), ([], [])) of
        Inl e \<Rightarrow> Inl e
      | Inr ((mo, oorder), (mi, iorder)) \<Rightarrow>
        let ochildren = children_map oc_parent mo oorder;
            oroots = unwrap_or [] (map_of ochildren None);
            ichildren = children_map ic_parent mi iorder;
            iroots = unwrap_or [] (map_of ichildren None)
        in Inr (case assign_object_class_handles (length oorder) mo (hremove None ochildren) oroots
                       initial_handles of
                  None \<Rightarrow> None
                | Some ost \<Rightarrow>
                  (case assign_interaction_class_handles (length iorder) mi (hremove None ichildren)
                          iroots initial_handles of
                     None \<Rightarrow> None
                   | Some ist \<Rightarrow>
                       Some \<lparr>modules = mods, object_classes = class_defs ost,
                             interaction_classes = class_defs ist,
                             object_class_table = class_table ost, attribute_table = item_table ost,
                             interaction_class_table = class_table ist,
                             parameter_table = item_table ist, dimension_table = []\<rparr>)))"
  unfolding merge_modules_def Let_def merge_step_def [abs_def] by (simp only: case_prod_eta)

lemma merge_steps_inv:
  assumes "try_fold merge_step mods (([], []), ([], [])) = Inr (os, ics)"
  shows "merge_inv oc_name object_items (fom_size mods) os \<and> merge_inv ic_name interaction_items (fom_size mods) ics"
proof -
  let ?P = "\<lambda>n (os, ics). merge_inv oc_name object_items n os \<and> merge_inv ic_name interaction_items n ics"
  let ?w = "\<lambda>m. (\<Sum>c\<leftarrow>fm_object_classes m. 1 + length (oc_attributes c))
                + (\<Sum>c\<leftarrow>fm_interaction_classes m. 1 + length (ic_parameters c))"
  have "?P (0 + (\<Sum>m\<leftarrow>mods. ?w m)) (os, ics)"
  proof (rule try_fold_weight [OF assms])
    show "?P 0 (([], []), ([], []))" by (simp add: merge_inv_def item_count_def)
  next
    fix m n st st' assume P: "?P n st" and step: "merge_step m st = Inr st'"
    obtain os ics where st: "st = (os, ics)" by (rule prod.exhaust)
    from step obtain os' ics' where st': "st' = (os', ics')"
      and o: "try_fold merge_object_class (fm_object_classes m) os = Inr os'"
      and i: "try_fold merge_interaction_class (fm_interaction_classes m) ics = Inr ics'"
      by (auto simp: merge_step_def st split: sum.splits)
    have "merge_inv oc_name object_items (n + ?w m) os'"
      by (rule merge_inv_mono, rule try_fold_objects [OF _ o]) (use P st in auto)
    moreover have "merge_inv ic_name interaction_items (n + ?w m) ics'"
      by (rule merge_inv_mono, rule try_fold_interactions [OF _ i]) (use P st in auto)
    ultimately show "?P (n + ?w m) st'" by (simp add: st')
  qed
  then show ?thesis by (simp add: fom_size_def)
qed

lemma merge_modules_wf:
  assumes "merge_modules mods = Inr r" and "Suc (fom_size mods) < 2 ^ 32"
  shows "\<exists>fom. r = Some fom \<and> wf_fom fom \<and> modules fom = mods"
proof -
  from assms(1) obtain mo oorder mi iorder
    where st: "try_fold merge_step mods (([], []), ([], [])) = Inr ((mo, oorder), (mi, iorder))"
    by (auto simp: merge_modules_step split: sum.splits)
  note inv = merge_steps_inv [OF st]
  obtain ost where "assign_forest (length oorder) object_items mo
      (hremove None (children_map oc_parent mo oorder))
      (unwrap_or [] (map_of (children_map oc_parent mo oorder) None)) initial_handles = Some ost"
    "wf_classes oc_name oc_parent object_items (class_defs ost) (class_table ost) (item_table ost)"
    using inv assms(2) by (elim conjE assign_result [of oc_name object_items _ mo oorder oc_parent]) auto
  moreover obtain ist where "assign_forest (length iorder) interaction_items mi
      (hremove None (children_map ic_parent mi iorder))
      (unwrap_or [] (map_of (children_map ic_parent mi iorder) None)) initial_handles = Some ist"
    "wf_classes ic_name ic_parent interaction_items (class_defs ist) (class_table ist) (item_table ist)"
    using inv assms(2) by (elim conjE assign_result [of ic_name interaction_items _ mi iorder ic_parent]) auto
  ultimately show ?thesis using assms(1)
    by (auto simp: merge_modules_step st assign_object_class_handles_def
        assign_interaction_class_handles_def wf_fom_def Let_def)
qed

end
