(* ===== verification/Fom_Props.thy ===== *)
theory Fom_Props
  imports Fom_Merge
begin

text \<open>
  What the services rely on of a merged FOM: look-ups by name and by handle are inverse, the
  inheritance walk reaches the root, and a FOM built from parsed documents contains every class that
  the documents define.
\<close>

subsection \<open>Look-ups\<close>

lemma wf_classes_table:
  assumes "wf_classes name parent items defs tab itab"
  shows "map_of tab n = Some h \<longleftrightarrow> (\<exists>d. map_of defs h = Some d \<and> name d = n)"
proof -
  from assms have "\<forall>n h. map_of tab n = Some h \<longleftrightarrow> (\<exists>d. map_of defs h = Some d \<and> name d = n)"
    unfolding wf_classes_def by (elim conjE)
  then show ?thesis by blast
qed

lemma wf_classes_parent:
  assumes "wf_classes name parent items defs tab itab" "map_of defs h = Some d" "parent d = Some p"
  shows "\<exists>h'. map_of tab p = Some h' \<and> h' < h"
proof -
  from assms(1) have "\<forall>h d p. map_of defs h = Some d \<and> parent d = Some p \<longrightarrow>
      (\<exists>h'. map_of tab p = Some h' \<and> h' < h)" unfolding wf_classes_def by (elim conjE)
  then show ?thesis using assms(2,3) by blast
qed

lemma wf_classes_item_inject:
  assumes "wf_classes name parent items defs tab itab" "map_of itab (c, a) = Some h"
    "map_of itab (c', a') = Some h"
  shows "c = c' \<and> a = a'"
proof -
  from assms(1) have "\<forall>c a c' a' h. map_of itab (c, a) = Some h \<and> map_of itab (c', a') = Some h \<longrightarrow>
      c = c' \<and> a = a'" unfolding wf_classes_def by (elim conjE)
  then show ?thesis using assms(2,3) by blast
qed

lemma wf_classes_item:
  assumes "wf_classes name parent items defs tab itab"
  shows "map_of itab (c, a) \<noteq> None \<longleftrightarrow> (\<exists>d. map_of defs c = Some d \<and> a \<in> set (items d))"
proof -
  from assms have "\<forall>c a. map_of itab (c, a) \<noteq> None \<longleftrightarrow> (\<exists>d. map_of defs c = Some d \<and> a \<in> set (items d))"
    unfolding wf_classes_def by (elim conjE)
  then show ?thesis by blast
qed

lemma wf_fom_objects:
  "wf_fom fom \<Longrightarrow> wf_classes oc_name oc_parent object_items (object_classes fom)
     (object_class_table fom) (attribute_table fom)"
  by (simp add: wf_fom_def)

lemma wf_fom_interactions:
  "wf_fom fom \<Longrightarrow> wf_classes ic_name ic_parent interaction_items (interaction_classes fom)
     (interaction_class_table fom) (parameter_table fom)"
  by (simp add: wf_fom_def)

subsection \<open>The inheritance walk\<close>

text \<open>The results of the inheritance iterator, run for as long as it yields.\<close>

inductive inherits :: "MergedFom \<Rightarrow> ObjectClassHandle option \<Rightarrow> ObjectClassHandle list \<Rightarrow> bool" for fom where
  inherits_stop: "inherits fom None []"
| inherits_unknown: "object_class_def fom c = None \<Longrightarrow> inherits fom (Some c) []"
| inherits_step: "object_class_def fom c = Some d \<Longrightarrow> inherits fom (parent_class fom d) cs \<Longrightarrow>
    inherits fom (Some c) (c # cs)"

lemma wf_fom_parent:
  assumes "wf_fom fom" "object_class_def fom c = Some d" "parent_class fom d = Some p"
  shows "p < c"
proof -
  from assms(3) obtain n where n: "oc_parent d = Some n" "object_class_handle fom n = Some p"
    by (auto simp: parent_class_def bind_eq_Some_conv)
  from wf_classes_parent [OF wf_fom_objects [OF assms(1)]] assms(2) n show ?thesis
    by (force simp: object_class_def_def object_class_handle_def)
qed

definition classes_upto :: "MergedFom \<Rightarrow> ObjectClassHandle option \<Rightarrow> ObjectClassHandle set" where
  "classes_upto fom nxt = (case nxt of None \<Rightarrow> {} | Some c \<Rightarrow> {h \<in> set (hkeys (object_classes fom)). h \<le> c})"

lemma finite_classes_upto [simp]: "finite (classes_upto fom nxt)"
  by (simp add: classes_upto_def split: option.splits)

lemma classes_upto_parent:
  assumes "wf_fom fom" "object_class_def fom c = Some d"
  shows "card (classes_upto fom (parent_class fom d)) < card (classes_upto fom (Some c))"
proof -
  have "c \<in> classes_upto fom (Some c)"
    using assms(2) by (force simp: classes_upto_def object_class_def_def dest: map_of_SomeD)
  moreover have "classes_upto fom (parent_class fom d) \<subseteq> classes_upto fom (Some c) - {c}"
    using wf_fom_parent [OF assms] by (auto simp: classes_upto_def split: option.splits)
  ultimately show ?thesis by (intro psubset_card_mono) auto
qed

lemma inheritance_iter_complete:
  assumes "wf_fom fom" "card (classes_upto fom nxt) \<le> n"
  shows "inherits fom nxt (inheritance_iter n fom nxt)"
  using assms
proof (induction n fom nxt rule: inheritance_iter.induct)
  case (1 fom nxt)
  show ?case
  proof (cases nxt)
    case (Some c)
    then have "c \<notin> set (hkeys (object_classes fom))" using "1.prems" by (auto simp: classes_upto_def)
    then have "object_class_def fom c = None" by (simp add: object_class_def_def map_of_eq_None_iff)
    then show ?thesis using Some by (simp add: inherits_unknown)
  qed (simp add: inherits_stop)
next
  case (2 n fom)
  show ?case by (simp add: inherits_stop)
next
  case (3 n fom c)
  show ?case
  proof (cases "object_class_def fom c")
    case None
    then show ?thesis by (simp add: inherits_unknown)
  next
    case (Some d)
    then have "card (classes_upto fom (parent_class fom d)) \<le> n"
      using classes_upto_parent [OF "3.prems"(1) Some] "3.prems"(2) by simp
    then show ?thesis using "3.IH" [OF Some "3.prems"(1)] Some by (simp add: inherits_step)
  qed
qed

lemma inheritance_chain_complete:
  assumes "wf_fom fom"
  shows "inherits fom (Some h) (inheritance_chain fom h)"
proof -
  have "card (classes_upto fom (Some h)) \<le> card (set (hkeys (object_classes fom)))"
    by (intro card_mono) (auto simp: classes_upto_def)
  also have "\<dots> \<le> length (object_classes fom)" using card_length [of "hkeys (object_classes fom)"] by simp
  finally show ?thesis unfolding inheritance_chain_def by (rule inheritance_iter_complete [OF assms])
qed

lemma inherits_less: "inherits fom nxt cs \<Longrightarrow> wf_fom fom \<Longrightarrow> nxt = Some c \<Longrightarrow> x \<in> set cs \<Longrightarrow> x \<le> c"
proof (induction arbitrary: c rule: inherits.induct)
  case (inherits_step c' d cs)
  show ?case
  proof (cases "parent_class fom d")
    case None
    then have "cs = []" using inherits_step.hyps(2) by (auto elim: inherits.cases)
    then show ?thesis using inherits_step.prems by simp
  next
    case (Some p)
    then show ?thesis using inherits_step wf_fom_parent [of fom c' d p] by force
  qed
qed simp_all

lemma inherits_sorted: "inherits fom nxt cs \<Longrightarrow> wf_fom fom \<Longrightarrow> sorted_wrt (>) cs"
proof (induction rule: inherits.induct)
  case (inherits_step c d cs)
  have "x < c" if "x \<in> set cs" for x
  proof (cases "parent_class fom d")
    case None
    then show ?thesis using inherits_step.hyps(2) that by (auto elim: inherits.cases)
  next
    case (Some p)
    then show ?thesis using inherits_less [OF inherits_step.hyps(2) inherits_step.prems Some that]
        wf_fom_parent [OF inherits_step.prems inherits_step.hyps(1) Some] by simp
  qed
  then show ?case using inherits_step by simp
qed simp_all

subsection \<open>Parsed documents\<close>

text \<open>
  A flattened document lists, with every class that has a parent, the parent itself, and a child's
  qualified name extends its parent's.
\<close>

definition parents_listed :: "string option \<Rightarrow> ObjectClassDef list \<Rightarrow> bool" where
  "parents_listed start cs \<longleftrightarrow>
     (\<forall>c \<in> set cs. (oc_parent c = start \<or> (\<exists>b \<in> set cs. oc_parent c = Some (oc_name b))) \<and>
        (\<forall>p. oc_parent c = Some p \<longrightarrow> length p < length (oc_name c)))"

lemma parents_listed_append:
  "parents_listed start xs \<Longrightarrow> parents_listed start ys \<Longrightarrow> parents_listed start (xs @ ys)"
  by (fastforce simp: parents_listed_def)

lemma parents_listed_under:
  assumes "parents_listed (Some (oc_name c)) cs" "parents_listed start [c]"
  shows "parents_listed start (c # cs)"
  using assms by (fastforce simp: parents_listed_def)

lemma try_fold_appends:
  assumes "try_fold f xs out = Inr out'"
    "\<And>x out out'. x \<in> set xs \<Longrightarrow> f x out = Inr out' \<Longrightarrow> \<exists>new. out' = out @ new \<and> P new"
    "P []" "\<And>as bs. P as \<Longrightarrow> P bs \<Longrightarrow> P (as @ bs)"
  shows "\<exists>new. out' = out @ new \<and> P new"
  using assms(1,2)
proof (induction xs arbitrary: out)
  case (Cons x xs)
  then obtain out1 where x: "f x out = Inr out1" and xs: "try_fold f xs out1 = Inr out'"
    by (auto split: sum.splits)
  obtain new1 where "out1 = out @ new1" "P new1" using Cons.prems(2) [OF _ x] by auto
  moreover obtain new2 where "out' = out1 @ new2" "P new2"
    using Cons.IH [OF xs] Cons.prems(2) by (meson list.set_intros(2))
  ultimately show ?case using assms(4) by auto
qed (simp add: assms(3))

lemma flatten_object_class_parents:
  "flatten_object_class node parent out = Inr out' \<Longrightarrow>
   \<exists>new. out' = out @ new \<and> parents_listed parent new"
proof (induction node parent out arbitrary: out' rule: flatten_object_class.induct)
  case (1 name sem attrs children parent out)
  let ?fqn = "fqn parent name"
  from "1.prems" obtain as where as: "try_map xml_attribute_def attrs = Inr as"
    and tf: "try_fold (\<lambda>child acc. flatten_object_class child (Some ?fqn) acc) children
       (out @ [\<lparr>oc_name = ?fqn, oc_parent = parent, oc_attributes = as, oc_semantics = sem\<rparr>]) = Inr out'"
    by (auto simp: Let_def split: sum.splits)
  let ?c = "\<lparr>oc_name = ?fqn, oc_parent = parent, oc_attributes = as, oc_semantics = sem\<rparr>"
  have "\<exists>new. out' = (out @ [?c]) @ new \<and> parents_listed (Some ?fqn) new"
    by (rule try_fold_appends [OF tf])
      (use "1.IH" [OF refl as] in \<open>auto simp: parents_listed_append\<close>, simp add: parents_listed_def)
  moreover have "parents_listed parent [?c]"
    by (auto simp: parents_listed_def fqn_def split: option.splits)
  ultimately show ?case using parents_listed_under [of ?c] by force
qed

lemma into_fom_module_parents:
  assumes "into_fom_module raw = Inr m"
  shows "parents_listed None (fm_object_classes m)"
proof -
  from assms have tf: "try_fold (\<lambda>node. flatten_object_class node None) (unwrap_or [] (xml_objects raw)) []
      = Inr (fm_object_classes m)"
    by (auto simp: into_fom_module_def Let_def split: sum.splits)
  have "\<exists>new. fm_object_classes m = [] @ new \<and> parents_listed None new"
    by (rule try_fold_appends [OF tf])
      (auto simp: parents_listed_append intro: flatten_object_class_parents, simp add: parents_listed_def)
  then show ?thesis by simp
qed

subsection \<open>The merge keeps every class\<close>

text \<open>
  The declarations of classes in a list of modules, and what a merge makes of them. A declared class counts when its chain of
  parents ends at a declared root; the declarations of a class agree when they name one parent and differ in no attribute
  (or parameter) of the same name.
\<close>

inductive rooted :: "('d \<Rightarrow> string) \<Rightarrow> ('d \<Rightarrow> string option) \<Rightarrow> 'd list \<Rightarrow> string \<Rightarrow> bool" for name parent cs where
  rooted_root: "c \<in> set cs \<Longrightarrow> parent c = None \<Longrightarrow> rooted name parent cs (name c)"
| rooted_child: "c \<in> set cs \<Longrightarrow> parent c = Some p \<Longrightarrow> rooted name parent cs p \<Longrightarrow> rooted name parent cs (name c)"

definition agreeing :: "('d \<Rightarrow> string) \<Rightarrow> ('d \<Rightarrow> string option) \<Rightarrow> ('d \<Rightarrow> 'm list) \<Rightarrow> ('m \<Rightarrow> string) \<Rightarrow> 'd list \<Rightarrow> bool" where
  "agreeing name parent members member cs \<longleftrightarrow>
     (\<forall>c\<in>set cs. \<forall>c'\<in>set cs. name c = name c' \<longrightarrow> parent c = parent c' \<and>
        (\<forall>a\<in>set (members c). \<forall>b\<in>set (members c'). member a = member b \<longrightarrow> a = b))"

definition united :: "('d \<Rightarrow> string) \<Rightarrow> ('d \<Rightarrow> string option) \<Rightarrow> ('d \<Rightarrow> 'm list) \<Rightarrow> 'd list \<Rightarrow> 'd \<Rightarrow> bool" where
  "united name parent members cs d \<longleftrightarrow> (\<forall>c\<in>set cs. name c = name d \<longrightarrow> parent c = parent d) \<and>
     set (members d) = (\<Union>c\<in>{c \<in> set cs. name c = name d}. set (members c))"

lemma agreeing_prefix: "agreeing name parent members member (xs @ ys) \<Longrightarrow> agreeing name parent members member xs"
  unfolding agreeing_def set_append by blast

text \<open>
  What the look-ups of a merged model promise: names and handles of the rooted classes, and of no others, are in bijection; a
  class has the parent its declarations give and the attributes of all of them; the attributes have handles of their own.
\<close>

definition class_lookups :: "('d \<Rightarrow> string) \<Rightarrow> ('d \<Rightarrow> string option) \<Rightarrow> ('d \<Rightarrow> 'm list) \<Rightarrow> ('m \<Rightarrow> string) \<Rightarrow> 'd list \<Rightarrow>
    (string \<Rightarrow> 'h option) \<Rightarrow> ('h \<Rightarrow> 'd option) \<Rightarrow> ('h \<Rightarrow> string \<Rightarrow> 'i option) \<Rightarrow> bool" where
  "class_lookups name parent members member cs handle_of def_of member_handle \<longleftrightarrow>
     (\<forall>n. handle_of n \<noteq> None \<longleftrightarrow> rooted name parent cs n) \<and>
     (\<forall>n h. handle_of n = Some h \<longleftrightarrow> (\<exists>d. def_of h = Some d \<and> name d = n)) \<and>
     (\<forall>h d. def_of h = Some d \<longrightarrow> united name parent members cs d) \<and>
     (\<forall>h a. member_handle h a \<noteq> None \<longleftrightarrow> (\<exists>d. def_of h = Some d \<and> a \<in> member ` set (members d))) \<and>
     (\<forall>h a h' a' i. member_handle h a = Some i \<and> member_handle h' a' = Some i \<longrightarrow> h = h' \<and> a = a')"

lemma class_lookupsD:
  assumes "class_lookups name parent members member cs handle_of def_of member_handle"
  shows "handle_of n \<noteq> None \<longleftrightarrow> rooted name parent cs n"
    "handle_of n = Some h \<longleftrightarrow> (\<exists>d. def_of h = Some d \<and> name d = n)"
    "def_of h = Some d \<Longrightarrow> united name parent members cs d"
proof -
  note l = assms [unfolded class_lookups_def]
  show "handle_of n \<noteq> None \<longleftrightarrow> rooted name parent cs n" by (rule l [THEN conjunct1, rule_format])
  show "handle_of n = Some h \<longleftrightarrow> (\<exists>d. def_of h = Some d \<and> name d = n)" by (rule l [THEN conjunct2, THEN conjunct1, rule_format])
  show "united name parent members cs d" if "def_of h = Some d"
    by (rule l [THEN conjunct2, THEN conjunct2, THEN conjunct1, rule_format, OF that])
qed

lemma united_snoc:
  "united name parent members (cs @ [c]) d \<longleftrightarrow>
     (\<forall>c'\<in>set cs. name c' = name d \<longrightarrow> parent c' = parent d) \<and> (name c = name d \<longrightarrow> parent c = parent d) \<and>
     set (members d) = (\<Union>c'\<in>{c' \<in> set cs. name c' = name d}. set (members c')) \<union> (if name c = name d then set (members c) else {})"
  unfolding united_def by auto

text \<open>The contract of the two functions that merge one declaration into the classes seen before.\<close>

locale class_merge =
  fixes name :: "'d \<Rightarrow> string" and parent :: "'d \<Rightarrow> string option" and members :: "'d \<Rightarrow> 'm list" and member :: "'m \<Rightarrow> string"
    and merge_class :: "'d \<Rightarrow> (string, 'd) hmap \<times> string list \<Rightarrow> FomError + (string, 'd) hmap \<times> string list"
  assumes new_class: "map_of merged (name c) = None \<Longrightarrow> merge_class c (merged, order) = Inr (hinsert (name c) c merged, order @ [name c])"
    and known_class: "map_of merged (name c) = Some e \<Longrightarrow> merge_class c (merged, order) = Inr st \<Longrightarrow>
      parent e = parent c \<and> (\<exists>e'. fst st = hinsert (name c) e' merged \<and> name e' = name e \<and> parent e' = parent e \<and>
        set (members e') = set (members e) \<union> set (members c))"
    and conflict: "map_of merged (name c) = Some e \<Longrightarrow> merge_class c (merged, order) = Inl x \<Longrightarrow>
      parent e \<noteq> parent c \<or> (\<exists>a\<in>set (members e) \<union> set (members c). \<exists>b\<in>set (members c). member a = member b \<and> a \<noteq> b)"
begin

definition merges :: "'d list \<Rightarrow> (string, 'd) hmap \<Rightarrow> bool" where
  "merges cs merged \<longleftrightarrow> dom (map_of merged) = name ` set cs \<and>
     (\<forall>k d. map_of merged k = Some d \<longrightarrow> name d = k \<and> united name parent members cs d)"

lemma merges_step:
  assumes "merges cs (fst st)" "merge_class c st = Inr st'"
  shows "merges (cs @ [c]) (fst st')"
proof -
  obtain merged order where st: "st = (merged, order)" by force
  have old: "name d = k \<and> united name parent members cs d" if "map_of merged k = Some d" for k d
    using assms(1) that by (simp add: merges_def st)
  have dom: "dom (map_of merged) = name ` set cs" using assms(1) by (simp add: merges_def st)
  have keep: "united name parent members (cs @ [c]) d" if "map_of merged k = Some d" "k \<noteq> name c" for k d
    using old [OF that(1)] that(2) unfolding united_snoc by (auto simp: united_def)
  obtain e' where e': "fst st' = hinsert (name c) e' merged" "name e' = name c" "united name parent members (cs @ [c]) e'"
  proof (cases "map_of merged (name c)")
    case None
    then have "name c \<notin> name ` set cs" using dom by blast
    then have none: "{c' \<in> set cs. name c' = name c} = {}" by (metis (mono_tags, lifting) empty_Collect_eq imageI)
    have "united name parent members (cs @ [c]) c" unfolding united_snoc none using none by auto
    moreover have "fst st' = hinsert (name c) c merged" using assms(2) new_class [OF None] by (auto simp: st)
    ultimately show ?thesis using that by blast
  next
    case (Some e)
    from known_class [OF Some, of order st'] assms(2) obtain e' where e: "parent e = parent c" "fst st' = hinsert (name c) e' merged"
      "name e' = name e" "parent e' = parent e" "set (members e') = set (members e) \<union> set (members c)" by (auto simp: st)
    have "name e = name c" "united name parent members cs e" using old [OF Some] by simp_all
    then have "united name parent members (cs @ [c]) e'" unfolding united_snoc e(3-5) e(1) [symmetric] by (simp add: united_def)
    then show ?thesis using that e(2,3) \<open>name e = name c\<close> by simp
  qed
  have "dom (map_of (fst st')) = name ` set (cs @ [c])" using dom by (auto simp: e'(1))
  moreover have "name d = k \<and> united name parent members (cs @ [c]) d" if "map_of (fst st') k = Some d" for k d
    using that e'(2,3) old [of k d] keep [of k d] by (cases "k = name c") (simp_all add: e'(1))
  ultimately show ?thesis by (simp add: merges_def)
qed

lemma merges_fold: "try_fold merge_class xs st = Inr st' \<Longrightarrow> merges cs (fst st) \<Longrightarrow> merges (cs @ xs) (fst st')"
proof (induction xs arbitrary: st cs)
  case (Cons x xs)
  then obtain st1 where "merge_class x st = Inr st1" "try_fold merge_class xs st1 = Inr st'"
    by (auto split: sum.splits)
  then show ?case using Cons.IH [of st1 "cs @ [x]"] merges_step [OF Cons.prems(2)] by simp
qed simp

lemma merges_all: "try_fold merge_class cs ([], []) = Inr st \<Longrightarrow> merges cs (fst st)"
  using merges_fold [of cs "([], [])" st "[]"] by (simp add: merges_def)

lemma step_agrees:
  assumes "merges cs (fst st)" "merge_class c st = Inl x"
  shows "\<not> agreeing name parent members member (cs @ [c])"
proof
  assume ag: "agreeing name parent members member (cs @ [c])"
  obtain merged order where st: "st = (merged, order)" by force
  obtain e where e: "map_of merged (name c) = Some e" using assms(2) new_class by (cases "map_of merged (name c)") (auto simp: st)
  then have n: "name e = name c" "united name parent members cs e" using assms(1) by (simp_all add: merges_def st)
  have "name c \<in> name ` set cs" using assms(1) e by (auto simp: merges_def st)
  then obtain c' where c': "c' \<in> set cs" "name c' = name c" by (auto elim: imageE)
  have "parent c' = parent e" using n c' unfolding united_def by metis
  moreover have "parent c' = parent c" using ag c' unfolding agreeing_def by (metis in_set_conv_decomp Un_iff set_append)
  ultimately have "parent e = parent c" by simp
  moreover have "a = b" if ab: "a \<in> set (members e) \<union> set (members c)" "b \<in> set (members c)" "member a = member b" for a b
  proof -
    obtain c'' where "c'' \<in> set (cs @ [c])" "name c'' = name c" "a \<in> set (members c'')"
      using ab(1) n by (auto simp: united_def)
    then show ?thesis using ag ab(2,3) unfolding agreeing_def by (metis in_set_conv_decomp)
  qed
  ultimately show False using conflict [OF e, of order x] assms(2) by (auto simp: st)
qed

lemma fold_agrees:
  "try_fold merge_class xs st = Inl x \<Longrightarrow> merges cs (fst st) \<Longrightarrow> \<not> agreeing name parent members member (cs @ xs)"
proof (induction xs arbitrary: st cs)
  case (Cons c xs)
  show ?case
  proof (cases "merge_class c st")
    case (Inl e)
    with step_agrees [OF Cons.prems(2)] have "\<not> agreeing name parent members member (cs @ [c])" by blast
    then show ?thesis using agreeing_prefix [of name parent members member "cs @ [c]" xs] by auto
  next
    case (Inr st1)
    with Cons have "\<not> agreeing name parent members member ((cs @ [c]) @ xs)"
      by (intro Cons.IH merges_step [OF Cons.prems(2)]) simp_all
    then show ?thesis by simp
  qed
qed simp

lemma conflict_disagrees: "try_fold merge_class cs ([], []) = Inl x \<Longrightarrow> \<not> agreeing name parent members member cs"
  using fold_agrees [of cs "([], [])" x "[]"] by (simp add: merges_def)

text \<open>The classes the numbering reaches are the rooted ones.\<close>

lemma reached_rooted:
  assumes "merges cs merged"
  defines "par \<equiv> \<lambda>c. Option.bind (map_of merged c) parent"
  shows "(\<exists>k r. anc par k y = Some r \<and> r \<in> dom (map_of merged) \<and> par r = None) \<longleftrightarrow> rooted name parent cs y"
proof
  have decl: "\<exists>c\<in>set cs. name c = k \<and> parent c = parent d" if "map_of merged k = Some d" for k d
  proof -
    have "k \<in> name ` set cs" "name d = k" "united name parent members cs d" using assms(1) that by (auto simp: merges_def)
    then show ?thesis by (auto simp: united_def)
  qed
  have par: "par (name c) = parent c" if "c \<in> set cs" for c
  proof -
    have "name c \<in> dom (map_of merged)" using assms(1) that by (simp add: merges_def)
    then obtain d where "map_of merged (name c) = Some d" by blast
    moreover from this have "parent c = parent d" using assms(1) that by (simp add: merges_def united_def)
    ultimately show ?thesis by (simp add: par_def)
  qed
  show "rooted name parent cs y" if "\<exists>k r. anc par k y = Some r \<and> r \<in> dom (map_of merged) \<and> par r = None"
  proof -
    from that obtain k r where "anc par k y = Some r" and r: "r \<in> dom (map_of merged)" "par r = None" by blast
    then show ?thesis
    proof (induction k arbitrary: y)
      case 0
      then obtain d where d: "map_of merged y = Some d" by auto
      then have "parent d = None" using 0 by (simp add: par_def)
      then obtain c where "c \<in> set cs" "name c = y" "parent c = None" using decl [OF d] by auto
      then show ?case using rooted_root [of c cs parent name] by simp
    next
      case (Suc k)
      have "anc par (1 + k) y = Some r" using Suc.prems(1) by simp
      then obtain p where p: "par y = Some p" "anc par k p = Some r"
        unfolding anc_add by (cases "par y") auto
      then obtain d where d: "map_of merged y = Some d" "parent d = Some p" by (cases "map_of merged y") (auto simp: par_def)
      then obtain c where "c \<in> set cs" "name c = y" "parent c = Some p" using decl [OF d(1)] by auto
      then show ?case using rooted_child [of c cs parent p name] Suc.IH [OF p(2) Suc.prems(2,3)] by simp
    qed
  qed
  show "\<exists>k r. anc par k y = Some r \<and> r \<in> dom (map_of merged) \<and> par r = None" if "rooted name parent cs y"
    using that
  proof induction
    case (rooted_root c)
    then show ?case using par [of c] assms(1) by (intro exI [of _ 0] exI [of _ "name c"]) (simp add: merges_def)
  next
    case (rooted_child c p)
    then obtain k r where kr: "anc par k p = Some r" "r \<in> dom (map_of merged)" "par r = None" by blast
    have "anc par (1 + k) (name c) = Some r" using par [OF rooted_child(1)] rooted_child(2) kr(1) by (simp only: anc_add) simp
    then show ?case using kr by blast
  qed
qed

text \<open>The look-ups of the classes that were numbered.\<close>

lemma numbered_lookups:
  assumes "merges cs merged" and inv: "merge_inv name (\<lambda>d. map member (members d)) n (merged, order)" "Suc n < 2 ^ 32"
    and "assign_forest (length order) (\<lambda>d. map member (members d)) merged (hremove None (children_map parent merged order))
       (unwrap_or [] (map_of (children_map parent merged order) None)) initial_handles = Some st"
  shows "class_lookups name parent members member cs (map_of (class_table st)) (map_of (class_defs st)) (\<lambda>h a. map_of (item_table st) (h, a))"
proof -
  let ?par = "\<lambda>c. Option.bind (map_of merged c) parent"
  obtain xs st' where st': "assign_forest (length order) (\<lambda>d. map member (members d)) merged (hremove None (children_map parent merged order))
       (unwrap_or [] (map_of (children_map parent merged order) None)) initial_handles = Some st'"
    and num': "numbered (\<lambda>d. map member (members d)) (\<lambda>c. the (map_of merged c)) xs st'"
    and wf': "wf_classes name parent (\<lambda>d. map member (members d)) (class_defs st') (class_table st') (item_table st')"
    and xs: "set xs = {y. \<exists>k r. anc ?par k y = Some r \<and> r \<in> set order \<and> ?par r = None}" "set xs \<subseteq> set order"
    by (rule assign_result [OF inv, of parent])
  have "st' = st" using st' assms(4) by simp
  note num = num' [unfolded this] and wf = wf' [unfolded this]
  have dom: "set order = dom (map_of merged)" using inv(1) by (simp add: merge_inv_def)
  have "map_of (class_table st) y \<noteq> None \<longleftrightarrow> y \<in> set xs" for y
    using num unfolding numbered_def by (auto simp: in_set_conv_nth)
  moreover have "y \<in> set xs \<longleftrightarrow> rooted name parent cs y" for y
    using reached_rooted [OF assms(1), of y] unfolding xs(1) dom by simp
  moreover have "united name parent members cs d" if "map_of (class_defs st) h = Some d" for h d
  proof -
    from num that obtain k where k: "k < length xs" "d = the (map_of merged (xs ! k))" unfolding numbered_def by auto
    then have "xs ! k \<in> dom (map_of merged)" using xs(2) dom nth_mem by blast
    then have "map_of merged (xs ! k) = Some d" using k(2) by auto
    then show ?thesis using assms(1) unfolding merges_def by blast
  qed
  moreover note wf_classes_table [OF wf] wf_classes_item [OF wf] wf_classes_item_inject [OF wf]
  ultimately show ?thesis unfolding class_lookups_def by (intro conjI allI impI) (simp, blast, blast, simp, blast+)
qed

end

lemma find_SomeD: "find P xs = Some x \<Longrightarrow> x \<in> set xs \<and> P x"
  by (induction xs) (auto split: if_splits)

lemma try_fold_members:
  fixes key :: "'m \<Rightarrow> string"
  assumes f: "\<And>a t. f a t = (case find (\<lambda>x. key x = key a) t of Some x \<Rightarrow> if x \<noteq> a then Inl (err a) else Inr t | None \<Rightarrow> Inr (t @ [a]))"
  shows "try_fold f as t = Inr t' \<Longrightarrow> set t' = set t \<union> set as"
    "try_fold f as t = Inl x \<Longrightarrow> \<exists>a\<in>set t \<union> set as. \<exists>b\<in>set as. key a = key b \<and> a \<noteq> b"
proof (induction as arbitrary: t)
  case (Cons a as)
  {
    case 1
    then obtain t1 where t1: "f a t = Inr t1" "try_fold f as t1 = Inr t'" by (auto split: sum.splits)
    have "set t1 = insert a (set t)" using t1(1) by (auto simp: f split: option.splits if_splits dest: find_SomeD)
    then show ?case using Cons.IH(1) [OF t1(2)] by auto
  next
    case 2
    show ?case
    proof (cases "f a t")
      case (Inl e)
      then obtain y where "find (\<lambda>x. key x = key a) t = Some y" "y \<noteq> a" by (auto simp: f split: option.splits if_splits)
      then show ?thesis using find_SomeD by fastforce
    next
      case (Inr t1)
      then have "set t1 = insert a (set t)" by (auto simp: f split: option.splits if_splits dest: find_SomeD)
      then show ?thesis using Cons.IH(2) [of t1] 2 Inr by auto
    qed
  }
qed simp_all

interpretation object_merge: class_merge oc_name oc_parent oc_attributes at_name merge_object_class
proof unfold_locales
  fix merged :: "(string, ObjectClassDef) hmap" and order c e st x
  note attrs = try_fold_members [where f = "merge_attribute (oc_name c)" and key = at_name, OF merge_attribute_def]
  show "merge_object_class c (merged, order) = Inr (hinsert (oc_name c) c merged, order @ [oc_name c])" if "map_of merged (oc_name c) = None"
    using that by (simp add: merge_object_class_def)
  show "oc_parent e = oc_parent c \<and> (\<exists>e'. fst st = hinsert (oc_name c) e' merged \<and> oc_name e' = oc_name e \<and> oc_parent e' = oc_parent e \<and>
      set (oc_attributes e') = set (oc_attributes e) \<union> set (oc_attributes c))"
    if "map_of merged (oc_name c) = Some e" "merge_object_class c (merged, order) = Inr st"
    using that by (auto simp: merge_object_class_def split: if_splits sum.splits intro!: exI dest: attrs(1))
  show "oc_parent e \<noteq> oc_parent c \<or> (\<exists>a\<in>set (oc_attributes e) \<union> set (oc_attributes c). \<exists>b\<in>set (oc_attributes c). at_name a = at_name b \<and> a \<noteq> b)"
    if "map_of merged (oc_name c) = Some e" "merge_object_class c (merged, order) = Inl x"
    using that attrs(2) [of "oc_attributes c" "oc_attributes e"] by (simp add: merge_object_class_def split: if_splits sum.splits)
qed

interpretation interaction_merge: class_merge ic_name ic_parent ic_parameters pa_name merge_interaction_class
proof unfold_locales
  fix merged :: "(string, InteractionClassDef) hmap" and order c e st x
  note params = try_fold_members [where f = "merge_parameter (ic_name c)" and key = pa_name, OF merge_parameter_def]
  show "merge_interaction_class c (merged, order) = Inr (hinsert (ic_name c) c merged, order @ [ic_name c])" if "map_of merged (ic_name c) = None"
    using that by (simp add: merge_interaction_class_def)
  show "ic_parent e = ic_parent c \<and> (\<exists>e'. fst st = hinsert (ic_name c) e' merged \<and> ic_name e' = ic_name e \<and> ic_parent e' = ic_parent e \<and>
      set (ic_parameters e') = set (ic_parameters e) \<union> set (ic_parameters c))"
    if "map_of merged (ic_name c) = Some e" "merge_interaction_class c (merged, order) = Inr st"
    using that by (auto simp: merge_interaction_class_def split: if_splits sum.splits intro!: exI dest: params(1))
  show "ic_parent e \<noteq> ic_parent c \<or> (\<exists>a\<in>set (ic_parameters e) \<union> set (ic_parameters c). \<exists>b\<in>set (ic_parameters c). pa_name a = pa_name b \<and> a \<noteq> b)"
    if "map_of merged (ic_name c) = Some e" "merge_interaction_class c (merged, order) = Inl x"
    using that params(2) [of "ic_parameters c" "ic_parameters e"] by (simp add: merge_interaction_class_def split: if_splits sum.splits)
qed

text \<open>The loop over the modules is a loop over all their object classes and one over all their interaction classes.\<close>

abbreviation declared_objects :: "FomModule list \<Rightarrow> ObjectClassDef list" where
  "declared_objects mods \<equiv> concat (map fm_object_classes mods)"

abbreviation declared_interactions :: "FomModule list \<Rightarrow> InteractionClassDef list" where
  "declared_interactions mods \<equiv> concat (map fm_interaction_classes mods)"

lemma merge_steps_split:
  "try_fold merge_step mods (os, ics) = Inr (os', ics') \<Longrightarrow>
     try_fold merge_object_class (declared_objects mods) os = Inr os' \<and> try_fold merge_interaction_class (declared_interactions mods) ics = Inr ics'"
  "try_fold merge_step mods (os, ics) = Inl e \<Longrightarrow>
     (\<exists>x. try_fold merge_object_class (declared_objects mods) os = Inl x) \<or> (\<exists>x. try_fold merge_interaction_class (declared_interactions mods) ics = Inl x)"
proof (induction mods arbitrary: os ics)
  case (Cons m mods)
  {
    case 1
    then show ?case using Cons.IH(1) by (auto simp: merge_step_def try_fold_append split: sum.splits)
  next
    case 2
    then show ?case
      by (cases "try_fold merge_object_class (fm_object_classes m) os"; cases "try_fold merge_interaction_class (fm_interaction_classes m) ics")
        (auto simp: merge_step_def [of m "(os, ics)"] try_fold_append dest: Cons.IH(2))
  }
qed simp_all

lemma merge_modules_classes:
  assumes "merge_modules mods = Inr r" and "Suc (fom_size mods) < 2 ^ 32"
  obtains fom where "r = Some fom" "wf_fom fom"
    "class_lookups oc_name oc_parent oc_attributes at_name (declared_objects mods)
       (object_class_handle fom) (object_class_def fom) (attribute_handle fom)"
    "class_lookups ic_name ic_parent ic_parameters pa_name (declared_interactions mods)
       (interaction_class_handle fom) (interaction_class_def fom) (parameter_handle fom)"
proof -
  from assms(1) obtain mo oorder mi iorder
    where st: "try_fold merge_step mods (([], []), ([], [])) = Inr ((mo, oorder), (mi, iorder))"
    by (auto simp: merge_modules_step split: sum.splits)
  note split = merge_steps_split(1) [OF st] and inv = merge_steps_inv [OF st]
  have m: "object_merge.merges (declared_objects mods) mo" "interaction_merge.merges (declared_interactions mods) mi"
    using object_merge.merges_all interaction_merge.merges_all split by fastforce+
  from merge_modules_wf [OF assms] obtain fom where fom: "r = Some fom" "wf_fom fom" by blast
  obtain ost ist where o: "assign_object_class_handles (length oorder) mo (hremove None (children_map oc_parent mo oorder))
      (unwrap_or [] (map_of (children_map oc_parent mo oorder) None)) initial_handles = Some ost"
    and i: "assign_interaction_class_handles (length iorder) mi (hremove None (children_map ic_parent mi iorder))
      (unwrap_or [] (map_of (children_map ic_parent mi iorder) None)) initial_handles = Some ist"
    and tab: "object_classes fom = class_defs ost" "object_class_table fom = class_table ost" "attribute_table fom = item_table ost"
      "interaction_classes fom = class_defs ist" "interaction_class_table fom = class_table ist" "parameter_table fom = item_table ist"
    using assms(1) by (auto simp: merge_modules_step st fom(1) Let_def split: option.splits)
  have items: "object_items = (\<lambda>d. map at_name (oc_attributes d))" "interaction_items = (\<lambda>d. map pa_name (ic_parameters d))"
    by (simp_all add: fun_eq_iff object_items_def interaction_items_def)
  show thesis
  proof (rule that [OF fom])
    show "class_lookups oc_name oc_parent oc_attributes at_name (declared_objects mods)
       (object_class_handle fom) (object_class_def fom) (attribute_handle fom)"
      using object_merge.numbered_lookups [OF m(1) _ assms(2)] inv o
      unfolding object_class_handle_def object_class_def_def attribute_handle_def tab assign_object_class_handles_def items by blast
    show "class_lookups ic_name ic_parent ic_parameters pa_name (declared_interactions mods)
       (interaction_class_handle fom) (interaction_class_def fom) (parameter_handle fom)"
      using interaction_merge.numbered_lookups [OF m(2) _ assms(2)] inv i
      unfolding interaction_class_handle_def interaction_class_def_def parameter_handle_def tab assign_interaction_class_handles_def items by blast
  qed
qed

lemma merge_modules_conflict:
  assumes "merge_modules mods = Inl e"
  shows "\<not> (agreeing oc_name oc_parent oc_attributes at_name (declared_objects mods) \<and>
    agreeing ic_name ic_parent ic_parameters pa_name (declared_interactions mods))"
proof -
  from assms have "\<exists>x. try_fold merge_step mods (([], []), ([], [])) = Inl x"
    by (auto simp: merge_modules_step Let_def split: sum.splits)
  then show ?thesis using merge_steps_split(2) object_merge.conflict_disagrees interaction_merge.conflict_disagrees by blast
qed

text \<open>In parsed documents every class is rooted.\<close>

lemma listed_rooted:
  assumes "\<And>m. m \<in> set mods \<Longrightarrow> parents_listed None (fm_object_classes m)" and "m \<in> set mods" "c \<in> set (fm_object_classes m)"
  shows "rooted oc_name oc_parent (declared_objects mods) (oc_name c)"
  using assms(3)
proof (induction "length (oc_name c)" arbitrary: c rule: less_induct)
  case less
  have c: "c \<in> set (declared_objects mods)" using less.prems assms(2) by auto
  show ?case
  proof (cases "oc_parent c")
    case None
    with c show ?thesis by (rule rooted_root)
  next
    case (Some p)
    then obtain b where b: "b \<in> set (fm_object_classes m)" "p = oc_name b" "length p < length (oc_name c)"
      using assms(1) [OF assms(2)] less.prems unfolding parents_listed_def by fastforce
    with less.hyps [of b] have "rooted oc_name oc_parent (declared_objects mods) p" by simp
    with c Some show ?thesis by (rule rooted_child)
  qed
qed

lemma merged_class_complete:
  assumes merge: "merge_modules mods = Inr (Some fom)" and size: "Suc (fom_size mods) < 2 ^ 32"
    and listed: "\<And>m. m \<in> set mods \<Longrightarrow> parents_listed None (fm_object_classes m)"
    and c: "m \<in> set mods" "c \<in> set (fm_object_classes m)"
  shows "\<exists>h d. object_class_handle fom (oc_name c) = Some h \<and> object_class_def fom h = Some d \<and>
    oc_parent d = oc_parent c \<and> set (oc_attributes c) \<subseteq> set (oc_attributes d)"
proof -
  have l: "class_lookups oc_name oc_parent oc_attributes at_name (declared_objects mods)
      (object_class_handle fom) (object_class_def fom) (attribute_handle fom)"
    using merge_modules_classes [OF merge size] by blast
  have "object_class_handle fom (oc_name c) \<noteq> None" using class_lookupsD(1) [OF l] listed_rooted [OF listed c] by blast
  then obtain h d where h: "object_class_handle fom (oc_name c) = Some h" "object_class_def fom h = Some d" "oc_name d = oc_name c"
    using class_lookupsD(2) [OF l, of "oc_name c"] by blast
  then have "united oc_name oc_parent oc_attributes (declared_objects mods) d" by (intro class_lookupsD(3) [OF l])
  moreover have "c \<in> set (declared_objects mods)" using c by auto
  ultimately show ?thesis using h unfolding united_def by (intro exI [of _ h] exI [of _ d]) auto
qed

subsection \<open>Properties\<close>

text \<open>A two-class document: a root and a child with one attribute.\<close>

definition sample_xml :: XmlObjectModel where
  "sample_xml = \<lparr>model_identification = None,
     xml_objects = Some [XmlObjectClass ''R'' None []
       [XmlObjectClass ''F'' None
          [\<lparr>xa_name = ''a'', xa_data_type = ''HLAoctet'', xa_update_type = ''Static'', xa_ownership = None,
            xa_sharing = None, xa_transportation = None, xa_order = None, xa_dimensions = None\<rparr>] []]],
     xml_interactions = None\<rparr>"

definition sample_module :: FomModule where
  "sample_module = \<lparr>identification = \<lparr>mi_name = [], mi_version = None, mi_description = None\<rparr>,
     fm_object_classes =
       [\<lparr>oc_name = ''R'', oc_parent = None, oc_attributes = [], oc_semantics = None\<rparr>,
        \<lparr>oc_name = ''R.F'', oc_parent = Some ''R'', oc_attributes =
           [\<lparr>at_name = ''a'', at_datatype = ''HLAoctet'', at_order = OrderReceive,
             at_transportation = ''HLAreliable'', at_ownership = NoTransfer, at_sharing = Neither,
             at_update_type = Static, at_dimensions = []\<rparr>], oc_semantics = None\<rparr>],
     fm_interaction_classes = []\<rparr>"

lemma sample_parse: "into_fom_module sample_xml = Inr sample_module"
  by code_simp

definition sample_fom :: MergedFom where
  "sample_fom = (case merge_modules [sample_module] of Inr (Some fom) \<Rightarrow> fom | _ \<Rightarrow> empty_fom)"

lemma sample_merge: "merge_modules [sample_module] = Inr (Some sample_fom)"
  by code_simp

lemma sample_size: "Suc (fom_size [sample_module]) < 2 ^ 32"
  by (simp add: fom_size_def sample_module_def)

text \<open>C29. Merging modules is right or reports a conflict. If it reports one, two declarations of a class disagree: on the parent, or
  in an attribute (parameter) of the same name. If not, it returns a FOM: the recursion over the class tree ends. The object
  classes of the FOM are those the modules declare whose chain of parents ends at a declared root, and no others; names and handles
  are in bijection; a class has the parent its declarations give and the attributes of all its declarations;
  and every attribute of a class, and nothing else, has a handle, which belongs to that class and name only. The same holds for
  interaction classes and their parameters.\<close>

theorem merge_modules_lookups:
  assumes "Suc (fom_size mods) < 2 ^ 32"
  shows "case merge_modules mods of
      Inl e \<Rightarrow> \<not> (agreeing oc_name oc_parent oc_attributes at_name (declared_objects mods) \<and>
                 agreeing ic_name ic_parent ic_parameters pa_name (declared_interactions mods))
    | Inr r \<Rightarrow> \<exists>fom. r = Some fom \<and>
        class_lookups oc_name oc_parent oc_attributes at_name (declared_objects mods)
          (object_class_handle fom) (object_class_def fom) (attribute_handle fom) \<and>
        class_lookups ic_name ic_parent ic_parameters pa_name (declared_interactions mods)
          (interaction_class_handle fom) (interaction_class_def fom) (parameter_handle fom)"
proof (cases "merge_modules mods")
  case (Inl e)
  with merge_modules_conflict [OF Inl] show ?thesis by simp
next
  case (Inr r)
  from merge_modules_classes [OF Inr assms] show ?thesis unfolding Inr sum.case by blast
qed

theorem merge_modules_lookups_witness:
  "\<exists>fom d. merge_modules [sample_module] = Inr (Some fom) \<and> object_class_handle fom ''R.F'' = Some 2 \<and>
     object_class_def fom 2 = Some d \<and> oc_name d = ''R.F'' \<and> rooted oc_name oc_parent (fm_object_classes sample_module) ''R.F'' \<and>
     united oc_name oc_parent oc_attributes (fm_object_classes sample_module) d"
proof -
  have h: "object_class_handle sample_fom ''R.F'' = Some 2" by code_simp
  have "class_lookups oc_name oc_parent oc_attributes at_name (declared_objects [sample_module])
      (object_class_handle sample_fom) (object_class_def sample_fom) (attribute_handle sample_fom)"
    using merge_modules_lookups [OF sample_size] by (simp add: sample_merge)
  then have l: "class_lookups oc_name oc_parent oc_attributes at_name (fm_object_classes sample_module)
      (object_class_handle sample_fom) (object_class_def sample_fom) (attribute_handle sample_fom)" by simp
  obtain d where "object_class_def sample_fom 2 = Some d" "oc_name d = ''R.F''" using class_lookupsD(2) [OF l] h by blast
  moreover from this have "united oc_name oc_parent oc_attributes (fm_object_classes sample_module) d" by (intro class_lookupsD(3) [OF l])
  moreover have "rooted oc_name oc_parent (fm_object_classes sample_module) ''R.F''" using class_lookupsD(1) [OF l, of "''R.F''"] h by simp
  ultimately show ?thesis using h sample_merge by blast
qed

text \<open>C30. In a merged FOM the inheritance chain of a class is everything the inheritance iterator
  yields when it is run to its end (the bound on the walk never cuts it short), and handles decrease
  strictly along it, so no class is visited twice.\<close>

theorem inheritance_chain_of_merged:
  assumes "merge_modules mods = Inr (Some fom)" and "Suc (fom_size mods) < 2 ^ 32"
  shows "inherits fom (Some h) (inheritance_chain fom h) \<and> sorted_wrt (>) (inheritance_chain fom h)"
proof -
  from merge_modules_wf [OF assms] have wf: "wf_fom fom" by simp
  show ?thesis using inheritance_chain_complete [OF wf] inherits_sorted wf by blast
qed

theorem inheritance_chain_of_merged_witness:
  "inherits sample_fom (Some 2) [2, 1] \<and> inheritance_chain sample_fom 2 = [2, 1]"
proof -
  have "inheritance_chain sample_fom 2 = [2, 1]" by code_simp
  then show ?thesis using inheritance_chain_of_merged [OF sample_merge sample_size, of 2] by simp
qed

text \<open>Every object class of every parsed document has a handle in the merged FOM, under which it
  is found with the parent the document gives it and with all of the document's attributes.\<close>

theorem parsed_classes_have_handles:
  assumes "try_map into_fom_module raws = Inr mods" and "merge_modules mods = Inr (Some fom)"
    and "Suc (fom_size mods) < 2 ^ 32" and "m \<in> set mods" and "c \<in> set (fm_object_classes m)"
  shows "\<exists>h d. object_class_handle fom (oc_name c) = Some h \<and> object_class_def fom h = Some d \<and>
    oc_parent d = oc_parent c \<and> set (oc_attributes c) \<subseteq> set (oc_attributes d)"
proof (rule merged_class_complete [OF assms(2,3) _ assms(4,5)])
  fix m assume "m \<in> set mods"
  then obtain raw where "into_fom_module raw = Inr m"
    using assms(1) by (auto simp: try_map_Inr list_all2_conv_all_nth in_set_conv_nth)
  then show "parents_listed None (fm_object_classes m)" by (rule into_fom_module_parents)
qed

theorem parsed_classes_have_handles_witness:
  "\<exists>h d. object_class_handle sample_fom ''R.F'' = Some h \<and> object_class_def sample_fom h = Some d \<and>
     oc_parent d = Some ''R'' \<and> length (oc_attributes d) = 1"
proof -
  have parse: "try_map into_fom_module [sample_xml] = Inr [sample_module]" by (simp add: sample_parse)
  have "\<exists>h d. object_class_handle sample_fom (oc_name (fm_object_classes sample_module ! 1)) = Some h \<and>
      object_class_def sample_fom h = Some d \<and> oc_parent d = oc_parent (fm_object_classes sample_module ! 1) \<and>
      set (oc_attributes (fm_object_classes sample_module ! 1)) \<subseteq> set (oc_attributes d)"
    by (rule parsed_classes_have_handles [OF parse sample_merge sample_size, of sample_module])
      (simp_all add: sample_module_def)
  moreover have "object_class_handle sample_fom ''R.F'' = Some 2 \<and>
      map_option (length \<circ> oc_attributes) (object_class_def sample_fom 2) = Some 1" by code_simp
  ultimately show ?thesis by (auto simp: sample_module_def)
qed

end
