(* ===== verification/Dispatch_Props.thy ===== *)
theory Dispatch_Props
  imports Service_Props Fom_Props
begin

text \<open>
  What the dispatcher guarantees: calls outside federation management leave the registry, the caller's
  session and every other federation alone and keep the federates of the caller's one; every call keeps the
  invariant of the node; a session that has not joined gets an exception and changes nothing; and every call
  returns.
\<close>

definition node_ok :: "RtiNode \<Rightarrow> bool" where
  "node_ok node \<longleftrightarrow> (\<forall>i. times_ok (fed_heap node i))"

text \<open>What the server keeps for itself: the dispatcher never touches it.\<close>

definition runtime_view where
  "runtime_view node = (next_session_id node, heartbeat node, limits node, connections_per_ip node, metrics node,
     suspended_sessions node, connections node)"

text \<open>An outcome that changes at most the federation the caller has joined, and that by a good change.\<close>

definition confined :: "RtiNode \<Rightarrow> SessionContext \<Rightarrow> outcome \<Rightarrow> bool" where
  "confined node ctx out \<longleftrightarrow>
     (case out of (node', ctx', cbs, r) \<Rightarrow>
        ctx' = ctx \<and> federations node' = federations node \<and> runtime_view node' = runtime_view node \<and>
        next_federation node' = next_federation node \<and>
        (\<forall>i. good_change (fed_heap node i) (fed_heap node' i)) \<and>
        (\<forall>i. map_option mb_federation (membership ctx) \<noteq> Some i \<longrightarrow> fed_heap node' i = fed_heap node i))"

lemma confined_same [simp]: "confined node ctx (node, ctx, cbs, r)"
  by (simp add: confined_def)

lemma confined_with:
  assumes "node_ok node" "service_ok h"
  shows "confined node ctx (with_membership node ctx n f h)"
  using assms unfolding service_ok_def node_ok_def
  by (auto simp: with_membership_def confined_def set_federation_def runtime_view_def split: option.split prod.split) (metis fst_conv)

lemma service_query: "service_ok (\<lambda>me fed. (fed, [], q me fed))"
  by (simp add: service_ok_def)

lemma confined_query: "node_ok node \<Longrightarrow> confined node ctx (query_membership node ctx n f q)"
  unfolding query_membership_def by (rule confined_with [OF _ service_query])

lemmas confined_rules = confined_with confined_query services

lemma confined_switch: "node_ok node \<Longrightarrow> confined node ctx (dispatch_switch node ctx q)"
  by (cases q) (simp_all add: dispatch_switch_def confined_rules)

lemma confined_lookup: "node_ok node \<Longrightarrow> confined node ctx (dispatch_lookup node ctx q)"
  by (cases q) (simp_all add: dispatch_lookup_def confined_rules split: option.split)

lemma confined_handle: "node_ok node \<Longrightarrow> confined node ctx (dispatch_handle node ctx q)"
  by (cases q) (simp_all add: dispatch_handle_def confined_rules split: option.split)

lemma confined_declaration: "node_ok node \<Longrightarrow> confined node ctx (dispatch_declaration node ctx q)"
  by (cases q) (simp_all add: dispatch_declaration_def Let_def confined_rules)

lemma confined_passive: "node_ok node \<Longrightarrow> confined node ctx (dispatch_passive node ctx q)"
  by (cases q) (simp_all add: dispatch_passive_def Let_def confined_rules)

lemma confined_object: "node_ok node \<Longrightarrow> confined node ctx (dispatch_object node ctx q)"
  by (cases q) (simp_all add: dispatch_object_def Let_def confined_rules)

lemma confined_ownership: "node_ok node \<Longrightarrow> confined node ctx (dispatch_ownership node ctx q)"
  by (cases q) (simp_all add: dispatch_ownership_def Let_def confined_rules)

lemma confined_progress: "confined node ctx (save_progress_outcome serde node ctx b)"
  using good_change_save_progressed
  by (auto simp: save_progress_outcome_def confined_def set_federation_def runtime_view_def split: option.split prod.split)
    (metis fst_conv snd_conv)

lemma confined_save: "node_ok node \<Longrightarrow> confined node ctx (dispatch_save serde node ctx q)"
  by (cases q) (simp_all add: dispatch_save_def Let_def confined_rules confined_progress)

lemma confined_sync: "node_ok node \<Longrightarrow> confined node ctx (dispatch_sync node ctx q)"
  by (cases q) (simp_all add: dispatch_sync_def Let_def confined_rules)

lemma confined_region: "node_ok node \<Longrightarrow> confined node ctx (dispatch_region node ctx q)"
  by (cases q) (simp_all add: dispatch_region_def Let_def confined_rules)

lemma confined_time: "node_ok node \<Longrightarrow> confined node ctx (dispatch_time node ctx q)"
  by (cases q) (simp_all add: dispatch_time_def Let_def confined_rules)

lemma confined_directed: "node_ok node \<Longrightarrow> confined node ctx (dispatch_directed node ctx q)"
  by (cases q) (simp_all add: dispatch_directed_def Let_def confined_rules)

lemmas confined_groups = confined_switch confined_lookup confined_handle confined_declaration confined_passive confined_object
  confined_ownership confined_save confined_sync confined_region confined_time confined_directed

text \<open>The requests of federation management.\<close>

fun manages_federations :: "CallRequest option \<Rightarrow> bool" where
  "manages_federations (Some (FederationCall _)) = True"
| "manages_federations (Some (MemberCall _)) = True"
| "manages_federations _ = False"

lemma dispatch_confined:
  "node_ok node \<Longrightarrow> \<not> manages_federations q \<Longrightarrow>
   \<exists>out. dispatch_call from_str serde node ctx q = Some out \<and> confined node ctx out"
  by (cases q rule: manages_federations.cases) (simp_all add: dispatch_call_def confined_groups)

subsection \<open>Federation management\<close>

lemma times_ok_new: "times_ok (new_federation name f)"
  by (simp add: times_ok_def new_federation_def)

lemma node_ok_set: "node_ok node \<Longrightarrow> times_ok fed \<Longrightarrow> node_ok (set_federation i fed node)"
  by (simp add: node_ok_def set_federation_def)

lemma create_ok:
  "node_ok node \<Longrightarrow> create_federation_inner from_str name mods node = Some (node', r) \<Longrightarrow> node_ok node'"
  by (auto simp: create_federation_inner_def Let_def node_ok_def times_ok_new split: if_splits sum.splits option.splits)

lemma destroy_ok: "node_ok node \<Longrightarrow> node_ok (fst (destroy_federation_execution name node))"
  by (auto simp: destroy_federation_execution_def node_ok_def split: option.split)

lemma times_ok_add:
  assumes "times_ok fed" "session_time_ok fs"
  shows "times_ok (fed\<lparr>next_federate_id := n, federates := hinsert h fs (federates fed)\<rparr>)"
proof -
  have "session_time_ok g" if "(k, g) \<in> set (hinsert h fs (federates fed))" for k g
  proof -
    have wf: "wf_hmap (hinsert h fs (federates fed))" using assms(1) by (simp add: times_ok_def)
    have "map_of (hinsert h fs (federates fed)) k = Some g" using map_of_is_SomeI [OF wf that] .
    then show ?thesis using assms(2) times_ok_lookup [OF assms(1)] by (auto simp: session_time_ok_def split: if_splits)
  qed
  then show ?thesis using assms(1) by (auto simp: times_ok_def list_all_iff)
qed

lemma times_ok_drop: "times_ok fed \<Longrightarrow> times_ok (fed\<lparr>federates := hremove h (federates fed)\<rparr>)"
  using wf_hremove [of "federates fed" h] by (auto simp: times_ok_def list_all_iff hremove_def AList.delete_eq)

lemma session_time_ok_new:
  "session_time_ok \<lparr>fs_handle = h, fs_name = n, federate_type = t, fs_session_id = s, pub_sub = ps, time_st = default_time,
     switches = sw, tso_queue = []\<rparr>"
  by (simp add: session_time_ok_def sorted_queue_def time_ok_def sample_defs)

lemma join_ok: "node_ok node \<Longrightarrow> node_ok (fst (join req name ctx node))"
proof -
  assume ok: "node_ok node"
  then have t: "times_ok (fed_heap node i)" for i by (simp add: node_ok_def)
  have "times_ok ((fed_heap node i)\<lparr>next_federate_id := n\<rparr>)" for i n using t [of i] by (simp add: times_ok_def)
  then show ?thesis using ok times_ok_add [OF t session_time_ok_new]
    by (auto simp: join_def Let_def intro!: node_ok_set split: option.split)
qed

lemma resign_ok: "node_ok node \<Longrightarrow> node_ok (fst (resign ctx node))"
  by (auto simp: resign_def remove_federate_def Let_def node_ok_def set_federation_def times_ok_drop split: option.split)

lemma member_ok: "node_ok node \<Longrightarrow> node_ok (fst (dispatch_member node ctx q))"
proof -
  assume ok: "node_ok node"
  have j: "node_ok (fst (join_outcome node ctx n req name))" for n req name
    using join_ok [OF ok, of req name ctx] by (simp add: join_outcome_def split_def)
  show ?thesis using ok j resign_ok [OF ok, of ctx] by (cases q) (simp_all add: dispatch_member_def split_def)
qed

lemma federation_ok:
  assumes "node_ok node" "dispatch_federation from_str node ctx q = Some (node', ctx', cbs, r)"
  shows "node_ok node'"
  using assms destroy_ok [OF assms(1)] create_ok [OF assms(1)]
  by (cases q) (auto simp: dispatch_federation_def create_outcome_def split: prod.splits, metis fst_conv)

lemma dispatch_federation_returns:
  assumes "\<And>mods. try_map (decode_fom_module from_str) msgs = Inr mods \<Longrightarrow> Suc (fom_size mods) < 2 ^ 32"
  shows "create_outcome from_str node ctx response name msgs \<noteq> None"
proof (cases "try_map (decode_fom_module from_str) msgs")
  case (Inr mods)
  show ?thesis
  proof (cases "merge_modules mods")
    case m: (Inr r)
    obtain f where "r = Some f" using merge_modules_wf [OF m assms [OF Inr]] by blast
    then show ?thesis using Inr m by (simp add: create_outcome_def create_federation_inner_def Let_def)
  qed (simp add: create_outcome_def create_federation_inner_def Let_def Inr)
qed (simp add: create_outcome_def create_federation_inner_def Let_def)

text \<open>The FOM modules a request carries.\<close>

fun modules_of :: "CallRequest option \<Rightarrow> FomModuleMsg list" where
  "modules_of (Some (FederationCall (CreateFederationExecution _ m))) = option_list m"
| "modules_of (Some (FederationCall (CreateFederationExecutionWithTime _ m))) = option_list m"
| "modules_of (Some (FederationCall (CreateFederationExecutionWithModulesAndTime _ ms))) = unwrap_or [] ms"
| "modules_of (Some (FederationCall (CreateFederationExecutionWithMim _ ms mim))) = unwrap_or [] ms @ option_list mim"
| "modules_of (Some (FederationCall (CreateFederationExecutionWithMimAndTime _ ms mim))) = unwrap_or [] ms @ option_list mim"
| "modules_of (Some (FederationCall (CreateFederationExecutionWithModules _ ms))) = unwrap_or [] ms"
| "modules_of _ = []"

text \<open>The services of a joined federate, all of which start with the check of the membership.\<close>

fun federate_service :: "CallRequest option \<Rightarrow> bool" where
  "federate_service (Some (SwitchCall _)) = True"
| "federate_service (Some (DeclarationCall _)) = True"
| "federate_service (Some (PassiveCall _)) = True"
| "federate_service (Some (ObjectCall _)) = True"
| "federate_service (Some (OwnershipCall _)) = True"
| "federate_service (Some (SaveCall _)) = True"
| "federate_service (Some (SyncCall _)) = True"
| "federate_service (Some (RegionCall _)) = True"
| "federate_service (Some (TimeCall _)) = True"
| "federate_service (Some (DirectedCall _)) = True"
| "federate_service _ = False"

lemma not_joined:
  assumes "membership ctx = None"
  shows "with_membership node ctx n f h = (node, ctx, [], not_member)"
    and "query_membership node ctx n f q = (node, ctx, [], not_member)"
    and "save_progress_outcome serde node ctx b = (node, ctx, [], not_member)"
  using assms by (simp_all add: with_membership_def query_membership_def save_progress_outcome_def)

lemma not_joined_service:
  assumes "membership ctx = None"
  shows "dispatch_switch node ctx q1 = (node, ctx, [], not_member)"
    "dispatch_declaration node ctx q2 = (node, ctx, [], not_member)" "dispatch_passive node ctx q3 = (node, ctx, [], not_member)"
    "dispatch_object node ctx q4 = (node, ctx, [], not_member)" "dispatch_ownership node ctx q5 = (node, ctx, [], not_member)"
    "dispatch_save serde node ctx q6 = (node, ctx, [], not_member)" "dispatch_sync node ctx q7 = (node, ctx, [], not_member)"
    "dispatch_region node ctx q8 = (node, ctx, [], not_member)" "dispatch_time node ctx q9 = (node, ctx, [], not_member)"
    "dispatch_directed node ctx q10 = (node, ctx, [], not_member)"
  by (simp_all add: not_joined [OF assms] dispatch_switch_def dispatch_declaration_def dispatch_passive_def dispatch_object_def dispatch_ownership_def
      dispatch_save_def dispatch_sync_def dispatch_region_def dispatch_time_def dispatch_directed_def Let_def
      split: SwitchRequest.split DeclarationRequest.split PassiveRequest.split ObjectRequest.split OwnershipRequest.split
        SaveRequest.split SyncRequest.split RegionRequest.split TimeRequest.split DirectedRequest.split)

lemma not_joined_lookup:
  assumes "membership ctx = None"
  shows "\<exists>r. dispatch_lookup node ctx q = (node, ctx, [], r)" "\<exists>r. dispatch_handle node ctx q' = (node, ctx, [], r)"
  by (auto simp: not_joined [OF assms] dispatch_lookup_def dispatch_handle_def split: LookupRequest.split HandleRequest.split option.split)

lemma subscribed_after_unsubscribe_class:
  "\<not> subscribed (subscriptions (fst (unsubscribe_object_class me (Some (encode_object_class c)) fed))) c a f"
  by (simp add: unsubscribe_object_class_def object_class.ok_dec_enc Let_def subscribed_remove_class)

subsection \<open>Properties\<close>

definition joined_node :: RtiNode where
  "joined_node = new_node\<lparr>federations := [(''f'', 0)], next_federation := 1, connections := [7, 8],
     fed_heap := (\<lambda>i. if i = 0 then flow_fed else new_federation [] empty_fom)\<rparr>"

definition joined_ctx :: SessionContext where
  "joined_ctx = \<lparr>sc_session_id = 7, membership = Some \<lparr>mb_federation = 0, mb_federate_handle = 1, mb_federate_name = ''a''\<rparr>\<rparr>"

lemma joined_node_ok: "node_ok joined_node"
proof -
  have "times_ok flow_fed"
    by (simp add: times_ok_def flow_fed_def sample_federate_def session_time_ok_def sorted_queue_def time_ok_def sample_defs)
  then show ?thesis by (simp add: node_ok_def joined_node_def times_ok_new)
qed

text \<open>C1. A service call stays inside the caller's federation. Every call outside federation management returns;
  it leaves the registry of federations, the connections and the caller's session as they are and every
  federation but the caller's untouched; in that one no federate joins, leaves, or changes its handle, name
  or session, the next handle stays, and the invariant of logical times and queues is kept.\<close>

theorem service_calls_are_confined:
  assumes "node_ok node" and "\<not> manages_federations q"
  shows "\<exists>node' cbs r. dispatch_call from_str serde node ctx q = Some (node', ctx, cbs, r) \<and>
    federations node' = federations node \<and> connections node' = connections node \<and>
    (\<forall>i. ident_view (fed_heap node' i) = ident_view (fed_heap node i) \<and> times_ok (fed_heap node' i)) \<and>
    (\<forall>i. fed_heap node' i = fed_heap node i \<or> map_option mb_federation (membership ctx) = Some i)"
proof -
  obtain node' ctx' cbs r where "dispatch_call from_str serde node ctx q = Some (node', ctx', cbs, r)"
    "confined node ctx (node', ctx', cbs, r)"
    using dispatch_confined [OF assms, of from_str serde ctx] by (metis prod_cases4)
  moreover from this(2) have "ctx' = ctx" "federations node' = federations node" "connections node' = connections node"
    "\<And>i. good_change (fed_heap node i) (fed_heap node' i)"
    "\<And>i. map_option mb_federation (membership ctx) \<noteq> Some i \<Longrightarrow> fed_heap node' i = fed_heap node i"
    by (auto simp: confined_def runtime_view_def)
  ultimately show ?thesis using assms(1) unfolding good_change_def node_ok_def by blast
qed

theorem service_calls_are_confined_witness:
  "\<exists>node' cbs r. dispatch_call (\<lambda>_. Inl []) (sample_serde (snapshot flow_fed)) joined_node joined_ctx
       (Some (TimeCall EnableTimeConstrained)) = Some (node', joined_ctx, cbs, r) \<and> federations node' = [(''f'', 0)]"
proof -
  have "\<not> manages_federations (Some (TimeCall EnableTimeConstrained))" by simp
  from service_calls_are_confined [OF joined_node_ok this] show ?thesis by (fastforce simp: joined_node_def)
qed

text \<open>C12. Every call returns, and keeps the invariant of the node: in every federation the logical times,
  lookaheads and pending advances are in order and the queues sorted. The only recursion that is not bounded
  by the state, the one that assigns handles in a merge, returns when the modules the call carries have
  fewer classes, attributes and parameters than there are 32-bit handles.\<close>

theorem dispatch_returns:
  assumes "node_ok node"
    and "\<And>mods. try_map (decode_fom_module from_str) (modules_of q) = Inr mods \<Longrightarrow> Suc (fom_size mods) < 2 ^ 32"
  shows "\<exists>node' ctx' cbs r. dispatch_call from_str serde node ctx q = Some (node', ctx', cbs, r) \<and> node_ok node'"
proof (cases "manages_federations q")
  case False
  obtain node' ctx' cbs r where "dispatch_call from_str serde node ctx q = Some (node', ctx', cbs, r)"
    "confined node ctx (node', ctx', cbs, r)"
    using dispatch_confined [OF assms(1) False, of from_str serde ctx] by (metis prod_cases4)
  then show ?thesis using assms(1) by (auto simp: confined_def good_change_def node_ok_def)
next
  case True
  then consider m where "q = Some (MemberCall m)" | f where "q = Some (FederationCall f)"
    by (cases q rule: manages_federations.cases) auto
  then show ?thesis
  proof cases
    case 1
    then show ?thesis using member_ok [OF assms(1), of ctx m] by (cases "dispatch_member node ctx m") (auto simp: dispatch_call_def)
  next
    case 2
    have "dispatch_federation from_str node ctx f \<noteq> None"
      using assms(2) dispatch_federation_returns [of from_str "modules_of q" node ctx]
      by (cases f) (simp_all add: 2 dispatch_federation_def split_def)
    then obtain node' ctx' cbs r where "dispatch_federation from_str node ctx f = Some (node', ctx', cbs, r)"
      by (metis option.exhaust prod_cases4)
    then show ?thesis using federation_ok [OF assms(1)] by (auto simp: dispatch_call_def 2)
  qed
qed

theorem dispatch_returns_witness:
  "\<exists>node' ctx' cbs r. dispatch_call (\<lambda>_. Inl []) (sample_serde (snapshot flow_fed)) joined_node joined_ctx
     (Some (FederationCall (CreateFederationExecution ''g'' None))) = Some (node', ctx', cbs, r) \<and> node_ok node'"
  by (rule dispatch_returns [OF joined_node_ok]) (simp add: option_list_def fom_size_def)

text \<open>A session that has not joined a federation can do nothing to one: outside federation management
  its calls change nothing and send nothing, and every federate service answers that the caller is not a
  member of an execution.\<close>

theorem not_joined_changes_nothing:
  assumes "membership ctx = None" and "\<not> manages_federations q"
  shows "\<exists>r. dispatch_call from_str serde node ctx q = Some (node, ctx, [], r) \<and> (federate_service q \<longrightarrow> r = not_member)"
proof (cases q)
  case (Some c)
  then show ?thesis using assms(2) not_joined_lookup [OF assms(1)]
    by (cases c) (auto simp: dispatch_call_def not_joined_service [OF assms(1)])
qed (simp add: dispatch_call_def)

theorem not_joined_changes_nothing_witness:
  "dispatch_call (\<lambda>_. Inl []) (sample_serde (snapshot flow_fed)) joined_node (new_session_context 9)
     (Some (TimeCall EnableTimeConstrained)) = Some (joined_node, new_session_context 9, [], not_member)"
  using not_joined_changes_nothing [of "new_session_context 9" "Some (TimeCall EnableTimeConstrained)"]
  by (simp add: new_session_context_def)

text \<open>C38. Unsubscribing an object class removes the subscriptions of every federate to the class, not only the
  caller's: afterwards nobody is subscribed to any of its attributes, while the records of the other federates
  still list theirs.\<close>

theorem unsubscribe_object_class_drops_all:
  assumes "unsubscribe_object_class me (Some (encode_object_class c)) fed = (fed', cbs, r)"
  shows "\<not> subscribed (subscriptions fed') c a f \<and>
    (f = me \<or> map_option (subscribed_attrs \<circ> pub_sub) (map_of (federates fed') f) =
       map_option (subscribed_attrs \<circ> pub_sub) (map_of (federates fed) f))"
  using subscribed_after_unsubscribe_class [of me c fed a f] assms
  by (auto simp: unsubscribe_object_class_def object_class.ok_dec_enc Let_def modify_pub_sub_def modify_federate_def
      split: if_splits)

theorem unsubscribe_object_class_drops_all_witness:
  "subscribed (subscriptions flow_fed) 3 4 2 \<and>
   (\<exists>fed' cbs r. unsubscribe_object_class 1 (Some (encode_object_class 3)) flow_fed = (fed', cbs, r) \<and>
      \<not> subscribed (subscriptions fed') 3 4 2)"
proof -
  obtain fed' cbs r where u: "unsubscribe_object_class 1 (Some (encode_object_class 3)) flow_fed = (fed', cbs, r)"
    by (metis prod_cases3)
  from unsubscribe_object_class_drops_all [OF u, of 4 2] u flow_fed_subscribed show ?thesis by blast
qed

end
