(* ===== verification/Server_Inv.thy ===== *)
theory Server_Inv
  imports Server Dispatch_Props
begin

text \<open>
  The invariant of a server and its parts. Every session that is running or suspended holds the federate it has
  joined with: the federate is registered in its federation under the session's identifier. Session identifiers
  are used once, and the connections are those of the tasks in their session loop. The number of steps bounds
  the counters of sessions and federates.
\<close>

subsection \<open>Nodes and the memberships held on them\<close>

definition valid_membership :: "RtiNode \<Rightarrow> u64 \<Rightarrow> Membership \<Rightarrow> bool" where
  "valid_membership node sid m \<longleftrightarrow>
     mb_federation m < next_federation node \<and>
     (\<exists>fs. map_of (federates (fed_heap node (mb_federation m))) (mb_federate_handle m) = Some fs \<and>
        fs_session_id fs = sid \<and> fs_name fs = mb_federate_name m)"

definition handles_below :: "nat \<Rightarrow> Federation \<Rightarrow> bool" where
  "handles_below n fed \<longleftrightarrow> unat (next_federate_id fed) \<le> Suc n \<and> (\<forall>h\<in>fst ` set (federates fed). h < next_federate_id fed)"

definition node_inv :: "nat \<Rightarrow> RtiNode \<Rightarrow> (u64 \<times> Membership) set \<Rightarrow> bool" where
  "node_inv n node held \<longleftrightarrow>
     node_ok node \<and> (\<forall>i. handles_below n (fed_heap node i)) \<and> (\<forall>i\<in>snd ` set (federations node). i < next_federation node) \<and>
     (\<forall>(sid, m)\<in>held. valid_membership node sid m)"

lemma ident_view_lookup:
  assumes "ident_view fed' = ident_view fed" "map_of (federates fed) h = Some fs"
  shows "\<exists>fs'. map_of (federates fed') h = Some fs' \<and> fs_session_id fs' = fs_session_id fs \<and> fs_name fs' = fs_name fs"
proof -
  have view: "map_option (\<lambda>fs. (fs_handle fs, fs_name fs, fs_session_id fs)) (map_of (federates f) h) =
      map_of (snd (ident_view f)) h" for f
    by (simp add: ident_view_def map_of_map)
  have "map_option (\<lambda>fs. (fs_handle fs, fs_name fs, fs_session_id fs)) (map_of (federates fed') h) =
      Some (fs_handle fs, fs_name fs, fs_session_id fs)"
    using view [of fed] view [of fed'] assms by simp
  then show ?thesis by auto
qed

lemma handles_below_view:
  assumes "ident_view fed' = ident_view fed" "handles_below n fed" shows "handles_below n fed'"
proof -
  have "fst ` set (federates f) = fst ` set (snd (ident_view f))" for f
    by (force simp: ident_view_def)
  then show ?thesis using assms by (simp add: handles_below_def) (simp add: ident_view_def)
qed

lemma node_inv_mono: "node_inv n node held \<Longrightarrow> n \<le> n' \<Longrightarrow> held' \<subseteq> held \<Longrightarrow> node_inv n' node held'"
  by (auto simp: node_inv_def handles_below_def) (meson Suc_le_mono order_trans)

lemma node_inv_insert: "node_inv n node held \<Longrightarrow> valid_membership node sid m \<Longrightarrow> node_inv n node (insert (sid, m) held)"
  by (simp add: node_inv_def)

lemma node_inv_runtime:
  assumes "node_inv n node held" "fed_heap node' = fed_heap node" "federations node' = federations node"
    "next_federation node' = next_federation node"
  shows "node_inv n node' held"
  using assms by (simp add: node_inv_def node_ok_def valid_membership_def)

lemma node_inv_confined:
  assumes "node_inv n node held" "confined node ctx (node', ctx', cbs, r)"
  shows "node_inv n node' held"
proof -
  have same: "ident_view (fed_heap node' i) = ident_view (fed_heap node i)" for i
    using assms(2) by (auto simp: confined_def good_change_def)
  have "valid_membership node' sid m" if "valid_membership node sid m" for sid m
    using that assms(2) ident_view_lookup [OF same] by (fastforce simp: valid_membership_def confined_def)
  moreover have "node_ok node'"
    using assms by (auto simp: confined_def good_change_def node_ok_def node_inv_def)
  ultimately show ?thesis using assms handles_below_view [OF same] by (auto simp: node_inv_def confined_def)
qed

text \<open>Removing the federate of one holder leaves the others theirs.\<close>

lemma node_inv_remove:
  assumes "node_inv n node held" "valid_membership node sid m" "\<And>m'. (sid, m') \<notin> held"
  shows "node_inv n (remove_federate m node) held"
proof -
  have "handles_below n (fed_heap (remove_federate m node) i)" for i
    using assms(1) by (auto simp: node_inv_def handles_below_def remove_federate_def set_federation_def Let_def hremove_def)
  moreover have "node_ok (remove_federate m node)"
    using assms(1) times_ok_drop by (simp add: node_inv_def remove_federate_def Let_def node_ok_def set_federation_def)
  moreover have "valid_membership (remove_federate m node) s m'" if "(s, m') \<in> held" for s m'
  proof -
    have v: "valid_membership node s m'" using assms(1) that by (auto simp: node_inv_def)
    have "s \<noteq> sid" using assms(3) that by auto
    then have "(mb_federation m', mb_federate_handle m') \<noteq> (mb_federation m, mb_federate_handle m)"
      using v assms(2) by (auto simp: valid_membership_def)
    then show ?thesis using v by (auto simp: valid_membership_def remove_federate_def set_federation_def Let_def)
  qed
  ultimately show ?thesis using assms(1)
    by (auto simp: node_inv_def remove_federate_def set_federation_def Let_def)
qed

subsection \<open>Calls\<close>

text \<open>The holder of a session context, if it has joined.\<close>

definition held_by :: "SessionContext \<Rightarrow> (u64 \<times> Membership) set" where
  "held_by ctx = {(sc_session_id ctx, m) | m. membership ctx = Some m}"

lemma set_hinsert_subset: "set (hinsert k v m) \<subseteq> insert (k, v) (set m)"
  by (induction m) (auto simp: hinsert_def)

lemma node_inv_create:
  assumes "node_inv n node held" "create_federation_inner from_str name mods node = Some (node', r)"
  shows "node_inv n node' held"
proof -
  have fresh: "handles_below n (new_federation name f)" for f by (simp add: handles_below_def new_federation_def)
  have below: "mb_federation m \<noteq> next_federation node" if "valid_membership node sid m" for sid m
    using that by (simp add: valid_membership_def)
  have ins: "node_inv n (node\<lparr>federations := hinsert name (next_federation node) (federations node),
      fed_heap := (fed_heap node)(next_federation node := new_federation name f),
      next_federation := Suc (next_federation node)\<rparr>) held" for f
  proof -
    have "i < Suc (next_federation node)" if "(a, i) \<in> set (hinsert name (next_federation node) (federations node))" for a i
      using that assms(1) set_hinsert_subset [of name "next_federation node" "federations node"] by (force simp: node_inv_def)
    moreover have "node_ok (node\<lparr>federations := hinsert name (next_federation node) (federations node),
      fed_heap := (fed_heap node)(next_federation node := new_federation name f),
      next_federation := Suc (next_federation node)\<rparr>)"
      using assms(1) times_ok_new by (simp add: node_inv_def node_ok_def)
    ultimately show ?thesis using assms(1) fresh below by (fastforce simp: node_inv_def valid_membership_def)
  qed
  show ?thesis using assms ins
    by (auto simp: create_federation_inner_def Let_def split: if_splits sum.splits option.splits)
qed

lemma node_inv_destroy: "node_inv n node held \<Longrightarrow> node_inv n (fst (destroy_federation_execution name node)) held"
  by (auto simp: destroy_federation_execution_def node_inv_def node_ok_def valid_membership_def hremove_def split: option.split)

lemma node_inv_set_federation:
  assumes inv: "node_inv n node held" and fed: "times_ok fed" "handles_below (Suc n) fed"
    and keep: "\<And>h fs. map_of (federates (fed_heap node i)) h = Some fs \<Longrightarrow> map_of (federates fed) h = Some fs"
  shows "node_inv (Suc n) (set_federation i fed node) held"
proof -
  have "handles_below (Suc n) (fed_heap node j)" for j
    using node_inv_mono [OF inv, of "Suc n" held] by (simp add: node_inv_def)
  then show ?thesis using inv fed keep node_ok_set [of node fed i]
    by (fastforce simp: node_inv_def valid_membership_def set_federation_def)
qed

lemma handles_below_next:
  assumes "handles_below n fed" "n < 2 ^ 32 - 2"
  shows "handles_below (Suc n) (fed\<lparr>next_federate_id := next_federate_id fed + 1\<rparr>)"
    "handles_below (Suc n) (fed\<lparr>next_federate_id := next_federate_id fed + 1,
       federates := hinsert (next_federate_id fed) fs (federates fed)\<rparr>)"
proof -
  have "unat (next_federate_id fed) + 1 < 2 ^ 32" using assms by (simp add: handles_below_def)
  then have "unat (next_federate_id fed + 1) = Suc (unat (next_federate_id fed))"
    by (simp add: unat_word_ariths)
  moreover from this have "next_federate_id fed < next_federate_id fed + 1" by (simp add: word_less_nat_alt)
  ultimately show "handles_below (Suc n) (fed\<lparr>next_federate_id := next_federate_id fed + 1\<rparr>)"
    "handles_below (Suc n) (fed\<lparr>next_federate_id := next_federate_id fed + 1,
       federates := hinsert (next_federate_id fed) fs (federates fed)\<rparr>)"
    using assms(1) by (auto simp: handles_below_def keys_hinsert simp del: image_insert)
qed

lemma node_inv_join:
  assumes inv: "node_inv n node (held \<union> held_by ctx)" and j: "join req name ctx node = (node', ctx', r)"
    and n: "n < 2 ^ 32 - 2"
  shows "node_inv (Suc n) node' (held \<union> held_by ctx') \<and> sc_session_id ctx' = sc_session_id ctx"
proof (cases "is_joined ctx \<or> map_of (federations node) name = None")
  case True
  then have "node' = node \<and> ctx' = ctx" using j by (cases "is_joined ctx") (simp_all add: join_def)
  then show ?thesis using node_inv_mono [OF inv] by simp
next
  case False
  then obtain i where i: "map_of (federations node) name = Some i" and none: "membership ctx = None"
    by (auto simp: is_joined_def)
  let ?fed = "fed_heap node i" and ?raw = "next_federate_id (fed_heap node i)"
  have below: "handles_below n ?fed" "times_ok ?fed" and reg: "i < next_federation node"
    using inv map_of_SomeD [OF i] by (force simp: node_inv_def node_ok_def)+
  have new: "map_of (federates ?fed) ?raw = None" using below(1) by (force simp: handles_below_def map_of_eq_None_iff)
  note hb = handles_below_next [OF below(1) n]
  have "times_ok (?fed\<lparr>next_federate_id := ?raw + 1\<rparr>)" using below(2) by (simp add: times_ok_def)
  from node_inv_set_federation [OF inv this hb(1), of i]
  have fail: "node_inv (Suc n) (set_federation i (?fed\<lparr>next_federate_id := ?raw + 1\<rparr>) node) (held \<union> held_by ctx)" by simp
  have ok: "node_inv (Suc n) (set_federation i (?fed\<lparr>next_federate_id := ?raw + 1, federates := hinsert ?raw fs (federates ?fed)\<rparr>) node)
      (insert (sc_session_id ctx, \<lparr>mb_federation = i, mb_federate_handle = ?raw, mb_federate_name = fs_name fs\<rparr>) held)"
    if "session_time_ok fs" "fs_session_id fs = sc_session_id ctx" for fs
  proof -
    let ?fed2 = "?fed\<lparr>next_federate_id := ?raw + 1, federates := hinsert ?raw fs (federates ?fed)\<rparr>"
    have "map_of (federates ?fed2) h = Some g" if "map_of (federates ?fed) h = Some g" for h g using that new by auto
    from node_inv_set_federation [OF inv times_ok_add [OF below(2) that(1)] hb(2) this]
    have "node_inv (Suc n) (set_federation i ?fed2 node) (held \<union> held_by ctx)" .
    then have "node_inv (Suc n) (set_federation i ?fed2 node) held" by (rule node_inv_mono) auto
    then show ?thesis by (rule node_inv_insert) (simp add: valid_membership_def set_federation_def that(2) reg)
  qed
  show ?thesis using False i none j fail ok [OF session_time_ok_new]
    by (auto simp: join_def held_by_def Let_def split: if_splits option.splits)
qed

lemma runtime_view_set [simp]: "runtime_view (set_federation i fed node) = runtime_view node"
  by (simp add: runtime_view_def set_federation_def)

lemma runtime_view_remove [simp]: "runtime_view (remove_federate m node) = runtime_view node"
  by (simp add: remove_federate_def Let_def)

lemma runtime_view_join: "runtime_view (fst (join req name ctx node)) = runtime_view node"
  by (simp add: join_def Let_def split: option.split)

lemma runtime_view_create:
  "create_federation_inner from_str name mods node = Some (node', r) \<Longrightarrow> runtime_view node' = runtime_view node"
  by (auto simp: runtime_view_def create_federation_inner_def Let_def split: if_splits option.splits sum.splits)

lemma runtime_view_destroy: "runtime_view (fst (destroy_federation_execution name node)) = runtime_view node"
  by (simp add: runtime_view_def destroy_federation_execution_def split: option.split)

lemma create_outcomeD:
  "create_outcome from_str node ctx response name mods = Some (node', ctx', cbs, r) \<Longrightarrow>
     ctx' = ctx \<and> (\<exists>r'. create_federation_inner from_str name mods node = Some (node', r'))"
  by (auto simp: create_outcome_def)

lemma dispatch_federationD:
  assumes "dispatch_federation from_str node ctx f = Some (node', ctx', cbs, r)"
  shows "ctx' = ctx \<and> ((\<exists>name mods r'. create_federation_inner from_str name mods node = Some (node', r')) \<or>
    (\<exists>name. node' = fst (destroy_federation_execution name node)))"
  using assms by (cases f) (auto simp: dispatch_federation_def split_def dest!: create_outcomeD)

lemma node_inv_member:
  assumes inv: "node_inv n node (held \<union> held_by ctx)" and own: "\<And>m'. (sc_session_id ctx, m') \<notin> held"
    and d: "dispatch_member node ctx q = (node', ctx', cbs, r)" and n: "n < 2 ^ 32 - 2"
  shows "node_inv (Suc n) node' (held \<union> held_by ctx') \<and> sc_session_id ctx' = sc_session_id ctx \<and>
    runtime_view node' = runtime_view node"
proof -
  have suc: "node_inv (Suc n) node (held \<union> held_by ctx)" by (rule node_inv_mono [OF inv]) auto
  have j: "node_inv (Suc n) node1 (held \<union> held_by ctx1) \<and> sc_session_id ctx1 = sc_session_id ctx \<and> runtime_view node1 = runtime_view node"
    if "join req name ctx node = (node1, ctx1, r1)" for req name node1 ctx1 r1
    using node_inv_join [OF inv that n] runtime_view_join [of req name ctx node] that by simp
  have resign: "node_inv (Suc n) node1 (held \<union> held_by ctx1) \<and> sc_session_id ctx1 = sc_session_id ctx \<and> runtime_view node1 = runtime_view node"
    if r: "resign ctx node = (node1, ctx1, r1)" for node1 ctx1 r1
  proof (cases "membership ctx")
    case None
    then show ?thesis using suc r by (simp add: resign_def)
  next
    case (Some m)
    have h: "node_inv (Suc n) node held" by (rule node_inv_mono [OF inv]) auto
    have "valid_membership node (sc_session_id ctx) m" using inv Some by (auto simp: node_inv_def held_by_def)
    from node_inv_remove [OF h this own] r Some show ?thesis by (auto simp: resign_def held_by_def)
  qed
  have jo: ?thesis if out: "join_outcome node ctx resp req name = (node', ctx', cbs, r)" for resp req name
  proof -
    obtain r1 where "join req name ctx node = (node', ctx', r1)"
      using out by (cases "join req name ctx node") (simp add: join_outcome_def)
    from j [OF this] show ?thesis .
  qed
  have quiet: ?thesis if "node' = node" "ctx' = ctx" using that suc by simp
  show ?thesis
  proof (cases q)
    case ResignFederationExecution
    with d obtain r1 where "resign ctx node = (node', ctx', r1)" by (cases "resign ctx node") (simp add: dispatch_member_def)
    from resign [OF this] show ?thesis .
  next
    case (JoinFederationExecution a)
    from d show ?thesis unfolding JoinFederationExecution dispatch_member_def by (intro jo) simp
  next
    case (JoinFederationExecutionWithName a b)
    from d show ?thesis unfolding JoinFederationExecutionWithName dispatch_member_def by (intro jo) simp
  next
    case (JoinFederationExecutionWithModules a)
    from d show ?thesis unfolding JoinFederationExecutionWithModules dispatch_member_def by (intro jo) simp
  next
    case (JoinFederationExecutionWithNameAndModules a b)
    from d show ?thesis unfolding JoinFederationExecutionWithNameAndModules dispatch_member_def by (intro jo) simp
  qed (rule quiet; use d in \<open>simp add: dispatch_member_def\<close>)+
qed

lemma node_inv_dispatch:
  assumes inv: "node_inv n node (held \<union> held_by ctx)" and own: "\<And>m'. (sc_session_id ctx, m') \<notin> held"
    and d: "dispatch_call from_str serde node ctx q = Some (node', ctx', cbs, r)" and n: "n < 2 ^ 32 - 2"
  shows "node_inv (Suc n) node' (held \<union> held_by ctx') \<and> sc_session_id ctx' = sc_session_id ctx \<and>
    runtime_view node' = runtime_view node"
proof (cases "manages_federations q")
  case False
  have "node_ok node" using inv by (simp add: node_inv_def)
  from dispatch_confined [OF this False, of from_str serde ctx] d have c: "confined node ctx (node', ctx', cbs, r)" by auto
  have "node_inv (Suc n) node' (held \<union> held_by ctx)" by (rule node_inv_mono [OF node_inv_confined [OF inv c]]) auto
  with c show ?thesis by (auto simp: confined_def)
next
  case True
  then consider m where "q = Some (MemberCall m)" | f where "q = Some (FederationCall f)"
    by (cases q rule: manages_federations.cases) auto
  then show ?thesis
  proof cases
    case 1
    then show ?thesis using node_inv_member [OF inv own _ n] d by (auto simp: dispatch_call_def)
  next
    case 2
    have suc: "node_inv (Suc n) node (held \<union> held_by ctx)" by (rule node_inv_mono [OF inv]) auto
    have "dispatch_federation from_str node ctx f = Some (node', ctx', cbs, r)" using d 2 by (simp add: dispatch_call_def)
    from dispatch_federationD [OF this] show ?thesis
      using node_inv_create [OF suc] node_inv_destroy [OF suc] runtime_view_create runtime_view_destroy by blast
  qed
qed

subsection \<open>Tasks, identifiers and connections\<close>

text \<open>The session identifier a task uses, and the memberships held by tasks and by suspended sessions.\<close>

definition task_id :: "Task \<Rightarrow> u64" where
  "task_id t = (case tk_phase t of InSession sl \<Rightarrow> sc_session_id (sl_ctx sl) | _ \<Rightarrow> tk_candidate t)"

definition in_session :: "Task \<Rightarrow> bool" where
  "in_session t \<longleftrightarrow> (\<exists>sl. tk_phase t = InSession sl)"

definition task_held :: "Task \<Rightarrow> (u64 \<times> Membership) set" where
  "task_held t = (case tk_phase t of InSession sl \<Rightarrow> held_by (sl_ctx sl) | _ \<Rightarrow> {})"

definition over_tasks :: "(Task \<Rightarrow> 'a set) \<Rightarrow> (nat, Task) hmap \<Rightarrow> 'a set" where
  "over_tasks f ts = {x. \<exists>k t. map_of ts k = Some t \<and> x \<in> f t}"

abbreviation running :: "(nat, Task) hmap \<Rightarrow> (u64 \<times> Membership) set" where
  "running \<equiv> over_tasks task_held"

definition session_id_of :: "Task \<Rightarrow> u64 set" where
  "session_id_of t = (if in_session t then {task_id t} else {})"

definition parked :: "RtiNode \<Rightarrow> (u64 \<times> Membership) set" where
  "parked node = {(sid, m). \<exists>s. map_of (suspended_sessions node) sid = Some s \<and> su_membership s = Some m}"

definition holders :: "Server \<Rightarrow> (u64 \<times> Membership) set" where
  "holders sv = running (sv_tasks sv) \<union> parked (sv_node sv)"

definition ids_ok :: "nat \<Rightarrow> u64 \<Rightarrow> u64 set \<Rightarrow> (nat, Task) hmap \<Rightarrow> bool" where
  "ids_ok n next_sid parked_ids ts \<longleftrightarrow>
     (\<forall>k t. map_of ts k = Some t \<longrightarrow> task_id t < next_sid \<and> task_id t \<notin> parked_ids) \<and>
     (\<forall>k t k' t'. map_of ts k = Some t \<longrightarrow> map_of ts k' = Some t' \<longrightarrow> task_id t = task_id t' \<longrightarrow> k = k') \<and>
     (\<forall>sid\<in>parked_ids. sid < next_sid) \<and> unat next_sid \<le> Suc n"

definition conns_ok :: "u64 hset \<Rightarrow> handles \<Rightarrow> (nat, Task) hmap \<Rightarrow> bool" where
  "conns_ok cs hs ts \<longleftrightarrow>
     set cs = over_tasks session_id_of ts \<and> dom (map_of hs) = set cs"

abbreviation parked_ids :: "RtiNode \<Rightarrow> u64 set" where
  "parked_ids node \<equiv> dom (map_of (suspended_sessions node))"

definition server_inv :: "nat \<Rightarrow> Server \<Rightarrow> bool" where
  "server_inv n sv \<longleftrightarrow>
     node_inv n (sv_node sv) (holders sv) \<and>
     ids_ok n (next_session_id (sv_node sv)) (parked_ids (sv_node sv)) (sv_tasks sv) \<and>
     conns_ok (connections (sv_node sv)) (sv_handles sv) (sv_tasks sv) \<and>
     (\<forall>k t. map_of (sv_tasks sv) k = Some t \<longrightarrow> k < sv_next_task sv)"

lemma over_insert: "over_tasks f (hinsert k t ts) = f t \<union> over_tasks f (hremove k ts)"
  by (auto simp: over_tasks_def)

lemma over_lookup: "map_of ts k = Some t \<Longrightarrow> over_tasks f ts = f t \<union> over_tasks f (hremove k ts)"
  unfolding over_tasks_def map_of_hremove fun_upd_apply by (rule set_eqI) (simp, metis option.distinct(1) option.inject)

lemma over_new: "map_of ts k = None \<Longrightarrow> over_tasks f (hremove k ts) = over_tasks f ts"
  by (simp add: over_tasks_def fun_upd_idem)

lemma over_cong: "map_of ts k = Some t \<Longrightarrow> f t' = f t \<Longrightarrow> over_tasks f (hinsert k t' ts) = over_tasks f ts"
  by (simp add: over_insert over_lookup [of ts k t f])

lemma task_held_id: "(sid, m) \<in> task_held t \<Longrightarrow> sid = task_id t \<and> in_session t"
  by (auto simp: task_held_def task_id_def in_session_def held_by_def split: Phase.splits)

lemma running_id: "(sid, m) \<in> running ts \<Longrightarrow> \<exists>k t. map_of ts k = Some t \<and> task_id t = sid \<and> in_session t"
  by (auto simp: over_tasks_def dest: task_held_id)

lemma parked_id: "(sid, m) \<in> parked node \<Longrightarrow> sid \<in> parked_ids node"
  by (auto simp: parked_def)

text \<open>A task's identifier is not used by any other holder.\<close>

lemma own_id:
  assumes "ids_ok n nsid (parked_ids node) ts" "map_of ts k = Some t"
  shows "(task_id t, m) \<notin> running (hremove k ts) \<union> parked node"
proof -
  have "(task_id t, m) \<notin> parked node" using assms parked_id by (force simp: ids_ok_def)
  moreover have "(task_id t, m) \<notin> running (hremove k ts)"
  proof
    assume "(task_id t, m) \<in> running (hremove k ts)"
    from running_id [OF this] obtain k' t' where "map_of ts k' = Some t'" "k' \<noteq> k" "task_id t' = task_id t"
      by (auto split: if_splits)
    with assms show False by (auto simp: ids_ok_def)
  qed
  ultimately show ?thesis by simp
qed

lemma ids_mono: "ids_ok n nsid P ts \<Longrightarrow> n \<le> n' \<Longrightarrow> P' \<subseteq> P \<Longrightarrow> ids_ok n' nsid P' ts"
  by (auto simp: ids_ok_def)

lemma ids_remove: "ids_ok n nsid P ts \<Longrightarrow> ids_ok n nsid P (hremove k ts)"
  by (auto simp: ids_ok_def)

lemma ids_same: "ids_ok n nsid P ts \<Longrightarrow> map_of ts k = Some t \<Longrightarrow> task_id t' = task_id t \<Longrightarrow> ids_ok n nsid P (hinsert k t' ts)"
  by (auto simp: ids_ok_def)

lemma ids_park:
  assumes "ids_ok n nsid P ts" "map_of ts k = Some t"
  shows "ids_ok n nsid (insert (task_id t) P) (hremove k ts)"
  using assms by (auto simp: ids_ok_def)

lemma ids_resume:
  assumes "ids_ok n nsid P ts" "map_of ts k = Some t" "task_id t' \<in> P"
  shows "ids_ok n nsid (P - {task_id t'}) (hinsert k t' ts)"
proof -
  have "task_id u \<noteq> task_id t'" if "map_of ts j = Some u" for j u using assms(1,3) that by (force simp: ids_ok_def)
  then show ?thesis using assms by (auto simp: ids_ok_def)
qed

lemma ids_spawn:
  assumes "ids_ok n nsid P ts" "task_id t = nsid" "map_of ts k = None" "n < 2 ^ 32 - 2"
  shows "ids_ok (Suc n) (nsid + 1) P (hinsert k t ts)"
proof -
  have "unat nsid \<le> Suc n" using assms(1) by (simp add: ids_ok_def)
  then have "unat nsid + 1 < 2 ^ 64" using assms(4) by simp
  then have "unat (nsid + 1) = Suc (unat nsid)" by (simp add: unat_word_ariths)
  moreover from this have "nsid < nsid + 1" by (simp add: word_less_nat_alt)
  moreover from this have "x < nsid + 1" if "x < nsid" for x using that less_trans by blast
  moreover have "task_id u \<noteq> nsid" if "map_of ts j = Some u" for j u using assms(1) that by (force simp: ids_ok_def)
  ultimately show ?thesis using assms by (auto simp: ids_ok_def) (metis assms(2))
qed

text \<open>Connections follow the tasks in session.\<close>

lemma conns_same:
  "conns_ok cs hs ts \<Longrightarrow> map_of ts k = Some t \<Longrightarrow> session_id_of t' = session_id_of t \<Longrightarrow> conns_ok cs hs (hinsert k t' ts)"
  by (simp add: conns_ok_def over_cong)

lemma conns_other: "conns_ok cs hs ts \<Longrightarrow> map_of ts k = Some t \<Longrightarrow> \<not> in_session t \<Longrightarrow> conns_ok cs hs (hremove k ts)"
  by (simp add: conns_ok_def over_lookup [of ts k t session_id_of] session_id_of_def)

lemma conns_new: "conns_ok cs hs ts \<Longrightarrow> map_of ts k = None \<Longrightarrow> \<not> in_session t \<Longrightarrow> conns_ok cs hs (hinsert k t ts)"
  by (simp add: conns_ok_def over_insert over_new session_id_of_def)

lemma conns_begin:
  "conns_ok cs hs ts \<Longrightarrow> map_of ts k = Some t \<Longrightarrow> \<not> in_session t \<Longrightarrow> in_session t' \<Longrightarrow>
    conns_ok (hs_insert (task_id t') cs) (hinsert (task_id t') h hs) (hinsert k t' ts)"
  by (simp add: conns_ok_def over_insert over_lookup [of ts k t session_id_of] session_id_of_def)

lemma conns_end:
  assumes "conns_ok cs hs ts" "ids_ok n nsid P ts" "map_of ts k = Some t" "in_session t"
  shows "conns_ok (hs_remove (task_id t) cs) (hremove (task_id t) hs) (hremove k ts)"
proof -
  have "task_id t \<notin> over_tasks session_id_of (hremove k ts)"
    using assms(2,3) by (auto simp: over_tasks_def session_id_of_def ids_ok_def split: if_splits)
  then show ?thesis
    using assms by (auto simp: conns_ok_def over_lookup [of ts k t session_id_of] session_id_of_def)
qed

lemma conns_handles: "conns_ok cs hs ts \<Longrightarrow> dom (map_of hs') = dom (map_of hs) \<Longrightarrow> conns_ok cs hs' ts"
  by (simp add: conns_ok_def)

lemma channel_send_dom [simp]: "dom (map_of (fst (channel_send sid f hs))) = dom (map_of hs)"
  by (auto simp: channel_send_def split: option.split)

lemma deliver_dom: "dom (map_of (deliver_callbacks lib ocbs hs)) = dom (map_of hs)"
proof -
  have "dom (map_of (deliver_callback lib ocb hs)) = dom (map_of hs)" for ocb hs
    by (auto simp: deliver_callback_def split_def dom_fun_upd split: option.split)
  then show ?thesis by (induction ocbs arbitrary: hs) (simp_all add: deliver_callbacks_def)
qed

lemma heartbeat_dom: "dom (map_of (heartbeat_tick sid hs)) = dom (map_of hs)"
  by (auto simp: heartbeat_tick_def split_def dom_fun_upd split: option.split)

end
