(* ===== verification/Server_Props.thy ===== *)
theory Server_Props
  imports Server_Inv
begin

text \<open>
  What holds of a server whatever happens to its connections: every step keeps the invariant, so no two sessions,
  running or suspended, ever act for the same federate.
\<close>

subsection \<open>Every step keeps the invariant\<close>

text \<open>Changes of the node outside federations, sessions and connections.\<close>

definition quiet_change :: "RtiNode \<Rightarrow> RtiNode \<Rightarrow> bool" where
  "quiet_change node node' \<longleftrightarrow>
     fed_heap node' = fed_heap node \<and> federations node' = federations node \<and> next_federation node' = next_federation node \<and>
     suspended_sessions node' = suspended_sessions node \<and> connections node' = connections node \<and>
     next_session_id node' = next_session_id node"

lemma quiet_node_inv: "node_inv n node held \<Longrightarrow> quiet_change node node' \<Longrightarrow> node_inv n node' held"
  by (rule node_inv_runtime) (auto simp: quiet_change_def)

lemma quiet_parked: "quiet_change node node' \<Longrightarrow> parked node' = parked node"
  by (simp add: quiet_change_def parked_def)

lemma quiet_server_inv: "server_inv n sv \<Longrightarrow> quiet_change (sv_node sv) node' \<Longrightarrow> server_inv n (sv\<lparr>sv_node := node'\<rparr>)"
  using quiet_node_inv [of n "sv_node sv" _ node'] quiet_parked [of "sv_node sv" node']
  by (simp add: server_inv_def holders_def) (simp add: quiet_change_def)

lemma server_inv_Suc: "server_inv n sv \<Longrightarrow> server_inv (Suc n) sv"
  using node_inv_mono [of n "sv_node sv" "holders sv" "Suc n" "holders sv"] ids_mono [of n _ _ _ "Suc n", OF _ _ order_refl]
  by (simp add: server_inv_def)

lemma quiet_changes:
  "quiet_change node (count_accept b node)" "quiet_change node (upgrade_failed ip node)" "quiet_change node (connection_ended ip node)"
  "quiet_change node (set_connection_limits l node)" "quiet_change node (set_default_fom f node)"
  "quiet_change node (set_heartbeat_config c node)" "quiet_change node (node\<lparr>metrics := m\<rparr>)"
  by (simp_all add: quiet_change_def count_accept_def upgrade_failed_def connection_ended_def set_connection_limits_def
      set_default_fom_def set_heartbeat_config_def split: option.split)

lemma quiet_trans: "quiet_change a b \<Longrightarrow> quiet_change b c \<Longrightarrow> quiet_change a c"
  by (simp add: quiet_change_def)

text \<open>Accepting a connection.\<close>

lemma accept_result:
  assumes "accepted \<in> {accept_plain ip node, accept_ws ip node, accept_tls ip node}"
  shows "(snd accepted = None \<and> quiet_change node (fst accepted)) \<or>
    (snd accepted = Some (next_session_id node) \<and>
     quiet_change (node\<lparr>next_session_id := next_session_id node + 1\<rparr>) (fst accepted))"
  using assms
  by (auto simp: accept_plain_def accept_ws_def accept_tls_def take_session_id_def count_accept_def quiet_change_def split: sum.splits)

lemma spawn_inv:
  assumes inv: "server_inv n sv" and n: "n < 2 ^ 32 - 2" and phase: "phase = Upgrading \<or> phase = AwaitingFirst"
    and acc: "accepted \<in> {accept_plain ip (sv_node sv), accept_ws ip (sv_node sv), accept_tls ip (sv_node sv)}"
  shows "server_inv (Suc n) (spawn ip phase accepted sv)"
  using accept_result [OF acc]
proof
  assume "snd accepted = None \<and> quiet_change (sv_node sv) (fst accepted)"
  with quiet_server_inv [OF server_inv_Suc [OF inv]] show ?thesis by (cases accepted) (simp add: spawn_def)
next
  let ?sid = "next_session_id (sv_node sv)" and ?k = "sv_next_task sv"
  let ?t = "\<lparr>tk_ip = ip, tk_candidate = ?sid, tk_phase = phase\<rparr>"
  assume r: "snd accepted = Some ?sid \<and> quiet_change ((sv_node sv)\<lparr>next_session_id := ?sid + 1\<rparr>) (fst accepted)"
  have new: "map_of (sv_tasks sv) ?k = None"
    using inv by (metis server_inv_def less_irrefl not_Some_eq)
  have t: "task_id ?t = ?sid" "\<not> in_session ?t" "task_held ?t = {}"
    using phase by (auto simp: task_id_def in_session_def task_held_def)
  have held: "running (hinsert ?k ?t (sv_tasks sv)) = running (sv_tasks sv)" by (simp add: over_insert over_new new t)
  have "node_inv (Suc n) ((sv_node sv)\<lparr>next_session_id := ?sid + 1\<rparr>) (holders sv)"
    by (rule node_inv_runtime [of _ "sv_node sv"]) (use server_inv_Suc [OF inv] in \<open>simp_all add: server_inv_def\<close>)
  with r quiet_node_inv have "node_inv (Suc n) (fst accepted) (holders sv)" by blast
  moreover have "ids_ok (Suc n) (?sid + 1) (parked_ids (sv_node sv)) (hinsert ?k ?t (sv_tasks sv))"
    using inv t(1) new n by (intro ids_spawn) (auto simp: server_inv_def)
  moreover have "conns_ok (connections (sv_node sv)) (sv_handles sv) (hinsert ?k ?t (sv_tasks sv))"
    using inv new t(2) by (intro conns_new) (auto simp: server_inv_def)
  ultimately show ?thesis using inv r held
    by (cases accepted) (auto simp: spawn_def server_inv_def holders_def quiet_change_def parked_def less_Suc_eq)
qed

text \<open>Tasks outside a session.\<close>

lemma upgrade_inv:
  assumes "server_inv n sv" "map_of (sv_tasks sv) k = Some t" "tk_phase t = Upgrading"
  shows "server_inv n (sv\<lparr>sv_tasks := hinsert k (t\<lparr>tk_phase := AwaitingFirst\<rparr>) (sv_tasks sv)\<rparr>)"
proof -
  let ?t = "t\<lparr>tk_phase := AwaitingFirst\<rparr>"
  have "task_id ?t = task_id t" "task_held ?t = task_held t" "session_id_of ?t = session_id_of t"
    using assms(3) by (simp_all add: task_id_def task_held_def session_id_of_def in_session_def)
  with assms show ?thesis
    using over_cong [OF assms(2), of task_held ?t] ids_same [OF _ assms(2), of n _ _ ?t] conns_same [OF _ assms(2), of _ _ ?t]
    by (auto simp: server_inv_def holders_def)
qed

lemma drop_task_inv:
  assumes "server_inv n sv" "map_of (sv_tasks sv) k = Some t" "\<not> in_session t"
  shows "server_inv n (sv\<lparr>sv_tasks := hremove k (sv_tasks sv)\<rparr>)"
proof -
  have "task_held t = {}" using assms(3) by (auto simp: task_held_def in_session_def split: Phase.split)
  then have "running (hremove k (sv_tasks sv)) = running (sv_tasks sv)" using over_lookup [OF assms(2), of task_held] by simp
  then show ?thesis using assms ids_remove conns_other by (auto simp: server_inv_def holders_def)
qed

text \<open>A request to resume takes the suspended session off the table, whatever comes of it.\<close>

definition unpark :: "u64 \<Rightarrow> RtiNode \<Rightarrow> RtiNode" where
  "unpark sid node = node\<lparr>suspended_sessions := hremove sid (suspended_sessions node)\<rparr>"

lemma unpark_parked: "parked (unpark sid node) = parked node - {(s, m) | s m. s = sid}"
  by (auto simp: parked_def unpark_def split: if_splits)

lemma unpark_node_inv: "node_inv n node held \<Longrightarrow> node_inv n (unpark sid node) held"
  by (rule node_inv_runtime) (auto simp: unpark_def)

lemma unpark_inv: "server_inv n sv \<Longrightarrow> server_inv n (sv\<lparr>sv_node := unpark sid (sv_node sv)\<rparr>)"
proof -
  assume inv: "server_inv n sv"
  have "node_inv n (unpark sid (sv_node sv)) (running (sv_tasks sv) \<union> parked (unpark sid (sv_node sv)))"
    by (rule node_inv_mono [OF unpark_node_inv]) (use inv in \<open>auto simp: server_inv_def holders_def unpark_parked\<close>)
  moreover have "ids_ok n (next_session_id (sv_node sv)) (parked_ids (unpark sid (sv_node sv))) (sv_tasks sv)"
    by (rule ids_mono [of n _ "parked_ids (sv_node sv)"]) (use inv in \<open>auto simp: server_inv_def unpark_def split: if_splits\<close>)
  ultimately show ?thesis using inv by (simp add: server_inv_def holders_def) (simp add: unpark_def)
qed

lemma open_connection_result:
  "case open_connection now send_result c first node of (node', reply, res) \<Rightarrow>
     (\<exists>result. res = Inl result \<and> (node' = node \<or> (\<exists>sid. node' = unpark sid node))) \<or>
     (res = Inr (c, None) \<and> node' = node) \<or>
     (\<exists>sid s. res = Inr (sid, su_membership s) \<and> node' = unpark sid node \<and>
        map_of (suspended_sessions node) sid = Some s \<and> now < deadline s)"
proof (cases "message_type (header first)")
  case CtrlNewSession
  then show ?thesis by (simp add: open_connection_def split: sum.split)
next
  case CtrlResumeRequest
  let ?r = "hdr_session_id (header first)"
  have unp: "node\<lparr>suspended_sessions := hremove ?r (suspended_sessions node)\<rparr> = unpark ?r node" by (simp add: unpark_def)
  show ?thesis
  proof (cases "map_of (suspended_sessions node) ?r")
    case None
    with CtrlResumeRequest show ?thesis
      by (cases send_result) (simp_all add: open_connection_def Let_def unp, blast+)
  next
    case (Some s)
    show ?thesis
    proof (cases "now < deadline s")
      case True
      with Some CtrlResumeRequest show ?thesis
        by (cases send_result) (simp_all add: open_connection_def Let_def unp, blast+)
    next
      case False
      with Some CtrlResumeRequest show ?thesis
        by (cases send_result) (simp_all add: open_connection_def Let_def unp, blast+)
    qed
  qed
qed (simp_all add: open_connection_def)

lemma open_connection_cases:
  assumes "open_connection now send_result c first node = (node', reply, res)"
  obtains (refused) result where "res = Inl result" "node' = node \<or> (\<exists>sid. node' = unpark sid node)"
  | (fresh) "res = Inr (c, None)" "node' = node"
  | (resumed) sid s where "res = Inr (sid, su_membership s)" "node' = unpark sid node" "map_of (suspended_sessions node) sid = Some s"
      "now < deadline s"
  using open_connection_result [where now = now and send_result = send_result and c = c and first = first and node = node] unfolding assms prod.case by blast

lemma begin_session_alt:
  "begin_session k t sid mship node sv =
     sv\<lparr>sv_node := node\<lparr>metrics := (metrics node)\<lparr>sessions_opened := sessions_opened (metrics node) + 1\<rparr>,
                        connections := hs_insert sid (connections node)\<rparr>,
        sv_handles := hinsert sid \<lparr>ch_next_outbound_seq = 0, ch_frames = [], ch_writer_gone = False\<rparr> (sv_handles sv),
        sv_tasks := hinsert k (t\<lparr>tk_phase := InSession \<lparr>sl_ctx = \<lparr>sc_session_id = sid, membership = mship\<rparr>,
           sl_hb = heartbeat node, sl_last_inbound = sv_now sv\<rparr>\<rparr>) (sv_tasks sv)\<rparr>"
  by (simp add: begin_session_def start_session_def new_session_context_def)

lemma begin_inv:
  assumes inv: "server_inv n sv" and t: "map_of (sv_tasks sv) k = Some t" "tk_phase t = AwaitingFirst"
    and op: "open_connection (sv_now sv) sent_ok (tk_candidate t) first (sv_node sv) = (node, reply, Inr (sid, mship))"
  shows "server_inv n (begin_session k t sid mship node sv)"
proof -
  define sl where "sl = \<lparr>sl_ctx = \<lparr>sc_session_id = sid, membership = mship\<rparr>, sl_hb = heartbeat node, sl_last_inbound = sv_now sv\<rparr>"
  define t' ts node0 where "t' = t\<lparr>tk_phase := InSession sl\<rparr>" and "ts = sv_tasks sv" and "node0 = sv_node sv"
  note defs = t'_def ts_def node0_def
  have t': "task_id t' = sid" "in_session t'" "task_held t' = {(sid, m) | m. mship = Some m}"
    and old: "\<not> in_session t" "task_held t = {}" "task_id t = tk_candidate t"
    using t(2) by (auto simp: t'_def sl_def task_id_def in_session_def task_held_def held_by_def)
  have tk: "map_of ts k = Some t" using t by (simp add: defs)
  have run: "running (hinsert k t' ts) = task_held t' \<union> running ts"
    using over_lookup [OF tk, of task_held] old by (simp add: over_insert)
  have nil: "node_inv n node0 (running ts \<union> parked node0)" and ids: "ids_ok n (next_session_id node0) (parked_ids node0) ts"
    and conns: "conns_ok (connections node0) (sv_handles sv) ts" and lt: "\<forall>k t. map_of ts k = Some t \<longrightarrow> k < sv_next_task sv"
    using inv by (auto simp: server_inv_def holders_def defs)
  have both: "node_inv n node (running (hinsert k t' ts) \<union> parked node) \<and>
      ids_ok n (next_session_id node) (parked_ids node) (hinsert k t' ts) \<and> connections node = connections node0"
    using op
  proof (cases rule: open_connection_cases)
    case fresh
    then show ?thesis using nil ids ids_same [OF ids tk, of t'] t' old(3) run by (simp add: defs)
  next
    case (resumed sid' s)
    then have node: "node = unpark sid node0" "map_of (suspended_sessions node0) sid = Some s" "mship = su_membership s"
      by (auto simp: defs)
    then have "running (hinsert k t' ts) \<union> parked node \<subseteq> running ts \<union> parked node0"
      by (auto simp: run t' unpark_parked) (auto simp: parked_def)
    from node_inv_mono [OF unpark_node_inv [OF nil] order_refl this]
    have "node_inv n node (running (hinsert k t' ts) \<union> parked node)" by (simp add: node(1))
    moreover have "ids_ok n (next_session_id node0) (parked_ids node0 - {task_id t'}) (hinsert k t' ts)"
      using ids tk node t' by (intro ids_resume) auto
    moreover have "parked_ids node = parked_ids node0 - {task_id t'}" using node t' by (auto simp: unpark_def split: if_splits)
    ultimately show ?thesis using node by (simp add: unpark_def)
  qed simp
  let ?node2 = "node\<lparr>metrics := (metrics node)\<lparr>sessions_opened := sessions_opened (metrics node) + 1\<rparr>,
                        connections := hs_insert sid (connections node)\<rparr>"
  have "node_inv n ?node2 (running (hinsert k t' ts) \<union> parked node)"
    by (rule node_inv_runtime [of _ node]) (use both in simp_all)
  moreover have "parked ?node2 = parked node" by (simp add: parked_def)
  moreover have "\<forall>j u. map_of (hinsert k t' ts) j = Some u \<longrightarrow> j < sv_next_task sv" using lt tk by simp
  ultimately show ?thesis using conns_begin [OF conns tk old(1) t'(2)] both t'(1)
    unfolding begin_session_alt sl_def [symmetric] t'_def [symmetric] ts_def [symmetric]
    by (simp add: server_inv_def holders_def)
qed

text \<open>Frames in the session loop.\<close>

lemma call_request_effect:
  assumes inv: "node_inv n node (held \<union> held_by ctx)" and own: "\<And>m'. (sc_session_id ctx, m') \<notin> held" and n: "n < 2 ^ 32 - 2"
    and h: "handle_call_request lib fr ctx node hs = Some (node', hs', ctx', b)"
  shows "node_inv (Suc n) node' (held \<union> held_by ctx') \<and> sc_session_id ctx' = sc_session_id ctx \<and>
    suspended_sessions node' = suspended_sessions node \<and> connections node' = connections node \<and>
    next_session_id node' = next_session_id node \<and> dom (map_of hs') = dom (map_of hs)"
proof -
  define node1 where "node1 = node\<lparr>metrics := (metrics node)\<lparr>calls_dispatched := calls_dispatched (metrics node) + 1\<rparr>\<rparr>"
  have inv1: "node_inv n node1 (held \<union> held_by ctx)"
    unfolding node1_def by (rule quiet_node_inv [OF inv quiet_changes(7)])
  define outcome where "outcome = (case lib_decode_request lib (payload fr) of
      Inr req \<Rightarrow> dispatch_call (lib_from_str lib) (lib_serde lib) node1 ctx req
    | Inl e \<Rightarrow> Some (node1, ctx, [], exception_variant RtiInternalError [DStr ''malformed CallRequest: '', DStr e]))"
  define respond where "respond r = channel_send (sc_session_id ctx) (call_response_frame lib (sc_session_id ctx)
      (sequence_number (header fr)) r) hs" for r
  note h' = h [unfolded handle_call_request_def Let_def, folded node1_def, folded outcome_def, folded respond_def]
  obtain node2 c cbs r where out: "outcome = Some (node2, c, cbs, r)" using h' by (cases outcome) auto
  obtain hs1 taken where r: "respond r = (hs1, taken)" by (cases "respond r")
  from h' out r obtain m where node': "c = ctx'" "node' = node2\<lparr>metrics := m\<rparr>"
    and hs': "hs' = hs1 \<or> hs' = deliver_callbacks lib cbs hs1"
    by (cases taken) auto
  have hs1: "dom (map_of hs1) = dom (map_of hs)" using r channel_send_dom by (metis fst_conv respond_def)
  have "node_inv (Suc n) node2 (held \<union> held_by ctx') \<and> sc_session_id ctx' = sc_session_id ctx \<and> runtime_view node2 = runtime_view node1"
  proof (cases "lib_decode_request lib (payload fr)")
    case (Inl e)
    then show ?thesis using out node'(1) node_inv_mono [OF inv1, of "Suc n" "held \<union> held_by ctx"] by (simp add: outcome_def)
  next
    case (Inr q)
    with out have "dispatch_call (lib_from_str lib) (lib_serde lib) node1 ctx q = Some (node2, ctx', cbs, r)"
      using node'(1) by (simp add: outcome_def)
    from node_inv_dispatch [OF inv1 own this n] show ?thesis .
  qed
  moreover have "node_inv (Suc n) node' (held \<union> held_by ctx')" if "node_inv (Suc n) node2 (held \<union> held_by ctx')"
    unfolding node'(2) by (rule quiet_node_inv [OF that quiet_changes(7)])
  moreover have "dom (map_of hs') = dom (map_of hs)" using hs1 hs' deliver_dom [of lib cbs hs1] by auto
  ultimately show ?thesis by (simp add: node'(2) node1_def runtime_view_def)
qed

lemma session_frame_effect:
  assumes inv: "node_inv n node (held \<union> held_by (sl_ctx sl))" and own: "\<And>m'. (sc_session_id (sl_ctx sl), m') \<notin> held" and n: "n < 2 ^ 32 - 2"
    and f: "session_frame lib now fr sl node hs = Some (node', hs', sl', b)"
  shows "node_inv (Suc n) node' (held \<union> held_by (sl_ctx sl')) \<and> sc_session_id (sl_ctx sl') = sc_session_id (sl_ctx sl) \<and>
    suspended_sessions node' = suspended_sessions node \<and> connections node' = connections node \<and>
    next_session_id node' = next_session_id node \<and> dom (map_of hs') = dom (map_of hs)"
proof (cases "message_type (header fr) = HlaCallRequest")
  case True
  with f obtain ctx' where "handle_call_request lib fr (sl_ctx sl) node hs = Some (node', hs', ctx', b)" "sl_ctx sl' = ctx'"
    by (auto simp: session_frame_def Let_def)
  from call_request_effect [OF inv own n this(1)] this(2) show ?thesis by simp
next
  case False
  with f have same: "node' = node" "sl_ctx sl' = sl_ctx sl"
    and hs': "hs' = hs \<or> (\<exists>g. hs' = fst (channel_send (sc_session_id (sl_ctx sl)) g hs))"
    by (cases "message_type (header fr)"; auto simp: session_frame_def Let_def)+
  from hs' have "dom (map_of hs') = dom (map_of hs)" using channel_send_dom by metis
  with same show ?thesis using node_inv_mono [OF inv, of "Suc n" "held \<union> held_by (sl_ctx sl)"] by simp
qed

text \<open>The end of a session.\<close>

lemma end_session_effect:
  assumes inv: "node_inv n node (held \<union> parked node \<union> held_by (sl_ctx sl))"
    and own: "\<And>m'. (sc_session_id (sl_ctx sl), m') \<notin> held \<union> parked node"
    and e: "end_session now sl node hs = (node', hs')"
  shows "node_inv n node' (held \<union> parked node') \<and>
    (parked_ids node' = parked_ids node \<or> parked_ids node' = insert (sc_session_id (sl_ctx sl)) (parked_ids node)) \<and>
    connections node' = hs_remove (sc_session_id (sl_ctx sl)) (connections node) \<and> next_session_id node' = next_session_id node \<and>
    hs' = hremove (sc_session_id (sl_ctx sl)) hs"
proof -
  let ?sid = "sc_session_id (sl_ctx sl)"
  define node1 where "node1 = (case membership (sl_ctx sl) of None \<Rightarrow> node
    | Some m \<Rightarrow> if 0 < reconnect_window (sl_hb sl)
        then node\<lparr>suspended_sessions := hinsert ?sid \<lparr>su_membership = Some m, deadline = now + reconnect_window (sl_hb sl)\<rparr>
               (suspended_sessions node)\<rparr>
        else remove_federate m node)"
  have node': "node' = node1\<lparr>connections := hs_remove ?sid (connections node1)\<rparr>" "hs' = hremove ?sid hs"
    using e by (auto simp: end_session_def Let_def node1_def)
  have frame: "connections node1 = connections node" "next_session_id node1 = next_session_id node"
    using runtime_view_remove [of _ node] by (auto simp: node1_def runtime_view_def split: option.split)
  have "node_inv n node1 (held \<union> parked node1) \<and>
      (parked_ids node1 = parked_ids node \<or> parked_ids node1 = insert ?sid (parked_ids node))"
  proof (cases "membership (sl_ctx sl)")
    case None
    then show ?thesis using inv by (simp add: node1_def held_by_def)
  next
    case (Some m)
    show ?thesis
    proof (cases "0 < reconnect_window (sl_hb sl)")
      case True
      then have n1: "node1 = node\<lparr>suspended_sessions := hinsert ?sid \<lparr>su_membership = Some m, deadline = now + reconnect_window (sl_hb sl)\<rparr>
               (suspended_sessions node)\<rparr>" by (simp add: node1_def Some)
      have "parked node1 \<subseteq> parked node \<union> held_by (sl_ctx sl)" by (auto simp: n1 parked_def held_by_def Some split: if_splits)
      then have "node_inv n node (held \<union> parked node1)" by (intro node_inv_mono [OF inv]) auto
      then have "node_inv n node1 (held \<union> parked node1)" by (rule node_inv_runtime) (simp_all add: n1)
      then show ?thesis by (simp add: n1)
    next
      case False
      then have n1: "node1 = remove_federate m node" by (simp add: node1_def Some)
      have v: "valid_membership node ?sid m" using inv Some by (auto simp: node_inv_def held_by_def)
      have "node_inv n node (held \<union> parked node)" by (rule node_inv_mono [OF inv]) auto
      from node_inv_remove [OF this v own] show ?thesis
        using runtime_view_remove [of m node] by (simp add: n1 parked_def runtime_view_def)
    qed
  qed
  moreover have "parked node' = parked node1" by (simp add: node' parked_def)
  moreover have "node_inv n node' held'" if "node_inv n node1 held'" for held'
    by (rule node_inv_runtime [OF that]) (simp_all add: node')
  ultimately show ?thesis using frame by (simp add: node')
qed

lemma session_task:
  assumes "server_inv n sv" "map_of (sv_tasks sv) k = Some t" "tk_phase t = InSession sl"
  shows "node_inv n (sv_node sv) (running (hremove k (sv_tasks sv)) \<union> parked (sv_node sv) \<union> held_by (sl_ctx sl))"
    "\<And>m'. (sc_session_id (sl_ctx sl), m') \<notin> running (hremove k (sv_tasks sv)) \<union> parked (sv_node sv)"
    "task_id t = sc_session_id (sl_ctx sl)" "in_session t"
proof -
  show id: "task_id t = sc_session_id (sl_ctx sl)" and "in_session t" using assms(3) by (auto simp: task_id_def in_session_def)
  have "task_held t = held_by (sl_ctx sl)" using assms(3) by (simp add: task_held_def)
  then show "node_inv n (sv_node sv) (running (hremove k (sv_tasks sv)) \<union> parked (sv_node sv) \<union> held_by (sl_ctx sl))"
    using assms(1) over_lookup [OF assms(2), of task_held] by (simp add: server_inv_def holders_def Un_ac)
  show "(sc_session_id (sl_ctx sl), m') \<notin> running (hremove k (sv_tasks sv)) \<union> parked (sv_node sv)" for m'
    using own_id [OF _ assms(2), of n _ "sv_node sv" m'] assms(1) id by (auto simp: server_inv_def)
qed

lemma finish_inv:
  assumes inv: "node_inv n node (running (hremove k (sv_tasks sv)) \<union> parked node \<union> held_by (sl_ctx sl))"
    and own: "\<And>m'. (sc_session_id (sl_ctx sl), m') \<notin> running (hremove k (sv_tasks sv)) \<union> parked node"
    and ids: "ids_ok n (next_session_id node) (parked_ids node) (sv_tasks sv)" and conns: "conns_ok (connections node) hs (sv_tasks sv)"
    and t: "map_of (sv_tasks sv) k = Some t" "in_session t" "task_id t = sc_session_id (sl_ctx sl)"
    and lt: "\<forall>k t. map_of (sv_tasks sv) k = Some t \<longrightarrow> k < sv_next_task sv"
  shows "server_inv n (finish k t sl node hs sv)"
proof -
  obtain node' hs' where e: "end_session (sv_now sv) sl node hs = (node', hs')" by force
  note eff = end_session_effect [OF inv own e]
  have "ids_ok n (next_session_id node) (parked_ids node') (hremove k (sv_tasks sv))"
    using eff ids_remove [OF ids] ids_park [OF ids t(1)] t(3) by auto
  moreover have "conns_ok (connections node') hs' (hremove k (sv_tasks sv))"
    using eff conns_end [OF conns ids t(1,2)] t(3) by simp
  moreover have "\<forall>j u. map_of (hremove k (sv_tasks sv)) j = Some u \<longrightarrow> j < sv_next_task sv" using lt by simp
  ultimately have "server_inv n (sv\<lparr>sv_node := node', sv_handles := hs', sv_tasks := hremove k (sv_tasks sv)\<rparr>)"
    using eff by (simp add: server_inv_def holders_def)
  from quiet_server_inv [OF this, of "connection_ended (tk_ip t) node'"] quiet_changes(3)
  show ?thesis by (simp add: finish_def e server_inv_def holders_def)
qed

lemma frame_inv:
  assumes inv: "server_inv n sv" and n: "n < 2 ^ 32 - 2" and t: "map_of (sv_tasks sv) k = Some t" "tk_phase t = InSession sl"
    and f: "session_frame lib now fr sl (sv_node sv) (sv_handles sv) = Some (node, hs, sl', b)"
  shows "server_inv (Suc n) (continue_session k t sl' node hs sv)" "server_inv (Suc n) (finish k t sl' node hs sv)"
proof -
  note st = session_task [OF inv t]
  note eff = session_frame_effect [OF st(1,2) n f]
  let ?t = "t\<lparr>tk_phase := InSession sl'\<rparr>"
  have node: "parked node = parked (sv_node sv)" "connections node = connections (sv_node sv)"
    "parked_ids node = parked_ids (sv_node sv)" "next_session_id node = next_session_id (sv_node sv)"
    using eff by (simp_all add: parked_def)
  have t': "task_id ?t = task_id t" "in_session ?t" "task_held ?t = held_by (sl_ctx sl')" "session_id_of ?t = session_id_of t"
    using eff st(3,4) by (simp_all add: task_id_def in_session_def task_held_def session_id_of_def)
  have ids: "ids_ok (Suc n) (next_session_id node) (parked_ids node) (sv_tasks sv)"
    using server_inv_Suc [OF inv] unfolding node server_inv_def by blast
  have "conns_ok (connections node) (sv_handles sv) (sv_tasks sv)" using inv unfolding node server_inv_def by blast
  then have conns: "conns_ok (connections node) hs (sv_tasks sv)" by (rule conns_handles) (use eff in blast)
  have lt: "\<forall>k t. map_of (sv_tasks sv) k = Some t \<longrightarrow> k < sv_next_task sv" using inv by (simp add: server_inv_def)
  have ni: "node_inv (Suc n) node (running (hremove k (sv_tasks sv)) \<union> parked node \<union> held_by (sl_ctx sl'))"
    using eff node by simp
  have "server_inv (Suc n) (sv\<lparr>sv_node := node, sv_handles := hs, sv_tasks := hinsert k ?t (sv_tasks sv)\<rparr>)"
    using ni ids_same [OF ids t(1) t'(1)] conns_same [OF conns t(1) t'(4)] lt t(1) t'(3)
    by (simp add: server_inv_def holders_def over_insert Un_ac)
  then show "server_inv (Suc n) (continue_session k t sl' node hs sv)" by (simp add: continue_session_def)
  show "server_inv (Suc n) (finish k t sl' node hs sv)"
  proof (rule finish_inv [OF ni _ ids conns t(1) st(4) _ lt])
    show "(sc_session_id (sl_ctx sl'), m') \<notin> running (hremove k (sv_tasks sv)) \<union> parked node" for m'
      using st(2) [of m'] eff unfolding node by simp
    show "task_id t = sc_session_id (sl_ctx sl')" using st(3) eff by simp
  qed
qed

lemma closed_inv:
  assumes inv: "server_inv n sv" and t: "map_of (sv_tasks sv) k = Some t" "tk_phase t = InSession sl" and q: "quiet_change (sv_node sv) node"
  shows "server_inv n (finish k t sl node (sv_handles sv) sv)"
proof -
  have inv': "server_inv n (sv\<lparr>sv_node := node\<rparr>)" by (rule quiet_server_inv [OF inv q])
  have "server_inv n (finish k t sl node (sv_handles sv) (sv\<lparr>sv_node := node\<rparr>))"
    using session_task [OF inv', of k t sl] t inv' by (intro finish_inv) (simp_all add: server_inv_def)
  then show ?thesis by (simp add: finish_def split: prod.splits)
qed

text \<open>The janitor.\<close>

lemma expire_inv: "server_inv n sv \<Longrightarrow> server_inv n (sv\<lparr>sv_node := expire_session sid (sv_node sv)\<rparr>)"
proof -
  assume inv: "server_inv n sv"
  show ?thesis
  proof (cases "map_of (suspended_sessions (sv_node sv)) sid")
    case None
    then show ?thesis using inv by (simp add: expire_session_def)
  next
    case (Some s)
    let ?node = "unpark sid (sv_node sv)" and ?sv = "sv\<lparr>sv_node := unpark sid (sv_node sv)\<rparr>"
    have inv1: "server_inv n ?sv" by (rule unpark_inv [OF inv])
    show ?thesis
    proof (cases "su_membership s")
      case None
      then show ?thesis using Some inv1 by (simp add: expire_session_def unpark_def)
    next
      case m: (Some m)
      have "(sid, m) \<in> holders sv" using Some m by (simp add: holders_def parked_def)
      then have v: "valid_membership (sv_node sv) sid m" using inv by (auto simp: server_inv_def node_inv_def)
      then have v': "valid_membership ?node sid m" by (simp add: valid_membership_def unpark_def)
      have "(sid, m') \<notin> holders ?sv" for m'
      proof -
        have "(sid, m') \<notin> running (sv_tasks sv)"
        proof
          assume "(sid, m') \<in> running (sv_tasks sv)"
          from running_id [OF this] obtain k t where "map_of (sv_tasks sv) k = Some t" "task_id t = sid" by blast
          moreover have "ids_ok n (next_session_id (sv_node sv)) (parked_ids (sv_node sv)) (sv_tasks sv)"
            using inv by (simp add: server_inv_def)
          ultimately have "sid \<notin> parked_ids (sv_node sv)" unfolding ids_ok_def by blast
          with Some show False by (simp add: domIff)
        qed
        then show ?thesis by (simp add: holders_def unpark_parked)
      qed
      from node_inv_remove [OF _ v' this] inv1 have "node_inv n (remove_federate m ?node) (holders ?sv)"
        by (simp add: server_inv_def)
      with inv1 have "server_inv n (sv\<lparr>sv_node := remove_federate m ?node\<rparr>)"
        using runtime_view_remove [of m ?node] by (simp add: server_inv_def holders_def runtime_view_def parked_def)
      then show ?thesis using Some m by (simp add: expire_session_def unpark_def)
    qed
  qed
qed

lemma janitor_inv: "server_inv n sv \<Longrightarrow> server_inv n (sv\<lparr>sv_node := janitor_tick now (sv_node sv)\<rparr>)"
proof -
  have "server_inv n sv \<Longrightarrow> server_inv n (sv\<lparr>sv_node := fold expire_session sids (sv_node sv)\<rparr>)" for sids
  proof (induction sids arbitrary: sv)
    case (Cons sid sids)
    from Cons.IH [OF expire_inv [OF Cons.prems, of sid]] show ?case by simp
  qed simp
  then show "server_inv n sv \<Longrightarrow> ?thesis" by (simp add: janitor_tick_def)
qed

text \<open>Every event, and every run.\<close>

lemma lost_task_inv:
  assumes "server_inv n (sv\<lparr>sv_node := node\<rparr>)" "map_of (sv_tasks sv) k = Some t" "\<not> in_session t" "quiet_change node node'"
  shows "server_inv n (sv\<lparr>sv_node := node', sv_tasks := hremove k (sv_tasks sv)\<rparr>)"
  using drop_task_inv [OF quiet_server_inv [OF assms(1), of node'], of k t] assms(2-4) by simp

lemma handles_inv:
  "server_inv n sv \<Longrightarrow> dom (map_of hs) = dom (map_of (sv_handles sv)) \<Longrightarrow> server_inv n (sv\<lparr>sv_handles := hs\<rparr>)"
  by (simp add: server_inv_def holders_def conns_ok_def)

lemma server_event_inv:
  assumes "server_event lib e sv sv'" "server_inv n sv" "n < 2 ^ 32 - 2"
  shows "server_inv (Suc n) sv'"
  using assms(1)
proof cases
  case tcp_accept
  then show ?thesis using spawn_inv [OF assms(2,3)] by simp
next
  case ws_accept
  then show ?thesis using spawn_inv [OF assms(2,3)] by simp
next
  case tls_accept
  then show ?thesis using spawn_inv [OF assms(2,3)] by simp
next
  case (upgrade k t)
  then show ?thesis using upgrade_inv [OF server_inv_Suc [OF assms(2)]] by simp
next
  case (upgrade_fails k t)
  then show ?thesis
    using lost_task_inv [where node = "sv_node sv" and n = "Suc n", OF _ _ _ quiet_changes(2)] server_inv_Suc [OF assms(2)] by (simp add: in_session_def)
next
  case (first_lost k t)
  then show ?thesis
    using lost_task_inv [where node = "sv_node sv" and n = "Suc n", OF _ _ _ quiet_changes(3)] server_inv_Suc [OF assms(2)]
    by (simp add: abandon_def in_session_def)
next
  case (refuse k t sent_ok first node reply result)
  from refuse(5) have "node = sv_node sv \<or> (\<exists>sid. node = unpark sid (sv_node sv))" by (rule open_connection_cases) simp_all
  then have "server_inv (Suc n) (sv\<lparr>sv_node := node\<rparr>)"
    using unpark_inv server_inv_Suc [OF assms(2)] by auto
  then show ?thesis
    using refuse lost_task_inv [where node = node and n = "Suc n", OF _ _ _ quiet_changes(3)] by (simp add: abandon_def in_session_def)
next
  case (opened k t sent_ok first node reply sid mship)
  then show ?thesis using begin_inv [OF server_inv_Suc [OF assms(2)]] by blast
next
  case (frame k t sl fr node hs sl')
  then show ?thesis using frame_inv(1) [OF assms(2,3)] by blast
next
  case (last_frame k t sl fr node hs sl')
  then show ?thesis using frame_inv(2) [OF assms(2,3)] by blast
next
  case (disconnected k t sl)
  then show ?thesis using closed_inv [OF server_inv_Suc [OF assms(2)], of k t sl "sv_node sv"] by (simp add: quiet_change_def)
next
  case (reaped k t sl node)
  then have "quiet_change (sv_node sv) node" by (auto simp: liveness_check_def quiet_changes(7) split: if_splits)
  then show ?thesis using reaped closed_inv [OF server_inv_Suc [OF assms(2)], of k t sl node] by simp
next
  case (heartbeat_due sid)
  then show ?thesis using handles_inv [OF server_inv_Suc [OF assms(2)]] heartbeat_dom by simp
next
  case (writer_stops sid)
  have "dom (map_of (hmodify sid f (sv_handles sv))) = dom (map_of (sv_handles sv))" for f by (auto split: if_splits)
  with writer_stops show ?thesis using handles_inv [OF server_inv_Suc [OF assms(2)]] by simp
next
  case janitor
  then show ?thesis using janitor_inv [OF server_inv_Suc [OF assms(2)]] by simp
next
  case (configure node l f c)
  then have "quiet_change (sv_node sv) node" using quiet_changes by blast
  then show ?thesis using configure quiet_server_inv [OF server_inv_Suc [OF assms(2)]] by simp
next
  case shutdown
  then show ?thesis using server_inv_Suc [OF assms(2)] by (simp add: server_inv_def holders_def)
next
  case (time_passes d)
  then show ?thesis using server_inv_Suc [OF assms(2)] by (simp add: server_inv_def holders_def)
qed

lemma server_step_inv: "server_step lib sv sv' \<Longrightarrow> server_inv n sv \<Longrightarrow> n < 2 ^ 32 - 2 \<Longrightarrow> server_inv (Suc n) sv'"
  using server_event_inv by (auto simp: server_step_def)

lemma new_server_inv: "server_inv 0 new_server"
  by (simp add: server_inv_def node_inv_def ids_ok_def conns_ok_def over_tasks_def holders_def parked_def new_server_def new_node_def
      node_ok_def times_ok_new times_ok_def handles_below_def new_federation_def)

lemma server_run_inv: "server_run lib n sv \<Longrightarrow> n < 2 ^ 32 - 2 \<Longrightarrow> server_inv n sv"
  by (induction rule: server_run.induct) (simp_all add: new_server_inv server_step_inv)

lemma holders_unique:
  assumes inv: "server_inv n sv" and a: "(sid, m) \<in> holders sv" and b: "(sid', m') \<in> holders sv"
  shows "mb_federation m = mb_federation m' \<and> mb_federate_handle m = mb_federate_handle m' \<longleftrightarrow> sid = sid'"
proof
  assume "mb_federation m = mb_federation m' \<and> mb_federate_handle m = mb_federate_handle m'"
  moreover have "valid_membership (sv_node sv) sid m" "valid_membership (sv_node sv) sid' m'"
    using assms by (auto simp: server_inv_def node_inv_def)
  ultimately show "sid = sid'" by (auto simp: valid_membership_def)
next
  assume eq: "sid = sid'"
  have ids: "ids_ok n (next_session_id (sv_node sv)) (parked_ids (sv_node sv)) (sv_tasks sv)" using inv by (simp add: server_inv_def)
  have "m = m'"
  proof (cases "(sid, m) \<in> parked (sv_node sv)")
    case True
    then have "(sid, m') \<notin> running (sv_tasks sv)"
      using ids running_id [of sid m'] parked_id [of sid m] unfolding ids_ok_def by blast
    with True b eq show ?thesis by (auto simp: holders_def parked_def)
  next
    case False
    with a obtain k t where t: "map_of (sv_tasks sv) k = Some t" "(sid, m) \<in> task_held t" by (auto simp: holders_def over_tasks_def)
    have "(sid, m') \<notin> running (hremove k (sv_tasks sv)) \<union> parked (sv_node sv)"
      using own_id [OF ids t(1)] task_held_id [OF t(2)] by simp
    with b eq have "(sid, m') \<in> task_held t" using over_lookup [OF t(1), of task_held] by (simp add: holders_def)
    with t(2) show ?thesis by (auto simp: task_held_def held_by_def split: Phase.splits)
  qed
  then show "mb_federation m = mb_federation m' \<and> mb_federate_handle m = mb_federate_handle m'" by simp
qed

subsection \<open>Scripted runs\<close>

text \<open>An executable scheduler for the events of a script, which reaches states of the server only.\<close>

datatype Event = EvAccept nat | EvFirst nat Frame | EvFrame nat Frame | EvLost nat | EvTime nat | EvJanitor | EvHeartbeatConfig HeartbeatConfig

fun event :: "Lib \<Rightarrow> Event \<Rightarrow> Server \<Rightarrow> Server option" where
  "event lib (EvAccept ip) sv = (if sv_shutdown sv then None else Some (spawn ip AwaitingFirst (accept_plain ip (sv_node sv)) sv))"
| "event lib (EvFirst k fr) sv =
     (case map_of (sv_tasks sv) k of
        Some t \<Rightarrow> (case tk_phase t of
            AwaitingFirst \<Rightarrow> (case open_connection (sv_now sv) (Inr ()) (tk_candidate t) fr (sv_node sv) of
                (node, _, Inl _) \<Rightarrow> Some (abandon k t node sv)
              | (node, _, Inr (sid, mship)) \<Rightarrow> Some (begin_session k t sid mship node sv))
          | _ \<Rightarrow> None)
      | None \<Rightarrow> None)"
| "event lib (EvFrame k fr) sv =
     (case map_of (sv_tasks sv) k of
        Some t \<Rightarrow> (case tk_phase t of
            InSession sl \<Rightarrow> (if sv_shutdown sv then None else
              (case session_frame lib (sv_now sv) fr sl (sv_node sv) (sv_handles sv) of
                 Some (node, hs, sl', goes_on) \<Rightarrow>
                   Some ((if goes_on then continue_session else finish) k t sl' node hs sv)
               | None \<Rightarrow> None))
          | _ \<Rightarrow> None)
      | None \<Rightarrow> None)"
| "event lib (EvLost k) sv =
     (case map_of (sv_tasks sv) k of
        Some t \<Rightarrow> (case tk_phase t of
            InSession sl \<Rightarrow> Some (finish k t sl (sv_node sv) (sv_handles sv) sv)
          | AwaitingFirst \<Rightarrow> Some (abandon k t (sv_node sv) sv)
          | _ \<Rightarrow> None)
      | None \<Rightarrow> None)"
| "event lib (EvTime d) sv = Some (sv\<lparr>sv_now := sv_now sv + d\<rparr>)"
| "event lib EvJanitor sv = (if sv_shutdown sv then None else Some (sv\<lparr>sv_node := janitor_tick (sv_now sv) (sv_node sv)\<rparr>))"
| "event lib (EvHeartbeatConfig c) sv = Some (sv\<lparr>sv_node := set_heartbeat_config c (sv_node sv)\<rparr>)"

fun script :: "Lib \<Rightarrow> Event list \<Rightarrow> Server \<Rightarrow> Server option" where
  "script lib [] sv = Some sv"
| "script lib (ev # evs) sv = (case event lib ev sv of None \<Rightarrow> None | Some sv' \<Rightarrow> script lib evs sv')"

lemma event_step: "event lib ev sv = Some sv' \<Longrightarrow> server_step lib sv sv'"
proof (induction lib ev sv rule: event.induct)
  case (1 lib ip sv)
  then show ?case by (auto intro: server_event.tcp_accept [THEN server_stepI] split: if_splits)
next
  case (2 lib k fr sv)
  then show ?case by (auto intro: server_event.refuse [THEN server_stepI] server_event.opened [THEN server_stepI] split: option.splits Phase.splits prod.splits sum.splits)
next
  case (3 lib k fr sv)
  then show ?case
    by (auto intro: server_event.frame [THEN server_stepI] server_event.last_frame [THEN server_stepI] split: option.splits Phase.splits prod.splits if_splits)
next
  case (4 lib k sv)
  then show ?case by (auto intro: server_event.disconnected [THEN server_stepI] server_event.first_lost [THEN server_stepI] split: option.splits Phase.splits)
next
  case (5 lib d sv)
  then show ?case by (auto intro: server_event.time_passes [THEN server_stepI])
next
  case (6 lib sv)
  then show ?case by (auto intro: server_event.janitor [THEN server_stepI] split: if_splits)
next
  case (7 lib c sv)
  then show ?case using server_event.configure [of "set_heartbeat_config c (sv_node sv)" _ sv _ c, THEN server_stepI] by auto
qed

lemma script_steps: "script lib evs sv = Some sv' \<Longrightarrow> (server_step lib ^^ length evs) sv sv'"
proof (induction evs arbitrary: sv)
  case (Cons ev evs)
  then obtain sv1 where "event lib ev sv = Some sv1" "script lib evs sv1 = Some sv'" by (auto split: option.splits)
  with Cons.IH event_step have "server_step lib sv sv1" "(server_step lib ^^ length evs) sv1 sv'" by auto
  then show ?case by (simp add: relpowp_Suc_I2 del: relpowp.simps)
qed simp

lemma steps_run: "(server_step lib ^^ j) sv sv' \<Longrightarrow> server_run lib n sv \<Longrightarrow> server_run lib (n + j) sv'"
  by (induction j arbitrary: sv') (auto intro: server_run.step)

lemma script_run: "script lib evs new_server = Some sv \<Longrightarrow> server_run lib (length evs) sv"
  using steps_run [OF script_steps server_run.start] by fastforce

text \<open>A sample run: a client connects, creates a federation and joins it.\<close>

definition sample_lib :: Lib where
  "sample_lib = \<lparr>lib_from_str = (\<lambda>_. Inl []), lib_serde = sample_serde (snapshot flow_fed),
     lib_decode_request = (\<lambda>b. Inr (if b = [0] then Some (FederationCall (CreateFederationExecution ''f'' None))
        else if b = [1] then Some (MemberCall (JoinFederationExecutionWithName ''a'' ''f'')) else None)),
     lib_encode_response = (\<lambda>_. []), lib_encode_callback = (\<lambda>_. [])\<rparr>"

definition call_frame :: "bytes \<Rightarrow> Frame" where
  "call_frame b = \<lparr>header = with_payload_size (of_nat (length b)) 0 0 0 HlaCallRequest, payload = b\<rparr>"

definition resume_frame :: "u64 \<Rightarrow> Frame" where
  "resume_frame sid = \<lparr>header = with_payload_size 0 0 sid 0 CtrlResumeRequest, payload = []\<rparr>"

definition join_script :: "Event list" where
  "join_script = [EvAccept 9, EvFirst 0 (version_request FEDERATE_PROTOCOL_VERSION 0), EvFrame 0 (call_frame [0]),
     EvFrame 0 (call_frame [1])]"

definition sample_member :: Membership where
  "sample_member = \<lparr>mb_federation = 0, mb_federate_handle = 1, mb_federate_name = ''a''\<rparr>"

definition joined_task :: Task where
  "joined_task = \<lparr>tk_ip = 9, tk_candidate = 1, tk_phase = InSession
     \<lparr>sl_ctx = \<lparr>sc_session_id = 1, membership = Some sample_member\<rparr>, sl_hb = default_heartbeat, sl_last_inbound = 0\<rparr>\<rparr>"

lemmas run_defs = new_server_def new_node_def spawn_def accept_plain_def check_limits_def count_accept_def take_session_id_def
  open_connection_def begin_session_alt session_frame_def handle_call_request_def continue_session_def channel_send_def Let_def


lemmas call_defs = dispatch_call_def dispatch_federation_def create_outcome_def create_federation_inner_def option_list_def
  respond_def dispatch_member_def join_outcome_def join_def is_joined_def set_federation_def new_federation_def

lemmas sample_run_defs = run_defs call_defs version_request_fields call_frame_def with_payload_size_def sample_lib_def deliver_callbacks_def
  joined_task_def sample_member_def

lemma join_script_state:
  "\<exists>sv. script sample_lib join_script new_server = Some sv \<and> sv_tasks sv = [(0, joined_task)] \<and>
     connections (sv_node sv) = [1] \<and> suspended_sessions (sv_node sv) = []"
  by (simp add: join_script_def sample_run_defs hs_insert_def hinsert_def)

end
