(* ===== verification/Server_Spec.thy ===== *)
theory Server_Spec
  imports Server_Props
begin

text \<open>
  The life of a session, as the server promises it (crate \<open>hla-rti\<close>, \<open>lib.rs\<close>): a specification with one
  state per session identifier and one step for each thing that can happen to it, and the proof that the loops, tables and timers of
  theory Server refine it, event by event. Then what becomes of a federate whose session is resumed too late.
\<close>

subsection \<open>The specification of a session\<close>

text \<open>
  An identifier is fresh until the handshake of its connection ends; the session then lives, joins and resigns, with the
  reconnect window it was opened with; a connection that is lost parks the membership until a deadline, or ends the session; a parked
  session is resumed with its membership before the deadline, or ends. An ended session never comes back.
\<close>

datatype Stage = Fresh | Live "Membership option" nat | Parked SuspendedSession | Ended

text \<open>
  What happens to sessions: one is opened or refused; a connection under the identifier \<open>c\<close> asks to resume \<open>r\<close> and is told the result
  or is not; a call is served, and its answer can be written or cannot; a connection closes; the janitor sweeps.
\<close>

datatype Act =
    Idle
  | Opens u64
  | Refuses u64
  | Resumes u64 u64 bool
  | Serves u64 "CallRequest option" bool
  | Closes u64
  | Sweeps

fun concerns :: "Act \<Rightarrow> u64 \<Rightarrow> bool" where
  "concerns Idle sid \<longleftrightarrow> False"
| "concerns (Opens c) sid \<longleftrightarrow> sid = c"
| "concerns (Refuses c) sid \<longleftrightarrow> sid = c"
| "concerns (Resumes c r _) sid \<longleftrightarrow> sid = c \<or> sid = r"
| "concerns (Serves c _ _) sid \<longleftrightarrow> sid = c"
| "concerns (Closes c) sid \<longleftrightarrow> sid = c"
| "concerns Sweeps sid \<longleftrightarrow> True"

text \<open>The membership \<open>b\<close> after a call that finds \<open>a\<close>: a join keeps one that is there and may give one under the
  name it asks for, a resign drops it, and no other call changes it.\<close>

definition may_join :: "string option \<Rightarrow> Membership option \<Rightarrow> Membership option \<Rightarrow> bool" where
  "may_join requested a b \<longleftrightarrow>
     (case a of
        Some m \<Rightarrow> b = a
      | None \<Rightarrow> (case b of None \<Rightarrow> True | Some m \<Rightarrow> requested \<in> {None, Some (mb_federate_name m)}))"

fun after_call :: "CallRequest option \<Rightarrow> Membership option \<Rightarrow> Membership option \<Rightarrow> bool" where
  "after_call (Some (MemberCall (JoinFederationExecution _))) a b \<longleftrightarrow> may_join None a b"
| "after_call (Some (MemberCall (JoinFederationExecutionWithName federate _))) a b \<longleftrightarrow> may_join (Some federate) a b"
| "after_call (Some (MemberCall (JoinFederationExecutionWithModules _))) a b \<longleftrightarrow> may_join None a b"
| "after_call (Some (MemberCall (JoinFederationExecutionWithNameAndModules federate _))) a b \<longleftrightarrow> may_join (Some federate) a b"
| "after_call (Some (MemberCall ResignFederationExecution)) a b \<longleftrightarrow> b = None"
| "after_call _ a b \<longleftrightarrow> b = a"

text \<open>Where a session goes when its connection is gone.\<close>

definition closing :: "nat \<Rightarrow> Membership option \<Rightarrow> nat \<Rightarrow> Stage" where
  "closing now mship window =
     (case mship of
        Some m \<Rightarrow> if 0 < window then Parked \<lparr>su_membership = Some m, deadline = now + window\<rparr> else Ended
      | None \<Rightarrow> Ended)"

text \<open>One step of the session \<open>sid\<close>, at the time \<open>now\<close> and with the reconnect window \<open>w0\<close> that is configured then.\<close>

inductive session_step :: "nat \<Rightarrow> nat \<Rightarrow> Act \<Rightarrow> u64 \<Rightarrow> Stage \<Rightarrow> Stage \<Rightarrow> bool" for now w0 where
  stands: "\<not> concerns act sid \<Longrightarrow> session_step now w0 act sid st st"
| opens: "session_step now w0 (Opens sid) sid Fresh (Live None w0)"
| refused: "session_step now w0 (Refuses sid) sid Fresh Ended"
| gives_way: "session_step now w0 (Resumes sid r told) sid Fresh Ended"
| resumed: "now < deadline s \<Longrightarrow> session_step now w0 (Resumes c sid True) sid (Parked s) (Live (su_membership s) w0)"
| wasted: "\<not> told \<or> deadline s \<le> now \<Longrightarrow> session_step now w0 (Resumes c sid told) sid (Parked s) Ended"
| unknown: "c \<noteq> sid \<Longrightarrow> \<forall>s. st \<noteq> Parked s \<Longrightarrow> session_step now w0 (Resumes c sid told) sid st st"
| served: "after_call q a b \<Longrightarrow> session_step now w0 (Serves sid q True) sid (Live a w) (Live b w)"
| cut_off: "after_call q a b \<Longrightarrow> session_step now w0 (Serves sid q False) sid (Live a w) (closing now b w)"
| closed: "session_step now w0 (Closes sid) sid (Live a w) (closing now a w)"
| expired: "deadline s \<le> now \<Longrightarrow> session_step now w0 Sweeps sid (Parked s) Ended"
| spared: "\<forall>s. st = Parked s \<longrightarrow> now < deadline s \<Longrightarrow> session_step now w0 Sweeps sid st st"

inductive_cases session_step_endedE: "session_step now w0 act sid Ended st"

text \<open>The stage of an identifier in a state of the server.\<close>

fun session_at :: "Server \<Rightarrow> u64 \<Rightarrow> Stage \<Rightarrow> bool" where
  "session_at sv sid Fresh \<longleftrightarrow> next_session_id (sv_node sv) \<le> sid \<or>
     (\<exists>k t. map_of (sv_tasks sv) k = Some t \<and> \<not> in_session t \<and> task_id t = sid)"
| "session_at sv sid (Live mship w) \<longleftrightarrow>
     (\<exists>k t sl. map_of (sv_tasks sv) k = Some t \<and> tk_phase t = InSession sl \<and> sl_ctx sl = \<lparr>sc_session_id = sid, membership = mship\<rparr> \<and>
        reconnect_window (sl_hb sl) = w)"
| "session_at sv sid (Parked s) \<longleftrightarrow> map_of (suspended_sessions (sv_node sv)) sid = Some s"
| "session_at sv sid Ended \<longleftrightarrow> sid < next_session_id (sv_node sv) \<and> sid \<notin> parked_ids (sv_node sv) \<and>
     (\<forall>k t. map_of (sv_tasks sv) k = Some t \<longrightarrow> task_id t \<noteq> sid)"

text \<open>What an event of the server is to the sessions.\<close>

definition id_at :: "Server \<Rightarrow> nat \<Rightarrow> u64" where
  "id_at sv k = (case map_of (sv_tasks sv) k of Some t \<Rightarrow> task_id t | None \<Rightarrow> 0)"

definition writable :: "handles \<Rightarrow> u64 \<Rightarrow> bool" where
  "writable hs sid \<longleftrightarrow> (case map_of hs sid of Some h \<Rightarrow> \<not> ch_writer_gone h | None \<Rightarrow> False)"

definition first_act :: "u64 \<Rightarrow> Frame \<Rightarrow> CodecError + unit \<Rightarrow> Act" where
  "first_act c first send_result =
     (case message_type (header first) of
        CtrlNewSession \<Rightarrow>
          if new_session_payload_decode (payload first) = Inr FEDERATE_PROTOCOL_VERSION \<and> send_result = Inr () then Opens c else Refuses c
      | CtrlResumeRequest \<Rightarrow> Resumes c (hdr_session_id (header first)) (send_result = Inr ())
      | _ \<Rightarrow> Refuses c)"

definition frame_act :: "Lib \<Rightarrow> handles \<Rightarrow> u64 \<Rightarrow> Frame \<Rightarrow> Act" where
  "frame_act lib hs sid fr =
     (case message_type (header fr) of
        HlaCallRequest \<Rightarrow> Serves sid (case lib_decode_request lib (payload fr) of Inr q \<Rightarrow> q | Inl _ \<Rightarrow> None) (writable hs sid)
      | CtrlTerminateSession \<Rightarrow> Closes sid
      | _ \<Rightarrow> Idle)"

fun act_of :: "Lib \<Rightarrow> Server \<Rightarrow> Occurrence \<Rightarrow> Act" where
  "act_of lib sv (OnUpgradeFailed k) = Refuses (id_at sv k)"
| "act_of lib sv (OnFirstLost k) = Refuses (id_at sv k)"
| "act_of lib sv (OnFirst k first send_result) = first_act (id_at sv k) first send_result"
| "act_of lib sv (OnFrame k fr) = frame_act lib (sv_handles sv) (id_at sv k) fr"
| "act_of lib sv (OnClosed k) = Closes (id_at sv k)"
| "act_of lib sv OnJanitor = Sweeps"
| "act_of lib sv _ = Idle"

abbreviation window_now :: "Server \<Rightarrow> nat" where
  "window_now sv \<equiv> reconnect_window (heartbeat (sv_node sv))"

lemma live_task: "tk_phase t = InSession sl \<Longrightarrow> task_id t = sc_session_id (sl_ctx sl)"
  by (simp add: task_id_def)

lemma stage_exists: "\<exists>st. session_at sv sid st"
proof (cases "\<exists>k t. map_of (sv_tasks sv) k = Some t \<and> task_id t = sid")
  case True
  then obtain k t where t: "map_of (sv_tasks sv) k = Some t" "task_id t = sid" by blast
  show ?thesis
  proof (cases "in_session t")
    case True
    then obtain sl where "tk_phase t = InSession sl" by (auto simp: in_session_def)
    with t have "session_at sv sid (Live (membership (sl_ctx sl)) (reconnect_window (sl_hb sl)))"
      using live_task by (cases "sl_ctx sl") fastforce
    then show ?thesis ..
  next
    case False
    with t have "session_at sv sid Fresh" by auto
    then show ?thesis ..
  qed
next
  case False
  then have "session_at sv sid Ended" if "sid < next_session_id (sv_node sv)" "sid \<notin> parked_ids (sv_node sv)" using that by auto
  moreover have "\<exists>st. session_at sv sid st" if "sid \<in> parked_ids (sv_node sv)" using that session_at.simps(3) by blast
  moreover have "session_at sv sid Fresh" if "\<not> sid < next_session_id (sv_node sv)" using that by (simp add: not_less)
  ultimately show ?thesis by blast
qed

text \<open>What a stage says of the tables, and that the stages exclude each other.\<close>

lemma stage_tables:
  assumes ids: "ids_ok n (next_session_id (sv_node sv)) (parked_ids (sv_node sv)) (sv_tasks sv)" and st: "session_at sv sid st"
  shows "map_of (sv_tasks sv) k = Some t \<Longrightarrow> task_id t = sid \<Longrightarrow>
      st = (case tk_phase t of InSession sl \<Rightarrow> Live (membership (sl_ctx sl)) (reconnect_window (sl_hb sl)) | _ \<Rightarrow> Fresh)"
    and "map_of (suspended_sessions (sv_node sv)) sid = Some s \<Longrightarrow> st = Parked s"
    and "next_session_id (sv_node sv) \<le> sid \<Longrightarrow> st = Fresh"
proof -
  have task: "task_id t < next_session_id (sv_node sv)" "task_id t \<notin> parked_ids (sv_node sv)"
    and same: "map_of (sv_tasks sv) j = Some u \<Longrightarrow> task_id u = task_id t \<Longrightarrow> u = t"
    if "map_of (sv_tasks sv) k = Some t" for k t j u
    using ids that unfolding ids_ok_def by (blast, blast, metis option.inject)
  have parked: "sid < next_session_id (sv_node sv)" if "sid \<in> parked_ids (sv_node sv)" using ids that unfolding ids_ok_def by blast
  show "st = (case tk_phase t of InSession sl \<Rightarrow> Live (membership (sl_ctx sl)) (reconnect_window (sl_hb sl)) | _ \<Rightarrow> Fresh)"
    if t: "map_of (sv_tasks sv) k = Some t" "task_id t = sid"
  proof (cases st)
    case Fresh
    then show ?thesis using st task [OF t(1)] same [OF t(1)] t(2) by (auto simp: in_session_def split: Phase.split)
  next
    case (Live mship w)
    with st obtain j u sl where u: "map_of (sv_tasks sv) j = Some u" "tk_phase u = InSession sl"
      "sl_ctx sl = \<lparr>sc_session_id = sid, membership = mship\<rparr>" "reconnect_window (sl_hb sl) = w" by auto
    then have "u = t" using same [OF t(1) u(1)] live_task [OF u(2)] t(2) by simp
    with u Live show ?thesis by simp
  next
    case (Parked s)
    then show ?thesis using st task [OF t(1)] t(2) by auto
  next
    case Ended
    then show ?thesis using st t by auto
  qed
  show "st = Parked s" if s: "map_of (suspended_sessions (sv_node sv)) sid = Some s"
  proof (cases st)
    case Fresh
    then show ?thesis using st parked task(2) s by (force simp: dom_def)
  next
    case (Live mship w)
    then show ?thesis using st task(2) s live_task by (force simp: dom_def)
  qed (use st s in auto)
  show "st = Fresh" if le: "next_session_id (sv_node sv) \<le> sid"
  proof (cases st)
    case (Live mship w)
    then show ?thesis using st task(1) le live_task by fastforce
  next
    case (Parked s)
    then have "sid < next_session_id (sv_node sv)" using st parked by (simp add: domIff)
    with le show ?thesis by simp
  qed (use st le in auto)
qed

lemma stage_unique:
  assumes "ids_ok n (next_session_id (sv_node sv)) (parked_ids (sv_node sv)) (sv_tasks sv)" "session_at sv sid st" "session_at sv sid st'"
  shows "st = st'"
proof (cases st)
  case Fresh
  then show ?thesis using assms(2) stage_tables(1,3) [OF assms(1,3)] by (auto simp: in_session_def split: Phase.splits)
next
  case (Live mship w)
  with assms(2) obtain k t sl where t: "map_of (sv_tasks sv) k = Some t" "tk_phase t = InSession sl"
    "sl_ctx sl = \<lparr>sc_session_id = sid, membership = mship\<rparr>" "reconnect_window (sl_hb sl) = w" by auto
  from stage_tables(1) [OF assms(1,3) t(1)] live_task [OF t(2)] t Live show ?thesis by simp
next
  case (Parked s)
  then show ?thesis using assms(2) stage_tables(2) [OF assms(1,3)] by simp
next
  case Ended
  show ?thesis
  proof (cases st')
    case Fresh
    then show ?thesis using Ended assms(2) stage_tables(1,3) [OF assms(1,2)] assms(3) by auto
  next
    case (Live mship w)
    then show ?thesis using Ended assms(2,3) live_task by fastforce
  next
    case (Parked s)
    then show ?thesis using Ended assms(2,3) by auto
  qed (simp add: Ended)
qed

subsection \<open>Steps of the server as steps of the sessions\<close>

definition moves :: "Server \<Rightarrow> Server \<Rightarrow> Act \<Rightarrow> u64 \<Rightarrow> bool" where
  "moves sv sv' act sid \<longleftrightarrow>
     (\<forall>st. session_at sv sid st \<longrightarrow> (\<exists>st'. session_at sv' sid st' \<and> session_step (sv_now sv) (window_now sv) act sid st st'))"

definition same_stage :: "Server \<Rightarrow> Server \<Rightarrow> u64 \<Rightarrow> bool" where
  "same_stage sv sv' sid \<longleftrightarrow> (\<forall>st. session_at sv sid st \<longrightarrow> session_at sv' sid st)"

lemma inv_ids: "server_inv n sv \<Longrightarrow> ids_ok n (next_session_id (sv_node sv)) (parked_ids (sv_node sv)) (sv_tasks sv)"
  by (simp add: server_inv_def)

lemma movesI:
  assumes "server_inv n sv" "session_at sv sid st" "session_at sv' sid st'" "session_step (sv_now sv) (window_now sv) act sid st st'"
  shows "moves sv sv' act sid"
  using assms stage_unique [OF inv_ids [OF assms(1)] assms(2)] unfolding moves_def by blast

lemma same_stageI: "server_inv n sv \<Longrightarrow> session_at sv sid st \<Longrightarrow> session_at sv' sid st \<Longrightarrow> same_stage sv sv' sid"
  using stage_unique [OF inv_ids] unfolding same_stage_def by blast

lemma moves_stands: "same_stage sv sv' sid \<Longrightarrow> \<not> concerns act sid \<Longrightarrow> moves sv sv' act sid"
  unfolding same_stage_def moves_def using session_step.stands by blast

text \<open>An event of one task leaves the other sessions where they are.\<close>

lemma stays:
  assumes tasks: "\<And>j. j \<noteq> k \<Longrightarrow> map_of (sv_tasks sv') j = map_of (sv_tasks sv) j"
    and old: "\<And>t. map_of (sv_tasks sv) k = Some t \<Longrightarrow> task_id t \<noteq> sid"
    and new: "\<And>t. map_of (sv_tasks sv') k = Some t \<Longrightarrow> task_id t \<noteq> sid"
    and susp: "map_of (suspended_sessions (sv_node sv')) sid = map_of (suspended_sessions (sv_node sv)) sid"
    and nxt: "next_session_id (sv_node sv') \<le> sid \<longleftrightarrow> next_session_id (sv_node sv) \<le> sid"
  shows "same_stage sv sv' sid"
  unfolding same_stage_def
proof (intro allI impI)
  fix st assume st: "session_at sv sid st"
  have t: "map_of (sv_tasks sv) j = Some t \<and> task_id t = sid \<longleftrightarrow> map_of (sv_tasks sv') j = Some t \<and> task_id t = sid" for j t
    using tasks old new by (cases "j = k") auto
  show "session_at sv' sid st"
  proof (cases st)
    case Fresh
    then show ?thesis using st t nxt by auto
  next
    case (Live mship w)
    then obtain k t sl where "map_of (sv_tasks sv) k = Some t" "tk_phase t = InSession sl"
      "sl_ctx sl = \<lparr>sc_session_id = sid, membership = mship\<rparr>" "reconnect_window (sl_hb sl) = w" using st by auto
    moreover from this have "task_id t = sid" using live_task by fastforce
    ultimately show ?thesis using t Live by auto
  next
    case (Parked s)
    then show ?thesis using st susp by simp
  next
    case Ended
    then show ?thesis using st t susp nxt by (auto simp: not_less [symmetric] domIff)
  qed
qed

lemma same_tables:
  assumes "sv_tasks sv' = sv_tasks sv" "map_of (suspended_sessions (sv_node sv')) sid = map_of (suspended_sessions (sv_node sv)) sid"
    "next_session_id (sv_node sv') = next_session_id (sv_node sv)"
  shows "same_stage sv sv' sid"
  unfolding same_stage_def
proof (intro allI impI)
  fix st assume "session_at sv sid st"
  then show "session_at sv' sid st" using assms by (cases st) (auto simp: domIff)
qed

lemma task_ids:
  assumes "server_inv n sv" "map_of (sv_tasks sv) k = Some t"
  shows "task_id t < next_session_id (sv_node sv)" "map_of (suspended_sessions (sv_node sv)) (task_id t) = None"
    "map_of (sv_tasks sv) j = Some u \<Longrightarrow> task_id u = task_id t \<Longrightarrow> j = k"
  using inv_ids [OF assms(1)] assms(2) unfolding ids_ok_def by (blast, auto)

lemma parked_no_task:
  assumes "server_inv n sv" "map_of (suspended_sessions (sv_node sv)) sid = Some s"
  shows "sid < next_session_id (sv_node sv)" "map_of (sv_tasks sv) j = Some u \<Longrightarrow> task_id u \<noteq> sid"
proof -
  have "sid \<in> parked_ids (sv_node sv)" using assms(2) by blast
  then show "sid < next_session_id (sv_node sv)" "map_of (sv_tasks sv) j = Some u \<Longrightarrow> task_id u \<noteq> sid"
    using inv_ids [OF assms(1)] unfolding ids_ok_def by blast+
qed

text \<open>Where an identifier ends: its task is gone, or its entry among the suspended sessions.\<close>

lemma dropped_ends:
  assumes inv: "server_inv n sv" and t: "map_of (sv_tasks sv) k = Some t"
    and sv': "\<And>j u. j \<noteq> k \<Longrightarrow> map_of (sv_tasks sv') j = Some u \<Longrightarrow> map_of (sv_tasks sv) j = Some u"
      "\<And>u. map_of (sv_tasks sv') k = Some u \<Longrightarrow> task_id u \<noteq> task_id t"
      "next_session_id (sv_node sv') = next_session_id (sv_node sv)" "map_of (suspended_sessions (sv_node sv')) (task_id t) = None"
  shows "session_at sv' (task_id t) Ended"
proof -
  have "task_id u \<noteq> task_id t" if "map_of (sv_tasks sv') j = Some u" for j u
    using that sv'(1,2) task_ids(3) [OF inv t] by (cases "j = k") blast+
  then show ?thesis using sv'(3,4) task_ids(1) [OF inv t] by (auto simp: domIff)
qed

lemma unparked_ends:
  assumes inv: "server_inv n sv" and s: "map_of (suspended_sessions (sv_node sv)) sid = Some s"
    and sv': "\<And>j u. map_of (sv_tasks sv') j = Some u \<Longrightarrow> map_of (sv_tasks sv) j = Some u"
      "next_session_id (sv_node sv') = next_session_id (sv_node sv)" "map_of (suspended_sessions (sv_node sv')) sid = None"
  shows "session_at sv' sid Ended"
  using parked_no_task [OF inv s] sv' by (auto simp: domIff)

lemma spawn_stages:
  assumes inv: "server_inv n sv" and n: "n < 2 ^ 32 - 2" and phase: "phase = Upgrading \<or> phase = AwaitingFirst"
    and acc: "accepted \<in> {accept_plain ip (sv_node sv), accept_ws ip (sv_node sv), accept_tls ip (sv_node sv)}"
  shows "same_stage sv (spawn ip phase accepted sv) sid"
  using accept_result [OF acc]
proof
  assume "snd accepted = None \<and> quiet_change (sv_node sv) (fst accepted)"
  then show ?thesis by (intro same_tables) (cases accepted, auto simp: spawn_def quiet_change_def)+
next
  let ?nsid = "next_session_id (sv_node sv)" and ?k = "sv_next_task sv" and ?sv = "spawn ip phase accepted sv"
  assume "snd accepted = Some ?nsid \<and> quiet_change ((sv_node sv)\<lparr>next_session_id := ?nsid + 1\<rparr>) (fst accepted)"
  then have sv': "sv_tasks ?sv = hinsert ?k \<lparr>tk_ip = ip, tk_candidate = ?nsid, tk_phase = phase\<rparr> (sv_tasks sv)"
    "suspended_sessions (sv_node ?sv) = suspended_sessions (sv_node sv)" "next_session_id (sv_node ?sv) = ?nsid + 1"
    by (cases accepted; auto simp: spawn_def quiet_change_def)+
  have t': "\<not> in_session \<lparr>tk_ip = ip, tk_candidate = ?nsid, tk_phase = phase\<rparr>"
    "task_id \<lparr>tk_ip = ip, tk_candidate = ?nsid, tk_phase = phase\<rparr> = ?nsid"
    using phase by (auto simp: in_session_def task_id_def)
  have new: "map_of (sv_tasks sv) ?k = None"
    using inv by (metis less_irrefl not_None_eq server_inv_def)
  have "unat ?nsid < 2 ^ 32 - 1" using inv_ids [OF inv] n unfolding ids_ok_def by linarith
  then have "unat (?nsid + 1) = unat ?nsid + 1" by (simp add: unat_word_ariths)
  then have "?nsid + 1 \<le> sid \<longleftrightarrow> ?nsid \<le> sid" if "sid \<noteq> ?nsid"
    using that unfolding word_le_nat_alt word_unat_eq_iff by linarith
  moreover have "same_stage sv ?sv sid" if "sid = ?nsid"
    by (rule same_stageI [OF inv, of sid Fresh]) (use that t' in \<open>simp_all add: sv', blast\<close>)
  ultimately show ?thesis
    using new t' by (cases "sid = ?nsid") (simp, intro stays [of ?k], simp_all add: sv')
qed

lemma upgrade_stages:
  assumes inv: "server_inv n sv" and t: "map_of (sv_tasks sv) k = Some t" "tk_phase t = Upgrading"
  shows "same_stage sv (sv\<lparr>sv_tasks := hinsert k (t\<lparr>tk_phase := AwaitingFirst\<rparr>) (sv_tasks sv)\<rparr>) sid"
proof (cases "sid = task_id t")
  case True
  have "\<not> in_session t" "\<not> in_session (t\<lparr>tk_phase := AwaitingFirst\<rparr>)" "task_id (t\<lparr>tk_phase := AwaitingFirst\<rparr>) = task_id t"
    using t(2) by (simp_all add: in_session_def task_id_def)
  with True t(1) show ?thesis by (intro same_stageI [OF inv, of sid Fresh]) (simp_all, blast+)
next
  case False
  then show ?thesis using t by (intro stays [of k]) (auto simp: task_id_def)
qed

text \<open>A task that ends before its session starts.\<close>

lemma refused_moves:
  assumes inv: "server_inv n sv" and t: "map_of (sv_tasks sv) k = Some t" "\<not> in_session t"
    and sv': "sv_tasks sv' = hremove k (sv_tasks sv)" "next_session_id (sv_node sv') = next_session_id (sv_node sv)"
      "suspended_sessions (sv_node sv') = suspended_sessions (sv_node sv)"
  shows "moves sv sv' (Refuses (task_id t)) sid"
proof (cases "sid = task_id t")
  case True
  have "session_at sv' (task_id t) Ended"
    using task_ids(2) [OF inv t(1)] by (intro dropped_ends [OF inv t(1)]) (auto simp: sv' split: if_splits)
  moreover have "session_at sv (task_id t) Fresh" using t by auto
  ultimately show ?thesis unfolding True by (rule movesI [OF inv _ _ session_step.refused, rotated])
next
  case False
  then show ?thesis using t sv' by (intro moves_stands stays [of k]) auto
qed

text \<open>A connection that asks for a suspended session and does not get it: the request takes the session off the table.\<close>

lemma wasted_moves:
  assumes inv: "server_inv n sv" and t: "map_of (sv_tasks sv) k = Some t" "\<not> in_session t"
    and sv': "sv_tasks sv' = hremove k (sv_tasks sv)" "next_session_id (sv_node sv') = next_session_id (sv_node sv)"
      "suspended_sessions (sv_node sv') = hremove r (suspended_sessions (sv_node sv))"
    and late: "\<And>s. map_of (suspended_sessions (sv_node sv)) r = Some s \<Longrightarrow> \<not> told \<or> deadline s \<le> sv_now sv"
  shows "moves sv sv' (Resumes (task_id t) r told) sid"
proof -
  consider "sid = task_id t" | s where "sid \<noteq> task_id t" "sid = r" "map_of (suspended_sessions (sv_node sv)) r = Some s"
    | "sid \<noteq> task_id t" "sid = r" "map_of (suspended_sessions (sv_node sv)) r = None" | "sid \<noteq> task_id t" "sid \<noteq> r" by blast
  then show ?thesis
  proof cases
    case 1
    have "session_at sv' (task_id t) Ended"
      using task_ids(2) [OF inv t(1)] by (intro dropped_ends [OF inv t(1)]) (auto simp: sv' split: if_splits)
    moreover have "session_at sv (task_id t) Fresh" using t by auto
    ultimately show ?thesis unfolding 1 by (rule movesI [OF inv _ _ session_step.gives_way, rotated])
  next
    case 2
    have "session_at sv' r Ended" by (rule unparked_ends [OF inv 2(3)]) (auto simp: sv' split: if_splits)
    with 2 late show ?thesis by (intro movesI [OF inv, of sid "Parked s" _ Ended]) (auto intro: session_step.wasted)
  next
    case 3
    have "same_stage sv sv' sid" using t sv' 3 by (intro stays [of k]) auto
    moreover have "\<forall>s. st \<noteq> Parked s" if "session_at sv sid st" for st using that 3 by auto
    ultimately show ?thesis using 3 unfolding moves_def same_stage_def by (metis session_step.unknown)
  next
    case 4
    then show ?thesis using t sv' by (intro moves_stands stays [of k]) auto
  qed
qed

text \<open>The first frame: what \<open>open_connection\<close> makes of it, by the act it is to the sessions.\<close>

lemma first_cases:
  assumes "open_connection now send_result c first node = (node', reply, res)"
  obtains (opens) "first_act c first send_result = Opens c" "node' = node" "res = Inr (c, None)"
  | (refuses) e where "first_act c first send_result = Refuses c" "node' = node" "res = Inl e"
  | (resumes) r s where "first_act c first send_result = Resumes c r True" "map_of (suspended_sessions node) r = Some s" "now < deadline s"
      "node' = unpark r node" "res = Inr (r, su_membership s)"
  | (wastes) r told e where "first_act c first send_result = Resumes c r told" "node' = unpark r node" "res = Inl e"
      "\<And>s. map_of (suspended_sessions node) r = Some s \<Longrightarrow> \<not> told \<or> deadline s \<le> now"
proof -
  consider (new) "message_type (header first) = CtrlNewSession" | (resume) "message_type (header first) = CtrlResumeRequest"
    | (other) "message_type (header first) \<notin> {CtrlNewSession, CtrlResumeRequest}" by blast
  then show thesis
  proof cases
    case new
    then show thesis using assms opens refuses
      by (auto simp: open_connection_def first_act_def Let_def split: sum.splits if_splits)
  next
    case other
    then have "first_act c first send_result = Refuses c" "node' = node" "\<exists>e. res = Inl e"
      using assms by (auto simp: open_connection_def first_act_def split: MessageType.splits)
    then show thesis using refuses by blast
  next
    case resume
    let ?r = "hdr_session_id (header first)" and ?told = "send_result = Inr ()"
    have act: "first_act c first send_result = Resumes c ?r ?told" and node: "node' = unpark ?r node"
      using assms resume by (auto simp: open_connection_def first_act_def unpark_def Let_def split: option.splits if_splits)
    show thesis
    proof (cases "\<exists>s. map_of (suspended_sessions node) ?r = Some s \<and> now < deadline s \<and> ?told")
      case True
      then obtain s where s: "map_of (suspended_sessions node) ?r = Some s" "now < deadline s" ?told by blast
      have "res = Inr (?r, su_membership s)" using assms resume s by (simp add: open_connection_def Let_def)
      with act node s resumes show thesis by simp
    next
      case False
      have told: "send_result \<noteq> Inr () \<Longrightarrow> \<exists>e. send_result = Inl e" by (cases send_result) auto
      have "\<exists>e. res = Inl e"
        using assms resume False told by (auto simp: open_connection_def Let_def not_less split: option.splits sum.splits if_splits)
      then show thesis using act node False wastes not_le by blast
    qed
  qed
qed

lemma begin_moves:
  assumes inv: "server_inv n sv" and t: "map_of (sv_tasks sv) k = Some t" "tk_phase t = AwaitingFirst"
    and op: "open_connection (sv_now sv) send_result (tk_candidate t) first (sv_node sv) = (node, reply, Inr (r, mship))"
  shows "moves sv (begin_session k t r mship node sv) (first_act (tk_candidate t) first send_result) sid"
proof -
  define sv' where "sv' = begin_session k t r mship node sv"
  define t' where "t' = t\<lparr>tk_phase := InSession \<lparr>sl_ctx = \<lparr>sc_session_id = r, membership = mship\<rparr>, sl_hb = heartbeat node, sl_last_inbound = sv_now sv\<rparr>\<rparr>"
  have tabs: "sv_tasks sv' = hinsert k t' (sv_tasks sv)" "suspended_sessions (sv_node sv') = suspended_sessions node"
    "next_session_id (sv_node sv') = next_session_id node" by (simp_all add: sv'_def begin_session_alt t'_def)
  have t': "task_id t' = r" by (simp add: t'_def task_id_def)
  have id: "tk_candidate t = task_id t" "\<not> in_session t" using t(2) by (simp_all add: task_id_def in_session_def)
  have live: "session_at sv' r (Live mship (reconnect_window (heartbeat node)))" by (auto simp: tabs t'_def)
  have fresh: "session_at sv (task_id t) Fresh" using t(1) id by auto
  from op show ?thesis unfolding sv'_def [symmetric] id(1)
  proof (cases rule: first_cases)
    case opens
    then have f: "r = task_id t" "mship = None" "node = sv_node sv" using id(1) by simp_all
    show "moves sv sv' (first_act (task_id t) first send_result) sid"
    proof (cases "sid = task_id t")
      case True
      have "session_at sv' (task_id t) (Live None (window_now sv))" using live f by (simp del: session_at.simps)
      from movesI [OF inv fresh this session_step.opens] show ?thesis using True opens(1) id(1) by simp
    next
      case False
      then have "same_stage sv sv' sid" using f t(1) t' by (intro stays [of k]) (simp_all add: tabs)
      with False show ?thesis using opens(1) id(1) by (intro moves_stands) simp_all
    qed
  next
    case (resumes r' s)
    then have f: "mship = su_membership s" "node = unpark r (sv_node sv)" "map_of (suspended_sessions (sv_node sv)) r = Some s"
      "sv_now sv < deadline s" "first_act (task_id t) first send_result = Resumes (task_id t) r True" using id(1) by simp_all
    have node: "suspended_sessions node = hremove r (suspended_sessions (sv_node sv))" "next_session_id node = next_session_id (sv_node sv)"
      "heartbeat node = heartbeat (sv_node sv)" by (simp_all add: f unpark_def)
    have ne: "task_id t \<noteq> r" using task_ids(2) [OF inv t(1)] f(3) by auto
    consider "sid = r" | "sid = task_id t" | "sid \<noteq> r" "sid \<noteq> task_id t" by blast
    then show "moves sv sv' (first_act (task_id t) first send_result) sid"
    proof cases
      case 1
      have "session_at sv r (Parked s)" using f(3) by simp
      from movesI [OF inv this live [unfolded f(1) node(3)] session_step.resumed [OF f(4)]] show ?thesis unfolding 1 f(5) .
    next
      case 2
      have "session_at sv' (task_id t) Ended"
        using t' ne task_ids(2) [OF inv t(1)] by (intro dropped_ends [OF inv t(1)]) (simp_all add: tabs node)
      from movesI [OF inv fresh this session_step.gives_way] show ?thesis unfolding 2 f(5) .
    next
      case 3
      then show ?thesis using t(1) t' by (intro moves_stands stays [of k]) (simp_all add: tabs node f(5))
    qed
  qed simp_all
qed

text \<open>A first frame that starts no session.\<close>

lemma abandon_moves:
  assumes inv: "server_inv n sv" and t: "map_of (sv_tasks sv) k = Some t" "tk_phase t = AwaitingFirst"
    and op: "open_connection (sv_now sv) send_result (tk_candidate t) first (sv_node sv) = (node, reply, Inl result)"
  shows "moves sv (abandon k t node sv) (first_act (tk_candidate t) first send_result) sid"
proof -
  have id: "tk_candidate t = task_id t" "\<not> in_session t" using t(2) by (simp_all add: task_id_def in_session_def)
  have tabs: "sv_tasks (abandon k t nd sv) = hremove k (sv_tasks sv)" "next_session_id (sv_node (abandon k t nd sv)) = next_session_id nd"
    "suspended_sessions (sv_node (abandon k t nd sv)) = suspended_sessions nd" for nd
    using quiet_changes(3) [of nd "tk_ip t"] by (simp_all add: abandon_def quiet_change_def)
  from op show ?thesis
  proof (cases rule: first_cases)
    case (refuses e)
    then show ?thesis using refused_moves [OF inv t(1) id(2)] by (simp add: tabs id(1))
  next
    case (wastes r told e)
    then show ?thesis using wasted_moves [OF inv t(1) id(2) _ _ _ wastes(4)] by (simp add: tabs id(1) unpark_def)
  qed simp_all
qed

text \<open>A call and the membership of its session.\<close>

lemma join_call: "may_join req (membership ctx) (membership (fst (snd (join req name ctx node))))"
  by (cases "membership ctx"; cases req)
    (auto simp: may_join_def join_def is_joined_def Let_def split: option.split)

lemma join_outcome_call:
  assumes "join_outcome node ctx resp req name = (node', ctx', cbs, r)"
  shows "may_join req (membership ctx) (membership ctx')"
  using assms join_call [of req ctx name node] by (cases "join req name ctx node") (simp add: join_outcome_def)

lemma dispatch_after_call:
  assumes "node_ok node" "dispatch_call from_str serde node ctx q = Some (node', ctx', cbs, r)"
  shows "after_call q (membership ctx) (membership ctx')"
proof (cases "manages_federations q")
  case False
  from dispatch_confined [OF assms(1) False, of from_str serde ctx] assms(2) have "ctx' = ctx" by (auto simp: confined_def)
  with False show ?thesis by (cases q rule: manages_federations.cases) simp_all
next
  case True
  then consider m where "q = Some (MemberCall m)" | f where "q = Some (FederationCall f)"
    by (cases q rule: manages_federations.cases) auto
  then show ?thesis
  proof cases
    case 1
    have "dispatch_member node ctx m = (node', ctx', cbs, r)" using assms(2) 1 by (simp add: dispatch_call_def)
    then show ?thesis unfolding 1
      by (cases m) (auto simp: dispatch_member_def resign_def intro: join_outcome_call split: option.splits)
  next
    case 2
    then show ?thesis using assms(2) dispatch_federationD [of from_str node ctx f] by (auto simp: dispatch_call_def)
  qed
qed

lemma channel_send_writable: "snd (channel_send sid f hs) \<longleftrightarrow> writable hs sid"
  by (simp add: channel_send_def writable_def split: option.split)

lemma call_request_after:
  assumes "node_ok node" "handle_call_request lib fr ctx node hs = Some (node', hs', ctx', b)"
  shows "after_call (case lib_decode_request lib (payload fr) of Inr q \<Rightarrow> q | Inl _ \<Rightarrow> None) (membership ctx) (membership ctx')"
    "b \<longleftrightarrow> writable hs (sc_session_id ctx)"
proof -
  define node1 where "node1 = node\<lparr>metrics := (metrics node)\<lparr>calls_dispatched := calls_dispatched (metrics node) + 1\<rparr>\<rparr>"
  have ok: "node_ok node1" using assms(1) by (simp add: node1_def node_ok_def)
  define respond where "respond r = channel_send (sc_session_id ctx) (call_response_frame lib (sc_session_id ctx)
      (sequence_number (header fr)) r) hs" for r
  note h = assms(2) [unfolded handle_call_request_def Let_def, folded node1_def, folded respond_def]
  have w: "snd (respond r) \<longleftrightarrow> writable hs (sc_session_id ctx)" for r by (simp add: respond_def channel_send_writable)
  have "after_call (case lib_decode_request lib (payload fr) of Inr q \<Rightarrow> q | Inl _ \<Rightarrow> None) (membership ctx) (membership ctx') \<and>
    (b \<longleftrightarrow> writable hs (sc_session_id ctx))"
  proof (cases "lib_decode_request lib (payload fr)")
    case (Inl e)
    let ?r = "exception_variant RtiInternalError [DStr ''malformed CallRequest: '', DStr e] :: CallResponse"
    show ?thesis using h w [of ?r] Inl by (cases "respond ?r") (auto split: bool.splits)
  next
    case (Inr q)
    with h obtain node2 c cbs r where d: "dispatch_call (lib_from_str lib) (lib_serde lib) node1 ctx q = Some (node2, c, cbs, r)"
      by (cases "dispatch_call (lib_from_str lib) (lib_serde lib) node1 ctx q") auto
    then have "c = ctx'" "b \<longleftrightarrow> writable hs (sc_session_id ctx)"
      using h w [of r] Inr by (cases "respond r"; auto split: bool.splits)+
    with dispatch_after_call [OF ok d] Inr show ?thesis by simp
  qed
  then show "after_call (case lib_decode_request lib (payload fr) of Inr q \<Rightarrow> q | Inl _ \<Rightarrow> None) (membership ctx) (membership ctx')"
    "b \<longleftrightarrow> writable hs (sc_session_id ctx)" by blast+
qed

lemma frame_stage:
  assumes "node_ok node" "session_frame lib now fr sl node hs = Some (node', hs', sl', b)"
    and sid: "sid = sc_session_id (sl_ctx sl)"
  shows "session_step t w0 (frame_act lib hs sid fr) sid (Live (membership (sl_ctx sl)) (reconnect_window (sl_hb sl)))
    (if b then Live (membership (sl_ctx sl')) (reconnect_window (sl_hb sl')) else closing t (membership (sl_ctx sl')) (reconnect_window (sl_hb sl')))"
    "\<not> concerns (frame_act lib hs sid fr) sid' \<or> sid' = sid"
proof -
  show "session_step t w0 (frame_act lib hs sid fr) sid (Live (membership (sl_ctx sl)) (reconnect_window (sl_hb sl)))
    (if b then Live (membership (sl_ctx sl')) (reconnect_window (sl_hb sl')) else closing t (membership (sl_ctx sl')) (reconnect_window (sl_hb sl')))"
  proof (cases "message_type (header fr) = HlaCallRequest")
    case True
    with assms(2) obtain ctx' where h: "handle_call_request lib fr (sl_ctx sl) node hs = Some (node', hs', ctx', b)"
      "sl_ctx sl' = ctx'" "sl_hb sl' = sl_hb sl" by (auto simp: session_frame_def Let_def)
    note c = call_request_after [OF assms(1) h(1)]
    show ?thesis using session_step.served [OF c(1)] session_step.cut_off [OF c(1)] h(2,3) c(2)
      by (cases b) (simp_all add: frame_act_def True sid)
  next
    case False
    then have "sl_ctx sl' = sl_ctx sl" "sl_hb sl' = sl_hb sl" "b \<longleftrightarrow> message_type (header fr) \<noteq> CtrlTerminateSession"
      using assms(2) by (cases "message_type (header fr)"; auto simp: session_frame_def Let_def)+
    with False show ?thesis
      by (cases "message_type (header fr)") (simp_all add: frame_act_def session_step.closed session_step.stands)
  qed
  show "\<not> concerns (frame_act lib hs sid fr) sid' \<or> sid' = sid"
    by (cases "message_type (header fr)") (simp_all add: frame_act_def)
qed

lemma live_here:
  assumes "map_of (sv_tasks sv) k = Some t" "tk_phase t = InSession sl"
  shows "session_at sv (sc_session_id (sl_ctx sl)) (Live (membership (sl_ctx sl)) (reconnect_window (sl_hb sl)))"
proof -
  have "sl_ctx sl = \<lparr>sc_session_id = sc_session_id (sl_ctx sl), membership = membership (sl_ctx sl)\<rparr>" by simp
  with assms show ?thesis unfolding session_at.simps by blast
qed

lemma continue_moves:
  assumes inv: "server_inv n sv" and t: "map_of (sv_tasks sv) k = Some t" "tk_phase t = InSession sl"
    and id: "sc_session_id (sl_ctx sl') = sc_session_id (sl_ctx sl)"
    and node: "suspended_sessions node = suspended_sessions (sv_node sv)" "next_session_id node = next_session_id (sv_node sv)"
    and st: "session_step (sv_now sv) (window_now sv) act (sc_session_id (sl_ctx sl)) (Live (membership (sl_ctx sl)) (reconnect_window (sl_hb sl)))
      (Live (membership (sl_ctx sl')) (reconnect_window (sl_hb sl')))"
    and act: "\<not> concerns act sid \<or> sid = sc_session_id (sl_ctx sl)"
  shows "moves sv (continue_session k t sl' node hs sv) act sid"
proof (cases "sid = sc_session_id (sl_ctx sl)")
  case True
  let ?sv = "continue_session k t sl' node hs sv"
  have "map_of (sv_tasks ?sv) k = Some (t\<lparr>tk_phase := InSession sl'\<rparr>)" by (simp add: continue_session_def)
  from live_here [OF this, of sl'] have "session_at ?sv (sc_session_id (sl_ctx sl)) (Live (membership (sl_ctx sl')) (reconnect_window (sl_hb sl')))"
    by (simp add: id del: session_at.simps)
  from movesI [OF inv live_here [OF t] this st] show ?thesis unfolding True .
next
  case False
  with act show ?thesis using t id node by (intro moves_stands stays [of k]) (auto simp: continue_session_def task_id_def)
qed

lemma finish_moves:
  assumes inv: "server_inv n sv" and t: "map_of (sv_tasks sv) k = Some t" "tk_phase t = InSession sl"
    and id: "sc_session_id (sl_ctx sl') = sc_session_id (sl_ctx sl)"
    and node: "suspended_sessions node = suspended_sessions (sv_node sv)" "next_session_id node = next_session_id (sv_node sv)"
    and st: "session_step (sv_now sv) (window_now sv) act (sc_session_id (sl_ctx sl)) (Live (membership (sl_ctx sl)) (reconnect_window (sl_hb sl)))
      (closing (sv_now sv) (membership (sl_ctx sl')) (reconnect_window (sl_hb sl')))"
    and act: "\<not> concerns act sid \<or> sid = sc_session_id (sl_ctx sl)"
  shows "moves sv (finish k t sl' node hs sv) act sid"
proof -
  define sv' where "sv' = finish k t sl' node hs sv"
  let ?sid = "sc_session_id (sl_ctx sl)" and ?w = "reconnect_window (sl_hb sl')"
  have tabs: "sv_tasks sv' = hremove k (sv_tasks sv)" "next_session_id (sv_node sv') = next_session_id (sv_node sv)"
    "suspended_sessions (sv_node sv') = (case membership (sl_ctx sl') of
        Some m \<Rightarrow> if 0 < ?w then hinsert ?sid \<lparr>su_membership = Some m, deadline = sv_now sv + ?w\<rparr> (suspended_sessions (sv_node sv))
                  else suspended_sessions (sv_node sv)
      | None \<Rightarrow> suspended_sessions (sv_node sv))"
    by (auto simp: sv'_def finish_def end_session_def connection_ended_def remove_federate_def set_federation_def Let_def id node split: option.split)
  have tid: "task_id t = ?sid" using t(2) by (rule live_task)
  have "session_at sv' ?sid (closing (sv_now sv) (membership (sl_ctx sl')) ?w)"
  proof (cases "\<exists>m. membership (sl_ctx sl') = Some m \<and> 0 < ?w")
    case True
    then show ?thesis by (auto simp: closing_def tabs)
  next
    case False
    then have s: "suspended_sessions (sv_node sv') = suspended_sessions (sv_node sv)" by (auto simp: tabs split: option.split)
    have "session_at sv' (task_id t) Ended"
      using task_ids(2) [OF inv t(1)] by (intro dropped_ends [OF inv t(1)]) (auto simp: tabs(1,2) s split: if_splits)
    then show ?thesis using False tid by (auto simp: closing_def split: option.split)
  qed
  from movesI [OF inv live_here [OF t] this st] have "moves sv sv' act sid" if "sid = ?sid" using that by simp
  moreover have "moves sv sv' act sid" if "sid \<noteq> ?sid"
    using that act t(1) tid by (intro moves_stands stays [of k]) (auto simp: tabs split: option.split)
  ultimately show ?thesis unfolding sv'_def by blast
qed

text \<open>The janitor removes exactly the sessions that are overdue. Its table has each session once, as every event keeps.\<close>

lemma expire_tables:
  "next_session_id (expire_session r node) = next_session_id node"
  "map_of (suspended_sessions (expire_session r node)) = (map_of (suspended_sessions node))(r := None)"
  "wf_hmap (suspended_sessions node) \<Longrightarrow> wf_hmap (suspended_sessions (expire_session r node))"
  by (auto simp: expire_session_def remove_federate_def set_federation_def Let_def fun_eq_iff split: option.split)

lemma expire_fold:
  "next_session_id (fold expire_session rs node) = next_session_id node"
  "map_of (suspended_sessions (fold expire_session rs node)) sid =
     (if sid \<in> set rs then None else map_of (suspended_sessions node) sid)"
  "wf_hmap (suspended_sessions node) \<Longrightarrow> wf_hmap (suspended_sessions (fold expire_session rs node))"
  by (induction rs arbitrary: node) (simp_all add: expire_tables)

lemma janitor_next: "next_session_id (janitor_tick now node) = next_session_id node"
  by (simp add: janitor_tick_def expire_fold)

lemma janitor_tables:
  assumes "wf_hmap (suspended_sessions node)"
  shows "map_of (suspended_sessions (janitor_tick now node)) sid =
    (case map_of (suspended_sessions node) sid of Some s \<Rightarrow> if deadline s \<le> now then None else Some s | None \<Rightarrow> None)"
proof -
  have "sid \<in> set (map fst (filter (\<lambda>(sid, s). deadline s \<le> now) (suspended_sessions node))) \<longleftrightarrow>
      (\<exists>s. map_of (suspended_sessions node) sid = Some s \<and> deadline s \<le> now)"
    using assms by (force simp: wf_hmap_in_set_iff [symmetric])
  then show ?thesis by (auto simp: janitor_tick_def expire_fold(2) split: option.split)
qed

lemma janitor_moves:
  assumes inv: "server_inv n sv" and wf: "wf_hmap (suspended_sessions (sv_node sv))"
  shows "moves sv (sv\<lparr>sv_node := janitor_tick (sv_now sv) (sv_node sv)\<rparr>) Sweeps sid"
proof -
  let ?sv = "sv\<lparr>sv_node := janitor_tick (sv_now sv) (sv_node sv)\<rparr>"
  note tab = janitor_tables [OF wf, of "sv_now sv" sid] janitor_next
  consider s where "map_of (suspended_sessions (sv_node sv)) sid = Some s" "deadline s \<le> sv_now sv"
    | "\<forall>s. map_of (suspended_sessions (sv_node sv)) sid = Some s \<longrightarrow> sv_now sv < deadline s" using not_le by blast
  then show ?thesis
  proof cases
    case 1
    have "session_at ?sv sid Ended" by (rule unparked_ends [OF inv 1(1)]) (simp_all add: tab 1)
    with 1 show ?thesis by (intro movesI [OF inv, of sid "Parked s" _ Ended]) (simp_all add: session_step.expired)
  next
    case 2
    then have "map_of (suspended_sessions (sv_node ?sv)) sid = map_of (suspended_sessions (sv_node sv)) sid"
      by (auto simp: tab split: option.split)
    then have "same_stage sv ?sv sid" by (intro same_tables) (simp_all add: tab)
    moreover have "session_step (sv_now sv) (window_now sv) Sweeps sid st st" if "session_at sv sid st" for st
      using that 2 by (intro session_step.spared) auto
    ultimately show ?thesis unfolding moves_def same_stage_def by blast
  qed
qed

lemma server_event_moves:
  assumes "server_event lib e sv sv'" and inv: "server_inv n sv" and n: "n < 2 ^ 32 - 2" and wf: "wf_hmap (suspended_sessions (sv_node sv))"
  shows "moves sv sv' (act_of lib sv e) sid"
proof -
  have quiet: "moves sv (sv\<lparr>sv_node := node, sv_handles := hs, sv_shutdown := b, sv_now := now\<rparr>) Idle sid" if "quiet_change (sv_node sv) node" for node hs b now
    using that by (intro moves_stands same_tables) (simp_all add: quiet_change_def)
  have same: "quiet_change (sv_node sv) (sv_node sv)" by (simp add: quiet_change_def)
  have acc: "moves sv (spawn ip phase accepted sv) Idle sid"
    if "phase = Upgrading \<or> phase = AwaitingFirst" "accepted \<in> {accept_plain ip (sv_node sv), accept_ws ip (sv_node sv), accept_tls ip (sv_node sv)}"
    for ip phase accepted by (rule moves_stands [OF spawn_stages [OF inv n that]]) simp
  have ok: "node_ok (sv_node sv)" using inv by (simp add: server_inv_def node_inv_def)
  have id: "id_at sv k = task_id t" if "map_of (sv_tasks sv) k = Some t" for k t using that by (simp add: id_at_def)
  from assms(1) show ?thesis
  proof cases
    case (upgrade k t)
    then show ?thesis using moves_stands [OF upgrade_stages [OF inv]] by simp
  next
    case (upgrade_fails k t)
    then show ?thesis using refused_moves [OF inv upgrade_fails(3)] quiet_changes(2) [of "sv_node sv" "tk_ip t"] id [OF upgrade_fails(3)]
      by (simp add: in_session_def quiet_change_def)
  next
    case (first_lost k t)
    then show ?thesis using refused_moves [OF inv first_lost(3)] quiet_changes(3) [of "sv_node sv" "tk_ip t"] id [OF first_lost(3)]
      by (simp add: abandon_def in_session_def quiet_change_def)
  next
    case (refuse k t send_result first node reply result)
    have "task_id t = tk_candidate t" using refuse(4) by (simp add: task_id_def)
    then show ?thesis using refuse abandon_moves [OF inv refuse(3,4,5)] id [OF refuse(3)] by simp
  next
    case (opened k t send_result first node reply r mship)
    have "task_id t = tk_candidate t" using opened(4) by (simp add: task_id_def)
    then show ?thesis using opened begin_moves [OF inv opened(3,4,5)] id [OF opened(3)] by simp
  next
    case (frame k t sl fr node hs sl')
    note eff = session_frame_effect [OF session_task(1,2) [OF inv frame(3,4)] n frame(6)]
    note st = frame_stage [OF ok frame(6) refl]
    show ?thesis unfolding frame(1,2) act_of.simps id [OF frame(3)] live_task [OF frame(4)]
      by (rule continue_moves [OF inv frame(3,4) _ _ _ _ st(2)]) (use eff st(1) in simp_all)
  next
    case (last_frame k t sl fr node hs sl')
    note eff = session_frame_effect [OF session_task(1,2) [OF inv last_frame(3,4)] n last_frame(6)]
    note st = frame_stage [OF ok last_frame(6) refl]
    show ?thesis unfolding last_frame(1,2) act_of.simps id [OF last_frame(3)] live_task [OF last_frame(4)]
      by (rule finish_moves [OF inv last_frame(3,4) _ _ _ _ st(2)]) (use eff st(1) in simp_all)
  next
    case (disconnected k t sl)
    show ?thesis unfolding disconnected(1,2) act_of.simps id [OF disconnected(3)] live_task [OF disconnected(4)]
      by (rule finish_moves [OF inv disconnected(3,4)]) (simp_all add: session_step.closed)
  next
    case (reaped k t sl node)
    then have q: "quiet_change (sv_node sv) node" by (auto simp: liveness_check_def quiet_changes(7) split: if_splits)
    show ?thesis unfolding reaped(1,2) act_of.simps id [OF reaped(3)] live_task [OF reaped(4)]
      by (rule finish_moves [OF inv reaped(3,4)]) (use q in \<open>simp_all add: session_step.closed quiet_change_def\<close>)
  next
    case janitor
    then show ?thesis using janitor_moves [OF inv wf] by simp
  next
    case (configure node l f c)
    then have "quiet_change (sv_node sv) node" using quiet_changes by blast
    from quiet [OF this, where hs = "sv_handles sv" and b = "sv_shutdown sv" and now = "sv_now sv"] show ?thesis using configure by simp
  next
    case (heartbeat_due r)
    then show ?thesis using quiet [OF same, where b = "sv_shutdown sv" and now = "sv_now sv"] by simp
  next
    case (writer_stops r)
    then show ?thesis using quiet [OF same, where b = "sv_shutdown sv" and now = "sv_now sv"] by simp
  next
    case shutdown
    then show ?thesis using quiet [OF same, where hs = "sv_handles sv" and b = True and now = "sv_now sv"] by simp
  next
    case (time_passes d)
    then show ?thesis using quiet [OF same, where hs = "sv_handles sv" and b = "sv_shutdown sv" and now = "sv_now sv + d"] by simp
  qed (simp_all add: acc)
qed

lemma server_event_wf:
  assumes "server_event lib e sv sv'" and inv: "server_inv n sv" and n: "n < 2 ^ 32 - 2" and wf: "wf_hmap (suspended_sessions (sv_node sv))"
  shows "wf_hmap (suspended_sessions (sv_node sv'))"
proof -
  have fin: "wf_hmap (suspended_sessions (sv_node (finish k t sl node hs sv)))" if "suspended_sessions node = suspended_sessions (sv_node sv)" for k t sl node hs
    using that wf by (simp add: finish_def end_session_def Let_def connection_ended_def remove_federate_def set_federation_def split: option.split)
  have acc: "wf_hmap (suspended_sessions (sv_node (spawn ip phase accepted sv)))"
    if "accepted \<in> {accept_plain ip (sv_node sv), accept_ws ip (sv_node sv), accept_tls ip (sv_node sv)}" for ip phase accepted
    using accept_result [OF that] wf by (cases accepted) (auto simp: spawn_def quiet_change_def split: option.split)
  from assms(1) show ?thesis
  proof cases
    case (refuse k t send_result first node reply result)
    from refuse(5) have "node = sv_node sv \<or> (\<exists>r. node = unpark r (sv_node sv))" by (rule open_connection_cases) simp_all
    with refuse wf quiet_changes(3) [of node "tk_ip t"] show ?thesis by (auto simp: abandon_def unpark_def quiet_change_def)
  next
    case (opened k t send_result first node reply r mship)
    from opened(5) have "node = sv_node sv \<or> (\<exists>r. node = unpark r (sv_node sv))" by (rule open_connection_cases) auto
    with opened wf show ?thesis by (auto simp: begin_session_alt unpark_def)
  next
    case (frame k t sl fr node hs sl')
    then show ?thesis using session_frame_effect [OF session_task(1,2) [OF inv frame(3,4)] n frame(6)] wf by (simp add: continue_session_def)
  next
    case (last_frame k t sl fr node hs sl')
    then show ?thesis using session_frame_effect [OF session_task(1,2) [OF inv last_frame(3,4)] n last_frame(6)] fin by simp
  next
    case (reaped k t sl node)
    then have "quiet_change (sv_node sv) node" by (auto simp: liveness_check_def quiet_changes(7) split: if_splits)
    then show ?thesis using reaped fin by (simp add: quiet_change_def)
  next
    case janitor
    then show ?thesis using expire_fold(3) [OF wf] by (simp add: janitor_tick_def)
  next
    case (upgrade_fails k t)
    then show ?thesis using wf quiet_changes(2) [of "sv_node sv" "tk_ip t"] by (simp add: quiet_change_def)
  next
    case (first_lost k t)
    then show ?thesis using wf quiet_changes(3) [of "sv_node sv" "tk_ip t"] by (simp add: abandon_def quiet_change_def)
  next
    case (configure node l f c)
    then have "quiet_change (sv_node sv) node" using quiet_changes by blast
    then show ?thesis using configure wf by (simp add: quiet_change_def)
  qed (use wf fin acc in simp_all)
qed

lemma server_run_wf: "server_run lib n sv \<Longrightarrow> n < 2 ^ 32 - 2 \<Longrightarrow> wf_hmap (suspended_sessions (sv_node sv))"
proof (induction rule: server_run.induct)
  case start
  show ?case by (simp add: new_server_def new_node_def)
next
  case (step n sv sv')
  then show ?case using server_event_wf [OF _ server_run_inv [OF step.hyps(1)]] by (auto simp: server_step_def)
qed

subsection \<open>Federates of ended sessions\<close>

text \<open>No event touches a federate whose session has ended: it is removed only by its own session, or with it.\<close>

lemma valid_cong:
  "valid_membership node sid m \<Longrightarrow> fed_heap node' = fed_heap node \<Longrightarrow> next_federation node' = next_federation node \<Longrightarrow>
   valid_membership node' sid m"
  by (simp add: valid_membership_def)

lemma valid_remove:
  assumes "node_inv n node {}" "valid_membership node r m'" "valid_membership node sid m" "r \<noteq> sid"
  shows "valid_membership (remove_federate m' node) sid m"
proof -
  have "node_inv n (remove_federate m' node) {(sid, m)}"
    by (rule node_inv_remove [OF node_inv_insert [OF assms(1,3)] assms(2)]) (use assms(4) in simp)
  then show ?thesis by (simp add: node_inv_def)
qed

lemma inv_node: "server_inv n sv \<Longrightarrow> node_inv n (sv_node sv) {}"
  by (rule node_inv_mono) (auto simp: server_inv_def)

lemma valid_end:
  assumes inv: "node_inv n node {}" and v: "valid_membership node sid m" and ne: "sc_session_id (sl_ctx sl) \<noteq> sid"
    and own: "\<And>m'. membership (sl_ctx sl) = Some m' \<Longrightarrow> valid_membership node (sc_session_id (sl_ctx sl)) m'"
  shows "valid_membership (sv_node (finish k t sl node hs sv)) sid m"
proof -
  have "valid_membership (remove_federate m' node) sid m" if "membership (sl_ctx sl) = Some m'" for m'
    using valid_remove [OF inv own [OF that] v ne] .
  then show ?thesis
    using v by (auto simp: finish_def end_session_def Let_def connection_ended_def valid_membership_def split: option.split)
qed

lemma valid_janitor:
  assumes inv: "server_inv n sv" and v: "valid_membership (sv_node sv) sid m" and ended: "sid \<notin> parked_ids (sv_node sv)"
  shows "valid_membership (janitor_tick now (sv_node sv)) sid m"
proof -
  have "valid_membership (fold expire_session rs (sv_node sv)) sid m"
    if "server_inv n sv" "valid_membership (sv_node sv) sid m" "sid \<notin> parked_ids (sv_node sv)" for rs sv
    using that
  proof (induction rs arbitrary: sv)
    case (Cons r rs)
    let ?sv = "sv\<lparr>sv_node := expire_session r (sv_node sv)\<rparr>"
    have "valid_membership (expire_session r (sv_node sv)) sid m"
    proof (cases "map_of (suspended_sessions (sv_node sv)) r")
      case (Some s)
      then have ne: "r \<noteq> sid" using Cons.prems(3) by auto
      have v': "valid_membership (unpark r (sv_node sv)) sid m" by (rule valid_cong [OF Cons.prems(2)]) (simp_all add: unpark_def)
      have "valid_membership (remove_federate m' (unpark r (sv_node sv))) sid m" if "su_membership s = Some m'" for m'
      proof (rule valid_remove [OF inv_node [OF unpark_inv [OF Cons.prems(1)], simplified] _ v' ne])
        have "(r, m') \<in> holders sv" using Some that by (simp add: holders_def parked_def)
        then have "valid_membership (sv_node sv) r m'" using Cons.prems(1) by (auto simp: server_inv_def node_inv_def)
        then show "valid_membership (unpark r (sv_node sv)) r m'" by (rule valid_cong) (simp_all add: unpark_def)
      qed
      with v' Some show ?thesis by (auto simp: expire_session_def Let_def unpark_def split: option.split)
    qed (use Cons.prems(2) in \<open>simp add: expire_session_def\<close>)
    moreover have "sid \<notin> parked_ids (expire_session r (sv_node sv))" using Cons.prems(3) by (auto simp: expire_tables domIff)
    ultimately have "valid_membership (fold expire_session rs (sv_node ?sv)) sid m"
      using Cons.IH [OF expire_inv [OF Cons.prems(1), of r]] by simp
    then show ?case by simp
  qed simp
  from this [OF assms] show ?thesis by (simp add: janitor_tick_def)
qed

lemma valid_frame:
  assumes inv: "server_inv n sv" and n: "n < 2 ^ 32 - 2" and t: "map_of (sv_tasks sv) k = Some t" "tk_phase t = InSession sl"
    and f: "session_frame lib now fr sl (sv_node sv) (sv_handles sv) = Some (node, hs, sl', b)"
    and v: "valid_membership (sv_node sv) sid m" and ne: "task_id t \<noteq> sid"
  shows "valid_membership node sid m"
    "valid_membership (sv_node (finish k t sl' node hs sv)) sid m"
proof -
  have id: "sc_session_id (sl_ctx sl) \<noteq> sid" using ne live_task [OF t(2)] by simp
  have "node_inv n (sv_node sv) (held_by (sl_ctx sl))" by (rule node_inv_mono [OF session_task(1) [OF inv t]]) auto
  from node_inv_insert [OF this v] have "node_inv n (sv_node sv) ({(sid, m)} \<union> held_by (sl_ctx sl))" by simp
  note eff = session_frame_effect [OF this _ n f]
  have "node_inv (Suc n) node ({(sid, m)} \<union> held_by (sl_ctx sl'))" "sc_session_id (sl_ctx sl') = sc_session_id (sl_ctx sl)"
    using eff id by auto
  then have ni: "node_inv (Suc n) node {}" and v': "valid_membership node sid m" and ne': "sc_session_id (sl_ctx sl') \<noteq> sid"
    and own: "\<And>m'. membership (sl_ctx sl') = Some m' \<Longrightarrow> valid_membership node (sc_session_id (sl_ctx sl')) m'"
    using id by (auto simp: node_inv_def held_by_def)
  show "valid_membership node sid m" by (rule v')
  show "valid_membership (sv_node (finish k t sl' node hs sv)) sid m" by (rule valid_end [OF ni v' ne' own])
qed

lemma valid_closed:
  assumes inv: "server_inv n sv" and t: "map_of (sv_tasks sv) k = Some t" "tk_phase t = InSession sl" and q: "quiet_change (sv_node sv) node"
    and v: "valid_membership (sv_node sv) sid m" and ne: "task_id t \<noteq> sid"
  shows "valid_membership (sv_node (finish k t sl node hs sv)) sid m"
proof (rule valid_end)
  show "node_inv n node {}" by (rule quiet_node_inv [OF inv_node [OF inv] q])
  show "valid_membership node sid m" by (rule valid_cong [OF v]) (use q in \<open>simp_all add: quiet_change_def\<close>)
  show "sc_session_id (sl_ctx sl) \<noteq> sid" using ne live_task [OF t(2)] by simp
  show "valid_membership node (sc_session_id (sl_ctx sl)) m'" if "membership (sl_ctx sl) = Some m'" for m'
  proof -
    have "valid_membership (sv_node sv) (sc_session_id (sl_ctx sl)) m'"
      using session_task(1) [OF inv t] that by (auto simp: node_inv_def held_by_def)
    then show ?thesis by (rule valid_cong) (use q in \<open>simp_all add: quiet_change_def\<close>)
  qed
qed

lemma event_keeps_stranded:
  assumes "server_event lib e sv sv'" and inv: "server_inv n sv" and n: "n < 2 ^ 32 - 2"
    and ended: "session_at sv sid Ended" and v: "valid_membership (sv_node sv) sid m"
  shows "valid_membership (sv_node sv') sid m"
proof -
  have other: "task_id t \<noteq> sid" if "map_of (sv_tasks sv) k = Some t" for k t using ended that by auto
  have quiet: "valid_membership node sid m" if "fed_heap node = fed_heap (sv_node sv)" "next_federation node = next_federation (sv_node sv)" for node
    by (rule valid_cong [OF v that])
  have acc: "valid_membership (sv_node (spawn ip phase accepted sv)) sid m"
    if "accepted \<in> {accept_plain ip (sv_node sv), accept_ws ip (sv_node sv), accept_tls ip (sv_node sv)}" for ip phase accepted
    using accept_result [OF that] by (intro quiet) (cases accepted; auto simp: spawn_def quiet_change_def split: option.split)+
  from assms(1) show ?thesis
  proof cases
    case (refuse k t sent_ok first node reply result)
    from refuse(5) have "node = sv_node sv \<or> (\<exists>r. node = unpark r (sv_node sv))" by (rule open_connection_cases) simp_all
    with refuse show ?thesis by (intro quiet) (auto simp: abandon_def connection_ended_def unpark_def split: option.split)
  next
    case (opened k t sent_ok first node reply r mship)
    from opened(5) have "node = sv_node sv \<or> (\<exists>r. node = unpark r (sv_node sv))" by (rule open_connection_cases) auto
    with opened show ?thesis by (intro quiet) (auto simp: begin_session_alt unpark_def)
  next
    case (frame k t sl fr node hs sl')
    then show ?thesis using valid_frame(1) [OF inv n frame(3,4,6) v other] by (simp add: continue_session_def)
  next
    case (last_frame k t sl fr node hs sl')
    then show ?thesis using valid_frame(2) [OF inv n last_frame(3,4,6) v other] by simp
  next
    case (disconnected k t sl)
    then show ?thesis using valid_closed [OF inv disconnected(3,4) _ v other] by (simp add: quiet_change_def)
  next
    case (reaped k t sl node)
    then have "quiet_change (sv_node sv) node" by (auto simp: liveness_check_def quiet_changes(7) split: if_splits)
    then show ?thesis using reaped valid_closed [OF inv reaped(3,4) _ v other] by simp
  next
    case janitor
    then show ?thesis using valid_janitor [OF inv v] ended by simp
  next
    case (upgrade_fails k t)
    then show ?thesis by (intro quiet) (simp_all add: upgrade_failed_def split: option.split)
  next
    case (first_lost k t)
    then show ?thesis by (intro quiet) (simp_all add: abandon_def connection_ended_def split: option.split)
  next
    case (configure node l f c)
    then have "quiet_change (sv_node sv) node" using quiet_changes by blast
    then show ?thesis using configure by (intro quiet) (simp_all add: quiet_change_def)
  qed (use acc v in auto)
qed

lemma session_step_ended: "session_step now w0 act sid Ended st \<Longrightarrow> st = Ended"
  by (erule session_step_endedE) simp_all

lemma stranded_forever:
  assumes "(server_step lib ^^ j) sv sv'" "server_run lib n sv" "n + j < 2 ^ 32 - 2" "session_at sv sid Ended"
    "valid_membership (sv_node sv) sid m"
  shows "session_at sv' sid Ended \<and> valid_membership (sv_node sv') sid m"
  using assms(1,3)
proof (induction j arbitrary: sv')
  case 0
  then show ?case using assms(4,5) by simp
next
  case (Suc j)
  then obtain sv1 where "(server_step lib ^^ j) sv sv1" "server_step lib sv1 sv'" by auto
  then obtain e where s: "(server_step lib ^^ j) sv sv1" "server_event lib e sv1 sv'" unfolding server_step_def by blast
  with Suc have ih: "session_at sv1 sid Ended" "valid_membership (sv_node sv1) sid m" by simp_all
  have b: "n + j < 2 ^ 32 - 2" using Suc.prems(2) by simp
  have run: "server_run lib (n + j) sv1" by (rule steps_run [OF s(1) assms(2)])
  note inv = server_run_inv [OF run b]
  from server_event_moves [OF s(2) inv b server_run_wf [OF run b], of sid] ih(1) have "session_at sv' sid Ended"
    unfolding moves_def using session_step_ended by blast
  with event_keeps_stranded [OF s(2) inv b ih] show ?case by blast
qed

lemma destroy_refused:
  assumes "valid_membership node sid m" "map_of (federations node) name = Some (mb_federation m)"
  shows "destroy_federation_execution name node = (node, exception_variant FederatesCurrentlyJoined [DStr name])"
proof -
  have "federates (fed_heap node (mb_federation m)) \<noteq> []" using assms(1) by (auto simp: valid_membership_def)
  then show ?thesis using assms(2) by (simp add: destroy_federation_execution_def)
qed

lemma expired_resume_step:
  assumes inv: "server_inv n sv" and t: "map_of (sv_tasks sv) k = Some t" "tk_phase t = AwaitingFirst"
    and first: "message_type (header first) = CtrlResumeRequest" "hdr_session_id (header first) = sid"
    and s: "map_of (suspended_sessions (sv_node sv)) sid = Some s" "su_membership s = Some m" "deadline s \<le> sv_now sv"
    and op: "open_connection (sv_now sv) sent_ok (tk_candidate t) first (sv_node sv) = (node, reply, res)"
  shows "\<exists>e. res = Inl e" "session_at (abandon k t node sv) sid Ended" "valid_membership (sv_node (abandon k t node sv)) sid m"
proof -
  from op first s(1,3) have res: "node = unpark sid (sv_node sv)" "\<exists>e. res = Inl e"
    by (auto simp: open_connection_def Let_def unpark_def split: sum.splits)
  show "\<exists>e. res = Inl e" by (rule res(2))
  have "sid \<in> parked_ids (sv_node sv)" using s(1) by blast
  then have "sid < next_session_id (sv_node sv)" "\<And>j u. map_of (sv_tasks sv) j = Some u \<Longrightarrow> task_id u \<noteq> sid"
    using inv_ids [OF inv] unfolding ids_ok_def by blast+
  then show "session_at (abandon k t node sv) sid Ended"
    by (auto simp: abandon_def connection_ended_def res(1) unpark_def domIff split: option.split if_splits)
  have "(sid, m) \<in> holders sv" using s by (simp add: holders_def parked_def)
  then have "valid_membership (sv_node sv) sid m" using inv by (auto simp: server_inv_def node_inv_def)
  then show "valid_membership (sv_node (abandon k t node sv)) sid m"
    by (rule valid_cong) (simp_all add: abandon_def connection_ended_def res(1) unpark_def split: option.split)
qed

text \<open>A sample run: the client of a session with a reconnect window of a second is lost after it has joined, and the next
  connection comes \<open>d\<close> milliseconds later.\<close>

definition park_script :: "nat \<Rightarrow> Event list" where
  "park_script d = EvHeartbeatConfig \<lparr>interval = 60000, missing_timeout = 180000, reconnect_window = 1000\<rparr> # join_script @
     [EvLost 0, EvTime d, EvAccept 9]"

lemma park_script_state:
  "\<exists>sv. script sample_lib (park_script d) new_server = Some sv \<and>
     map_of (sv_tasks sv) 1 = Some \<lparr>tk_ip = 9, tk_candidate = 2, tk_phase = AwaitingFirst\<rparr> \<and>
     map_of (suspended_sessions (sv_node sv)) 1 = Some \<lparr>su_membership = Some sample_member, deadline = 1000\<rparr> \<and>
     sv_now sv = d \<and> map_of (federations (sv_node sv)) ''f'' = Some 0 \<and> window_now sv = 1000"
  by (simp add: park_script_def join_script_def sample_run_defs hs_insert_def set_heartbeat_config_def finish_def end_session_def
      connection_ended_def)

lemma park_script_run: "script sample_lib (park_script d) new_server = Some sv \<Longrightarrow> server_run sample_lib 8 sv"
proof -
  have "length (park_script d) = 8" by (simp add: park_script_def join_script_def)
  then show "script sample_lib (park_script d) new_server = Some sv \<Longrightarrow> server_run sample_lib 8 sv" using script_run by metis
qed

lemma resume_frame_fields:
  "message_type (header (resume_frame sid)) = CtrlResumeRequest" "hdr_session_id (header (resume_frame sid)) = sid"
  by (simp_all add: resume_frame_def with_payload_size_def)

inductive_cases session_step_resumesE: "session_step now w0 (Resumes c sid True) sid (Parked s) st"

subsection \<open>Properties\<close>

text \<open>C3. The server refines the specification of a session. In every state it reaches, each session identifier is in exactly one
  stage, and all but 0 start fresh. Every event moves each identifier by the one step of the specification that belongs to
  it: a session is opened without a membership by a handshake of the right version whose answer is sent; it joins only by a join call,
  under the name that asks for, and resigns by a resign call, and no other event changes its membership; when its connection closes,
  it is parked with the membership it has, until the reconnect window it was opened with has passed, or ends; a resume request before the
  deadline whose answer is sent brings it back with exactly that membership, and any other ends it; the janitor ends exactly the
  sessions whose deadline has come; and an ended session stays ended.\<close>

theorem server_refines_sessions:
  assumes "server_run lib n sv" and "n < 2 ^ 32 - 2" and "server_event lib e sv sv'"
  shows "session_at new_server sid (if sid = 0 then Ended else Fresh) \<and> (\<exists>!st. session_at sv sid st) \<and>
    (\<forall>st. session_at sv sid st \<longrightarrow>
       (\<exists>st'. session_at sv' sid st' \<and>
          session_step (sv_now sv) (reconnect_window (heartbeat (sv_node sv))) (act_of lib sv e) sid st st'))"
proof -
  have inv: "server_inv n sv" by (rule server_run_inv [OF assms(1,2)])
  have "session_at new_server sid (if sid = 0 then Ended else Fresh)"
    by (simp add: new_server_def new_node_def word_le_nat_alt unat_gt_0 Suc_le_eq)
  moreover have "\<exists>!st. session_at sv sid st" using stage_exists stage_unique [OF inv_ids [OF inv]] by blast
  ultimately show ?thesis
    using server_event_moves [OF assms(3) inv assms(2) server_run_wf [OF assms(1,2)], of sid] by (simp add: moves_def)
qed

theorem server_refines_sessions_witness:
  "\<exists>sv sv'. server_run sample_lib 8 sv \<and> server_event sample_lib (OnFirst 1 (resume_frame 1) (Inr ())) sv sv' \<and>
     session_at sv 1 (Parked \<lparr>su_membership = Some sample_member, deadline = 1000\<rparr>) \<and> session_at sv' 1 (Live (Some sample_member) 1000)"
proof -
  let ?t = "\<lparr>tk_ip = 9, tk_candidate = 2, tk_phase = AwaitingFirst\<rparr>" and ?s = "\<lparr>su_membership = Some sample_member, deadline = 1000\<rparr>"
  obtain sv where sv: "script sample_lib (park_script 500) new_server = Some sv" "map_of (sv_tasks sv) 1 = Some ?t"
    "map_of (suspended_sessions (sv_node sv)) 1 = Some ?s" "sv_now sv = 500" "window_now sv = 1000"
    using park_script_state [of 500] by blast
  note run = park_script_run [OF sv(1)]
  obtain node reply where "open_connection (sv_now sv) (Inr ()) (tk_candidate ?t) (resume_frame 1) (sv_node sv) = (node, reply, Inr (1, Some sample_member))"
    by (simp add: open_connection_def resume_frame_fields sv Let_def)
  then have event: "server_event sample_lib (OnFirst 1 (resume_frame 1) (Inr ())) sv (begin_session 1 ?t 1 (Some sample_member) node sv)"
    using sv(2) by (intro server_event.opened) simp_all
  have act: "act_of sample_lib sv (OnFirst 1 (resume_frame 1) (Inr ())) = Resumes 2 1 True"
    by (simp add: first_act_def resume_frame_fields id_at_def sv(2) task_id_def del: One_nat_def)
  have parked: "session_at sv 1 (Parked ?s)" using sv(3) by simp
  from server_refines_sessions [OF run _ event, of 1] parked obtain st where
    "session_at (begin_session 1 ?t 1 (Some sample_member) node sv) 1 st" "session_step 500 1000 (Resumes 2 1 True) 1 (Parked ?s) st"
    unfolding act sv(4,5) by fastforce
  then have "session_at (begin_session 1 ?t 1 (Some sample_member) node sv) 1 (Live (Some sample_member) 1000)"
    by (elim session_step_resumesE) simp_all
  with run event parked show ?thesis by blast
qed

text \<open>C22. A session that is resumed too late strands its federate. The resume request of a session whose
  deadline has passed, when it comes before the next run of the janitor, is refused and ends the session, but
  its federate stays in the federation: whatever happens later, it is registered there, no session holds it,
  and the federation cannot be destroyed.\<close>

theorem expired_resume_strands_federate:
  assumes "server_run lib n sv" and "map_of (sv_tasks sv) k = Some t" and "tk_phase t = AwaitingFirst"
    and "message_type (header first) = CtrlResumeRequest" and "hdr_session_id (header first) = sid"
    and "map_of (suspended_sessions (sv_node sv)) sid = Some s" and "su_membership s = Some m" and "deadline s \<le> sv_now sv"
    and "open_connection (sv_now sv) sent_ok (tk_candidate t) first (sv_node sv) = (node, reply, res)"
    and "(server_step lib ^^ j) (abandon k t node sv) sv'" and "Suc n + j < 2 ^ 32 - 2"
  shows "(\<exists>e. res = Inl e) \<and> server_step lib sv (abandon k t node sv) \<and> session_at sv' sid Ended \<and>
    valid_membership (sv_node sv') sid m \<and>
    (\<forall>name. map_of (federations (sv_node sv')) name = Some (mb_federation m) \<longrightarrow>
       destroy_federation_execution name (sv_node sv') = (sv_node sv', exception_variant FederatesCurrentlyJoined [DStr name]))"
proof -
  have inv: "server_inv n sv" by (rule server_run_inv [OF assms(1)]) (use assms(11) in simp)
  note st = expired_resume_step [OF inv assms(2-9)]
  from st(1) assms(2,3,9) have step: "server_step lib sv (abandon k t node sv)" by (auto intro: server_event.refuse [THEN server_stepI])
  from stranded_forever [OF assms(10) server_run.step [OF assms(1) step] assms(11) st(2,3)] st(1) step show ?thesis
    using destroy_refused by blast
qed

theorem expired_resume_strands_federate_witness:
  "\<exists>sv sv'. server_run sample_lib 8 sv \<and> map_of (suspended_sessions (sv_node sv)) 1 = Some \<lparr>su_membership = Some sample_member, deadline = 1000\<rparr> \<and>
     server_step sample_lib sv sv' \<and> session_at sv' 1 Ended \<and> valid_membership (sv_node sv') 1 sample_member \<and>
     snd (destroy_federation_execution ''f'' (sv_node sv')) = exception_variant FederatesCurrentlyJoined [DStr ''f'']"
proof -
  let ?t = "\<lparr>tk_ip = 9, tk_candidate = 2, tk_phase = AwaitingFirst\<rparr>"
  obtain sv where sv: "script sample_lib (park_script 2000) new_server = Some sv" "map_of (sv_tasks sv) 1 = Some ?t"
    "map_of (suspended_sessions (sv_node sv)) 1 = Some \<lparr>su_membership = Some sample_member, deadline = 1000\<rparr>"
    "sv_now sv = 2000" "map_of (federations (sv_node sv)) ''f'' = Some 0"
    using park_script_state [of 2000] by blast
  note run = park_script_run [OF sv(1)]
  obtain node reply res where op: "open_connection (sv_now sv) (Inr ()) (tk_candidate ?t) (resume_frame 1) (sv_node sv) = (node, reply, res)"
    by (cases "open_connection (sv_now sv) (Inr ()) (tk_candidate ?t) (resume_frame 1) (sv_node sv)")
  let ?sv = "abandon 1 ?t node sv"
  have "federations node = federations (sv_node sv)" using op by (rule open_connection_cases) (auto simp: unpark_def)
  then have fed: "map_of (federations (sv_node ?sv)) ''f'' = Some (mb_federation sample_member)"
    using sv(5) by (simp add: abandon_def connection_ended_def sample_member_def split: option.split)
  have "(server_step sample_lib ^^ 0) ?sv ?sv" by simp
  note stranded = expired_resume_strands_federate [OF run sv(2) _ resume_frame_fields sv(3) _ _ op this]
  have "server_step sample_lib sv ?sv \<and> session_at ?sv 1 Ended \<and> valid_membership (sv_node ?sv) 1 sample_member \<and>
      destroy_federation_execution ''f'' (sv_node ?sv) = (sv_node ?sv, exception_variant FederatesCurrentlyJoined [DStr ''f''])"
    using stranded fed sv(4) by (simp del: session_at.simps)
  then have "server_step sample_lib sv ?sv \<and> session_at ?sv 1 Ended \<and> valid_membership (sv_node ?sv) 1 sample_member \<and>
      snd (destroy_federation_execution ''f'' (sv_node ?sv)) = exception_variant FederatesCurrentlyJoined [DStr ''f'']" by (metis snd_conv)
  with run sv(3) show ?thesis by blast
qed

end
