(* ===== verification/Server_Members.thy ===== *)
theory Server_Members
  imports Server_Props
begin

text \<open>
  The converse of the invariant of \<open>Server_Props\<close>: in every state the server reaches, a federate that is registered under a
  session which runs or is suspended is the one that session holds. So a connected session carries one
  federate at most, and what is sent to its connection is meant for that federate.
\<close>

subsection \<open>Registered federates and held memberships\<close>

text \<open>The federates of all federations, with the session each is registered under, and the place a membership stands for.\<close>

definition registered :: "RtiNode \<Rightarrow> (nat \<times> FederateHandle \<times> u64) set" where
  "registered node = {(i, h, sid). \<exists>fs. map_of (federates (fed_heap node i)) h = Some fs \<and> fs_session_id fs = sid}"

definition seat :: "u64 \<times> Membership \<Rightarrow> nat \<times> FederateHandle \<times> u64" where
  "seat hm = (mb_federation (snd hm), mb_federate_handle (snd hm), fst hm)"

definition live_ids :: "(nat, Task) hmap \<Rightarrow> RtiNode \<Rightarrow> u64 set" where
  "live_ids ts node = over_tasks (\<lambda>t. {task_id t}) ts \<union> parked_ids node"

definition seats_ok :: "RtiNode \<Rightarrow> u64 set \<Rightarrow> (u64 \<times> Membership) set \<Rightarrow> bool" where
  "seats_ok node live held \<longleftrightarrow>
     (\<forall>i h sid. (i, h, sid) \<in> registered node \<longrightarrow>
        sid < next_session_id node \<and> (sid \<in> live \<longrightarrow> (i, h, sid) \<in> seat ` held))"

lemma seats_step:
  assumes "seats_ok node live held" and "next_session_id node \<le> next_session_id node'"
    and "registered node' \<subseteq> registered node" and "\<And>sid. sid \<in> live' \<Longrightarrow> sid \<in> live \<or> next_session_id node \<le> sid"
    and "\<And>sid m. (sid, m) \<in> held \<Longrightarrow> sid \<in> live' \<Longrightarrow> seat (sid, m) \<in> registered node' \<Longrightarrow> (sid, m) \<in> held'"
  shows "seats_ok node' live' held'"
proof -
  have "sid < next_session_id node' \<and> (sid \<in> live' \<longrightarrow> (i, h, sid) \<in> seat ` held')" if r: "(i, h, sid) \<in> registered node'" for i h sid
  proof -
    note s = assms(1) [unfolded seats_ok_def, rule_format, OF subsetD [OF assms(3) r]]
    then have lt: "sid < next_session_id node" by (rule conjunct1)
    have "(i, h, sid) \<in> seat ` held'" if l: "sid \<in> live'"
    proof -
      have "\<not> next_session_id node \<le> sid" using lt by (simp only: not_le)
      with assms(4) [OF l] have "sid \<in> live" by simp
      with s obtain m where m: "(sid, m) \<in> held" "(i, h, sid) = seat (sid, m)" by (auto simp: seat_def)
      have "(sid, m) \<in> held'" using assms(5) [OF m(1) l] r m(2) by simp
      with m(2) show ?thesis by (rule image_eqI)
    qed
    moreover have "sid < next_session_id node'" by (rule less_le_trans [OF lt assms(2)])
    ultimately show ?thesis by simp
  qed
  then show ?thesis unfolding seats_ok_def by blast
qed

lemma registered_heap: "fed_heap node' = fed_heap node \<Longrightarrow> registered node' = registered node"
  by (simp add: registered_def)

lemma quiet_registered: "quiet_change node node' \<Longrightarrow> registered node' = registered node"
  by (rule registered_heap) (simp add: quiet_change_def)

lemma remove_federate_heap:
  "map_of (federates (fed_heap (remove_federate m node) i)) h =
     (if (i, h) = (mb_federation m, mb_federate_handle m) then None else map_of (federates (fed_heap node i)) h)"
  by (simp add: remove_federate_def set_federation_def Let_def)

lemma registered_remove:
  "registered (remove_federate m node) = {(i, h, sid)\<in>registered node. (i, h) \<noteq> (mb_federation m, mb_federate_handle m)}"
  by (auto simp: registered_def remove_federate_heap split: if_splits)

subsection \<open>Calls\<close>

text \<open>A call registers the federate it makes its session a member for, and takes away the one its session leaves.\<close>

definition seats_follow :: "RtiNode \<Rightarrow> SessionContext \<Rightarrow> RtiNode \<Rightarrow> SessionContext \<Rightarrow> bool" where
  "seats_follow node ctx node' ctx' \<longleftrightarrow>
     registered node' \<subseteq> registered node \<union> seat ` held_by ctx' \<and> registered node' \<inter> seat ` held_by ctx \<subseteq> seat ` held_by ctx'"

lemma seats_follow_same: "registered node' \<subseteq> registered node \<Longrightarrow> seats_follow node ctx node' ctx"
  by (auto simp: seats_follow_def)

lemma registered_view:
  assumes "\<And>i. ident_view (fed_heap node' i) = ident_view (fed_heap node i)"
  shows "registered node' = registered node"
proof -
  have "(\<exists>fs. map_of (federates f) h = Some fs \<and> fs_session_id fs = sid) \<longleftrightarrow>
      (\<exists>a b. map_of (snd (ident_view f)) h = Some (a, b, sid))" for f h sid
    unfolding ident_view_def snd_conv map_of_map by (cases "map_of (federates f) h") simp_all
  then show ?thesis using assms by (simp add: registered_def)
qed

lemma registered_create:
  "create_federation_inner from_str name mods node = Some (node', r) \<Longrightarrow> registered node' \<subseteq> registered node"
  by (auto simp: create_federation_inner_def registered_def new_federation_def Let_def split: if_splits sum.splits option.splits)

lemma registered_destroy: "registered (fst (destroy_federation_execution name node)) = registered node"
  by (simp add: destroy_federation_execution_def registered_def split: option.split)

lemma join_follow:
  assumes "join req name ctx node = (node', ctx', r)"
  shows "seats_follow node ctx node' ctx'"
proof (cases "is_joined ctx \<or> map_of (federations node) name = None")
  case True
  then have "node' = node \<and> ctx' = ctx" using assms by (cases "is_joined ctx") (simp_all add: join_def)
  then show ?thesis by (simp add: seats_follow_same)
next
  case False
  then obtain i where "map_of (federations node) name = Some i" and "membership ctx = None" by (auto simp: is_joined_def)
  then show ?thesis using assms
    by (auto simp: join_def is_joined_def seats_follow_def registered_def seat_def held_by_def set_federation_def Let_def split: if_splits)
qed

lemma resign_follow: "resign ctx node = (node', ctx', r) \<Longrightarrow> seats_follow node ctx node' ctx'"
  by (cases "membership ctx") (auto simp: resign_def seats_follow_def registered_remove held_by_def seat_def)

lemma member_follow:
  assumes "dispatch_member node ctx q = (node', ctx', cbs, r)"
  shows "seats_follow node ctx node' ctx'"
proof -
  have jo: ?thesis if "join_outcome node ctx resp req name = (node', ctx', cbs, r)" for resp req name
    using that join_follow [of req name ctx node] by (cases "join req name ctx node") (simp add: join_outcome_def)
  show ?thesis
  proof (cases q)
    case ResignFederationExecution
    with assms show ?thesis using resign_follow [of ctx node] by (cases "resign ctx node") (simp add: dispatch_member_def)
  qed (use assms in \<open>auto simp: dispatch_member_def seats_follow_same intro: jo\<close>)
qed

lemma dispatch_follow:
  assumes "node_ok node" and "dispatch_call from_str serde node ctx q = Some (node', ctx', cbs, r)"
  shows "seats_follow node ctx node' ctx'"
proof (cases "manages_federations q")
  case False
  from dispatch_confined [OF assms(1) False, of from_str serde ctx] assms(2) have c: "confined node ctx (node', ctx', cbs, r)" by auto
  then have "registered node' = registered node" by (intro registered_view) (simp add: confined_def good_change_def)
  with c show ?thesis by (simp add: confined_def seats_follow_same)
next
  case True
  then consider m where "q = Some (MemberCall m)" | f where "q = Some (FederationCall f)"
    by (cases q rule: manages_federations.cases) auto
  then show ?thesis
  proof cases
    case 1
    then show ?thesis using member_follow [of node ctx m node' ctx' cbs r] assms(2) by (auto simp: dispatch_call_def)
  next
    case 2
    then have "dispatch_federation from_str node ctx f = Some (node', ctx', cbs, r)" using assms(2) by (simp add: dispatch_call_def)
    from dispatch_federationD [OF this] show ?thesis
      using registered_create registered_destroy seats_follow_same by (metis order_refl)
  qed
qed

lemma follow_seats:
  assumes "seats_ok node live (held \<union> held_by ctx)" and "seats_follow node ctx node' ctx'"
    and "sc_session_id ctx' < next_session_id node" and "next_session_id node' = next_session_id node"
  shows "seats_ok node' live (held \<union> held_by ctx')"
proof -
  have "sid < next_session_id node' \<and> (sid \<in> live \<longrightarrow> (i, h, sid) \<in> seat ` (held \<union> held_by ctx'))"
    if r: "(i, h, sid) \<in> registered node'" for i h sid
  proof (cases "(i, h, sid) \<in> seat ` held_by ctx'")
    case True
    then have "sid = sc_session_id ctx'" by (auto simp: seat_def held_by_def)
    with True assms(3,4) show ?thesis by (simp add: image_Un)
  next
    case False
    with assms(2) r have old: "(i, h, sid) \<in> registered node" "(i, h, sid) \<notin> seat ` held_by ctx"
      unfolding seats_follow_def by blast+
    from assms(1) [unfolded seats_ok_def, rule_format, OF old(1)] old(2) assms(4) show ?thesis by (simp add: image_Un)
  qed
  then show ?thesis unfolding seats_ok_def by blast
qed

lemma seats_quiet:
  assumes "seats_ok node live held" and "fed_heap node' = fed_heap node" and "next_session_id node' = next_session_id node"
    and "live' \<subseteq> live" and "\<And>sid m. (sid, m) \<in> held \<Longrightarrow> sid \<in> live' \<Longrightarrow> (sid, m) \<in> held'"
  shows "seats_ok node' live' held'"
proof (rule seats_step [OF assms(1)])
  show "registered node' \<subseteq> registered node" using registered_heap [OF assms(2)] by simp
  show "next_session_id node \<le> next_session_id node'" using assms(3) by simp
qed (use assms(4,5) in auto)

lemma call_request_seats:
  assumes ok: "seats_ok node live (held \<union> held_by ctx)" and inv: "node_inv n node (held \<union> held_by ctx)"
    and own: "\<And>m'. (sc_session_id ctx, m') \<notin> held" and n: "n < 2 ^ 32 - 2" and sid: "sc_session_id ctx < next_session_id node"
    and h: "handle_call_request lib fr ctx node hs = Some (node', hs', ctx', b)"
  shows "seats_ok node' live (held \<union> held_by ctx')"
proof -
  note eff = call_request_effect [OF inv own n h]
  define node1 where "node1 = node\<lparr>metrics := (metrics node)\<lparr>calls_dispatched := calls_dispatched (metrics node) + 1\<rparr>\<rparr>"
  have q1: "quiet_change node node1" unfolding node1_def by (rule quiet_changes(7))
  have ok1: "node_ok node1" using quiet_node_inv [OF inv q1] by (simp add: node_inv_def)
  define outcome where "outcome = (case lib_decode_request lib (payload fr) of
      Inr req \<Rightarrow> dispatch_call (lib_from_str lib) (lib_serde lib) node1 ctx req
    | Inl e \<Rightarrow> Some (node1, ctx, [], exception_variant RtiInternalError [DStr ''malformed CallRequest: '', DStr e]))"
  define respond where "respond r = channel_send (sc_session_id ctx) (call_response_frame lib (sc_session_id ctx)
      (sequence_number (header fr)) r) hs" for r
  note h' = h [unfolded handle_call_request_def Let_def, folded node1_def, folded outcome_def, folded respond_def]
  obtain node2 c cbs r where out: "outcome = Some (node2, c, cbs, r)" using h' by (cases outcome) auto
  obtain hs1 taken where r: "respond r = (hs1, taken)" by (cases "respond r")
  from h' out r obtain m where node': "c = ctx'" "node' = node2\<lparr>metrics := m\<rparr>" by (cases taken) auto
  have "seats_follow node1 ctx node2 ctx'"
  proof (cases "lib_decode_request lib (payload fr)")
    case (Inl e)
    then show ?thesis using out node'(1) by (simp add: outcome_def seats_follow_same)
  next
    case (Inr q)
    with out have "dispatch_call (lib_from_str lib) (lib_serde lib) node1 ctx q = Some (node2, ctx', cbs, r)"
      using node'(1) by (simp add: outcome_def)
    from dispatch_follow [OF ok1 this] show ?thesis .
  qed
  moreover have "registered node1 = registered node" by (rule quiet_registered [OF q1])
  moreover have "registered node' = registered node2" by (rule registered_heap) (simp add: node'(2))
  ultimately have "seats_follow node ctx node' ctx'" by (simp add: seats_follow_def)
  from follow_seats [OF ok this] eff sid show ?thesis by simp
qed

lemma session_frame_seats:
  assumes ok: "seats_ok node live (held \<union> held_by (sl_ctx sl))" and inv: "node_inv n node (held \<union> held_by (sl_ctx sl))"
    and own: "\<And>m'. (sc_session_id (sl_ctx sl), m') \<notin> held" and n: "n < 2 ^ 32 - 2"
    and sid: "sc_session_id (sl_ctx sl) < next_session_id node"
    and f: "session_frame lib now fr sl node hs = Some (node', hs', sl', b)"
  shows "seats_ok node' live (held \<union> held_by (sl_ctx sl'))"
proof (cases "message_type (header fr) = HlaCallRequest")
  case True
  with f obtain ctx' where "handle_call_request lib fr (sl_ctx sl) node hs = Some (node', hs', ctx', b)" "sl_ctx sl' = ctx'"
    by (auto simp: session_frame_def Let_def)
  from call_request_seats [OF ok inv own n sid this(1)] this(2) show ?thesis by simp
next
  case False
  with f have "node' = node" "sl_ctx sl' = sl_ctx sl"
    by (cases "message_type (header fr)"; auto simp: session_frame_def Let_def)+
  with ok show ?thesis by simp
qed

subsection \<open>The end of sessions\<close>

lemma end_session_seats:
  assumes ok: "seats_ok node live (held \<union> parked node \<union> held_by (sl_ctx sl))"
    and own: "\<And>m'. (sc_session_id (sl_ctx sl), m') \<notin> held \<union> parked node" and live: "sc_session_id (sl_ctx sl) \<in> live" "ids \<union> parked_ids node \<subseteq> live"
    and e: "end_session now sl node hs = (node', hs')"
  shows "seats_ok node' (ids \<union> parked_ids node') (held \<union> parked node')"
proof (cases "membership (sl_ctx sl)")
  case None
  then have node': "node' = node\<lparr>connections := hs_remove (sc_session_id (sl_ctx sl)) (connections node)\<rparr>"
    using e by (simp add: end_session_def Let_def)
  show ?thesis by (rule seats_quiet [OF ok]) (use None live in \<open>auto simp: node' parked_def held_by_def\<close>)
next
  case (Some m)
  show ?thesis
  proof (cases "0 < reconnect_window (sl_hb sl)")
    case True
    let ?s = "\<lparr>su_membership = Some m, deadline = now + reconnect_window (sl_hb sl)\<rparr>"
    have node': "node' = node\<lparr>suspended_sessions := hinsert (sc_session_id (sl_ctx sl)) ?s (suspended_sessions node),
        connections := hs_remove (sc_session_id (sl_ctx sl)) (connections node)\<rparr>"
      using e Some True by (simp add: end_session_def Let_def)
    have "parked node' = insert (sc_session_id (sl_ctx sl), m) (parked node)"
    proof -
      have "\<forall>m'. (sc_session_id (sl_ctx sl), m') \<notin> parked node" using own by blast
      then show ?thesis by (fastforce simp: node' parked_def split: if_splits)
    qed
    moreover have "parked_ids node' = insert (sc_session_id (sl_ctx sl)) (parked_ids node)" by (simp add: node')
    ultimately show ?thesis by (intro seats_quiet [OF ok]) (use Some live in \<open>auto simp: node' held_by_def\<close>)
  next
    case False
    have node': "node' = (remove_federate m node)\<lparr>connections := hs_remove (sc_session_id (sl_ctx sl)) (connections (remove_federate m node))\<rparr>"
      using e Some False by (simp add: end_session_def Let_def)
    have frame: "suspended_sessions node' = suspended_sessions node" "next_session_id node' = next_session_id node"
      using runtime_view_remove [of m node] by (simp_all add: node' runtime_view_def)
    have reg: "registered node' = registered (remove_federate m node)" by (rule registered_heap) (simp add: node')
    show ?thesis
    proof (rule seats_step [OF ok])
      show "registered node' \<subseteq> registered node" by (auto simp: reg registered_remove)
      show "(sid, m') \<in> held \<union> parked node'"
        if "(sid, m') \<in> held \<union> parked node \<union> held_by (sl_ctx sl)" "seat (sid, m') \<in> registered node'" for sid m'
        using that by (auto simp: reg registered_remove held_by_def Some seat_def parked_def frame)
    qed (use live in \<open>auto simp: frame\<close>)
  qed
qed

subsection \<open>Every step keeps the converse\<close>

abbreviation task_ids :: "(nat, Task) hmap \<Rightarrow> u64 set" where
  "task_ids \<equiv> over_tasks (\<lambda>t. {task_id t})"

definition members_inv :: "Server \<Rightarrow> bool" where
  "members_inv sv \<longleftrightarrow> seats_ok (sv_node sv) (live_ids (sv_tasks sv) (sv_node sv)) (holders sv)"

lemma members_quiet:
  assumes "members_inv sv" and "fed_heap (sv_node sv') = fed_heap (sv_node sv)"
    and "next_session_id (sv_node sv') = next_session_id (sv_node sv)"
    and "live_ids (sv_tasks sv') (sv_node sv') \<subseteq> live_ids (sv_tasks sv) (sv_node sv)"
    and "\<And>sid m. (sid, m) \<in> holders sv \<Longrightarrow> sid \<in> live_ids (sv_tasks sv') (sv_node sv') \<Longrightarrow> (sid, m) \<in> holders sv'"
  shows "members_inv sv'"
  unfolding members_inv_def by (rule seats_quiet [OF assms(1) [unfolded members_inv_def] assms(2-5)])

lemma members_node:
  "members_inv sv \<Longrightarrow> quiet_change (sv_node sv) node \<Longrightarrow> members_inv (sv\<lparr>sv_node := node\<rparr>)"
  by (rule members_quiet [of sv]) (auto simp: quiet_change_def live_ids_def holders_def parked_def)

lemma spawn_members:
  assumes ok: "members_inv sv" and inv: "server_inv n sv" and n: "n < 2 ^ 32 - 2" and phase: "phase = Upgrading \<or> phase = AwaitingFirst"
    and acc: "accepted \<in> {accept_plain ip (sv_node sv), accept_ws ip (sv_node sv), accept_tls ip (sv_node sv)}"
  shows "members_inv (spawn ip phase accepted sv)"
  using accept_result [OF acc]
proof
  assume "snd accepted = None \<and> quiet_change (sv_node sv) (fst accepted)"
  with members_node [OF ok] show ?thesis by (cases accepted) (simp add: spawn_def)
next
  let ?sid = "next_session_id (sv_node sv)" and ?k = "sv_next_task sv"
  let ?t = "\<lparr>tk_ip = ip, tk_candidate = ?sid, tk_phase = phase\<rparr>"
  assume r: "snd accepted = Some ?sid \<and> quiet_change ((sv_node sv)\<lparr>next_session_id := ?sid + 1\<rparr>) (fst accepted)"
  have new: "map_of (sv_tasks sv) ?k = None" using inv by (metis server_inv_def less_irrefl not_Some_eq)
  have t: "task_id ?t = ?sid" "task_held ?t = {}" using phase by (auto simp: task_id_def task_held_def)
  have "unat ?sid \<le> Suc n" using inv by (simp add: server_inv_def ids_ok_def)
  then have "unat (?sid + 1) = Suc (unat ?sid)" using n by (simp add: unat_word_ariths)
  then have le: "?sid \<le> ?sid + 1" by (simp add: word_le_nat_alt)
  have ids: "task_ids (hinsert ?k ?t (sv_tasks sv)) = insert ?sid (task_ids (sv_tasks sv))"
    and held: "running (hinsert ?k ?t (sv_tasks sv)) = running (sv_tasks sv)" by (simp_all add: over_insert over_new new t)
  have node: "fed_heap (fst accepted) = fed_heap (sv_node sv)" "suspended_sessions (fst accepted) = suspended_sessions (sv_node sv)"
    "next_session_id (fst accepted) = ?sid + 1" using r by (simp_all add: quiet_change_def)
  have "seats_ok (fst accepted) (live_ids (hinsert ?k ?t (sv_tasks sv)) (fst accepted)) (holders sv)"
  proof (rule seats_step [OF ok [unfolded members_inv_def]])
    show "registered (fst accepted) \<subseteq> registered (sv_node sv)" using registered_heap [OF node(1)] by simp
  qed (use le in \<open>auto simp: live_ids_def node ids\<close>)
  moreover have "parked (fst accepted) = parked (sv_node sv)" by (simp add: parked_def node(2))
  ultimately show ?thesis using r by (cases accepted) (simp add: spawn_def members_inv_def holders_def held)
qed

lemma lost_task_members:
  assumes ok: "members_inv sv" and t: "map_of (sv_tasks sv) k = Some t" "\<not> in_session t" and q: "quiet_change (sv_node sv) node"
  shows "members_inv (sv\<lparr>sv_node := node, sv_tasks := hremove k (sv_tasks sv)\<rparr>)"
proof -
  have "task_held t = {}" using t(2) by (auto simp: task_held_def in_session_def split: Phase.split)
  then have "running (hremove k (sv_tasks sv)) = running (sv_tasks sv)" using over_lookup [OF t(1), of task_held] by simp
  moreover have "task_ids (hremove k (sv_tasks sv)) \<subseteq> task_ids (sv_tasks sv)" using over_lookup [OF t(1), of "\<lambda>t. {task_id t}"] by blast
  ultimately show ?thesis
    by (intro members_quiet [OF ok]) (use q in \<open>auto simp: quiet_change_def live_ids_def holders_def parked_def\<close>)
qed

lemma unpark_members:
  assumes ok: "members_inv sv" and inv: "server_inv n sv"
  shows "members_inv (sv\<lparr>sv_node := unpark sid (sv_node sv)\<rparr>)"
proof (rule members_quiet [OF ok])
  let ?sv = "sv\<lparr>sv_node := unpark sid (sv_node sv)\<rparr>"
  have ids: "ids_ok n (next_session_id (sv_node sv)) (parked_ids (sv_node sv)) (sv_tasks sv)" using inv by (simp add: server_inv_def)
  show "live_ids (sv_tasks ?sv) (sv_node ?sv) \<subseteq> live_ids (sv_tasks sv) (sv_node sv)"
    by (auto simp: live_ids_def unpark_def split: if_splits)
  fix s m assume h: "(s, m) \<in> holders sv" and l: "s \<in> live_ids (sv_tasks ?sv) (sv_node ?sv)"
  show "(s, m) \<in> holders ?sv"
  proof (cases "(s, m) \<in> running (sv_tasks sv)")
    case False
    with h have p: "(s, m) \<in> parked (sv_node sv)" by (simp add: holders_def)
    with ids have "s \<notin> task_ids (sv_tasks sv)" using parked_id [OF p] by (auto simp: ids_ok_def over_tasks_def)
    with l have "s \<noteq> sid" by (auto simp: live_ids_def unpark_def)
    with p show ?thesis by (simp add: holders_def unpark_parked)
  qed (simp add: holders_def)
qed (simp_all add: unpark_def)

lemma begin_members:
  assumes ok: "members_inv sv" and t: "map_of (sv_tasks sv) k = Some t" "tk_phase t = AwaitingFirst"
    and op: "open_connection (sv_now sv) sent_ok (tk_candidate t) first (sv_node sv) = (node, reply, Inr (sid, mship))"
  shows "members_inv (begin_session k t sid mship node sv)"
proof -
  define sl where "sl = \<lparr>sl_ctx = \<lparr>sc_session_id = sid, membership = mship\<rparr>, sl_hb = heartbeat node, sl_last_inbound = sv_now sv\<rparr>"
  define t' where "t' = t\<lparr>tk_phase := InSession sl\<rparr>"
  let ?node2 = "node\<lparr>metrics := (metrics node)\<lparr>sessions_opened := sessions_opened (metrics node) + 1\<rparr>,
                        connections := hs_insert sid (connections node)\<rparr>"
  have t': "task_id t' = sid" "task_held t' = {(sid, m) | m. mship = Some m}"
    and old: "task_held t = {}" "task_id t = tk_candidate t"
    using t(2) by (auto simp: t'_def sl_def task_id_def task_held_def held_by_def)
  have run: "running (hinsert k t' (sv_tasks sv)) = task_held t' \<union> running (sv_tasks sv)"
    using over_lookup [OF t(1), of task_held] old by (simp add: over_insert)
  have ids: "task_ids (hinsert k t' (sv_tasks sv)) = insert sid (task_ids (hremove k (sv_tasks sv)))"
    "task_ids (sv_tasks sv) = insert (tk_candidate t) (task_ids (hremove k (sv_tasks sv)))"
    using over_lookup [OF t(1), of "\<lambda>t. {task_id t}"] old(2) by (simp_all add: over_insert t')
  have "seats_ok ?node2 (live_ids (hinsert k t' (sv_tasks sv)) ?node2) (running (hinsert k t' (sv_tasks sv)) \<union> parked ?node2)"
    using op
  proof (cases rule: open_connection_cases)
    case fresh
    then show ?thesis
      by (intro seats_quiet [OF ok [unfolded members_inv_def]]) (auto simp: live_ids_def ids run holders_def parked_def)
  next
    case (resumed sid' s)
    then have node: "node = unpark sid (sv_node sv)" "map_of (suspended_sessions (sv_node sv)) sid = Some s" "mship = su_membership s" by auto
    have p: "parked ?node2 = parked (sv_node sv) - {(s, m) | s m. s = sid}" "parked_ids ?node2 = parked_ids (sv_node sv) - {sid}"
      using unpark_parked [of sid "sv_node sv"] by (auto simp: node(1) unpark_def parked_def split: if_splits)
    show ?thesis
    proof (rule seats_quiet [OF ok [unfolded members_inv_def]])
      show "fed_heap ?node2 = fed_heap (sv_node sv)" "next_session_id ?node2 = next_session_id (sv_node sv)" by (simp_all add: node(1) unpark_def)
      show "live_ids (hinsert k t' (sv_tasks sv)) ?node2 \<subseteq> live_ids (sv_tasks sv) (sv_node sv)"
        unfolding live_ids_def ids p using node(2) by auto
      show "(s', m) \<in> running (hinsert k t' (sv_tasks sv)) \<union> parked ?node2" if "(s', m) \<in> holders sv" for s' m
        using that node unfolding run p t' holders_def by (auto simp: parked_def)
    qed
  qed simp
  then show ?thesis
    unfolding begin_session_alt sl_def [symmetric] t'_def [symmetric] by (simp add: members_inv_def holders_def)
qed

lemma session_task_seats:
  assumes "members_inv sv" "map_of (sv_tasks sv) k = Some t" "tk_phase t = InSession sl"
  shows "seats_ok (sv_node sv) (live_ids (sv_tasks sv) (sv_node sv))
    (running (hremove k (sv_tasks sv)) \<union> parked (sv_node sv) \<union> held_by (sl_ctx sl))"
proof -
  have "task_held t = held_by (sl_ctx sl)" using assms(3) by (simp add: task_held_def)
  then show ?thesis using assms(1) over_lookup [OF assms(2), of task_held] by (simp add: members_inv_def holders_def Un_ac)
qed

lemma finish_members:
  assumes "seats_ok node (live_ids (sv_tasks sv) node) (running (hremove k (sv_tasks sv)) \<union> parked node \<union> held_by (sl_ctx sl))"
    and own: "\<And>m'. (sc_session_id (sl_ctx sl), m') \<notin> running (hremove k (sv_tasks sv)) \<union> parked node"
    and t: "map_of (sv_tasks sv) k = Some t" "task_id t = sc_session_id (sl_ctx sl)"
  shows "members_inv (finish k t sl node hs sv)"
proof -
  obtain node' hs' where e: "end_session (sv_now sv) sl node hs = (node', hs')" by force
  have live: "sc_session_id (sl_ctx sl) \<in> live_ids (sv_tasks sv) node"
    "task_ids (hremove k (sv_tasks sv)) \<union> parked_ids node \<subseteq> live_ids (sv_tasks sv) node"
    using over_lookup [OF t(1), of "\<lambda>t. {task_id t}"] t(2) by (auto simp: live_ids_def)
  from end_session_seats [OF assms(1) own live e]
  have "members_inv (sv\<lparr>sv_node := node', sv_handles := hs', sv_tasks := hremove k (sv_tasks sv)\<rparr>)"
    by (simp add: members_inv_def live_ids_def holders_def)
  from members_node [OF this, of "connection_ended (tk_ip t) node'"] quiet_changes(3)
  show ?thesis by (simp add: finish_def e members_inv_def live_ids_def holders_def)
qed

lemma frame_members:
  assumes ok: "members_inv sv" and inv: "server_inv n sv" and n: "n < 2 ^ 32 - 2"
    and t: "map_of (sv_tasks sv) k = Some t" "tk_phase t = InSession sl"
    and f: "session_frame lib now fr sl (sv_node sv) (sv_handles sv) = Some (node, hs, sl', b)"
  shows "members_inv (continue_session k t sl' node hs sv)" "members_inv (finish k t sl' node hs sv)"
proof -
  note st = session_task [OF inv t]
  note eff = session_frame_effect [OF st(1,2) n f]
  have node: "parked node = parked (sv_node sv)" "parked_ids node = parked_ids (sv_node sv)" using eff by (simp_all add: parked_def)
  have "sc_session_id (sl_ctx sl) < next_session_id (sv_node sv)"
    using inv t(1) st(3) unfolding server_inv_def ids_ok_def by metis
  from session_frame_seats [OF session_task_seats [OF ok t] st(1,2) n this f]
  have seats: "seats_ok node (live_ids (sv_tasks sv) node) (running (hremove k (sv_tasks sv)) \<union> parked node \<union> held_by (sl_ctx sl'))"
    by (simp add: node live_ids_def)
  let ?t = "t\<lparr>tk_phase := InSession sl'\<rparr>"
  have "task_id ?t = task_id t" "task_held ?t = held_by (sl_ctx sl')" using eff st(3) by (simp_all add: task_id_def task_held_def)
  then have "task_ids (hinsert k ?t (sv_tasks sv)) = task_ids (sv_tasks sv)"
    "running (hinsert k ?t (sv_tasks sv)) = held_by (sl_ctx sl') \<union> running (hremove k (sv_tasks sv))"
    using over_cong [OF t(1), of "\<lambda>t. {task_id t}" ?t] by (simp_all add: over_insert)
  then show "members_inv (continue_session k t sl' node hs sv)"
    using seats by (simp add: continue_session_def members_inv_def live_ids_def holders_def Un_ac)
  show "members_inv (finish k t sl' node hs sv)"
    by (rule finish_members [OF seats _ t(1)]) (use st(2,3) eff node in simp_all)
qed

lemma expire_members:
  assumes ok: "members_inv sv" and inv: "server_inv n sv"
  shows "members_inv (sv\<lparr>sv_node := expire_session sid (sv_node sv)\<rparr>)"
proof (cases "map_of (suspended_sessions (sv_node sv)) sid")
  case None
  then show ?thesis using ok by (simp add: expire_session_def)
next
  case (Some s)
  let ?node = "unpark sid (sv_node sv)"
  have ok1: "members_inv (sv\<lparr>sv_node := ?node\<rparr>)" by (rule unpark_members [OF ok inv])
  show ?thesis
  proof (cases "su_membership s")
    case None
    then show ?thesis using Some ok1 by (simp add: expire_session_def unpark_def)
  next
    case m: (Some m)
    have frame: "suspended_sessions (remove_federate m ?node) = suspended_sessions ?node"
      "next_session_id (remove_federate m ?node) = next_session_id ?node"
      using runtime_view_remove [of m ?node] by (simp_all add: runtime_view_def)
    have "seats_ok (remove_federate m ?node) (live_ids (sv_tasks sv) (remove_federate m ?node))
        (running (sv_tasks sv) \<union> parked (remove_federate m ?node))"
    proof (rule seats_step [OF ok1 [unfolded members_inv_def]])
      show "registered (remove_federate m ?node) \<subseteq> registered (sv_node (sv\<lparr>sv_node := ?node\<rparr>))" by (auto simp: registered_remove)
    qed (auto simp: live_ids_def holders_def parked_def frame)
    then show ?thesis using Some m by (simp add: expire_session_def unpark_def members_inv_def holders_def)
  qed
qed

lemma janitor_members:
  assumes "members_inv sv" and "server_inv n sv"
  shows "members_inv (sv\<lparr>sv_node := janitor_tick now (sv_node sv)\<rparr>)"
proof -
  have "members_inv (sv\<lparr>sv_node := fold expire_session sids (sv_node sv)\<rparr>)" if "members_inv sv" "server_inv n sv" for sids sv
    using that
  proof (induction sids arbitrary: sv)
    case (Cons sid sids)
    from Cons.IH [OF expire_members [OF Cons.prems] expire_inv [OF Cons.prems(2)], of sid] show ?case by simp
  qed simp
  from this [OF assms] show ?thesis by (simp add: janitor_tick_def)
qed

lemma server_event_members:
  assumes "server_event lib e sv sv'" and ok: "members_inv sv" and inv: "server_inv n sv" and n: "n < 2 ^ 32 - 2"
  shows "members_inv sv'"
  using assms(1)
proof cases
  case tcp_accept
  then show ?thesis using spawn_members [OF ok inv n] by simp
next
  case ws_accept
  then show ?thesis using spawn_members [OF ok inv n] by simp
next
  case tls_accept
  then show ?thesis using spawn_members [OF ok inv n] by simp
next
  case (upgrade k t)
  let ?t = "t\<lparr>tk_phase := AwaitingFirst\<rparr>"
  have "task_id ?t = task_id t" "task_held ?t = task_held t" using upgrade by (simp_all add: task_id_def task_held_def)
  with upgrade have "task_ids (hinsert k ?t (sv_tasks sv)) = task_ids (sv_tasks sv)" "running (hinsert k ?t (sv_tasks sv)) = running (sv_tasks sv)"
    by (simp_all add: over_cong)
  then show ?thesis using upgrade ok by (simp add: members_inv_def live_ids_def holders_def)
next
  case (upgrade_fails k t)
  then show ?thesis using lost_task_members [OF ok _ _ quiet_changes(2)] by (simp add: in_session_def)
next
  case (first_lost k t)
  then show ?thesis using lost_task_members [OF ok _ _ quiet_changes(3)] by (simp add: abandon_def in_session_def)
next
  case (refuse k t sent_ok first node reply result)
  from refuse(5) have "node = sv_node sv \<or> (\<exists>sid. node = unpark sid (sv_node sv))" by (rule open_connection_cases) simp_all
  then have "members_inv (sv\<lparr>sv_node := node\<rparr>)" using unpark_members [OF ok inv] ok by auto
  from lost_task_members [OF this, of k t] quiet_changes(3) show ?thesis using refuse by (simp add: abandon_def in_session_def)
next
  case (opened k t sent_ok first node reply sid mship)
  then show ?thesis using begin_members [OF ok] by blast
next
  case (frame k t sl fr node hs sl')
  then show ?thesis using frame_members(1) [OF ok inv n] by blast
next
  case (last_frame k t sl fr node hs sl')
  then show ?thesis using frame_members(2) [OF ok inv n] by blast
next
  case (disconnected k t sl)
  show ?thesis unfolding disconnected(2)
    by (rule finish_members [OF session_task_seats [OF ok disconnected(3,4)] session_task(2) [OF inv disconnected(3,4)]
        disconnected(3) session_task(3) [OF inv disconnected(3,4)]])
next
  case (reaped k t sl node)
  then have q: "quiet_change (sv_node sv) node" by (auto simp: liveness_check_def quiet_changes(7) split: if_splits)
  have ok': "members_inv (sv\<lparr>sv_node := node\<rparr>)" and inv': "server_inv n (sv\<lparr>sv_node := node\<rparr>)"
    by (rule members_node [OF ok q], rule quiet_server_inv [OF inv q])
  have "members_inv (finish k t sl node (sv_handles sv) (sv\<lparr>sv_node := node\<rparr>))"
    using session_task_seats [OF ok', of k t sl] session_task(2,3) [OF inv', of k t sl] reaped by (intro finish_members) simp_all
  then show ?thesis using reaped by (simp add: finish_def split: prod.splits)
next
  case janitor
  then show ?thesis using janitor_members [OF ok inv] by simp
next
  case (configure node l f c)
  then have "quiet_change (sv_node sv) node" using quiet_changes by blast
  then show ?thesis using configure members_node [OF ok] by simp
qed (use ok in \<open>simp_all add: members_inv_def live_ids_def holders_def\<close>)

lemma server_step_members:
  "server_step lib sv sv' \<Longrightarrow> members_inv sv \<Longrightarrow> server_inv n sv \<Longrightarrow> n < 2 ^ 32 - 2 \<Longrightarrow> members_inv sv'"
  using server_event_members by (auto simp: server_step_def)

lemma server_run_members: "server_run lib n sv \<Longrightarrow> n < 2 ^ 32 - 2 \<Longrightarrow> members_inv sv"
proof (induction rule: server_run.induct)
  case start
  show ?case by (simp add: members_inv_def seats_ok_def registered_def new_server_def new_node_def new_federation_def)
next
  case (step n sv sv')
  then show ?case using server_step_members [OF step.hyps(2) _ server_run_inv [OF step.hyps(1)]] by simp
qed

text \<open>A federate under the identifier of a running session is the one that session holds.\<close>

lemma registered_held:
  assumes run: "server_run lib n sv" "n < 2 ^ 32 - 2"
    and fs: "map_of (federates (fed_heap (sv_node sv) i)) h = Some fs" and sid: "fs_session_id fs \<in> set (connections (sv_node sv))"
  shows "\<exists>m. (fs_session_id fs, m) \<in> holders sv \<and> mb_federation m = i \<and> mb_federate_handle m = h"
proof -
  have "set (connections (sv_node sv)) = over_tasks session_id_of (sv_tasks sv)"
    using server_run_inv [OF run] by (simp add: server_inv_def conns_ok_def)
  with sid have "fs_session_id fs \<in> live_ids (sv_tasks sv) (sv_node sv)"
    by (auto simp: live_ids_def over_tasks_def session_id_of_def split: if_splits)
  moreover have "(i, h, fs_session_id fs) \<in> registered (sv_node sv)" using fs by (auto simp: registered_def)
  ultimately have "(i, h, fs_session_id fs) \<in> seat ` holders sv"
    using server_run_members [OF run] unfolding members_inv_def seats_ok_def by blast
  then show ?thesis by (auto simp: seat_def)
qed

subsection \<open>Properties\<close>

text \<open>C2. Sessions own their federates. In every state the server reaches, with any number of connections
  whose accepts, frames, timeouts and disconnections interleave in any order: a membership that a running or
  a suspended session holds is a federate registered in its federation, under that session and that name; no
  two sessions hold the same federate, and no session holds two; no running session has the identifier of a
  suspended one; the connections registered with the node and the channels of callbacks are those of the
  sessions that run; and a federate registered under a connected session is the one that session holds.\<close>

theorem sessions_own_their_federates:
  assumes "server_run lib n sv" and "n < 2 ^ 32 - 2"
  shows "((sid, m) \<in> holders sv \<longrightarrow> valid_membership (sv_node sv) sid m) \<and>
    ((sid, m) \<in> holders sv \<and> (sid', m') \<in> holders sv \<longrightarrow>
       (mb_federation m = mb_federation m' \<and> mb_federate_handle m = mb_federate_handle m' \<longleftrightarrow> sid = sid')) \<and>
    set (connections (sv_node sv)) \<inter> parked_ids (sv_node sv) = {} \<and>
    set (connections (sv_node sv)) = over_tasks session_id_of (sv_tasks sv) \<and>
    dom (map_of (sv_handles sv)) = set (connections (sv_node sv)) \<and>
    (map_of (federates (fed_heap (sv_node sv) i)) h = Some fs \<and> fs_session_id fs \<in> set (connections (sv_node sv)) \<longrightarrow>
       (\<exists>m. (fs_session_id fs, m) \<in> holders sv \<and> mb_federation m = i \<and> mb_federate_handle m = h))"
proof -
  have inv: "server_inv n sv" by (rule server_run_inv [OF assms])
  then have c: "set (connections (sv_node sv)) = over_tasks session_id_of (sv_tasks sv)"
    "dom (map_of (sv_handles sv)) = set (connections (sv_node sv))"
    by (simp_all add: server_inv_def conns_ok_def)
  have "over_tasks session_id_of (sv_tasks sv) \<inter> parked_ids (sv_node sv) = {}"
    using inv by (fastforce simp: server_inv_def ids_ok_def over_tasks_def session_id_of_def split: if_splits)
  moreover have "\<exists>m. (fs_session_id fs, m) \<in> holders sv \<and> mb_federation m = i \<and> mb_federate_handle m = h"
    if "map_of (federates (fed_heap (sv_node sv) i)) h = Some fs" "fs_session_id fs \<in> set (connections (sv_node sv))"
    by (rule registered_held [OF assms that])
  ultimately show ?thesis using inv c holders_unique [OF inv] by (auto simp: server_inv_def node_inv_def)
qed

theorem sessions_own_their_federates_witness:
  "\<exists>sv. server_run sample_lib 4 sv \<and> (1, sample_member) \<in> holders sv \<and> valid_membership (sv_node sv) 1 sample_member \<and>
     set (connections (sv_node sv)) = {1}"
proof -
  obtain sv where sv: "script sample_lib join_script new_server = Some sv" "sv_tasks sv = [(0, joined_task)]"
    "connections (sv_node sv) = [1]" "suspended_sessions (sv_node sv) = []"
    using join_script_state by blast
  have run: "server_run sample_lib 4 sv" using script_run [OF sv(1)] by (simp add: join_script_def numeral_eq_Suc)
  have "(1, sample_member) \<in> holders sv"
    by (auto simp: holders_def over_tasks_def sv joined_task_def task_held_def held_by_def)
  with sessions_own_their_federates [OF run, of 1 sample_member] sv run show ?thesis by auto
qed

end
