(* ===== verification/Ambassador.thy ===== *)
theory Ambassador
  imports Dispatch Session
begin

text \<open>
  The federate side (crate \<open>hla-federate\<close>): the conversions of handles (\<open>handles.rs\<close>), the methods
  of the ambassador, its calls and its pump (\<open>ambassador.rs\<close>), and the callbacks it
  makes on the federate (\<open>callbacks.rs\<close>). A method is the request it sends and the reading of the response. The
  model of a request holds the fields the dispatcher reads; the fields of the message that it never reads are kept
  beside it. Responses and exceptions are those of theory Dispatch: the name of the variant with its payload.
  The encoding of the messages themselves (generated code) is a parameter.
\<close>

subsection \<open>Handles\<close>

definition encode_object_class_fed :: "ObjectClassHandle \<Rightarrow> bytes" where
  "encode_object_class_fed h = to_be_bytes h"
definition decode_object_class_fed :: "bytes \<Rightarrow> ObjectClassHandle option" where
  "decode_object_class_fed p = (if length p \<noteq> 4 then None else Some (from_be_bytes p))"

definition encode_attribute_fed :: "AttributeHandle \<Rightarrow> bytes" where
  "encode_attribute_fed h = to_be_bytes h"
definition decode_attribute_fed :: "bytes \<Rightarrow> AttributeHandle option" where
  "decode_attribute_fed p = (if length p \<noteq> 4 then None else Some (from_be_bytes p))"

definition encode_interaction_class_fed :: "InteractionClassHandle \<Rightarrow> bytes" where
  "encode_interaction_class_fed h = to_be_bytes h"
definition decode_interaction_class_fed :: "bytes \<Rightarrow> InteractionClassHandle option" where
  "decode_interaction_class_fed p = (if length p \<noteq> 4 then None else Some (from_be_bytes p))"

definition encode_parameter_fed :: "ParameterHandle \<Rightarrow> bytes" where
  "encode_parameter_fed h = to_be_bytes h"
definition decode_parameter_fed :: "bytes \<Rightarrow> ParameterHandle option" where
  "decode_parameter_fed p = (if length p \<noteq> 4 then None else Some (from_be_bytes p))"

definition encode_object_instance_fed :: "ObjectInstanceHandle \<Rightarrow> bytes" where
  "encode_object_instance_fed h = to_be_bytes h"
definition decode_object_instance_fed :: "bytes \<Rightarrow> ObjectInstanceHandle option" where
  "decode_object_instance_fed p = (if length p \<noteq> 8 then None else Some (from_be_bytes p))"

definition decode_federate_fed :: "bytes \<Rightarrow> FederateHandle option" where
  "decode_federate_fed p = (if length p \<noteq> 4 then None else Some (from_be_bytes p))"

definition decode_attribute_value_map_fed :: "wire_values \<Rightarrow> AttributeHandleValueMap" where
  "decode_attribute_value_map_fed p =
     hcollect (List.map_filter (\<lambda>(h, v). map_option (\<lambda>h'. (h', v)) (Option.bind h decode_attribute_fed)) p)"

definition decode_parameter_value_map_fed :: "wire_values \<Rightarrow> ParameterHandleValueMap" where
  "decode_parameter_value_map_fed p =
     hcollect (List.map_filter (\<lambda>(h, v). map_option (\<lambda>h'. (h', v)) (Option.bind h decode_parameter_fed)) p)"

definition encode_attr_set :: "AttributeHandleSet \<Rightarrow> bytes list" where
  "encode_attr_set attrs = map encode_attribute_fed attrs"

definition encode_attr_value_map :: "AttributeHandleValueMap \<Rightarrow> wire_values" where
  "encode_attr_value_map m = map (\<lambda>(h, v). (Some (encode_attribute_fed h), v)) m"

definition encode_param_value_map :: "ParameterHandleValueMap \<Rightarrow> wire_values" where
  "encode_param_value_map m = map (\<lambda>(h, v). (Some (encode_parameter_fed h), v)) m"

definition encode_resign_action_fed :: "ResignAction \<Rightarrow> i32" where
  "encode_resign_action_fed a =
     (case a of
        UnconditionallyDivestAttributes \<Rightarrow> 0 | DeleteObjects \<Rightarrow> 1 | CancelPendingOwnershipAcquisitions \<Rightarrow> 2
      | DeleteObjectsThenDivest \<Rightarrow> 3 | CancelThenDeleteThenDivest \<Rightarrow> 4 | NoAction \<Rightarrow> 5)"

subsection \<open>Addresses\<close>

definition strip_prefix :: "string \<Rightarrow> string \<Rightarrow> string option" where
  "strip_prefix pre s = (if take (length pre) s = pre then Some (drop (length pre) s) else None)"

definition parse_rti_url :: "string \<Rightarrow> string" where
  "parse_rti_url url = (case strip_prefix ''rti://'' url of Some rest \<Rightarrow> rest | None \<Rightarrow> url)"

definition connect_ws_url :: "string \<Rightarrow> string" where
  "connect_ws_url rti_url =
     (if strip_prefix ''ws://'' rti_url \<noteq> None \<or> strip_prefix ''wss://'' rti_url \<noteq> None then rti_url
      else (case strip_prefix ''rti://'' rti_url of
              Some rest \<Rightarrow> ''ws://'' @ rest
            | None \<Rightarrow> ''ws://'' @ rti_url))"

subsection \<open>Responses\<close>

datatype CallError = RtiException ExceptionData | UnexpectedResponse | Decode string | Closed | CallCodec CodecError

definition check_exception :: "CallResponse \<Rightarrow> CallError + string \<times> Payload" where
  "check_exception resp = (case resp of Inl e \<Rightarrow> Inl (RtiException e) | Inr other \<Rightarrow> Inr other)"

type_synonym 'a ApiCall = "CallRequest \<times> Payload list \<times> (CallResponse \<Rightarrow> CallError + 'a)"

text \<open>The \<open>match\<close> on the variant of the response; a field that is absent or malformed is an unexpected response too.\<close>

definition expect :: "string \<Rightarrow> (Payload \<Rightarrow> 'a option) \<Rightarrow> CallResponse \<Rightarrow> CallError + 'a" where
  "expect variant f r =
     (case check_exception r of
        Inl e \<Rightarrow> Inl e
      | Inr (name, p) \<Rightarrow>
          if name = variant then (case f p of Some x \<Rightarrow> Inr x | None \<Rightarrow> Inl UnexpectedResponse)
          else Inl UnexpectedResponse)"

abbreviation expect_ack :: "string \<Rightarrow> CallResponse \<Rightarrow> CallError + unit" where
  "expect_ack variant \<equiv> expect variant (\<lambda>_. Some ())"

definition handle_field :: "(bytes \<Rightarrow> 'a option) \<Rightarrow> Payload \<Rightarrow> 'a option" where
  "handle_field dec p = (case p of PHandle h \<Rightarrow> dec h | _ \<Rightarrow> None)"

definition join_field :: "Payload \<Rightarrow> FederateHandle option" where
  "join_field p = (case p of PJoin h _ \<Rightarrow> decode_federate_fed h | _ \<Rightarrow> None)"

definition str_field :: "Payload \<Rightarrow> string option" where
  "str_field p = (case p of PStr s \<Rightarrow> Some s | _ \<Rightarrow> None)"

definition bool_field :: "Payload \<Rightarrow> bool option" where
  "bool_field p = (case p of PBool b \<Rightarrow> Some b | _ \<Rightarrow> None)"

definition bounds_field :: "Payload \<Rightarrow> (u32 \<times> u32) option" where
  "bounds_field p = (case p of PBounds l u \<Rightarrow> Some (l, u) | _ \<Rightarrow> None)"

subsection \<open>Federation management\<close>

definition create_federation_execution_call :: "string \<Rightarrow> unit ApiCall" where
  "create_federation_execution_call name =
     (FederationCall (CreateFederationExecution name None), [], expect_ack ''CreateFederationExecutionResponse'')"

definition create_federation_execution_with_modules_call :: "string \<Rightarrow> ((string \<times> bytes) list) \<Rightarrow> unit ApiCall" where
  "create_federation_execution_with_modules_call name mods =
     (FederationCall (CreateFederationExecutionWithModules name (Some (map (\<lambda>(n, content). File n content) mods))), [], expect_ack ''CreateFederationExecutionWithModulesResponse'')"

definition list_federation_executions_call :: "unit ApiCall" where
  "list_federation_executions_call =
     (MemberCall ListFederationExecutions, [], expect_ack ''ListFederationExecutionsResponse'')"

definition list_federation_execution_members_call :: "string \<Rightarrow> unit ApiCall" where
  "list_federation_execution_members_call federation_name =
     (MemberCall (ListFederationExecutionMembers federation_name), [], expect_ack ''ListFederationExecutionMembersResponse'')"

definition connect_federation_call :: "unit ApiCall" where
  "connect_federation_call =
     (OtherCall ''Connect'', [], expect_ack ''ConnectResponse'')"

definition disconnect_federation_call :: "unit ApiCall" where
  "disconnect_federation_call =
     (OtherCall ''Disconnect'', [], expect_ack ''DisconnectResponse'')"

definition get_federate_handle_call :: "string \<Rightarrow> FederateHandle ApiCall" where
  "get_federate_handle_call name =
     (LookupCall (GetFederateHandle name), [], expect ''GetFederateHandleResponse'' (handle_field decode_federate_fed))"

definition get_federate_name_call :: "FederateHandle \<Rightarrow> string ApiCall" where
  "get_federate_name_call h =
     (LookupCall (GetFederateName (Some (to_be_bytes h))), [], expect ''GetFederateNameResponse'' str_field)"

definition destroy_federation_execution_call :: "string \<Rightarrow> unit ApiCall" where
  "destroy_federation_execution_call name =
     (FederationCall (DestroyFederationExecution name), [], expect_ack ''DestroyFederationExecutionResponse'')"

definition join_federation_execution_with_name_call :: "string \<Rightarrow> string \<Rightarrow> string \<Rightarrow> FederateHandle ApiCall" where
  "join_federation_execution_with_name_call federate_name ftype federation =
     (MemberCall (JoinFederationExecutionWithName federate_name federation), [PStr ftype], expect ''JoinFederationExecutionWithNameResponse'' join_field)"

definition join_federation_execution_call :: "string \<Rightarrow> string \<Rightarrow> FederateHandle ApiCall" where
  "join_federation_execution_call ftype federation =
     (MemberCall (JoinFederationExecution federation), [PStr ftype], expect ''JoinFederationExecutionResponse'' join_field)"

definition resign_federation_execution_call :: "ResignAction \<Rightarrow> unit ApiCall" where
  "resign_federation_execution_call action =
     (MemberCall ResignFederationExecution, [PInt (sint (encode_resign_action_fed action))], expect_ack ''ResignFederationExecutionResponse'')"

subsection \<open>Handles\<close>

definition get_object_class_handle_call :: "string \<Rightarrow> ObjectClassHandle ApiCall" where
  "get_object_class_handle_call name =
     (HandleCall (GetObjectClassHandle name), [], expect ''GetObjectClassHandleResponse'' (handle_field decode_object_class_fed))"

definition get_attribute_handle_call :: "ObjectClassHandle \<Rightarrow> string \<Rightarrow> AttributeHandle ApiCall" where
  "get_attribute_handle_call c name =
     (HandleCall (GetAttributeHandle (Some (encode_object_class_fed c)) name), [], expect ''GetAttributeHandleResponse'' (handle_field decode_attribute_fed))"

definition get_interaction_class_handle_call :: "string \<Rightarrow> InteractionClassHandle ApiCall" where
  "get_interaction_class_handle_call name =
     (HandleCall (GetInteractionClassHandle name), [], expect ''GetInteractionClassHandleResponse'' (handle_field decode_interaction_class_fed))"

definition get_parameter_handle_call :: "InteractionClassHandle \<Rightarrow> string \<Rightarrow> ParameterHandle ApiCall" where
  "get_parameter_handle_call c name =
     (HandleCall (GetParameterHandle (Some (encode_interaction_class_fed c)) name), [], expect ''GetParameterHandleResponse'' (handle_field decode_parameter_fed))"

subsection \<open>Declarations\<close>

definition publish_object_class_attributes_call :: "ObjectClassHandle \<Rightarrow> AttributeHandleSet \<Rightarrow> unit ApiCall" where
  "publish_object_class_attributes_call c attrs =
     (DeclarationCall (PublishObjectClassAttributes (Some (encode_object_class_fed c)) (Some (encode_attr_set attrs))), [], expect_ack ''PublishObjectClassAttributesResponse'')"

definition subscribe_object_class_attributes_call :: "ObjectClassHandle \<Rightarrow> AttributeHandleSet \<Rightarrow> unit ApiCall" where
  "subscribe_object_class_attributes_call c attrs =
     (DeclarationCall (SubscribeObjectClassAttributes (Some (encode_object_class_fed c)) (Some (encode_attr_set attrs))), [], expect_ack ''SubscribeObjectClassAttributesResponse'')"

definition unsubscribe_object_class_attributes_call :: "ObjectClassHandle \<Rightarrow> AttributeHandleSet \<Rightarrow> unit ApiCall" where
  "unsubscribe_object_class_attributes_call c attrs =
     (DeclarationCall (UnsubscribeObjectClassAttributes (Some (encode_object_class_fed c)) (Some (encode_attr_set attrs))), [], expect_ack ''UnsubscribeObjectClassAttributesResponse'')"

definition unsubscribe_interaction_class_call :: "InteractionClassHandle \<Rightarrow> unit ApiCall" where
  "unsubscribe_interaction_class_call c =
     (DeclarationCall (UnsubscribeInteractionClass (Some (encode_interaction_class_fed c))), [], expect_ack ''UnsubscribeInteractionClassResponse'')"

definition unpublish_object_class_attributes_call :: "ObjectClassHandle \<Rightarrow> AttributeHandleSet \<Rightarrow> unit ApiCall" where
  "unpublish_object_class_attributes_call c attrs =
     (DeclarationCall (UnpublishObjectClassAttributes (Some (encode_object_class_fed c)) (Some (encode_attr_set attrs))), [], expect_ack ''UnpublishObjectClassAttributesResponse'')"

definition unpublish_interaction_class_call :: "InteractionClassHandle \<Rightarrow> unit ApiCall" where
  "unpublish_interaction_class_call c =
     (DeclarationCall (UnpublishInteractionClass (Some (encode_interaction_class_fed c))), [], expect_ack ''UnpublishInteractionClassResponse'')"

definition publish_interaction_class_call :: "InteractionClassHandle \<Rightarrow> unit ApiCall" where
  "publish_interaction_class_call c =
     (DeclarationCall (PublishInteractionClass (Some (encode_interaction_class_fed c))), [], expect_ack ''PublishInteractionClassResponse'')"

definition subscribe_interaction_class_call :: "InteractionClassHandle \<Rightarrow> unit ApiCall" where
  "subscribe_interaction_class_call c =
     (DeclarationCall (SubscribeInteractionClass (Some (encode_interaction_class_fed c))), [], expect_ack ''SubscribeInteractionClassResponse'')"

subsection \<open>Objects and ownership\<close>

definition register_object_instance_call :: "ObjectClassHandle \<Rightarrow> ObjectInstanceHandle ApiCall" where
  "register_object_instance_call c =
     (ObjectCall (RegisterObjectInstance (Some (encode_object_class_fed c))), [], expect ''RegisterObjectInstanceResponse'' (handle_field decode_object_instance_fed))"

definition update_attribute_values_call :: "ObjectInstanceHandle \<Rightarrow> AttributeHandleValueMap \<Rightarrow> bytes \<Rightarrow> unit ApiCall" where
  "update_attribute_values_call i values tag =
     (ObjectCall (UpdateAttributeValues (Some (encode_object_instance_fed i)) (Some (encode_attr_value_map values)) tag), [], expect_ack ''UpdateAttributeValuesResponse'')"

definition send_interaction_call :: "InteractionClassHandle \<Rightarrow> ParameterHandleValueMap \<Rightarrow> bytes \<Rightarrow> unit ApiCall" where
  "send_interaction_call c params tag =
     (ObjectCall (SendInteraction (Some (encode_interaction_class_fed c)) (Some (encode_param_value_map params)) tag), [], expect_ack ''SendInteractionResponse'')"

definition is_attribute_owned_by_federate_call :: "ObjectInstanceHandle \<Rightarrow> AttributeHandle \<Rightarrow> bool ApiCall" where
  "is_attribute_owned_by_federate_call i attr =
     (OwnershipCall (IsAttributeOwnedByFederate (Some (encode_object_instance_fed i)) (Some (encode_attribute_fed attr))), [], expect ''IsAttributeOwnedByFederateResponse'' bool_field)"

definition query_attribute_ownership_call :: "ObjectInstanceHandle \<Rightarrow> AttributeHandleSet \<Rightarrow> unit ApiCall" where
  "query_attribute_ownership_call i attrs =
     (OwnershipCall (QueryAttributeOwnership (Some (encode_object_instance_fed i)) (Some (encode_attr_set attrs))), [], expect_ack ''QueryAttributeOwnershipResponse'')"

definition attribute_ownership_acquisition_if_available_call :: "ObjectInstanceHandle \<Rightarrow> AttributeHandleSet \<Rightarrow> bytes \<Rightarrow> unit ApiCall" where
  "attribute_ownership_acquisition_if_available_call i attrs tag =
     (OwnershipCall (AttributeOwnershipAcquisitionIfAvailable (Some (encode_object_instance_fed i)) (Some (encode_attr_set attrs)) tag), [], expect_ack ''AttributeOwnershipAcquisitionIfAvailableResponse'')"

subsection \<open>Regions\<close>

definition create_region_call :: "(DimensionHandle list) \<Rightarrow> RegionHandle ApiCall" where
  "create_region_call dims =
     (RegionCall (CreateRegion (Some (map to_be_bytes dims))), [], expect ''CreateRegionResponse'' (handle_field (\<lambda>h. if length h = 8 then Some (from_be_bytes h) else None)))"

definition delete_region_call :: "RegionHandle \<Rightarrow> unit ApiCall" where
  "delete_region_call region =
     (RegionCall (DeleteRegion (Some (to_be_bytes region))), [], expect_ack ''DeleteRegionResponse'')"

definition set_range_bounds_call :: "RegionHandle \<Rightarrow> DimensionHandle \<Rightarrow> u32 \<Rightarrow> u32 \<Rightarrow> unit ApiCall" where
  "set_range_bounds_call region dm lower upper =
     (RegionCall (SetRangeBounds (Some (to_be_bytes region)) (Some (to_be_bytes dm)) (Some (lower, upper))), [], expect_ack ''SetRangeBoundsResponse'')"

definition get_range_bounds_call :: "RegionHandle \<Rightarrow> DimensionHandle \<Rightarrow> (u32 \<times> u32) ApiCall" where
  "get_range_bounds_call region dm =
     (RegionCall (GetRangeBounds (Some (to_be_bytes region)) (Some (to_be_bytes dm))), [], expect ''GetRangeBoundsResponse'' bounds_field)"

definition commit_region_modifications_call :: "(RegionHandle list) \<Rightarrow> unit ApiCall" where
  "commit_region_modifications_call regs =
     (RegionCall (CommitRegionModifications (Some (map to_be_bytes regs))), [], expect_ack ''CommitRegionModificationsResponse'')"

subsection \<open>Divestiture, deletion and time\<close>

definition unconditional_attribute_ownership_divestiture_call :: "ObjectInstanceHandle \<Rightarrow> AttributeHandleSet \<Rightarrow> bytes \<Rightarrow> unit ApiCall" where
  "unconditional_attribute_ownership_divestiture_call i attrs tag =
     (OwnershipCall (UnconditionalAttributeOwnershipDivestiture (Some (encode_object_instance_fed i)) (Some (encode_attr_set attrs))), [PHandle tag], expect_ack ''UnconditionalAttributeOwnershipDivestitureResponse'')"

definition delete_object_instance_call :: "ObjectInstanceHandle \<Rightarrow> bytes \<Rightarrow> unit ApiCall" where
  "delete_object_instance_call i tag =
     (ObjectCall (DeleteObjectInstance (Some (encode_object_instance_fed i)) tag), [], expect_ack ''DeleteObjectInstanceResponse'')"

definition enable_time_regulation_call :: "f64 \<Rightarrow> unit ApiCall" where
  "enable_time_regulation_call la =
     (TimeCall (EnableTimeRegulation (Some (to_be_bytes la))), [], expect_ack ''EnableTimeRegulationResponse'')"

definition enable_time_constrained_call :: "unit ApiCall" where
  "enable_time_constrained_call =
     (TimeCall EnableTimeConstrained, [], expect_ack ''EnableTimeConstrainedResponse'')"

subsection \<open>Save, restore and synchronization\<close>

definition request_federation_save_call :: "string \<Rightarrow> unit ApiCall" where
  "request_federation_save_call label =
     (SaveCall (RequestFederationSave label), [], expect_ack ''RequestFederationSaveResponse'')"

definition federate_save_begun_call :: "unit ApiCall" where
  "federate_save_begun_call =
     (SaveCall FederateSaveBegun, [], expect_ack ''FederateSaveBegunResponse'')"

definition federate_save_complete_call :: "unit ApiCall" where
  "federate_save_complete_call =
     (SaveCall FederateSaveComplete, [], expect_ack ''FederateSaveCompleteResponse'')"

definition request_federation_restore_call :: "string \<Rightarrow> unit ApiCall" where
  "request_federation_restore_call label =
     (SaveCall (RequestFederationRestore label), [], expect_ack ''RequestFederationRestoreResponse'')"

definition federate_restore_complete_call :: "unit ApiCall" where
  "federate_restore_complete_call =
     (SaveCall FederateRestoreComplete, [], expect_ack ''FederateRestoreCompleteResponse'')"

definition federate_restore_not_complete_call :: "unit ApiCall" where
  "federate_restore_not_complete_call =
     (SaveCall FederateRestoreNotComplete, [], expect_ack ''FederateRestoreNotCompleteResponse'')"

definition federate_save_not_complete_call :: "unit ApiCall" where
  "federate_save_not_complete_call =
     (SaveCall FederateSaveNotComplete, [], expect_ack ''FederateSaveNotCompleteResponse'')"

definition register_federation_synchronization_point_call :: "string \<Rightarrow> bytes \<Rightarrow> unit ApiCall" where
  "register_federation_synchronization_point_call label tag =
     (SyncCall (RegisterFederationSynchronizationPoint label tag), [], expect_ack ''RegisterFederationSynchronizationPointResponse'')"

definition synchronization_point_achieved_call :: "string \<Rightarrow> bool \<Rightarrow> unit ApiCall" where
  "synchronization_point_achieved_call label successfully =
     (SyncCall (SynchronizationPointAchieved label successfully), [], expect_ack ''SynchronizationPointAchievedResponse'')"

definition time_advance_request_call :: "f64 \<Rightarrow> unit ApiCall" where
  "time_advance_request_call time =
     (TimeCall (TimeAdvanceRequest (Some (to_be_bytes time))), [], expect_ack ''TimeAdvanceRequestResponse'')"

end
