(* ===== verification/Pump.thy ===== *)
theory Pump
  imports Ambassador
begin

text \<open>
  The callbacks of the federate and the running ambassador (crate \<open>hla-federate\<close>: \<open>callbacks.rs\<close> and the
  second part of \<open>ambassador.rs\<close>). A method of the trait \<open>FederateAmbassador\<close> that is invoked is a value of
  \<open>FederateCall\<close>: the trait's own bodies do nothing, and a federate's are its own code. The default bodies
  and the implementation for \<open>Arc\<close> are in \<open>Federate_Trait\<close>.
\<close>

subsection \<open>The callbacks of a federate\<close>

datatype (plugins only: size) FederateCall =
    fa_discover_object_instance ObjectInstanceHandle ObjectClassHandle string "FederateHandle option"
  | fa_reflect_attribute_values ObjectInstanceHandle AttributeHandleValueMap bytes "FederateHandle option"
  | fa_receive_interaction InteractionClassHandle ParameterHandleValueMap bytes "FederateHandle option"
  | fa_remove_object_instance ObjectInstanceHandle bytes "FederateHandle option"
  | fa_time_regulation_enabled f64
  | fa_time_constrained_enabled f64
  | fa_time_advance_grant f64
  | fa_inform_attribute_ownership ObjectInstanceHandle "AttributeHandle list" FederateHandle
  | fa_report_federation_executions "string list"
  | fa_report_federation_execution_members string "(string \<times> string) list"
  | fa_report_federation_execution_does_not_exist string
  | fa_initiate_federate_save string
  | fa_federation_saved
  | fa_federation_not_saved int
  | fa_request_federation_restore_succeeded string
  | fa_request_federation_restore_failed string
  | fa_federation_restore_begun
  | fa_initiate_federate_restore string string FederateHandle
  | fa_federation_restored
  | fa_federation_not_restored int
  | fa_attribute_is_not_owned ObjectInstanceHandle "AttributeHandle list"
  | fa_attribute_ownership_acquisition_notification ObjectInstanceHandle "AttributeHandle list" bytes
  | fa_attribute_ownership_unavailable ObjectInstanceHandle "AttributeHandle list" bytes
  | fa_synchronization_point_registration_succeeded string
  | fa_synchronization_point_registration_failed string int
  | fa_announce_synchronization_point string bytes
  | fa_federation_synchronized string "FederateHandle hset"
  | fa_reflect_attribute_values_with_time ObjectInstanceHandle AttributeHandleValueMap bytes "FederateHandle option" f64
  | fa_receive_interaction_with_time InteractionClassHandle ParameterHandleValueMap bytes "FederateHandle option" f64
  | fa_remove_object_instance_with_time ObjectInstanceHandle bytes "FederateHandle option" f64
  | fa_object_instance_name_reservation_failed string
  | fa_multiple_object_instance_name_reservation_succeeded "string list"
  | fa_multiple_object_instance_name_reservation_failed "string list"
  | fa_start_registration_for_object_class ObjectClassHandle
  | fa_stop_registration_for_object_class ObjectClassHandle
  | fa_turn_interactions_on InteractionClassHandle
  | fa_turn_interactions_off InteractionClassHandle
  | fa_turn_updates_on_for_object_instance ObjectInstanceHandle "AttributeHandle list"
  | fa_turn_updates_off_for_object_instance ObjectInstanceHandle "AttributeHandle list"
  | fa_attributes_in_scope ObjectInstanceHandle "AttributeHandle list"
  | fa_attributes_out_of_scope ObjectInstanceHandle "AttributeHandle list"
  | fa_provide_attribute_value_update ObjectInstanceHandle "AttributeHandle list" bytes
  | fa_request_attribute_ownership_assumption ObjectInstanceHandle "AttributeHandle list" bytes
  | fa_request_attribute_ownership_release ObjectInstanceHandle "AttributeHandle list" bytes
  | fa_request_divestiture_confirmation ObjectInstanceHandle "AttributeHandle list" bytes
  | fa_attribute_is_owned_by_rti ObjectInstanceHandle "AttributeHandle list"
  | fa_confirm_attribute_ownership_acquisition_cancellation ObjectInstanceHandle "AttributeHandle list"
  | fa_request_retraction bytes
  | fa_flush_queue_grant f64 "f64 option"
  | fa_initiate_federate_save_with_time string f64
  | fa_federation_save_status_response
  | fa_federation_restore_status_response
  | fa_connection_lost string
  | fa_federate_resigned string
  | fa_report_attribute_transportation_type ObjectInstanceHandle AttributeHandle bytes
  | fa_report_interaction_transportation_type FederateHandle InteractionClassHandle bytes
  | fa_raw_callback string

text \<open>
  The callback messages a federate may receive: those the RTI of this repository sends, with its constructors, and the
  other variants of the protocol that the pump knows; \<open>OtherCallback\<close> is any further variant.
\<close>

datatype (plugins only: code size) Incoming =
    FromRti CallbackRequest
  | ObjectInstanceNameReservationFailed string
  | MultipleObjectInstanceNameReservationSucceeded "string list"
  | MultipleObjectInstanceNameReservationFailed "string list"
  | TurnUpdatesOnForObjectInstance wire_handle "bytes list option"
  | TurnUpdatesOffForObjectInstance wire_handle "bytes list option"
  | AttributesInScope wire_handle "bytes list option"
  | AttributesOutOfScope wire_handle "bytes list option"
  | ProvideAttributeValueUpdate wire_handle "bytes list option" bytes
  | RequestAttributeOwnershipAssumption wire_handle "bytes list option" bytes
  | RequestAttributeOwnershipRelease wire_handle "bytes list option" bytes
  | RequestDivestitureConfirmation wire_handle "bytes list option" bytes
  | AttributeIsOwnedByRti wire_handle "bytes list option"
  | ConfirmAttributeOwnershipAcquisitionCancellation wire_handle "bytes list option"
  | RequestRetraction wire_handle
  | FlushQueueGrant "bytes option" "bytes option"
  | InitiateFederateSaveWithTime string "bytes option"
  | FederationSaveStatusResponse
  | FederationRestoreStatusResponse
  | ConnectionLost string
  | FederateResigned string
  | ReceiveDirectedInteractionWithTime
  | ReportAttributeTransportationType
  | ReportInteractionTransportationType
  | OtherCallback string

text \<open>The readings of the optional fields, as the arms of the dispatcher repeat them.\<close>

definition instance_field :: "wire_handle \<Rightarrow> (ObjectInstanceHandle \<Rightarrow> FederateCall) \<Rightarrow> FederateCall list" where
  "instance_field h f = (case Option.bind h decode_object_instance_fed of Some i \<Rightarrow> [f i] | None \<Rightarrow> [])"

definition producer_field :: "wire_handle \<Rightarrow> FederateHandle option" where
  "producer_field h = Option.bind h decode_federate_fed"

definition attrs_field :: "bytes list option \<Rightarrow> AttributeHandle list" where
  "attrs_field s = (case s of Some hs \<Rightarrow> List.map_filter decode_attribute_fed hs | None \<Rightarrow> [])"

definition time_field :: "bytes option \<Rightarrow> f64 option" where
  "time_field t = Option.bind t (\<lambda>bs. if length bs = 8 then Some (from_be_bytes bs) else None)"

abbreviation time_or_zero :: "bytes option \<Rightarrow> f64" where
  "time_or_zero t \<equiv> unwrap_or 0 (time_field t)"

definition grant_field :: "bytes option \<Rightarrow> (f64 \<Rightarrow> FederateCall) \<Rightarrow> FederateCall list" where
  "grant_field t f = (case time_field t of Some x \<Rightarrow> [f x] | None \<Rightarrow> [])"

definition class_field :: "wire_handle \<Rightarrow> (ObjectClassHandle \<Rightarrow> FederateCall) \<Rightarrow> FederateCall list" where
  "class_field h f = (case Option.bind h decode_object_class_fed of Some c \<Rightarrow> [f c] | None \<Rightarrow> [])"

definition interaction_field :: "wire_handle \<Rightarrow> (InteractionClassHandle \<Rightarrow> FederateCall) \<Rightarrow> FederateCall list" where
  "interaction_field h f = (case Option.bind h decode_interaction_class_fed of Some c \<Rightarrow> [f c] | None \<Rightarrow> [])"

subsection \<open>The dispatch of a callback\<close>

definition dispatch_rti_callback :: "CallbackRequest \<Rightarrow> FederateCall list" where
  "dispatch_rti_callback variant =
     (case variant of
        DiscoverObjectInstance inst cls name producer \<Rightarrow>
          (case (Option.bind inst decode_object_instance_fed, Option.bind cls decode_object_class_fed) of
             (Some i, Some c) \<Rightarrow> [fa_discover_object_instance i c name (producer_field producer)]
           | _ \<Rightarrow> [])
      | ReflectAttributeValues inst values tag producer \<Rightarrow>
          instance_field inst (\<lambda>i. fa_reflect_attribute_values i
            (case values of Some vs \<Rightarrow> decode_attribute_value_map_fed vs | None \<Rightarrow> []) tag (producer_field producer))
      | ReceiveInteraction cls params tag producer \<Rightarrow>
          interaction_field cls (\<lambda>c. fa_receive_interaction c
            (case params of Some ps \<Rightarrow> decode_parameter_value_map_fed ps | None \<Rightarrow> []) tag (producer_field producer))
      | RemoveObjectInstance inst tag producer \<Rightarrow>
          instance_field inst (\<lambda>i. fa_remove_object_instance i tag (producer_field producer))
      | TimeRegulationEnabled time \<Rightarrow> grant_field time fa_time_regulation_enabled
      | TimeConstrainedEnabled time \<Rightarrow> grant_field time fa_time_constrained_enabled
      | TimeAdvanceGrant time \<Rightarrow> grant_field time fa_time_advance_grant
      | SynchronizationPointRegistrationSucceeded label \<Rightarrow> [fa_synchronization_point_registration_succeeded label]
      | SynchronizationPointRegistrationFailed label reason \<Rightarrow> [fa_synchronization_point_registration_failed label reason]
      | AnnounceSynchronizationPoint label tag \<Rightarrow> [fa_announce_synchronization_point label tag]
      | ReportFederationExecutionMembers name report \<Rightarrow>
          [fa_report_federation_execution_members name (unwrap_or [] report)]
      | ReportFederationExecutionDoesNotExist name \<Rightarrow> [fa_report_federation_execution_does_not_exist name]
      | ReportFederationExecutions report \<Rightarrow> [fa_report_federation_executions (map fst (unwrap_or [] report))]
      | RequestFederationRestoreSucceeded label \<Rightarrow> [fa_request_federation_restore_succeeded label]
      | RequestFederationRestoreFailed label \<Rightarrow> [fa_request_federation_restore_failed label]
      | FederationRestoreBegun \<Rightarrow> [fa_federation_restore_begun]
      | InitiateFederateRestore label federate_name post \<Rightarrow>
          [fa_initiate_federate_restore label federate_name (unwrap_or 0 (producer_field post))]
      | FederationRestored \<Rightarrow> [fa_federation_restored]
      | FederationNotRestored reason \<Rightarrow> [fa_federation_not_restored reason]
      | InitiateFederateSave label \<Rightarrow> [fa_initiate_federate_save label]
      | FederationSaved \<Rightarrow> [fa_federation_saved]
      | FederationNotSaved reason \<Rightarrow> [fa_federation_not_saved reason]
      | InformAttributeOwnership inst attrs federate \<Rightarrow>
          (case (Option.bind inst decode_object_instance_fed, producer_field federate) of
             (Some i, Some owner) \<Rightarrow> [fa_inform_attribute_ownership i (attrs_field attrs) owner]
           | _ \<Rightarrow> [])
      | AttributeOwnershipAcquisitionNotification inst attrs tag \<Rightarrow>
          instance_field inst (\<lambda>i. fa_attribute_ownership_acquisition_notification i (attrs_field attrs) tag)
      | AttributeOwnershipUnavailable inst attrs tag \<Rightarrow>
          instance_field inst (\<lambda>i. fa_attribute_ownership_unavailable i (attrs_field attrs) tag)
      | AttributeIsNotOwned inst attrs \<Rightarrow> instance_field inst (\<lambda>i. fa_attribute_is_not_owned i (attrs_field attrs))
      | FederationSynchronized label failed_set \<Rightarrow>
          [fa_federation_synchronized label
             (hs_extend [] (case failed_set of Some fs \<Rightarrow> List.map_filter decode_federate_fed fs | None \<Rightarrow> []))]
      | ReflectAttributeValuesWithTime inst values tag producer time _ _ \<Rightarrow>
          instance_field inst (\<lambda>i. fa_reflect_attribute_values_with_time i
            (case values of Some vs \<Rightarrow> decode_attribute_value_map_fed vs | None \<Rightarrow> []) tag (producer_field producer)
            (time_or_zero time))
      | ReceiveInteractionWithTime cls params tag producer time _ _ \<Rightarrow>
          interaction_field cls (\<lambda>c. fa_receive_interaction_with_time c
            (case params of Some ps \<Rightarrow> decode_parameter_value_map_fed ps | None \<Rightarrow> []) tag (producer_field producer)
            (time_or_zero time))
      | RemoveObjectInstanceWithTime inst tag producer time _ _ \<Rightarrow>
          instance_field inst (\<lambda>i. fa_remove_object_instance_with_time i tag (producer_field producer) (time_or_zero time))
      | StartRegistrationForObjectClass cls \<Rightarrow> class_field cls fa_start_registration_for_object_class
      | StopRegistrationForObjectClass cls \<Rightarrow> class_field cls fa_stop_registration_for_object_class
      | TurnInteractionsOn cls \<Rightarrow> interaction_field cls fa_turn_interactions_on
      | TurnInteractionsOff cls \<Rightarrow> interaction_field cls fa_turn_interactions_off
      | ReceiveDirectedInteraction _ _ _ _ _ \<Rightarrow> [fa_raw_callback ''DirectedInteraction''])"

definition dispatch_other_callback :: "Incoming \<Rightarrow> FederateCall list" where
  "dispatch_other_callback variant =
     (case variant of
        FromRti cbk \<Rightarrow> dispatch_rti_callback cbk
      | ObjectInstanceNameReservationFailed name \<Rightarrow> [fa_object_instance_name_reservation_failed name]
      | MultipleObjectInstanceNameReservationSucceeded names \<Rightarrow> [fa_multiple_object_instance_name_reservation_succeeded names]
      | MultipleObjectInstanceNameReservationFailed names \<Rightarrow> [fa_multiple_object_instance_name_reservation_failed names]
      | TurnUpdatesOnForObjectInstance inst attrs \<Rightarrow>
          instance_field inst (\<lambda>i. fa_turn_updates_on_for_object_instance i (attrs_field attrs))
      | TurnUpdatesOffForObjectInstance inst attrs \<Rightarrow>
          instance_field inst (\<lambda>i. fa_turn_updates_off_for_object_instance i (attrs_field attrs))
      | AttributesInScope inst attrs \<Rightarrow> instance_field inst (\<lambda>i. fa_attributes_in_scope i (attrs_field attrs))
      | AttributesOutOfScope inst attrs \<Rightarrow> instance_field inst (\<lambda>i. fa_attributes_out_of_scope i (attrs_field attrs))
      | ProvideAttributeValueUpdate inst attrs tag \<Rightarrow>
          instance_field inst (\<lambda>i. fa_provide_attribute_value_update i (attrs_field attrs) tag)
      | RequestAttributeOwnershipAssumption inst offered tag \<Rightarrow>
          instance_field inst (\<lambda>i. fa_request_attribute_ownership_assumption i (attrs_field offered) tag)
      | RequestAttributeOwnershipRelease inst candidates tag \<Rightarrow>
          instance_field inst (\<lambda>i. fa_request_attribute_ownership_release i (attrs_field candidates) tag)
      | RequestDivestitureConfirmation inst released tag \<Rightarrow>
          instance_field inst (\<lambda>i. fa_request_divestiture_confirmation i (attrs_field released) tag)
      | AttributeIsOwnedByRti inst attrs \<Rightarrow> instance_field inst (\<lambda>i. fa_attribute_is_owned_by_rti i (attrs_field attrs))
      | ConfirmAttributeOwnershipAcquisitionCancellation inst attrs \<Rightarrow>
          instance_field inst (\<lambda>i. fa_confirm_attribute_ownership_acquisition_cancellation i (attrs_field attrs))
      | RequestRetraction _ \<Rightarrow> [fa_request_retraction []]
      | FlushQueueGrant time _ \<Rightarrow> [fa_flush_queue_grant (time_or_zero time) None]
      | InitiateFederateSaveWithTime label time \<Rightarrow> [fa_initiate_federate_save_with_time label (time_or_zero time)]
      | FederationSaveStatusResponse \<Rightarrow> [fa_federation_save_status_response]
      | FederationRestoreStatusResponse \<Rightarrow> [fa_federation_restore_status_response]
      | ConnectionLost fault \<Rightarrow> [fa_connection_lost fault]
      | FederateResigned reason \<Rightarrow> [fa_federate_resigned reason]
      | ReceiveDirectedInteractionWithTime \<Rightarrow> [fa_raw_callback ''DirectedInteraction'']
      | ReportAttributeTransportationType \<Rightarrow> [fa_raw_callback ''ReportTransportationType'']
      | ReportInteractionTransportationType \<Rightarrow> [fa_raw_callback ''ReportTransportationType'']
      | OtherCallback _ \<Rightarrow> [fa_raw_callback ''<unhandled>''])"

definition dispatch_callback :: "Incoming option \<Rightarrow> FederateCall list" where
  "dispatch_callback request = (case request of None \<Rightarrow> [] | Some variant \<Rightarrow> dispatch_other_callback variant)"

subsection \<open>Calls and the pump\<close>

text \<open>
  The generated code of the federate side: the encoding of requests, the decoding of responses and callbacks.
  An error of a decoder is a text, and a message may have no variant set.
\<close>

record FedLib =
  fl_encode_request :: "CallRequest \<Rightarrow> Payload list \<Rightarrow> bytes"
  fl_decode_response :: "bytes \<Rightarrow> string + CallResponse option"
  fl_decode_callback :: "bytes \<Rightarrow> string + Incoming option"

text \<open>
  The state of an ambassador. A one-shot channel is a number; \<open>in_answers\<close> has what was sent on it, or \<open>None\<close> where
  its sender was dropped. The frames are those handed to the writer, in order; its channel holds 128 frames
  and a full one only delays the sender, so the bound is not represented.
\<close>

record Inner =
  in_session_id :: u64
  in_frames :: "Frame list"
  in_writer_gone :: bool
  in_next_outbound_seq :: i32
  in_pending :: "(i32, nat) hmap"
  in_next_channel :: nat
  in_answers :: "(nat, bytes option) hmap"
  in_pump_running :: bool

definition spin_up_with_transport :: "u64 \<Rightarrow> Inner" where
  "spin_up_with_transport session_id =
     \<lparr>in_session_id = session_id, in_frames = [], in_writer_gone = False, in_next_outbound_seq = 1, in_pending = [],
      in_next_channel = 0, in_answers = [], in_pump_running = True\<rparr>"

text \<open>Whether a frame could be handed to the writer.\<close>

definition frame_send :: "Frame \<Rightarrow> Inner \<Rightarrow> Inner \<times> bool" where
  "frame_send f amb = (if in_writer_gone amb then (amb, False) else (amb\<lparr>in_frames := in_frames amb @ [f]\<rparr>, True))"

text \<open>The map of pending calls. An entry that is overwritten drops its sender.\<close>

definition pending_insert :: "i32 \<Rightarrow> nat \<Rightarrow> Inner \<Rightarrow> Inner" where
  "pending_insert seq tx amb =
     (let dropped = (case map_of (in_pending amb) seq of Some tx' \<Rightarrow> hinsert tx' None (in_answers amb) | None \<Rightarrow> in_answers amb)
      in amb\<lparr>in_pending := hinsert seq tx (in_pending amb), in_answers := dropped\<rparr>)"

definition pending_remove :: "i32 \<Rightarrow> Inner \<Rightarrow> Inner \<times> nat option" where
  "pending_remove seq amb = (amb\<lparr>in_pending := hremove seq (in_pending amb)\<rparr>, map_of (in_pending amb) seq)"

definition pending_drain :: "Inner \<Rightarrow> Inner \<times> nat list" where
  "pending_drain amb = (amb\<lparr>in_pending := []\<rparr>, hvalues (in_pending amb))"

definition answer :: "nat \<Rightarrow> bytes \<Rightarrow> Inner \<Rightarrow> Inner" where
  "answer tx bs amb = amb\<lparr>in_answers := hinsert tx (Some bs) (in_answers amb)\<rparr>"

text \<open>A call up to the point where it waits: its channel, or the error. The wait itself reads the answer.\<close>

definition call_send :: "FedLib \<Rightarrow> CallRequest \<Rightarrow> Payload list \<Rightarrow> Inner \<Rightarrow> Inner \<times> (CallError + nat)" where
  "call_send lib request unread amb =
     (let bs = fl_encode_request lib request unread;
          (seq, next_seq) = claim_step (in_next_outbound_seq amb);
          rx = in_next_channel amb;
          amb1 = pending_insert seq rx (amb\<lparr>in_next_outbound_seq := next_seq, in_next_channel := Suc rx\<rparr>)
      in case frame_send (hla_call_request_frame seq (in_session_id amb) 0 bs) amb1 of
           (amb2, True) \<Rightarrow> (amb2, Inr rx)
         | (amb2, False) \<Rightarrow> (amb2, Inl Closed))"

definition call_receive :: "FedLib \<Rightarrow> bytes option \<Rightarrow> CallError + CallResponse" where
  "call_receive lib received =
     (case received of
        None \<Rightarrow> Inl Closed
      | Some bs \<Rightarrow>
          if bs = [] then Inl Closed
          else (case fl_decode_response lib bs of
                  Inl e \<Rightarrow> Inl (Decode e)
                | Inr None \<Rightarrow> Inl UnexpectedResponse
                | Inr (Some r) \<Rightarrow> Inr r))"

text \<open>The result of a method once its channel has an answer; \<open>None\<close> while it waits.\<close>

definition method_result :: "FedLib \<Rightarrow> 'a ApiCall \<Rightarrow> nat \<Rightarrow> Inner \<Rightarrow> (CallError + 'a) option" where
  "method_result lib m rx amb =
     map_option (\<lambda>received. case call_receive lib received of Inl e \<Rightarrow> Inl e | Inr r \<Rightarrow> snd (snd m) r)
       (map_of (in_answers amb) rx)"

definition disconnect :: "Inner \<Rightarrow> Inner" where
  "disconnect amb =
     (let (seq, next_seq) = claim_step (in_next_outbound_seq amb);
          f = \<lparr>header = with_payload_size 0 seq (in_session_id amb) NO_SEQUENCE_NUMBER CtrlTerminateSession, payload = []\<rparr>;
          amb1 = fst (frame_send f (amb\<lparr>in_next_outbound_seq := next_seq\<rparr>));
          (amb2, txs) = pending_drain amb1
      in (fold (\<lambda>tx. answer tx []) txs amb2)\<lparr>in_pump_running := False\<rparr>)"

text \<open>The pump: a frame that was read, with the methods it invokes on the federate, and the end of the stream.\<close>

definition pump_frame :: "FedLib \<Rightarrow> Frame \<Rightarrow> Inner \<Rightarrow> Inner \<times> FederateCall list" where
  "pump_frame lib frame amb =
     (case message_type (header frame) of
        HlaCallResponse \<Rightarrow>
          (case call_response_decode (payload frame) of
             Inl _ \<Rightarrow> (amb, [])
           | Inr p \<Rightarrow>
               (case pending_remove (response_to_sequence_number p) amb of
                  (amb1, Some tx) \<Rightarrow> (answer tx (body p) amb1, [])
                | (amb1, None) \<Rightarrow> (amb1, [])))
      | HlaCallbackRequest \<Rightarrow>
          (case fl_decode_callback lib (payload frame) of
             Inl _ \<Rightarrow> (amb, [])
           | Inr request \<Rightarrow> (amb, dispatch_callback request))
      | CtrlHeartbeat \<Rightarrow>
          (fst (frame_send \<lparr>header = with_payload_size 0 NO_SEQUENCE_NUMBER (in_session_id amb)
              (sequence_number (header frame)) CtrlHeartbeatResponse, payload = []\<rparr> amb), [])
      | _ \<Rightarrow> (amb, []))"

definition pump_failed :: "Inner \<Rightarrow> Inner" where
  "pump_failed amb =
     (let (amb1, txs) = pending_drain amb
      in (fold (\<lambda>tx. answer tx []) txs amb1)\<lparr>in_pump_running := False\<rparr>)"

end
