(* ===== verification/Ambassador_Props.thy ===== *)
theory Ambassador_Props
  imports Pump
begin

text \<open>
  Properties of the federate side: its methods read every response the dispatcher gives, and its callbacks carry what
  the RTI put into them.
\<close>

subsection \<open>Handles\<close>

text \<open>The contract of the conversions of a handle on the federate side.\<close>

locale option_codec =
  fixes enc :: "'a \<Rightarrow> bytes" and dec :: "bytes \<Rightarrow> 'a option"
  assumes dec_enc: "dec (enc x) = Some x" and enc_dec: "dec bs = Some x \<Longrightarrow> enc x = bs"
begin

lemma decode_all: "List.map_filter dec (map enc xs) = xs"
  by (induction xs) (simp_all add: dec_enc map_filter_simps)

lemma decode_values: "List.map_filter (\<lambda>(h, v). map_option (\<lambda>h'. (h', v)) (Option.bind h dec)) (map (\<lambda>(h, v). (Some (enc h), v)) m) = m"
  by (induction m) (auto simp: dec_enc map_filter_simps)

end

interpretation object_class_fed: option_codec encode_object_class decode_object_class_fed
  by unfold_locales (auto simp: encode_object_class_def encode_u32_def decode_object_class_fed_def split: if_splits)

interpretation attribute_fed: option_codec encode_attribute decode_attribute_fed
  by unfold_locales (auto simp: encode_attribute_def encode_u32_def decode_attribute_fed_def split: if_splits)

interpretation interaction_class_fed: option_codec encode_interaction_class decode_interaction_class_fed
  by unfold_locales (auto simp: encode_interaction_class_def encode_u32_def decode_interaction_class_fed_def split: if_splits)

interpretation parameter_fed: option_codec encode_parameter decode_parameter_fed
  by unfold_locales (auto simp: encode_parameter_def encode_u32_def decode_parameter_fed_def split: if_splits)

interpretation object_instance_fed: option_codec encode_object_instance decode_object_instance_fed
  by unfold_locales (auto simp: encode_object_instance_def encode_u64_def decode_object_instance_fed_def split: if_splits)

interpretation federate_fed: option_codec encode_federate decode_federate_fed
  by unfold_locales (auto simp: encode_federate_def encode_u32_def decode_federate_fed_def split: if_splits)

text \<open>Both sides encode a handle alike.\<close>

lemma encode_fed:
  "encode_object_class_fed = encode_object_class" "encode_attribute_fed = encode_attribute"
  "encode_interaction_class_fed = encode_interaction_class" "encode_parameter_fed = encode_parameter"
  "encode_object_instance_fed = encode_object_instance"
  by (simp_all add: fun_eq_iff encode_object_class_fed_def encode_attribute_fed_def encode_interaction_class_fed_def
      encode_parameter_fed_def encode_object_instance_fed_def encode_object_class_def encode_attribute_def
      encode_interaction_class_def encode_parameter_def encode_object_instance_def encode_u32_def encode_u64_def)

subsection \<open>The methods and the dispatcher\<close>

text \<open>Whatever the dispatcher answers to its request, a method returns a result or an exception of the RTI.\<close>

definition read_ok :: "CallError + 'a \<Rightarrow> bool" where
  "read_ok r \<longleftrightarrow> (case r of Inl (RtiException _) \<Rightarrow> True | Inl _ \<Rightarrow> False | Inr _ \<Rightarrow> True)"

definition answered :: "'a ApiCall \<Rightarrow> bool" where
  "answered m \<longleftrightarrow> (\<forall>from_str serde node ctx node' ctx' cbs r.
     dispatch_call from_str serde node ctx (Some (fst m)) = Some (node', ctx', cbs, r) \<longrightarrow> read_ok (snd (snd m) r))"

lemma read_exception [simp]: "read_ok (expect v f (Inl e))"
  by (simp add: expect_def check_exception_def read_ok_def)

lemma read_result [simp]: "read_ok (expect v f (Inr (v, p))) \<longleftrightarrow> f p \<noteq> None"
  by (auto simp: expect_def check_exception_def read_ok_def split: option.split)

lemma read_respond: "(\<And>x. r = Inr x \<Longrightarrow> f (g x) \<noteq> None) \<Longrightarrow> read_ok (expect v f (respond v g r))"
  by (cases r) (simp_all add: respond_def)

lemma read_member:
  assumes "with_membership node ctx v g h = (node', ctx', cbs, r)"
    and "\<And>me fed fed' c x. h me fed = (fed', c, Inr x) \<Longrightarrow> f (g x) \<noteq> None"
  shows "read_ok (expect v f r)"
proof (cases "membership ctx")
  case None
  then show ?thesis using assms(1) by (auto simp: with_membership_def exception_variant_def)
next
  case (Some m)
  obtain fed' c r' where h: "h (mb_federate_handle m) (fed_heap node (mb_federation m)) = (fed', c, r')" by (metis prod_cases3)
  then have "r = respond v g r'" using Some assms(1) by (simp add: with_membership_def)
  then show ?thesis using assms(2) h by (auto intro: read_respond)
qed

lemma read_query:
  assumes "query_membership node ctx v g h = (node', ctx', cbs, r)" and "\<And>me fed x. h me fed = Inr x \<Longrightarrow> f (g x) \<noteq> None"
  shows "read_ok (expect v f r)"
  using assms(1) unfolding query_membership_def by (rule read_member) (use assms(2) in auto)

lemma handle_results:
  "get_object_class_handle name fed = Inr h \<Longrightarrow> decode_object_class_fed h \<noteq> None"
  "get_attribute_handle ch name fed = Inr h \<Longrightarrow> decode_attribute_fed h \<noteq> None"
  "get_interaction_class_handle name fed = Inr h \<Longrightarrow> decode_interaction_class_fed h \<noteq> None"
  "get_parameter_handle ch name fed = Inr h \<Longrightarrow> decode_parameter_fed h \<noteq> None"
  "get_federate_handle name fed = Inr h \<Longrightarrow> decode_federate_fed h \<noteq> None"
  by (auto simp: get_object_class_handle_def get_attribute_handle_def get_interaction_class_handle_def get_parameter_handle_def
      get_federate_handle_def exception_variant_def object_class_fed.dec_enc attribute_fed.dec_enc interaction_class_fed.dec_enc
      parameter_fed.dec_enc federate_fed.dec_enc Let_def split: option.splits sum.splits if_splits)

lemma region_result: "create_region me dims fed = (fed', c, Inr h) \<Longrightarrow> length h = 8"
  by (auto simp: create_region_def exception_variant_def encode_u64_def Let_def split: option.splits sum.splits if_splits)

lemma join_result: "join req name ctx node = (node', ctx', Inr (h, impl)) \<Longrightarrow> decode_federate_fed h \<noteq> None"
  by (auto simp: join_def exception_variant_def federate_fed.dec_enc Let_def split: option.splits if_splits)

lemma answeredI:
  "(\<And>from_str serde node ctx node' ctx' cbs r. dispatch_call from_str serde node ctx (Some q) = Some (node', ctx', cbs, r) \<Longrightarrow> read_ok (f r)) \<Longrightarrow>
   answered (q, u, f)"
  by (simp add: answered_def)

lemma answered_declarations:
  "answered (publish_object_class_attributes_call c attrs)" "answered (subscribe_object_class_attributes_call c attrs)"
  "answered (unsubscribe_object_class_attributes_call c attrs)" "answered (unpublish_object_class_attributes_call c attrs)"
  "answered (publish_interaction_class_call ic)" "answered (subscribe_interaction_class_call ic)"
  "answered (unsubscribe_interaction_class_call ic)" "answered (unpublish_interaction_class_call ic)"
  unfolding publish_object_class_attributes_call_def subscribe_object_class_attributes_call_def unsubscribe_object_class_attributes_call_def
    unpublish_object_class_attributes_call_def publish_interaction_class_call_def subscribe_interaction_class_call_def
    unsubscribe_interaction_class_call_def unpublish_interaction_class_call_def
  by (rule answeredI, simp add: dispatch_call_def dispatch_declaration_def Let_def, erule read_member, simp)+

lemma answered_objects:
  "answered (register_object_instance_call c)" "answered (update_attribute_values_call i values tag)"
  "answered (send_interaction_call ic params tag)" "answered (delete_object_instance_call i tag)"
  unfolding register_object_instance_call_def update_attribute_values_call_def send_interaction_call_def delete_object_instance_call_def
  by (rule answeredI, simp add: dispatch_call_def dispatch_object_def Let_def, erule read_member,
      simp add: handle_field_def object_instance_fed.dec_enc)+

lemma answered_ownership:
  "answered (query_attribute_ownership_call i attrs)" "answered (attribute_ownership_acquisition_if_available_call i attrs tag)"
  "answered (unconditional_attribute_ownership_divestiture_call i attrs tag)"
  "answered (is_attribute_owned_by_federate_call i attr)"
  unfolding query_attribute_ownership_call_def attribute_ownership_acquisition_if_available_call_def
    unconditional_attribute_ownership_divestiture_call_def is_attribute_owned_by_federate_call_def
  by (rule answeredI, simp add: dispatch_call_def dispatch_ownership_def Let_def, (erule read_member | erule read_query),
      simp add: bool_field_def)+

lemma answered_regions:
  "answered (create_region_call dims)" "answered (delete_region_call region)" "answered (set_range_bounds_call region dm lower upper)"
  "answered (get_range_bounds_call region dm)" "answered (commit_region_modifications_call regs)"
  unfolding create_region_call_def delete_region_call_def set_range_bounds_call_def get_range_bounds_call_def
    commit_region_modifications_call_def
  by (rule answeredI, simp add: dispatch_call_def dispatch_region_def Let_def, (erule read_member | erule read_query),
      auto simp: handle_field_def bounds_field_def dest!: region_result)+

lemma answered_time:
  "answered (enable_time_regulation_call la)" "answered enable_time_constrained_call" "answered (time_advance_request_call time)"
  unfolding enable_time_regulation_call_def enable_time_constrained_call_def time_advance_request_call_def
  by (rule answeredI, simp add: dispatch_call_def dispatch_time_def Let_def, erule read_member, simp)+

lemma answered_sync:
  "answered (register_federation_synchronization_point_call label tag)" "answered (synchronization_point_achieved_call label successfully)"
  unfolding register_federation_synchronization_point_call_def synchronization_point_achieved_call_def
  by (rule answeredI, simp add: dispatch_call_def dispatch_sync_def Let_def, erule read_member, simp)+

lemma read_save_progress:
  assumes "save_progress_outcome serde node ctx b = (node', ctx', cbs, r)"
  shows "read_ok (expect_ack (progress_name ''FederateSave'' b) r)"
  using assms by (auto simp: save_progress_outcome_def exception_variant_def intro: read_respond split: option.splits prod.splits)

lemma answered_saves:
  "answered (request_federation_save_call label)" "answered federate_save_begun_call" "answered federate_save_complete_call"
  "answered federate_save_not_complete_call" "answered (request_federation_restore_call label)"
  "answered federate_restore_complete_call" "answered federate_restore_not_complete_call"
  unfolding request_federation_save_call_def federate_save_begun_call_def federate_save_complete_call_def
    federate_save_not_complete_call_def request_federation_restore_call_def federate_restore_complete_call_def
    federate_restore_not_complete_call_def
  by (rule answeredI, simp add: dispatch_call_def dispatch_save_def Let_def,
      (erule read_member, simp |
       drule read_save_progress, simp add: progress_name_def |
       simp add: progress_name_def, erule read_member, simp))+

lemma answered_handles:
  "answered (get_object_class_handle_call name)" "answered (get_attribute_handle_call c name)"
  "answered (get_interaction_class_handle_call name)" "answered (get_parameter_handle_call ic name)"
  unfolding get_object_class_handle_call_def get_attribute_handle_call_def get_interaction_class_handle_call_def get_parameter_handle_call_def
  by (rule answeredI, simp add: dispatch_call_def dispatch_handle_def, erule read_query, use handle_results in \<open>simp add: handle_field_def\<close>)+

lemma answered_federates:
  "answered (get_federate_handle_call name)" "answered (get_federate_name_call h)"
  unfolding get_federate_handle_call_def get_federate_name_call_def
  by (rule answeredI, simp add: dispatch_call_def dispatch_lookup_def, erule read_query,
      use handle_results in \<open>simp add: handle_field_def str_field_def\<close>)+

lemma read_create:
  "create_outcome from_str node ctx v name ms = Some (node', ctx', cbs, r) \<Longrightarrow> read_ok (expect_ack v r)"
  by (auto simp: create_outcome_def intro: read_respond)

lemma answered_federations:
  "answered (create_federation_execution_call name)" "answered (create_federation_execution_with_modules_call name mods)"
  "answered (destroy_federation_execution_call name)"
  unfolding create_federation_execution_call_def create_federation_execution_with_modules_call_def destroy_federation_execution_call_def
  by (rule answeredI, simp add: dispatch_call_def dispatch_federation_def,
      (erule read_create | auto intro: read_respond split: prod.splits))+

lemma read_join: "join_outcome node ctx v req name = (node', ctx', cbs, r) \<Longrightarrow> read_ok (expect v join_field r)"
proof -
  assume a: "join_outcome node ctx v req name = (node', ctx', cbs, r)"
  obtain n c x where j: "join req name ctx node = (n, c, x)" by (metis prod_cases3)
  then have r: "r = respond v (\<lambda>(h, impl). PJoin h impl) x" using a by (simp add: join_outcome_def)
  show ?thesis unfolding r by (rule read_respond) (use j join_result in \<open>auto simp: join_field_def\<close>)
qed

lemma answered_members:
  "answered list_federation_executions_call" "answered (list_federation_execution_members_call federation_name)"
  "answered (join_federation_execution_with_name_call federate_name ftype federation)"
  "answered (join_federation_execution_call ftype federation)" "answered (resign_federation_execution_call action)"
  unfolding list_federation_executions_call_def list_federation_execution_members_call_def join_federation_execution_with_name_call_def
    join_federation_execution_call_def resign_federation_execution_call_def
  by (rule answeredI, auto simp: dispatch_call_def dispatch_member_def intro: read_respond read_join split: prod.splits)+

lemma answered_connect: "answered connect_federation_call" "answered disconnect_federation_call"
  unfolding connect_federation_call_def disconnect_federation_call_def
  by (rule answeredI, auto simp: dispatch_call_def dispatch_other_def connect_services_def single_acks_def ownership_acks_def
      status_acks_def region_acks_def order_acks_def association_acks_def reservation_acks_def)+

subsection \<open>The callbacks\<close>

lemma hcollect_wf: "wf_hmap m \<Longrightarrow> hcollect m = m"
proof -
  have "foldl (\<lambda>m (k, v). hinsert k v m) acc m = acc @ m" if "wf_hmap (acc @ m)" for acc :: "('a, 'b) hmap" and m
    using that
  proof (induction m arbitrary: acc)
    case (Cons kv m)
    obtain k v where kv: "kv = (k, v)" by force
    have "k \<notin> fst ` set acc" using Cons.prems kv by force
    then have "hinsert k v acc = acc @ [(k, v)]"
      unfolding hinsert_def by (induction acc) auto
    then show ?case using Cons.IH [of "acc @ [(k, v)]"] Cons.prems kv by simp
  qed simp
  from this [of "[]" m] show "wf_hmap m \<Longrightarrow> ?thesis" by (simp add: hcollect_def)
qed

lemma hs_extend_distinct: "distinct s \<Longrightarrow> hs_extend [] s = s"
proof -
  have "foldl (\<lambda>s x. hs_insert x s) acc xs = acc @ xs" if "distinct (acc @ xs)" for acc xs :: "'a list"
    using that by (induction xs arbitrary: acc) (auto simp: hs_insert_def)
  from this [of "[]" s] show "distinct s \<Longrightarrow> ?thesis" by (simp add: hs_extend_def)
qed

lemma fields_encoded:
  "instance_field (Some (encode_object_instance i)) f = [f i]" "producer_field (Some (encode_federate h)) = Some h"
  "attrs_field (Some (map encode_attribute attrs)) = attrs" "time_field (Some (encode_logical_time t)) = Some t"
  "grant_field (Some (encode_logical_time t)) g = [g t]" "class_field (Some (encode_object_class c)) k = [k c]"
  "interaction_field (Some (encode_interaction_class ic)) l = [l ic]"
  by (simp_all add: instance_field_def producer_field_def attrs_field_def time_field_def grant_field_def class_field_def
      interaction_field_def object_instance_fed.dec_enc federate_fed.dec_enc attribute_fed.decode_all object_class_fed.dec_enc
      interaction_class_fed.dec_enc encode_logical_time_def)

lemma values_encoded:
  "wf_hmap values \<Longrightarrow> decode_attribute_value_map_fed (attribute_values values) = values"
  "wf_hmap params \<Longrightarrow> decode_parameter_value_map_fed (parameter_values params) = params"
  by (simp_all add: decode_attribute_value_map_fed_def attribute_values_def decode_parameter_value_map_fed_def parameter_values_def
      attribute_fed.decode_values parameter_fed.decode_values hcollect_wf)

lemmas callback_decode = dispatch_callback_def dispatch_other_callback_def dispatch_rti_callback_def fields_encoded values_encoded
  object_instance_fed.dec_enc object_class_fed.dec_enc federate_fed.decode_all hs_extend_distinct

subsection \<open>Properties of the methods\<close>

text \<open>C13. The methods of the ambassador and the dispatcher agree on their types. Whatever the state of the RTI and of
  the session, and whatever the arguments, every method of the ambassador reads the answer the dispatcher gives to its request: it
  returns a value of its result type or the exception of the RTI, and never finds an unexpected response, a missing field or a
  handle of the wrong length.\<close>

theorem api_calls_are_answered:
  "answered (create_federation_execution_call name) \<and>
    answered (create_federation_execution_with_modules_call name mods) \<and>
    answered list_federation_executions_call \<and>
    answered (list_federation_execution_members_call federation_name) \<and>
    answered connect_federation_call \<and>
    answered disconnect_federation_call \<and>
    answered (get_federate_handle_call name) \<and>
    answered (get_federate_name_call h) \<and>
    answered (destroy_federation_execution_call name) \<and>
    answered (join_federation_execution_with_name_call federate_name ftype federation) \<and>
    answered (join_federation_execution_call ftype federation) \<and>
    answered (resign_federation_execution_call action) \<and>
    answered (get_object_class_handle_call name) \<and>
    answered (get_attribute_handle_call c name) \<and>
    answered (get_interaction_class_handle_call name) \<and>
    answered (get_parameter_handle_call c name) \<and>
    answered (publish_object_class_attributes_call c attrs) \<and>
    answered (subscribe_object_class_attributes_call c attrs) \<and>
    answered (unsubscribe_object_class_attributes_call c attrs) \<and>
    answered (unsubscribe_interaction_class_call c) \<and>
    answered (unpublish_object_class_attributes_call c attrs) \<and>
    answered (unpublish_interaction_class_call c) \<and>
    answered (publish_interaction_class_call c) \<and>
    answered (subscribe_interaction_class_call c) \<and>
    answered (register_object_instance_call c) \<and>
    answered (update_attribute_values_call i values tag) \<and>
    answered (send_interaction_call c params tag) \<and>
    answered (is_attribute_owned_by_federate_call i attr) \<and>
    answered (query_attribute_ownership_call i attrs) \<and>
    answered (attribute_ownership_acquisition_if_available_call i attrs tag) \<and>
    answered (create_region_call dims) \<and>
    answered (delete_region_call region) \<and>
    answered (set_range_bounds_call region dm lower upper) \<and>
    answered (get_range_bounds_call region dm) \<and>
    answered (commit_region_modifications_call regs) \<and>
    answered (unconditional_attribute_ownership_divestiture_call i attrs tag) \<and>
    answered (delete_object_instance_call i tag) \<and>
    answered (enable_time_regulation_call la) \<and>
    answered enable_time_constrained_call \<and>
    answered (request_federation_save_call label) \<and>
    answered federate_save_begun_call \<and>
    answered federate_save_complete_call \<and>
    answered (request_federation_restore_call label) \<and>
    answered federate_restore_complete_call \<and>
    answered federate_restore_not_complete_call \<and>
    answered federate_save_not_complete_call \<and>
    answered (register_federation_synchronization_point_call label tag) \<and>
    answered (synchronization_point_achieved_call label successfully) \<and>
    answered (time_advance_request_call time)"
  by (intro conjI answered_declarations answered_objects answered_ownership answered_regions answered_time answered_sync answered_saves
      answered_handles answered_federates answered_federations answered_members answered_connect)

text \<open>C15. The callbacks survive the wire. For every callback the RTI builds (with distinct handles in its value maps and
  sets), the pump invokes the method of the federate of the same name, once, with the arguments the RTI was given;
  the exception is the directed interaction, of which the federate only learns that there was one.\<close>

theorem callbacks_carry_their_arguments:
  assumes "wf_hmap values" and "wf_hmap params" and "distinct failed"
  shows "dispatch_callback (Some (FromRti (discover_object_instance i c name p))) = [fa_discover_object_instance i c name (Some p)] \<and>
    dispatch_callback (Some (FromRti (reflect_attribute_values i values tag p))) = [fa_reflect_attribute_values i values tag (Some p)] \<and>
    dispatch_callback (Some (FromRti (reflect_attribute_values_with_time i values tag p t))) =
      [fa_reflect_attribute_values_with_time i values tag (Some p) t] \<and>
    dispatch_callback (Some (FromRti (receive_interaction ic params tag p))) = [fa_receive_interaction ic params tag (Some p)] \<and>
    dispatch_callback (Some (FromRti (receive_interaction_with_time ic params tag p t))) =
      [fa_receive_interaction_with_time ic params tag (Some p) t] \<and>
    dispatch_callback (Some (FromRti (remove_object_instance i tag p))) = [fa_remove_object_instance i tag (Some p)] \<and>
    dispatch_callback (Some (FromRti (remove_object_instance_with_time i tag p t))) =
      [fa_remove_object_instance_with_time i tag (Some p) t] \<and>
    dispatch_callback (Some (FromRti (report_federation_execution_members name members))) =
      [fa_report_federation_execution_members name members] \<and>
    dispatch_callback (Some (FromRti (report_federation_execution_does_not_exist name))) =
      [fa_report_federation_execution_does_not_exist name] \<and>
    dispatch_callback (Some (FromRti (report_federation_executions names))) = [fa_report_federation_executions names] \<and>
    dispatch_callback (Some (FromRti (attribute_ownership_acquisition_notification i attrs tag))) =
      [fa_attribute_ownership_acquisition_notification i attrs tag] \<and>
    dispatch_callback (Some (FromRti (attribute_ownership_unavailable i attrs tag))) = [fa_attribute_ownership_unavailable i attrs tag] \<and>
    dispatch_callback (Some (FromRti (inform_attribute_ownership i attrs p))) = [fa_inform_attribute_ownership i attrs p] \<and>
    dispatch_callback (Some (FromRti (attribute_is_not_owned i attrs))) = [fa_attribute_is_not_owned i attrs] \<and>
    dispatch_callback (Some (FromRti (request_federation_restore_succeeded label))) = [fa_request_federation_restore_succeeded label] \<and>
    dispatch_callback (Some (FromRti (request_federation_restore_failed label))) = [fa_request_federation_restore_failed label] \<and>
    dispatch_callback (Some (FromRti federation_restore_begun)) = [fa_federation_restore_begun] \<and>
    dispatch_callback (Some (FromRti (initiate_federate_restore label name p))) = [fa_initiate_federate_restore label name p] \<and>
    dispatch_callback (Some (FromRti federation_restored)) = [fa_federation_restored] \<and>
    dispatch_callback (Some (FromRti (federation_not_restored reason))) = [fa_federation_not_restored reason] \<and>
    dispatch_callback (Some (FromRti (initiate_federate_save label))) = [fa_initiate_federate_save label] \<and>
    dispatch_callback (Some (FromRti federation_saved)) = [fa_federation_saved] \<and>
    dispatch_callback (Some (FromRti (federation_not_saved reason))) = [fa_federation_not_saved reason] \<and>
    dispatch_callback (Some (FromRti (synchronization_point_registration_succeeded label))) =
      [fa_synchronization_point_registration_succeeded label] \<and>
    dispatch_callback (Some (FromRti (synchronization_point_registration_failed label reason))) =
      [fa_synchronization_point_registration_failed label reason] \<and>
    dispatch_callback (Some (FromRti (announce_synchronization_point label tag))) = [fa_announce_synchronization_point label tag] \<and>
    dispatch_callback (Some (FromRti (federation_synchronized label failed))) = [fa_federation_synchronized label failed] \<and>
    dispatch_callback (Some (FromRti (start_registration_for_object_class c))) = [fa_start_registration_for_object_class c] \<and>
    dispatch_callback (Some (FromRti (stop_registration_for_object_class c))) = [fa_stop_registration_for_object_class c] \<and>
    dispatch_callback (Some (FromRti (turn_interactions_on ic))) = [fa_turn_interactions_on ic] \<and>
    dispatch_callback (Some (FromRti (turn_interactions_off ic))) = [fa_turn_interactions_off ic] \<and>
    dispatch_callback (Some (FromRti (time_regulation_enabled t))) = [fa_time_regulation_enabled t] \<and>
    dispatch_callback (Some (FromRti (time_constrained_enabled t))) = [fa_time_constrained_enabled t] \<and>
    dispatch_callback (Some (FromRti (time_advance_grant t))) = [fa_time_advance_grant t] \<and>
    dispatch_callback (Some (FromRti (receive_directed_interaction ic i params tag p))) = [fa_raw_callback ''DirectedInteraction'']"
  using assms
  by (simp add: callback_decode discover_object_instance_def reflect_attribute_values_def reflect_attribute_values_with_time_def
      receive_interaction_def receive_interaction_with_time_def remove_object_instance_def remove_object_instance_with_time_def
      report_federation_execution_members_def report_federation_execution_does_not_exist_def report_federation_executions_def
      attribute_ownership_acquisition_notification_def attribute_ownership_unavailable_def inform_attribute_ownership_def
      attribute_is_not_owned_def request_federation_restore_succeeded_def request_federation_restore_failed_def
      federation_restore_begun_def initiate_federate_restore_def federation_restored_def federation_not_restored_def
      initiate_federate_save_def federation_saved_def federation_not_saved_def synchronization_point_registration_succeeded_def
      synchronization_point_registration_failed_def announce_synchronization_point_def federation_synchronized_def
      start_registration_for_object_class_def stop_registration_for_object_class_def turn_interactions_on_def turn_interactions_off_def
      time_regulation_enabled_def time_constrained_enabled_def time_advance_grant_def receive_directed_interaction_def comp_def unwrap_or_def)

theorem callbacks_carry_their_arguments_witness:
  "dispatch_callback (Some (FromRti (reflect_attribute_values 3 [(4, [9]), (5, [])] [1] 2))) =
     [fa_reflect_attribute_values 3 [(4, [9]), (5, [])] [1] (Some 2)] \<and>
   dispatch_callback (Some (FromRti (receive_interaction 6 [(1, [7])] [] 2))) = [fa_receive_interaction 6 [(1, [7])] [] (Some 2)] \<and>
   dispatch_callback (Some (FromRti (federation_synchronized ''s'' [2, 3]))) = [fa_federation_synchronized ''s'' [2, 3]]"
  using callbacks_carry_their_arguments [of "[(4, [9]), (5, [])]" "[(1, [7])]" "[2, 3]" 3 _ _ 2] by simp

end
