(* ===== verification/Client_Props.thy ===== *)
theory Client_Props
  imports Ambassador_Props Server
begin

text \<open>
  Calls of a federate end to end (crates \<open>hla-federate\<close> and \<open>hla-rti\<close>): the pump gives every call the answer that carries its
  sequence number, whatever else is sent and received meanwhile, and a call that goes through both sides
  returns what the dispatcher answered.
\<close>

subsection \<open>The state of an ambassador\<close>

text \<open>Every pending call has its own channel, which nothing was sent on yet.\<close>

definition amb_ok :: "Inner \<Rightarrow> bool" where
  "amb_ok amb \<longleftrightarrow>
     (\<forall>s s' rx. map_of (in_pending amb) s = Some rx \<longrightarrow> map_of (in_pending amb) s' = Some rx \<longrightarrow> s = s') \<and>
     (\<forall>s rx. map_of (in_pending amb) s = Some rx \<longrightarrow> rx < in_next_channel amb \<and> map_of (in_answers amb) rx = None) \<and>
     (\<forall>rx. rx \<in> dom (map_of (in_answers amb)) \<longrightarrow> rx < in_next_channel amb) \<and>
     wf_hmap (in_pending amb) \<and> unat (in_next_outbound_seq amb) < 2 ^ 31"

lemma frame_send_views [simp]:
  "in_pending (fst (frame_send f amb)) = in_pending amb" "in_answers (fst (frame_send f amb)) = in_answers amb"
  "in_next_channel (fst (frame_send f amb)) = in_next_channel amb" "in_next_outbound_seq (fst (frame_send f amb)) = in_next_outbound_seq amb"
  by (simp_all add: frame_send_def)

text \<open>The state after the first part of a call, in the fields the invariant reads.\<close>

lemma call_send_views:
  assumes "call_send lib q u amb = (amb', r)" and "unat (in_next_outbound_seq amb) < 2 ^ 31"
  shows "in_pending amb' = hinsert (in_next_outbound_seq amb) (in_next_channel amb) (in_pending amb)"
    "in_answers amb' = (case map_of (in_pending amb) (in_next_outbound_seq amb) of
       Some tx \<Rightarrow> hinsert tx None (in_answers amb) | None \<Rightarrow> in_answers amb)"
    "in_next_channel amb' = Suc (in_next_channel amb)"
    "unat (in_next_outbound_seq amb') = (unat (in_next_outbound_seq amb) + 1) mod 2 ^ 31"
    "r = Inr rx \<Longrightarrow> rx = in_next_channel amb \<and>
       in_frames amb' = in_frames amb @ [hla_call_request_frame (in_next_outbound_seq amb) (in_session_id amb) 0 (fl_encode_request lib q u)]"
proof -
  obtain k c' where st: "claim_step (in_next_outbound_seq amb) = (k, c')" by force
  note u = unat_claim_step [OF assms(2) st]
  define amb1 where "amb1 = pending_insert k (in_next_channel amb)
    (amb\<lparr>in_next_outbound_seq := c', in_next_channel := Suc (in_next_channel amb)\<rparr>)"
  define f where "f = hla_call_request_frame k (in_session_id amb) 0 (fl_encode_request lib q u)"
  have send: "(case frame_send f amb1 of (amb2, True) \<Rightarrow> (amb2, Inr (in_next_channel amb)) | (amb2, False) \<Rightarrow> (amb2, Inl Closed)) = (amb', r)"
    using assms(1) st by (simp add: call_send_def Let_def amb1_def f_def)
  then have amb': "amb' = fst (frame_send f amb1)" by (auto split: prod.splits bool.splits)
  show "in_pending amb' = hinsert (in_next_outbound_seq amb) (in_next_channel amb) (in_pending amb)"
    "in_answers amb' = (case map_of (in_pending amb) (in_next_outbound_seq amb) of
       Some tx \<Rightarrow> hinsert tx None (in_answers amb) | None \<Rightarrow> in_answers amb)"
    "in_next_channel amb' = Suc (in_next_channel amb)"
    "unat (in_next_outbound_seq amb') = (unat (in_next_outbound_seq amb) + 1) mod 2 ^ 31"
    using u by (simp_all add: amb' amb1_def pending_insert_def Let_def split: option.split)
  show "rx = in_next_channel amb \<and>
       in_frames amb' = in_frames amb @ [hla_call_request_frame (in_next_outbound_seq amb) (in_session_id amb) 0 (fl_encode_request lib q u)]"
    if "r = Inr rx"
    using send that u by (auto simp: frame_send_def f_def amb1_def pending_insert_def Let_def split: if_splits)
qed

lemma call_send_ok:
  assumes "call_send lib q u amb = (amb', r)" "amb_ok amb"
  shows "amb_ok amb'"
proof -
  note v = call_send_views(1-4) [OF assms(1)]
  have lt: "unat (in_next_outbound_seq amb) < 2 ^ 31" using assms(2) by (simp add: amb_ok_def)
  have "wf_hmap (in_pending amb')" "unat (in_next_outbound_seq amb') < 2 ^ 31"
    using assms(2) v [OF lt] by (simp_all add: amb_ok_def)
  moreover have "map_of (in_answers amb') rx = None" "rx < in_next_channel amb'" if "map_of (in_pending amb') s = Some rx" for s rx
    using assms(2) that unfolding v [OF lt] amb_ok_def by (force split: if_splits option.splits)+
  moreover have "s = s'" if "map_of (in_pending amb') s = Some rx" "map_of (in_pending amb') s' = Some rx" for s s' rx
    using assms(2) that unfolding v [OF lt] amb_ok_def by (auto split: if_splits)
  moreover have "rx < in_next_channel amb'" if "rx \<in> dom (map_of (in_answers amb'))" for rx
    using assms(2) that unfolding v [OF lt] amb_ok_def by (force split: if_splits option.splits)
  ultimately show ?thesis unfolding amb_ok_def by blast
qed

text \<open>What a frame answers.\<close>

definition response_to :: "Frame \<Rightarrow> (i32 \<times> bytes) option" where
  "response_to f =
     (if message_type (header f) = HlaCallResponse
      then (case call_response_decode (payload f) of
              Inl _ \<Rightarrow> None | Inr p \<Rightarrow> Some (response_to_sequence_number p, body p))
      else None)"

lemma pump_frame_other:
  "response_to f = None \<Longrightarrow> in_pending (fst (pump_frame lib f amb)) = in_pending amb \<and> in_answers (fst (pump_frame lib f amb)) = in_answers amb"
  by (cases "message_type (header f)") (auto simp: pump_frame_def response_to_def split: sum.splits)

lemma pump_frame_response:
  assumes "response_to f = Some (s, b)"
  shows "in_pending (fst (pump_frame lib f amb)) = hremove s (in_pending amb)"
    "in_answers (fst (pump_frame lib f amb)) =
       (case map_of (in_pending amb) s of Some rx \<Rightarrow> hinsert rx (Some b) (in_answers amb) | None \<Rightarrow> in_answers amb)"
    "snd (pump_frame lib f amb) = []"
  using assms by (auto simp: pump_frame_def response_to_def pending_remove_def answer_def split: if_splits sum.splits option.splits)

lemma pump_frame_counters:
  "in_next_channel (fst (pump_frame lib f amb)) = in_next_channel amb"
  "in_next_outbound_seq (fst (pump_frame lib f amb)) = in_next_outbound_seq amb"
  by (cases "message_type (header f)"; auto simp: pump_frame_def pending_remove_def answer_def split: sum.split option.split)+

lemma pump_frame_ok:
  assumes "amb_ok amb" shows "amb_ok (fst (pump_frame lib f amb))"
proof (cases "response_to f")
  case None
  then show ?thesis using assms pump_frame_other [OF None, of lib amb] pump_frame_counters [of lib f amb] by (simp add: amb_ok_def)
next
  case (Some sb)
  obtain s b where sb: "sb = (s, b)" by force
  note v = pump_frame_response(1,2) [OF Some [unfolded sb], of lib amb] pump_frame_counters [of lib f amb]
  let ?amb = "fst (pump_frame lib f amb)"
  have "wf_hmap (in_pending ?amb)" "unat (in_next_outbound_seq ?amb) < 2 ^ 31" using assms wf_hremove by (simp_all add: v amb_ok_def)
  moreover have "s1 = s2" if "map_of (in_pending ?amb) s1 = Some rx" "map_of (in_pending ?amb) s2 = Some rx" for s1 s2 rx
    using assms that unfolding v amb_ok_def by (auto split: if_splits)
  moreover have "rx < in_next_channel ?amb \<and> map_of (in_answers ?amb) rx = None" if "map_of (in_pending ?amb) s1 = Some rx" for s1 rx
    using assms that unfolding v amb_ok_def by (force split: if_splits option.splits)
  moreover have "rx < in_next_channel ?amb" if "rx \<in> dom (map_of (in_answers ?amb))" for rx
    using assms that unfolding v amb_ok_def by (force split: if_splits option.splits)
  ultimately show ?thesis unfolding amb_ok_def by blast
qed

text \<open>Calls and frames in any order, and the first answer to a sequence number among them.\<close>

datatype FedEvent = Calls CallRequest "Payload list" | Receives Frame

fun fed_event :: "FedLib \<Rightarrow> FedEvent \<Rightarrow> Inner \<Rightarrow> Inner" where
  "fed_event lib (Calls q u) amb = fst (call_send lib q u amb)"
| "fed_event lib (Receives f) amb = fst (pump_frame lib f amb)"

fun first_answer :: "i32 \<Rightarrow> FedEvent list \<Rightarrow> bytes option" where
  "first_answer s [] = None"
| "first_answer s (Calls q u # evs) = first_answer s evs"
| "first_answer s (Receives f # evs) =
     (case response_to f of Some (s', b) \<Rightarrow> if s' = s then Some b else first_answer s evs | None \<Rightarrow> first_answer s evs)"

definition calls_in :: "FedEvent list \<Rightarrow> nat" where
  "calls_in evs = length (filter (\<lambda>ev. case ev of Calls _ _ \<Rightarrow> True | Receives _ \<Rightarrow> False) evs)"

lemma fed_event_ok: "amb_ok amb \<Longrightarrow> amb_ok (fed_event lib ev amb)"
  using pump_frame_ok call_send_ok by (cases ev) (auto simp: prod_eq_iff)

lemma events_ok: "amb_ok amb \<Longrightarrow> amb_ok (fold (fed_event lib) evs amb)"
  by (induction evs arbitrary: amb) (simp_all add: fed_event_ok)

lemma spin_up_ok: "amb_ok (spin_up_with_transport sid)"
  by (simp add: amb_ok_def spin_up_with_transport_def)

text \<open>An answer stays.\<close>

lemma event_keeps_answer:
  assumes "amb_ok amb" "map_of (in_answers amb) rx = Some x"
  shows "map_of (in_answers (fed_event lib ev amb)) rx = Some x"
proof -
  have free: "map_of (in_pending amb) s \<noteq> Some rx" for s using assms unfolding amb_ok_def by force
  have seq: "unat (in_next_outbound_seq amb) < 2 ^ 31" using assms(1) by (simp add: amb_ok_def)
  show ?thesis
  proof (cases ev)
    case (Calls q u)
    obtain amb' r where c: "call_send lib q u amb = (amb', r)" by force
    show ?thesis using call_send_views(2) [OF c seq] assms(2) free by (auto simp: Calls c split: option.split)
  next
    case (Receives f)
    show ?thesis
    proof (cases "response_to f")
      case None
      then show ?thesis using pump_frame_other [OF None, of lib amb] assms(2) by (simp add: Receives)
    next
      case (Some sb)
      then show ?thesis using pump_frame_response(2) [of f "fst sb" "snd sb" lib amb] assms(2) free
        by (auto simp: Receives split: option.split)
    qed
  qed
qed

lemma answer_stays:
  "amb_ok amb \<Longrightarrow> map_of (in_answers amb) rx = Some x \<Longrightarrow> map_of (in_answers (fold (fed_event lib) evs amb)) rx = Some x"
  by (induction evs arbitrary: amb) (simp_all add: fed_event_ok event_keeps_answer)

text \<open>The counter comes back to a number after \<open>2 ^ 31\<close> claims.\<close>

lemma number_not_reused:
  assumes "unat c = (unat s + k) mod 2 ^ 31" "0 < k" "k < 2 ^ 31" "unat s < 2 ^ 31"
  shows "c \<noteq> s"
proof
  assume "c = s"
  then have "(unat s + k) mod 2 ^ 31 = unat s mod 2 ^ 31" using assms(1,4) by simp
  then have "(2 :: nat) ^ 31 dvd k" by (metis add_diff_cancel_left' le_add1 mod_eq_dvd_iff_nat)
  then show False using assms(2,3) by (auto dest: dvd_imp_le)
qed

text \<open>
  A pending call under number \<open>s\<close>, when the counter is \<open>k\<close> numbers ahead: as long as the counter has not come round to
  \<open>s\<close> again, its channel gets the first answer to \<open>s\<close> and nothing else.
\<close>

lemma pending_gets_answer:
  assumes "amb_ok amb" "map_of (in_pending amb) s = Some rx"
    "unat (in_next_outbound_seq amb) = (unat s + k) mod 2 ^ 31" "0 < k" "k + calls_in evs \<le> 2 ^ 31" "unat s < 2 ^ 31"
  shows "map_of (in_answers (fold (fed_event lib) evs amb)) rx = map_option Some (first_answer s evs)"
  using assms(1-5)
proof (induction evs arbitrary: amb k)
  case Nil
  then show ?case by (simp add: amb_ok_def)
next
  case (Cons ev evs)
  note ok' = fed_event_ok [OF Cons.prems(1), of lib ev]
  have seq: "unat (in_next_outbound_seq amb) < 2 ^ 31" using Cons.prems(1) by (simp add: amb_ok_def)
  show ?case
  proof (cases ev)
    case (Calls q u)
    obtain amb' r where c: "call_send lib q u amb = (amb', r)" by force
    note v = call_send_views(1,4) [OF c seq]
    have k: "Suc k + calls_in evs \<le> 2 ^ 31" using Cons.prems(5) by (simp add: calls_in_def Calls)
    have "in_next_outbound_seq amb \<noteq> s" using number_not_reused [OF Cons.prems(3,4) _ assms(6)] k by simp
    then have p: "map_of (in_pending amb') s = Some rx" using Cons.prems(2) v(1) by simp
    have n: "unat (in_next_outbound_seq amb') = (unat s + Suc k) mod 2 ^ 31"
      using v(2) Cons.prems(3) by (simp add: mod_simps)
    have "map_of (in_answers (fold (fed_event lib) evs amb')) rx = map_option Some (first_answer s evs)"
      by (rule Cons.IH [OF _ p n _ k]) (use ok' in \<open>simp_all add: Calls c\<close>)
    then show ?thesis by (simp add: Calls c)
  next
    case (Receives f)
    let ?amb = "fst (pump_frame lib f amb)"
    have k: "k + calls_in evs \<le> 2 ^ 31" using Cons.prems(5) by (simp add: calls_in_def Receives)
    have n: "unat (in_next_outbound_seq ?amb) = (unat s + k) mod 2 ^ 31" using Cons.prems(3) pump_frame_counters by simp
    have ok: "amb_ok ?amb" using ok' by (simp add: Receives)
    have go: "map_of (in_answers (fold (fed_event lib) evs ?amb)) rx = map_option Some (first_answer s evs)"
      if "map_of (in_pending ?amb) s = Some rx" by (rule Cons.IH [OF ok that n Cons.prems(4) k])
    show ?thesis
    proof (cases "response_to f")
      case None
      then show ?thesis using go pump_frame_other [OF None, of lib amb] Cons.prems(2) by (simp add: Receives)
    next
      case (Some sb)
      obtain s' b where r: "response_to f = Some (s', b)" using Some by (cases sb) auto
      show ?thesis
      proof (cases "s' = s")
        case True
        have "map_of (in_answers ?amb) rx = Some (Some b)" using pump_frame_response(2) [OF r, of lib amb] Cons.prems(2) True by simp
        from answer_stays [OF ok this, of lib evs] show ?thesis by (simp add: Receives r True)
      next
        case False
        then show ?thesis using go pump_frame_response(1) [OF r, of lib amb] Cons.prems(2) by (simp add: Receives r)
      qed
    qed
  qed
qed

subsection \<open>Through both sides\<close>

lemma deliver_appends:
  "map_of hs sid = Some h \<Longrightarrow> \<exists>h' rest. map_of (deliver_callbacks lib ocbs hs) sid = Some h' \<and> ch_frames h' = ch_frames h @ rest"
proof (induction ocbs arbitrary: hs h)
  case (Cons ocb ocbs)
  have "\<exists>h' rest. map_of (deliver_callback lib ocb hs) sid = Some h' \<and> ch_frames h' = ch_frames h @ rest"
    using Cons.prems by (auto simp: deliver_callback_def channel_send_def split: option.split prod.split)
  then obtain h1 rest where h1: "map_of (deliver_callback lib ocb hs) sid = Some h1" "ch_frames h1 = ch_frames h @ rest" by blast
  from Cons.IH [OF h1(1)] h1(2) show ?case by (auto simp: deliver_callbacks_def)
qed (simp add: deliver_callbacks_def)

text \<open>The node once the call is counted.\<close>

definition counted_call :: "RtiNode \<Rightarrow> RtiNode" where
  "counted_call node = node\<lparr>metrics := (metrics node)\<lparr>calls_dispatched := calls_dispatched (metrics node) + 1\<rparr>\<rparr>"

text \<open>What the server does with a request it can decode, on a connection whose writer runs.\<close>

lemma handle_call_request_response:
  assumes "handle_call_request lib f ctx node hs = Some (node', hs', ctx', goes_on)"
    and "lib_decode_request lib (payload f) = Inr req" and "map_of hs (sc_session_id ctx) = Some h" and "\<not> ch_writer_gone h"
  obtains node2 cbs r h' rest where
    "dispatch_call (lib_from_str lib) (lib_serde lib)
       (node\<lparr>metrics := (metrics node)\<lparr>calls_dispatched := calls_dispatched (metrics node) + 1\<rparr>\<rparr>) ctx req = Some (node2, ctx', cbs, r)"
    "map_of hs' (sc_session_id ctx) = Some h'"
    "ch_frames h' = ch_frames h @ call_response_frame lib (sc_session_id ctx) (sequence_number (header f)) r # rest"
proof -
  define node1 where "node1 = node\<lparr>metrics := (metrics node)\<lparr>calls_dispatched := calls_dispatched (metrics node) + 1\<rparr>\<rparr>"
  define resp where "resp r = channel_send (sc_session_id ctx) (call_response_frame lib (sc_session_id ctx) (sequence_number (header f)) r) hs" for r
  note h = assms(1) [unfolded handle_call_request_def Let_def, folded node1_def, folded resp_def, unfolded assms(2) sum.case]
  then obtain node2 c cbs r where d: "dispatch_call (lib_from_str lib) (lib_serde lib) node1 ctx req = Some (node2, c, cbs, r)"
    by (cases "dispatch_call (lib_from_str lib) (lib_serde lib) node1 ctx req") auto
  let ?g = "call_response_frame lib (sc_session_id ctx) (sequence_number (header f)) r"
  define hs1 where "hs1 = hinsert (sc_session_id ctx) (h\<lparr>ch_frames := ch_frames h @ [?g]\<rparr>) hs"
  have "resp r = (hs1, True)" using assms(3,4) by (simp add: resp_def channel_send_def hs1_def)
  with h d have c: "c = ctx'" "hs' = deliver_callbacks lib cbs hs1" by simp_all
  have "map_of hs1 (sc_session_id ctx) = Some (h\<lparr>ch_frames := ch_frames h @ [?g]\<rparr>)" by (simp add: hs1_def)
  from deliver_appends [OF this, of lib cbs] obtain h' rest where
    "map_of hs' (sc_session_id ctx) = Some h'" "ch_frames h' = ch_frames h @ ?g # rest" by (auto simp: c(2))
  with d c(1) that show thesis unfolding node1_def by blast
qed

lemma response_to_call_response_frame:
  "response_to (call_response_frame lib sid seq r) = Some (seq, lib_encode_response lib r)"
  by (simp add: response_to_def call_response_frame_def Let_def with_payload_size_def call_response_decode_def call_response_encode_def slice_def)

lemma first_answer_append:
  "first_answer s pre = None \<Longrightarrow> first_answer s (pre @ evs) = first_answer s evs"
  by (induction s pre rule: first_answer.induct) (auto split: option.splits if_splits)

lemma call_then_events:
  assumes "call_send lib q u (fold (fed_event lib) before (spin_up_with_transport sid)) = (amb, Inr rx)" and "calls_in after < 2 ^ 31"
  shows "map_of (in_answers (fold (fed_event lib) after amb)) rx =
      map_option Some (first_answer (sequence_number (header (last (in_frames amb)))) after)"
    "payload (last (in_frames amb)) = fl_encode_request lib q u"
proof -
  let ?amb0 = "fold (fed_event lib) before (spin_up_with_transport sid)"
  have ok: "amb_ok ?amb0" by (rule events_ok [OF spin_up_ok])
  then have seq: "unat (in_next_outbound_seq ?amb0) < 2 ^ 31" by (simp add: amb_ok_def)
  note v = call_send_views [OF assms(1) seq]
  have rx: "rx = in_next_channel ?amb0" and last: "last (in_frames amb) =
      hla_call_request_frame (in_next_outbound_seq ?amb0) (in_session_id ?amb0) 0 (fl_encode_request lib q u)"
    using v(5) by simp_all
  have "map_of (in_answers (fold (fed_event lib) after amb)) rx = map_option Some (first_answer (in_next_outbound_seq ?amb0) after)"
  proof (rule pending_gets_answer [OF call_send_ok [OF assms(1) ok] _ v(4) _ _ seq])
    show "map_of (in_pending amb) (in_next_outbound_seq ?amb0) = Some rx" unfolding v(1) rx by simp
    show "1 + calls_in after \<le> 2 ^ 31" using assms(2) by simp
  qed simp
  then show "map_of (in_answers (fold (fed_event lib) after amb)) rx =
      map_option Some (first_answer (sequence_number (header (last (in_frames amb)))) after)"
    "payload (last (in_frames amb)) = fl_encode_request lib q u"
    by (simp_all add: last hla_call_request_frame_def with_payload_size_def)
qed

subsection \<open>Properties\<close>

text \<open>Sample libraries: one request and its response, each encoded as one byte.\<close>

definition sample_call :: "unit ApiCall" where
  "sample_call = create_federation_execution_call ''f''"

definition sample_fed_lib :: FedLib where
  "sample_fed_lib = \<lparr>fl_encode_request = (\<lambda>_ _. [1]),
     fl_decode_response = (\<lambda>_. Inr (Some (Inr (''CreateFederationExecutionResponse'', PUnit)))), fl_decode_callback = (\<lambda>_. Inr None)\<rparr>"

definition sample_server_lib :: Lib where
  "sample_server_lib = \<lparr>lib_from_str = (\<lambda>_. Inl []), lib_serde = \<lparr>to_json = (\<lambda>_. None), from_json = (\<lambda>_. None)\<rparr>,
     lib_decode_request = (\<lambda>_. Inr (Some (fst sample_call))), lib_encode_response = (\<lambda>_. [5]), lib_encode_callback = (\<lambda>_. [])\<rparr>"

definition sample_response :: "i32 \<Rightarrow> bytes \<Rightarrow> Frame" where
  "sample_response seq bs =
     \<lparr>header = with_payload_size (of_nat (4 + length bs)) NO_SEQUENCE_NUMBER 1 seq HlaCallResponse, payload = to_be_bytes seq @ bs\<rparr>"

text \<open>C16. Every call gets the answer to it. In every state an ambassador reaches by calls and frames from any peer, when a call is
  sent, and then up to 2^31 - 1 more calls are made and any frames come in, in any order: the call's channel gets
  the body of the first response that carries the sequence number of its request, and nothing as long as there is none.\<close>

theorem calls_get_their_answers:
  assumes "call_send lib q u (fold (fed_event lib) before (spin_up_with_transport sid)) = (amb, Inr rx)" and "calls_in after < 2 ^ 31"
  shows "map_of (in_answers (fold (fed_event lib) after amb)) rx =
    map_option Some (first_answer (sequence_number (header (last (in_frames amb)))) after)"
  by (rule call_then_events(1) [OF assms])

theorem calls_get_their_answers_witness:
  "\<exists>amb. call_send sample_fed_lib (fst sample_call) [] (spin_up_with_transport 1) = (amb, Inr 0) \<and>
     map_of (in_answers (fold (fed_event sample_fed_lib) [Receives (sample_response 7 [8]), Calls (fst sample_call) [],
        Receives (sample_response 1 [9]), Receives (sample_response 1 [3])] amb)) 0 = Some (Some [9])"
proof -
  obtain amb where c: "call_send sample_fed_lib (fst sample_call) [] (fold (fed_event sample_fed_lib) [] (spin_up_with_transport 1)) = (amb, Inr 0)"
    by (simp add: call_send_def Let_def claim_step_def spin_up_with_transport_def frame_send_def pending_insert_def split_def)
  have s: "sequence_number (header (last (in_frames amb))) = 1"
    using c by (auto simp: call_send_def Let_def claim_step_def claimed_of_def NO_SEQUENCE_NUMBER_def spin_up_with_transport_def frame_send_def
        pending_insert_def hla_call_request_frame_def with_payload_size_def)
  have r: "response_to (sample_response n bs) = Some (n, bs)" for n bs
    by (simp add: response_to_def sample_response_def with_payload_size_def call_response_decode_def slice_def)
  show ?thesis
    using calls_get_their_answers [OF c, of "[Receives (sample_response 7 [8]), Calls (fst sample_call) [],
        Receives (sample_response 1 [9]), Receives (sample_response 1 [3])]"] c s r by (simp add: calls_in_def)
qed

text \<open>C5. A call returns what the dispatcher answers. When the generated code decodes the request and the response as they
  were encoded, the response is not the empty message, and the connection's writer runs: the server dispatches the request of the method,
  the first frame it then queues for the connection is the response, and once the federate has received that frame, whatever else it
  sends and receives before and after, the method returns its reading of the dispatcher's answer.\<close>

theorem call_returns_the_answer:
  fixes m :: "'a ApiCall"
  assumes "call_send flib (fst m) (fst (snd m)) (fold (fed_event flib) before (spin_up_with_transport sid)) = (amb, Inr rx)"
    and "handle_call_request slib (last (in_frames amb)) ctx node hs = Some (node', hs', ctx', goes_on)"
    and "map_of hs (sc_session_id ctx) = Some h" and "\<not> ch_writer_gone h" and "map_of hs' (sc_session_id ctx) = Some h'"
    and "lib_decode_request slib (fl_encode_request flib (fst m) (fst (snd m))) = Inr (Some (fst m))"
    and "\<And>node2 c cbs r. dispatch_call (lib_from_str slib) (lib_serde slib) (counted_call node) ctx (Some (fst m)) = Some (node2, c, cbs, r) \<Longrightarrow>
      fl_decode_response flib (lib_encode_response slib r) = Inr (Some r) \<and> lib_encode_response slib r \<noteq> []"
    and "first_answer (sequence_number (header (last (in_frames amb)))) pre = None" and "calls_in (pre @ post) < 2 ^ 31"
  shows "\<exists>node2 cbs r. dispatch_call (lib_from_str slib) (lib_serde slib) (counted_call node) ctx (Some (fst m)) = Some (node2, ctx', cbs, r) \<and>
    method_result flib m rx (fold (fed_event flib) (pre @ Receives (ch_frames h' ! length (ch_frames h)) # post) amb) = Some (snd (snd m) r)"
proof -
  let ?f = "last (in_frames amb)"
  have "lib_decode_request slib (payload ?f) = Inr (Some (fst m))" using call_then_events(2) [OF assms(1), of "[]"] assms(6) by (simp add: calls_in_def)
  from handle_call_request_response [OF assms(2) this assms(3,4)] obtain node2 cbs r h1 rest where
    d: "dispatch_call (lib_from_str slib) (lib_serde slib) (counted_call node) ctx (Some (fst m)) = Some (node2, ctx', cbs, r)"
    and h1: "map_of hs' (sc_session_id ctx) = Some h1"
      "ch_frames h1 = ch_frames h @ call_response_frame slib (sc_session_id ctx) (sequence_number (header ?f)) r # rest"
    unfolding counted_call_def by blast
  let ?g = "call_response_frame slib (sc_session_id ctx) (sequence_number (header ?f)) r"
  have g: "ch_frames h' ! length (ch_frames h) = ?g" using h1 assms(5) by simp
  have "calls_in (pre @ Receives ?g # post) < 2 ^ 31" using assms(9) by (simp add: calls_in_def)
  from call_then_events(1) [OF assms(1) this]
  have "map_of (in_answers (fold (fed_event flib) (pre @ Receives ?g # post) amb)) rx = Some (Some (lib_encode_response slib r))"
    using first_answer_append [OF assms(8)] by (simp add: response_to_call_response_frame)
  then have "method_result flib m rx (fold (fed_event flib) (pre @ Receives ?g # post) amb) = Some (snd (snd m) r)"
    using assms(7) [OF d] by (simp add: method_result_def call_receive_def)
  with d show ?thesis unfolding g by blast
qed

lemma sample_call_send:
  "\<exists>amb. call_send sample_fed_lib (fst sample_call) (fst (snd sample_call)) (fold (fed_event sample_fed_lib) [] (spin_up_with_transport 1)) =
     (amb, Inr 0) \<and> in_frames amb = [hla_call_request_frame 1 1 0 [1]]"
  by (simp add: call_send_def Let_def claim_step_def claimed_of_def NO_SEQUENCE_NUMBER_def spin_up_with_transport_def frame_send_def
      pending_insert_def split_def sample_fed_lib_def)

lemma sample_dispatch:
  assumes "dispatch_call (lib_from_str sample_server_lib) (lib_serde sample_server_lib) (counted_call new_node) ctx (Some (fst sample_call)) =
    Some (node2, c, cbs, r)"
  shows "r = Inr (''CreateFederationExecutionResponse'', PUnit)"
  using assms by (auto simp: sample_call_def create_federation_execution_call_def dispatch_call_def dispatch_federation_def create_outcome_def
      create_federation_inner_def counted_call_def new_node_def option_list_def respond_def)

theorem call_returns_the_answer_witness:
  "\<exists>amb node' hs' ctx' goes_on h'. call_send sample_fed_lib (fst sample_call) (fst (snd sample_call)) (spin_up_with_transport 1) = (amb, Inr 0) \<and>
     handle_call_request sample_server_lib (last (in_frames amb)) (new_session_context 1) new_node
       [(1, \<lparr>ch_next_outbound_seq = 0, ch_frames = [], ch_writer_gone = False\<rparr>)] = Some (node', hs', ctx', goes_on) \<and>
     map_of hs' 1 = Some h' \<and>
     method_result sample_fed_lib sample_call 0 (fed_event sample_fed_lib (Receives (ch_frames h' ! 0)) amb) = Some (Inr ())"
proof -
  let ?ctx = "new_session_context 1" and ?h = "\<lparr>ch_next_outbound_seq = 0, ch_frames = [], ch_writer_gone = False\<rparr>"
  obtain amb where c: "call_send sample_fed_lib (fst sample_call) (fst (snd sample_call)) (fold (fed_event sample_fed_lib) [] (spin_up_with_transport 1)) = (amb, Inr 0)"
    and fr: "in_frames amb = [hla_call_request_frame 1 1 0 [1]]" using sample_call_send by blast
  have "handle_call_request sample_server_lib (last (in_frames amb)) ?ctx new_node [(1, ?h)] \<noteq> None"
    by (simp add: handle_call_request_def Let_def fr hla_call_request_frame_def sample_server_lib_def sample_call_def
        create_federation_execution_call_def dispatch_call_def dispatch_federation_def create_outcome_def create_federation_inner_def
        new_node_def option_list_def)
  then obtain node' hs' ctx' goes_on where s: "handle_call_request sample_server_lib (last (in_frames amb)) ?ctx new_node [(1, ?h)] = Some (node', hs', ctx', goes_on)"
    by (metis option.exhaust prod_cases4)
  have h: "map_of [(1, ?h)] (sc_session_id ?ctx) = Some ?h" "\<not> ch_writer_gone ?h" by (simp_all add: new_session_context_def)
  have req: "lib_decode_request sample_server_lib bs = Inr (Some (fst sample_call))" for bs by (simp add: sample_server_lib_def)
  obtain h' where h': "map_of hs' (sc_session_id ?ctx) = Some h'" using handle_call_request_response [OF s req h] by metis
  have resp: "fl_decode_response sample_fed_lib (lib_encode_response sample_server_lib r) = Inr (Some r) \<and> lib_encode_response sample_server_lib r \<noteq> []"
    if "dispatch_call (lib_from_str sample_server_lib) (lib_serde sample_server_lib) (counted_call new_node) ?ctx (Some (fst sample_call)) =
      Some (node2, c, cbs, r)" for node2 c cbs r
    using sample_dispatch [OF that] by (simp add: sample_fed_lib_def sample_server_lib_def)
  have "\<exists>node2 cbs r. dispatch_call (lib_from_str sample_server_lib) (lib_serde sample_server_lib) (counted_call new_node) ?ctx (Some (fst sample_call)) =
      Some (node2, ctx', cbs, r) \<and>
    method_result sample_fed_lib sample_call 0 (fold (fed_event sample_fed_lib) ([] @ Receives (ch_frames h' ! length (ch_frames ?h)) # []) amb) =
      Some (snd (snd sample_call) r)"
    by (rule call_returns_the_answer [OF c s h h' req]) (rule resp, assumption, simp_all add: calls_in_def)
  then obtain node2 cbs r where d: "dispatch_call (lib_from_str sample_server_lib) (lib_serde sample_server_lib) (counted_call new_node) ?ctx
      (Some (fst sample_call)) = Some (node2, ctx', cbs, r)"
    and m: "method_result sample_fed_lib sample_call 0 (fed_event sample_fed_lib (Receives (ch_frames h' ! 0)) amb) = Some (snd (snd sample_call) r)"
    by auto
  have "snd (snd sample_call) r = Inr ()"
    unfolding sample_dispatch [OF d] by (simp add: sample_call_def create_federation_execution_call_def expect_def check_exception_def)
  with m have "method_result sample_fed_lib sample_call 0 (fed_event sample_fed_lib (Receives (ch_frames h' ! 0)) amb) = Some (Inr ())" by simp
  moreover have "map_of hs' 1 = Some h'" using h' by (simp add: new_session_context_def)
  moreover have "call_send sample_fed_lib (fst sample_call) (fst (snd sample_call)) (spin_up_with_transport 1) = (amb, Inr 0)" using c by simp
  ultimately show ?thesis using s by blast
qed

end
