(* ===== verification/Connect.thy ===== *)
theory Connect
  imports Client_Props
begin

text \<open>
  The life of a federate's connection (\<^verbatim>\<open>crates/hla-federate/src/ambassador.rs\<close>): the ways to connect, which differ in
  how the transport is opened, and the loop of the pump until its source fails.

  Opening a socket, the TLS handshake and the WebSocket upgrade are done by libraries: each is an argument that
  gives the opened transport, as what can be read from it and the sink of what is written, or an error.
\<close>

datatype ConnectError = InvalidUrl string | ConnectFailed Framing.IoError | HandshakeFailed SessionError

type_synonym byte_stream = "bytes \<times> u8 Sink"
type_synonym ws_stream = "(CodecError + WsMessage) list \<times> WsMessage Sink"

definition connect_with_stream :: "byte_stream \<Rightarrow> ConnectError + Inner \<times> byte_stream" where
  "connect_with_stream stream =
     (case client_open_session (fst stream) (snd stream) of
        (Inl e, _) \<Rightarrow> Inl (HandshakeFailed e)
      | (Inr opened, stream') \<Rightarrow> Inr (spin_up_with_transport (ack_session_id opened), stream'))"

definition connect :: "(string \<Rightarrow> Framing.IoError + byte_stream) \<Rightarrow> string \<Rightarrow> ConnectError + Inner \<times> byte_stream" where
  "connect tcp_connect rti_url =
     (case tcp_connect (parse_rti_url rti_url) of
        Inl e \<Rightarrow> Inl (ConnectFailed e)
      | Inr stream \<Rightarrow> connect_with_stream stream)"

definition connect_tls :: "(string \<Rightarrow> Framing.IoError + 't) \<Rightarrow> ('n \<Rightarrow> 't \<Rightarrow> Framing.IoError + byte_stream) \<Rightarrow> string \<Rightarrow> 'n
    \<Rightarrow> ConnectError + Inner \<times> byte_stream" where
  "connect_tls tcp_connect tls_connect rti_url server_name =
     (case tcp_connect (parse_rti_url rti_url) of
        Inl e \<Rightarrow> Inl (ConnectFailed e)
      | Inr tcp \<Rightarrow>
          (case tls_connect server_name tcp of
             Inl e \<Rightarrow> Inl (ConnectFailed e)
           | Inr stream \<Rightarrow> connect_with_stream stream))"

definition connect_ws :: "(string \<Rightarrow> string + ws_stream) \<Rightarrow> string \<Rightarrow> ConnectError + Inner \<times> ws_stream" where
  "connect_ws ws_connect rti_url =
     (case ws_connect (connect_ws_url rti_url) of
        Inl e \<Rightarrow> Inl (ConnectFailed (OtherIo (''ws: '' @ e)))
      | Inr (source, sink) \<Rightarrow>
          (case client_open_session_frames ws_recv_frame ws_send source sink of
             (Inl e, _) \<Rightarrow> Inl (HandshakeFailed e)
           | (Inr opened, stream') \<Rightarrow> Inr (spin_up_with_transport (ack_session_id opened), stream')))"

text \<open>
  The loop of the pump, with the methods it invokes on the federate. The result is \<open>None\<close> for a source that never
  fails.
\<close>

partial_function (option) pump_loop ::
  "'i source_fn \<Rightarrow> FedLib \<Rightarrow> 'i \<Rightarrow> Inner \<Rightarrow> (Inner \<times> FederateCall list) option" where
  "pump_loop recv lib source amb =
     (case recv source of
        (Inl _, _) \<Rightarrow> Some (pump_failed amb, [])
      | (Inr frame, source') \<Rightarrow>
          Option.bind (pump_loop recv lib source' (fst (pump_frame lib frame amb)))
            (\<lambda>(amb', calls). Some (amb', snd (pump_frame lib frame amb) @ calls)))"

text \<open>The frames a source gives before it fails.\<close>

inductive reads :: "'i source_fn \<Rightarrow> 'i \<Rightarrow> Frame list \<Rightarrow> bool" for recv :: "'i source_fn" where
  reads_end: "recv source = (Inl e, source') \<Longrightarrow> reads recv source []"
| reads_frame: "recv source = (Inr f, source') \<Longrightarrow> reads recv source' fs \<Longrightarrow> reads recv source (f # fs)"

inductive_cases reads_NilE: "reads recv source []"
inductive_cases reads_ConsE: "reads recv source (f # fs)"

text \<open>The methods of the federate that a frame invokes.\<close>

definition invoked :: "FedLib \<Rightarrow> Frame \<Rightarrow> FederateCall list" where
  "invoked lib f =
     (if message_type (header f) = HlaCallbackRequest
      then (case fl_decode_callback lib (payload f) of Inl _ \<Rightarrow> [] | Inr request \<Rightarrow> dispatch_callback request)
      else [])"

lemma pump_frame_calls: "snd (pump_frame lib f amb) = invoked lib f"
  by (cases "message_type (header f)") (auto simp: pump_frame_def invoked_def split: sum.split option.split prod.split)

subsection \<open>Sources that end\<close>

text \<open>
  The contract the pump relies on to end: every frame uses up some of the source. Then the loop returns, and it does what
  the frames do one by one before it releases the calls that wait.
\<close>

locale finite_source =
  fixes recv :: "'i source_fn" and left :: "'i \<Rightarrow> nat"
  assumes uses_up: "recv source = (Inr f, source') \<Longrightarrow> left source' < left source"
begin

lemma reads_some: "\<exists>fs. reads recv source fs"
proof (induction "left source" arbitrary: source rule: less_induct)
  case less
  show ?case
  proof (cases "recv source")
    case (Pair r source')
    show ?thesis
    proof (cases r)
      case (Inl e)
      then show ?thesis using Pair by (auto intro: reads_end)
    next
      case (Inr f)
      with Pair less [of source'] uses_up show ?thesis by (blast intro: reads_frame)
    qed
  qed
qed

lemma reads_unique: "reads recv source fs \<Longrightarrow> reads recv source fs' \<Longrightarrow> fs = fs'"
proof (induction arbitrary: fs' rule: reads.induct)
  case (reads_end source e source')
  from reads_end(2) show ?case using reads_end(1) by (cases fs') (simp, force elim: reads_ConsE)
next
  case (reads_frame source f source' fs)
  show ?case
  proof (cases fs')
    case Nil
    with reads_frame.prems have "reads recv source []" by simp
    then show ?thesis by (rule reads_NilE) (simp add: reads_frame.hyps(1))
  next
    case (Cons g gs)
    with reads_frame.prems have "reads recv source (g # gs)" by simp
    then obtain source'' where "recv source = (Inr g, source'')" "reads recv source'' gs" by (rule reads_ConsE)
    with reads_frame.hyps(1) reads_frame.IH [of gs] show ?thesis by (simp add: Cons)
  qed
qed

lemma pump_loop_reads:
  "reads recv source fs \<Longrightarrow>
    pump_loop recv lib source amb = Some (pump_failed (fold (fed_event lib) (map Receives fs) amb), concat (map (invoked lib) fs))"
proof (induction arbitrary: amb rule: reads.induct)
  case (reads_end source e source')
  then show ?case by (simp add: pump_loop.simps)
next
  case (reads_frame source f source' fs)
  then show ?case by (subst pump_loop.simps) (simp add: pump_frame_calls)
qed

lemma pump_returns:
  "\<exists>fs. reads recv source fs \<and>
    pump_loop recv lib source amb = Some (pump_failed (fold (fed_event lib) (map Receives fs) amb), concat (map (invoked lib) fs))"
  using reads_some pump_loop_reads by blast

end

lemma byte_recv_shrinks: "byte_recv source = (Inr f, source') \<Longrightarrow> length source' < length source"
  using fedpro.frame_progress by (auto simp: byte_recv_def read_frame_eq split: sum.splits option.splits)

lemma ws_recv_shrinks: "ws_recv_frame source = (Inr f, source') \<Longrightarrow> length source' < length source"
  by (induction source rule: ws_recv_frame.induct) (auto split: if_splits sum.splits)

interpretation byte_source: finite_source byte_recv length
  by unfold_locales (rule byte_recv_shrinks)

interpretation ws_source: finite_source ws_recv_frame length
  by unfold_locales (rule ws_recv_shrinks)

subsection \<open>Calls when the pump ends\<close>

text \<open>Every channel that was handed out waits in the map of pending calls or has an answer.\<close>

definition channels_kept :: "Inner \<Rightarrow> bool" where
  "channels_kept amb \<longleftrightarrow>
     (\<forall>rx < in_next_channel amb. (\<exists>s. map_of (in_pending amb) s = Some rx) \<or> rx \<in> dom (map_of (in_answers amb)))"

lemma call_send_keeps_channels:
  assumes "call_send lib q u amb = (amb', r)" "amb_ok amb" "channels_kept amb"
  shows "channels_kept amb'"
proof -
  have lt: "unat (in_next_outbound_seq amb) < 2 ^ 31" using assms(2) by (simp add: amb_ok_def)
  note v = call_send_views(1-3) [OF assms(1) lt]
  show ?thesis unfolding channels_kept_def v
  proof (intro allI impI)
    fix rx assume rx: "rx < Suc (in_next_channel amb)"
    let ?s = "in_next_outbound_seq amb"
    show "(\<exists>s. map_of (hinsert ?s (in_next_channel amb) (in_pending amb)) s = Some rx) \<or>
        rx \<in> dom (map_of (case map_of (in_pending amb) ?s of Some tx \<Rightarrow> hinsert tx None (in_answers amb) | None \<Rightarrow> in_answers amb))"
    proof (cases "rx = in_next_channel amb")
      case False
      then consider s where "map_of (in_pending amb) s = Some rx" | "rx \<in> dom (map_of (in_answers amb))"
        using rx assms(3) unfolding channels_kept_def by (metis less_SucE)
      then show ?thesis
      proof cases
        case (1 s)
        then show ?thesis by (cases "s = ?s") (auto intro!: exI [of _ s])
      qed (auto split: option.split)
    qed (auto intro!: exI [of _ ?s])
  qed
qed

lemma pump_frame_keeps_channels:
  assumes "channels_kept amb" shows "channels_kept (fst (pump_frame lib f amb))"
proof (cases "response_to f")
  case None
  then show ?thesis using assms pump_frame_other [OF None, of lib amb] pump_frame_counters(1) [of lib f amb] by (simp add: channels_kept_def)
next
  case (Some sb)
  obtain s b where sb: "sb = (s, b)" by force
  note v = pump_frame_response(1,2) [OF Some [unfolded sb], of lib amb] pump_frame_counters(1) [of lib f amb]
  show ?thesis unfolding channels_kept_def v
  proof (intro allI impI)
    fix rx assume "rx < in_next_channel amb"
    then consider s' where "map_of (in_pending amb) s' = Some rx" | "rx \<in> dom (map_of (in_answers amb))"
      using assms unfolding channels_kept_def by blast
    then show "(\<exists>s'. map_of (hremove s (in_pending amb)) s' = Some rx) \<or>
        rx \<in> dom (map_of (case map_of (in_pending amb) s of Some rx \<Rightarrow> hinsert rx (Some b) (in_answers amb) | None \<Rightarrow> in_answers amb))"
    proof cases
      case (1 s')
      then show ?thesis by (cases "s' = s") (auto intro!: exI [of _ s'])
    qed (auto split: option.split)
  qed
qed

lemma events_keep_channels:
  "amb_ok amb \<Longrightarrow> channels_kept amb \<Longrightarrow> channels_kept (fold (fed_event lib) evs amb)"
proof (induction evs arbitrary: amb)
  case (Cons ev evs)
  have "channels_kept (fed_event lib ev amb)"
    using Cons.prems call_send_keeps_channels pump_frame_keeps_channels by (cases ev) (auto simp: prod_eq_iff)
  then show ?case using Cons.IH Cons.prems fed_event_ok by simp
qed simp

lemma events_channels: "in_next_channel amb \<le> in_next_channel (fold (fed_event lib) evs amb)"
proof (induction evs arbitrary: amb)
  case (Cons ev evs)
  have "in_next_channel amb \<le> in_next_channel (fed_event lib ev amb)"
    by (cases ev) (auto simp: pump_frame_counters call_send_def pending_insert_def frame_send_def Let_def split: prod.split bool.split)
  with Cons.IH [of "fed_event lib ev amb"] show ?case by simp
qed simp

lemma spin_up_keeps_channels: "channels_kept (spin_up_with_transport sid)"
  by (simp add: channels_kept_def spin_up_with_transport_def)

text \<open>The end of the pump closes what is pending and leaves the answers.\<close>

lemma fold_answer:
  "map_of (in_answers (fold (\<lambda>tx. answer tx []) txs amb)) rx =
     (if rx \<in> set txs then Some (Some []) else map_of (in_answers amb) rx)"
  "in_pending (fold (\<lambda>tx. answer tx []) txs amb) = in_pending amb"
  "in_next_channel (fold (\<lambda>tx. answer tx []) txs amb) = in_next_channel amb"
  "in_next_outbound_seq (fold (\<lambda>tx. answer tx []) txs amb) = in_next_outbound_seq amb"
  by (induction txs arbitrary: amb) (auto simp: answer_def)

lemma pump_failed_views:
  "in_pending (pump_failed amb) = []" "in_next_channel (pump_failed amb) = in_next_channel amb"
  "in_next_outbound_seq (pump_failed amb) = in_next_outbound_seq amb"
  "map_of (in_answers (pump_failed amb)) rx =
     (if rx \<in> snd ` set (in_pending amb) then Some (Some []) else map_of (in_answers amb) rx)"
  by (simp_all add: pump_failed_def pending_drain_def fold_answer)

lemma pump_failed_ok: "amb_ok amb \<Longrightarrow> amb_ok (pump_failed amb)"
  unfolding amb_ok_def pump_failed_views
  by (auto simp: dom_def pump_failed_views split: if_splits dest: map_of_is_SomeI)

text \<open>What a call returns when the pump ends: the first answer to it, or that the connection is closed.\<close>

definition result_of :: "FedLib \<Rightarrow> 'a ApiCall \<Rightarrow> bytes option \<Rightarrow> CallError + 'a" where
  "result_of lib m body_sent =
     (case body_sent of
        None \<Rightarrow> Inl Closed
      | Some bs \<Rightarrow> (case call_receive lib (Some bs) of Inl e \<Rightarrow> Inl e | Inr r \<Rightarrow> snd (snd m) r))"

lemma result_when_ended:
  assumes "call_send lib q u (fold (fed_event lib) before (spin_up_with_transport sid)) = (amb, Inr rx)" and "calls_in after < 2 ^ 31"
  shows "method_result lib m rx (pump_failed (fold (fed_event lib) after amb)) =
    Some (result_of lib m (first_answer (sequence_number (header (last (in_frames amb)))) after))"
proof -
  let ?start = "fold (fed_event lib) before (spin_up_with_transport sid)" and ?amb = "fold (fed_event lib) after amb"
  have ok0: "amb_ok ?start" "channels_kept ?start"
    by (simp_all add: events_ok spin_up_ok events_keep_channels spin_up_keeps_channels)
  then have seq: "unat (in_next_outbound_seq ?start) < 2 ^ 31" by (simp add: amb_ok_def)
  note sent = call_send_ok [OF assms(1) ok0(1)] call_send_keeps_channels [OF assms(1) ok0]
  note ok = events_ok [OF sent(1), of lib after] events_keep_channels [OF sent, of lib after]
  have "rx < in_next_channel amb" using call_send_views(3,5) [OF assms(1) seq] by simp
  then have rx: "rx < in_next_channel ?amb" using events_channels [of amb lib after] by simp
  note a = call_then_events(1) [OF assms]
  show ?thesis
  proof (cases "first_answer (sequence_number (header (last (in_frames amb)))) after")
    case None
    with a ok(2) rx obtain s where "map_of (in_pending ?amb) s = Some rx" unfolding channels_kept_def by (auto simp: domIff)
    then have "rx \<in> snd ` set (in_pending ?amb)" by (force dest: map_of_SomeD)
    then show ?thesis by (simp add: method_result_def pump_failed_views None result_of_def call_receive_def)
  next
    case (Some b)
    with a have ans: "map_of (in_answers ?amb) rx = Some (Some b)" by simp
    with ok(1) have "rx \<notin> snd ` set (in_pending ?amb)" unfolding amb_ok_def by (force dest: map_of_is_SomeI)
    with ans show ?thesis by (simp add: method_result_def pump_failed_views Some result_of_def)
  qed
qed

text \<open>
  What can still happen to the ambassador when its pump has ended: further calls, the end of the writer (after a write error) and
  \<^verbatim>\<open>disconnect\<close>, which drains the pending calls the way the end of the pump does.
\<close>

datatype EndedAct = CallsAgain CallRequest "Payload list" | WriterEnds | Disconnects

fun ended_act :: "FedLib \<Rightarrow> EndedAct \<Rightarrow> Inner \<Rightarrow> Inner" where
  "ended_act lib (CallsAgain q unread) amb = fst (call_send lib q unread amb)"
| "ended_act lib WriterEnds amb = amb\<lparr>in_writer_gone := True\<rparr>"
| "ended_act lib Disconnects amb = disconnect amb"

lemma disconnect_views:
  assumes "unat (in_next_outbound_seq amb) < 2 ^ 31"
  shows "in_pending (disconnect amb) = []" "in_next_channel (disconnect amb) = in_next_channel amb"
    "unat (in_next_outbound_seq (disconnect amb)) = Suc (unat (in_next_outbound_seq amb)) mod 2 ^ 31"
    "map_of (in_answers (disconnect amb)) rx =
       (if rx \<in> snd ` set (in_pending amb) then Some (Some []) else map_of (in_answers amb) rx)"
proof -
  obtain k c' where st: "claim_step (in_next_outbound_seq amb) = (k, c')" by force
  note u = unat_claim_step [OF assms st]
  show "in_pending (disconnect amb) = []" "in_next_channel (disconnect amb) = in_next_channel amb"
    "unat (in_next_outbound_seq (disconnect amb)) = Suc (unat (in_next_outbound_seq amb)) mod 2 ^ 31"
    "map_of (in_answers (disconnect amb)) rx =
       (if rx \<in> snd ` set (in_pending amb) then Some (Some []) else map_of (in_answers amb) rx)"
    by (simp_all add: disconnect_def st Let_def pending_drain_def fold_answer u(2))
qed

lemma disconnect_ok: assumes "amb_ok amb" shows "amb_ok (disconnect amb)"
proof -
  have "unat (in_next_outbound_seq amb) < 2 ^ 31" using assms by (simp add: amb_ok_def)
  note v = disconnect_views [OF this]
  show ?thesis using assms unfolding amb_ok_def v
    by (auto simp: dom_def v split: if_splits dest: map_of_is_SomeI)
qed

lemma ended_act_ok: "amb_ok amb \<Longrightarrow> amb_ok (ended_act lib act amb)"
  using fed_event_ok [of amb lib "Calls q unread" for q unread]
  by (cases act) (simp_all add: disconnect_ok amb_ok_def [of "_\<lparr>in_writer_gone := _\<rparr>"] amb_ok_def [of amb])

lemma ended_act_keeps_answer:
  assumes "amb_ok amb" "map_of (in_answers amb) rx = Some x"
  shows "map_of (in_answers (ended_act lib act amb)) rx = Some x"
proof (cases act)
  case (CallsAgain q unread)
  then show ?thesis using event_keeps_answer [OF assms, of lib "Calls q unread"] by simp
next
  case Disconnects
  have "unat (in_next_outbound_seq amb) < 2 ^ 31" using assms(1) by (simp add: amb_ok_def)
  moreover have "rx \<notin> snd ` set (in_pending amb)" using assms unfolding amb_ok_def by (force dest: map_of_is_SomeI)
  ultimately show ?thesis using assms(2) by (simp add: Disconnects disconnect_views)
qed (simp add: assms(2))

lemma ended_acts_keep_answer:
  "amb_ok amb \<Longrightarrow> map_of (in_answers amb) rx = Some x \<Longrightarrow> map_of (in_answers (fold (ended_act lib) acts amb)) rx = Some x"
  by (induction acts arbitrary: amb) (simp_all add: ended_act_ok ended_act_keeps_answer)

text \<open>A pending call under number \<open>s\<close>, when the counter is \<open>k\<close> numbers ahead and nothing reads: only \<^verbatim>\<open>disconnect\<close> ends its wait.\<close>

lemma pending_waits:
  assumes "amb_ok amb" "map_of (in_pending amb) s = Some rx"
    "unat (in_next_outbound_seq amb) = (unat s + k) mod 2 ^ 31" "0 < k" "k + length acts \<le> 2 ^ 31" "unat s < 2 ^ 31"
  shows "map_of (in_answers (fold (ended_act lib) acts amb)) rx = (if Disconnects \<in> set acts then Some (Some []) else None)"
  using assms(1-5)
proof (induction acts arbitrary: amb k)
  case Nil
  then show ?case by (simp add: amb_ok_def)
next
  case (Cons act acts)
  let ?amb = "ended_act lib act amb"
  have ok: "amb_ok ?amb" by (rule ended_act_ok [OF Cons.prems(1)])
  have seq: "unat (in_next_outbound_seq amb) < 2 ^ 31" using Cons.prems(1) by (simp add: amb_ok_def)
  show ?case
  proof (cases act)
    case (CallsAgain q unread)
    obtain amb' r where c: "call_send lib q unread amb = (amb', r)" by force
    note v = call_send_views(1,4) [OF c seq]
    have "in_next_outbound_seq amb \<noteq> s" using number_not_reused [OF Cons.prems(3,4) _ assms(6)] Cons.prems(5) by simp
    then have p: "map_of (in_pending ?amb) s = Some rx" using Cons.prems(2) v(1) by (simp add: CallsAgain c)
    have n: "unat (in_next_outbound_seq ?amb) = (unat s + Suc k) mod 2 ^ 31"
      using v(2) Cons.prems(3) by (simp add: CallsAgain c mod_simps)
    show ?thesis using Cons.IH [OF ok p n] Cons.prems(5) by (simp add: CallsAgain)
  next
    case WriterEnds
    then show ?thesis using Cons.IH [OF ok _ _ Cons.prems(4)] Cons.prems(2,3,5) by simp
  next
    case Disconnects
    have "rx \<in> snd ` set (in_pending amb)" using Cons.prems(2) by (force dest: map_of_SomeD)
    then have "map_of (in_answers ?amb) rx = Some (Some [])" by (simp add: Disconnects disconnect_views [OF seq])
    then show ?thesis using ended_acts_keep_answer [OF ok] by (simp add: Disconnects)
  qed
qed

subsection \<open>Connecting\<close>

lemma open_connection_new:
  assumes "open_connection now (Inr ()) sid new_session_frame node = (node', Some reply, outcome)"
  shows "node' = node" "reply = new_session_status_frame Success sid INITIAL_SEQUENCE_NUMBER" "outcome = Inr (sid, None)"
  using assms by (auto simp: open_connection_def new_session_version_request version_request_fields)

text \<open>A source that fails at once, after which a pending call is released.\<close>

lemma reads_nothing: "reads byte_recv [] []"
  by (rule reads_end) (simp add: byte_recv_def read_frame_def read_exact_def)

subsection \<open>Properties\<close>

text \<open>C24. Connecting opens a session. A federate that connects over TCP or over WebSocket sends the request to open a session; when
  what it then reads starts with the answer of the server to that request, it ends with a fresh ambassador of the session
  identifier the server has given out, everything after the answer is left for the pump, and the server starts the session
  without a membership.\<close>

theorem connect_opens_session:
  assumes "open_connection now (Inr ()) sid new_session_frame node = (node', Some reply, outcome)"
    and "tcp_connect (parse_rti_url url) = Inr (write_frame reply [] @ later, open_sink)"
    and "ws_connect (connect_ws_url url) = Inr (Inr (ws_send_frame reply) # msgs, open_sink)"
  shows "(\<exists>snk. connect tcp_connect url = Inr (spin_up_with_transport sid, later, snk) \<and>
      byte_recv (sent snk) = (Inr new_session_frame, [])) \<and>
    (\<exists>snk. connect_ws ws_connect url = Inr (spin_up_with_transport sid, msgs, snk) \<and>
      ws_recv_frame (map Inr (sent snk)) = (Inr new_session_frame, [])) \<and>
    node' = node \<and> outcome = Inr (sid, None)"
proof -
  note o = open_connection_new [OF assms(1)]
  have wf: "wf_frame reply" "wf_frame new_session_frame"
    by (simp_all add: o(2) wf_status_frame wf_version_request new_session_version_request)
  have "client_open_session (write_frame reply [] @ later) open_sink =
      (Inr \<lparr>ack_session_id = sid, ack_state = Running\<rparr>, later, \<lparr>sent = write_frame new_session_frame [], write_failure = None\<rparr>)"
    using tcp.recv_wire [OF wf(1), of later]
    by (simp add: client_open_session_def client_open_session_frames_def tcp.open_send o(2) parse_status_frame)
  moreover have "client_open_session_frames ws_recv_frame ws_send (Inr (ws_send_frame reply) # msgs) open_sink =
      (Inr \<lparr>ack_session_id = sid, ack_state = Running\<rparr>, msgs, \<lparr>sent = [ws_send_frame new_session_frame], write_failure = None\<rparr>)"
    using ws_roundtrip [OF wf(1), of msgs] by (simp add: client_open_session_frames_def ws.open_send o(2) parse_status_frame)
  ultimately show ?thesis using assms(2,3) o(1,3) tcp.recv_only [OF wf(2)] ws_roundtrip [OF wf(2)]
    by (simp add: connect_def connect_with_stream_def connect_ws_def)
qed

theorem connect_opens_session_witness:
  "\<exists>reply snk. open_connection 0 (Inr ()) 1 new_session_frame new_node = (new_node, Some reply, Inr (1, None)) \<and>
     connect (\<lambda>host. if host = ''h:1'' then Inr (write_frame reply [] @ [7], open_sink) else Inl UnexpectedEof) ''rti://h:1'' =
       Inr (spin_up_with_transport 1, [7], snk)"
proof -
  obtain node' reply outcome where o: "open_connection 0 (Inr ()) 1 new_session_frame new_node = (node', Some reply, outcome)"
    by (simp add: open_connection_def new_session_version_request version_request_fields)
  have url: "parse_rti_url ''rti://h:1'' = ''h:1''" by (simp add: parse_rti_url_def strip_prefix_def)
  show ?thesis
    using connect_opens_session [OF o, where url = "''rti://h:1''" and later = "[7]" and msgs = "[]" and
        tcp_connect = "\<lambda>host. if host = ''h:1'' then Inr (write_frame reply [] @ [7], open_sink) else Inl UnexpectedEof" and
        ws_connect = "\<lambda>_. Inr ([Inr (ws_send_frame reply)], open_sink)"] o
    by (auto simp: url)
qed

text \<open>C10. The end of the connection releases every caller. Whatever bytes or messages the peer has sent, the pump returns; it has invoked
  the federate's methods for the frames that could be read, in order; and a call that was sent before, with up to
  2^31 - 1 calls after it, returns: its first answer among all that was received, or that the connection is closed.\<close>

theorem pump_end_releases_callers:
  fixes m :: "'a ApiCall"
  assumes "call_send lib (fst m) (fst (snd m)) (fold (fed_event lib) before (spin_up_with_transport sid)) = (amb, Inr rx)"
    and "calls_in after < 2 ^ 31"
  shows "(\<exists>fs amb'. reads byte_recv stream fs \<and>
      pump_loop byte_recv lib stream (fold (fed_event lib) after amb) = Some (amb', concat (map (invoked lib) fs)) \<and>
      method_result lib m rx amb' =
        Some (result_of lib m (first_answer (sequence_number (header (last (in_frames amb)))) (after @ map Receives fs)))) \<and>
    (\<exists>fs amb'. reads ws_recv_frame msgs fs \<and>
      pump_loop ws_recv_frame lib msgs (fold (fed_event lib) after amb) = Some (amb', concat (map (invoked lib) fs)) \<and>
      method_result lib m rx amb' =
        Some (result_of lib m (first_answer (sequence_number (header (last (in_frames amb)))) (after @ map Receives fs))))"
proof -
  have "calls_in (after @ map Receives fs) = calls_in after" for fs by (simp add: calls_in_def comp_def)
  then have r: "method_result lib m rx (pump_failed (fold (fed_event lib) (map Receives fs) (fold (fed_event lib) after amb))) =
      Some (result_of lib m (first_answer (sequence_number (header (last (in_frames amb)))) (after @ map Receives fs)))" for fs
    using result_when_ended [OF assms(1), of "after @ map Receives fs" m] assms(2) by simp
  obtain fs gs where fs: "reads byte_recv stream fs" and gs: "reads ws_recv_frame msgs gs"
    using byte_source.reads_some ws_source.reads_some by blast
  show ?thesis
    using byte_source.pump_loop_reads [OF fs] ws_source.pump_loop_reads [OF gs] fs gs r by blast
qed

theorem pump_end_releases_callers_witness:
  "\<exists>amb amb' calls. call_send sample_fed_lib (fst sample_call) (fst (snd sample_call)) (spin_up_with_transport 1) = (amb, Inr 0) \<and>
     pump_loop byte_recv sample_fed_lib [] amb = Some (amb', calls) \<and> method_result sample_fed_lib sample_call 0 amb' = Some (Inl Closed)"
proof -
  obtain amb where c: "call_send sample_fed_lib (fst sample_call) (fst (snd sample_call)) (fold (fed_event sample_fed_lib) [] (spin_up_with_transport 1)) =
      (amb, Inr 0)" using sample_call_send by blast
  from pump_end_releases_callers [OF c, of "[]" "[]" "[]"] obtain fs amb' where
    fs: "reads byte_recv [] fs" and l: "pump_loop byte_recv sample_fed_lib [] amb = Some (amb', concat (map (invoked sample_fed_lib) fs))"
    and r: "method_result sample_fed_lib sample_call 0 amb' =
      Some (result_of sample_fed_lib sample_call (first_answer (sequence_number (header (last (in_frames amb)))) (map Receives fs)))"
    by (auto simp: calls_in_def)
  have "fs = []" by (rule byte_source.reads_unique [OF fs reads_nothing])
  then show ?thesis using c l r by (auto simp: result_of_def)
qed

text \<open>C23. A call after the end waits for a disconnect. Once the pump has ended, nobody answers a call whose frame the writer still takes:
  whatever happens after it, further calls and the end of the writer included, it is still waiting until the federate calls
  \<^verbatim>\<open>disconnect\<close>, and from then on its result is \<^verbatim>\<open>Closed\<close>, as long as the sequence numbers do not come round.\<close>

theorem calls_after_the_end_wait:
  fixes m :: "'a ApiCall"
  assumes "call_send lib (fst m) (fst (snd m)) (pump_failed (fold (fed_event lib) before (spin_up_with_transport sid))) = (amb, Inr rx)"
    and "length acts < 2 ^ 31"
  shows "method_result lib m rx (fold (ended_act lib) acts amb) = (if Disconnects \<in> set acts then Some (Inl Closed) else None)"
proof -
  let ?start = "pump_failed (fold (fed_event lib) before (spin_up_with_transport sid))"
  have ok: "amb_ok ?start" by (rule pump_failed_ok [OF events_ok [OF spin_up_ok]])
  then have seq: "unat (in_next_outbound_seq ?start) < 2 ^ 31" by (simp add: amb_ok_def)
  note v = call_send_views [OF assms(1) seq]
  have "map_of (in_answers (fold (ended_act lib) acts amb)) rx = (if Disconnects \<in> set acts then Some (Some []) else None)"
  proof (rule pending_waits [OF call_send_ok [OF assms(1) ok] _ v(4) _ _ seq])
    show "map_of (in_pending amb) (in_next_outbound_seq ?start) = Some rx" using v(1,5) by simp
    show "1 + length acts \<le> 2 ^ 31" using assms(2) by simp
  qed simp
  then show ?thesis by (simp add: method_result_def call_receive_def)
qed

theorem calls_after_the_end_wait_witness:
  "\<exists>amb. call_send sample_fed_lib (fst sample_call) (fst (snd sample_call)) (pump_failed (spin_up_with_transport 1)) = (amb, Inr 0) \<and>
     method_result sample_fed_lib sample_call 0 (fst (call_send sample_fed_lib (fst sample_call) [] amb)) = None \<and>
     method_result sample_fed_lib sample_call 0 (disconnect (fst (call_send sample_fed_lib (fst sample_call) [] amb))) = Some (Inl Closed)"
proof -
  obtain amb where c: "call_send sample_fed_lib (fst sample_call) (fst (snd sample_call))
      (pump_failed (fold (fed_event sample_fed_lib) [] (spin_up_with_transport 1))) = (amb, Inr 0)"
    by (simp add: call_send_def Let_def claim_step_def spin_up_with_transport_def frame_send_def pending_insert_def split_def
        pump_failed_def pending_drain_def)
  from calls_after_the_end_wait [OF c, of "[CallsAgain (fst sample_call) []]"]
    calls_after_the_end_wait [OF c, of "[CallsAgain (fst sample_call) [], Disconnects]"] c
  show ?thesis by auto
qed

end
