(* ===== verification/Delivery.thy ===== *)
theory Delivery
  imports Server_Members Connect
begin

text \<open>
  From the handler of a call to the methods of the federates: how the callbacks of a call become frames on the channels of the
  connections, and what the frames on one channel make the pump of the federate at the other end invoke.
\<close>

subsection \<open>Frames on a channel\<close>

definition to_connection :: "u64 \<Rightarrow> OutboundCallback list \<Rightarrow> CallbackRequest list" where
  "to_connection sid ocbs = map cb (filter (\<lambda>ocb. target ocb = sid) ocbs)"

text \<open>The frames of callbacks to one connection, numbered from its counter on.\<close>

fun queued :: "Lib \<Rightarrow> u64 \<Rightarrow> i32 \<Rightarrow> CallbackRequest list \<Rightarrow> Frame list" where
  "queued lib sid c [] = []"
| "queued lib sid c (r # rs) =
     fst (into_frame (lib_encode_callback lib) c \<lparr>target = sid, cb = r\<rparr>) #
     queued lib sid (snd (into_frame (lib_encode_callback lib) c \<lparr>target = sid, cb = r\<rparr>)) rs"

lemma deliver_other:
  "target ocb \<noteq> sid \<Longrightarrow> map_of (deliver_callback lib ocb hs) sid = map_of hs sid"
  by (auto simp: deliver_callback_def channel_send_def split: option.split prod.split)

lemma deliver_own:
  assumes "target ocb = sid" "map_of hs sid = Some h" "\<not> ch_writer_gone h"
  shows "map_of (deliver_callback lib ocb hs) sid =
    (case into_frame (lib_encode_callback lib) (ch_next_outbound_seq h) ocb of
       (f, c) \<Rightarrow> Some (h\<lparr>ch_next_outbound_seq := c, ch_frames := ch_frames h @ [f]\<rparr>))"
  using assms by (simp add: deliver_callback_def channel_send_def split: prod.split)

lemma deliver_queued:
  assumes "map_of hs sid = Some h" "\<not> ch_writer_gone h"
  shows "\<exists>h'. map_of (deliver_callbacks lib ocbs hs) sid = Some h' \<and>
    ch_frames h' = ch_frames h @ queued lib sid (ch_next_outbound_seq h) (to_connection sid ocbs)"
  using assms
proof (induction ocbs arbitrary: hs h)
  case Nil
  then show ?case by (simp add: deliver_callbacks_def to_connection_def)
next
  case (Cons ocb ocbs)
  have rest: "deliver_callbacks lib (ocb # ocbs) hs = deliver_callbacks lib ocbs (deliver_callback lib ocb hs)"
    by (simp add: deliver_callbacks_def)
  show ?case
  proof (cases "target ocb = sid")
    case True
    obtain f c where fc: "into_frame (lib_encode_callback lib) (ch_next_outbound_seq h) ocb = (f, c)" by force
    have ocb: "\<lparr>target = sid, cb = cb ocb\<rparr> = ocb" using True by (cases ocb) simp
    let ?h = "h\<lparr>ch_next_outbound_seq := c, ch_frames := ch_frames h @ [f]\<rparr>"
    have "map_of (deliver_callback lib ocb hs) sid = Some ?h" using deliver_own [OF True Cons.prems] by (simp add: fc)
    from Cons.IH [OF this] Cons.prems(2) show ?thesis unfolding rest by (simp add: to_connection_def True ocb fc)
  next
    case False
    from Cons.IH [OF _ Cons.prems(2), of "deliver_callback lib ocb hs"] deliver_other [OF False, of lib hs] Cons.prems(1)
    show ?thesis unfolding rest by (simp add: to_connection_def False)
  qed
qed

lemma into_frame_fields:
  "payload (fst (into_frame enc c ocb)) = enc (cb ocb)"
  "message_type (header (fst (into_frame enc c ocb))) = HlaCallbackRequest"
  "hdr_session_id (header (fst (into_frame enc c ocb))) = target ocb"
  "(sequence_number (header (fst (into_frame enc c ocb))), snd (into_frame enc c ocb)) = claim_step c"
  by (simp_all add: into_frame_def with_payload_size_def Let_def split_def)

text \<open>The sequence numbers on a channel are consecutive.\<close>

lemma queued_numbers:
  "unat c < 2 ^ 31 \<Longrightarrow> map (\<lambda>f. unat (sequence_number (header f))) (queued lib sid c rs) = map (\<lambda>j. (unat c + j) mod 2 ^ 31) [0..<length rs]"
proof (induction rs arbitrary: c)
  case (Cons r rs)
  let ?f = "into_frame (lib_encode_callback lib) c \<lparr>target = sid, cb = r\<rparr>"
  note u = unat_claim_step [OF Cons.prems into_frame_fields(4) [symmetric], of "lib_encode_callback lib" "\<lparr>target = sid, cb = r\<rparr>"]
  have "unat (snd ?f) < 2 ^ 31" using u(2) by simp
  from Cons.IH [OF this] have "map (\<lambda>f. unat (sequence_number (header f))) (queued lib sid (snd ?f) rs) = map (\<lambda>j. (unat c + Suc j) mod 2 ^ 31) [0..<length rs]"
    by (simp add: u(2) mod_simps)
  moreover have "unat (sequence_number (header (fst ?f))) = unat c mod 2 ^ 31" using u(1) Cons.prems by simp
  ultimately show ?case by (simp add: upt_conv_Cons map_Suc_upt [symmetric] comp_def del: upt_Suc)
qed simp

text \<open>What the frames invoke at the federate, when its decoder reads what the encoder of the server wrote.\<close>

definition wire_agrees :: "Lib \<Rightarrow> FedLib \<Rightarrow> CallbackRequest \<Rightarrow> bool" where
  "wire_agrees slib flib c \<longleftrightarrow> fl_decode_callback flib (lib_encode_callback slib c) = Inr (Some (FromRti c))"

lemma invoked_queued:
  assumes "\<forall>r\<in>set rs. wire_agrees slib flib r"
  shows "concat (map (invoked flib) (queued slib sid c rs)) = concat (map (\<lambda>r. dispatch_callback (Some (FromRti r))) rs)"
  using assms by (induction rs arbitrary: c) (simp_all add: invoked_def into_frame_fields wire_agrees_def)

subsection \<open>A call that was handled\<close>

lemma handled_call:
  assumes "handle_call_request lib f ctx node hs = Some (node', hs', ctx', True)"
    and "lib_decode_request lib (payload f) = Inr req" and "map_of hs sid = Some h" and "\<not> ch_writer_gone h"
  obtains node2 cbs r h' where
    "dispatch_call (lib_from_str lib) (lib_serde lib) (counted_call node) ctx req = Some (node2, ctx', cbs, r)"
    "map_of hs' sid = Some h'"
    "ch_frames h' = ch_frames h @ (if sid = sc_session_id ctx then [call_response_frame lib sid (sequence_number (header f)) r] else []) @
       queued lib sid (ch_next_outbound_seq h) (to_connection sid cbs)"
proof -
  define resp where "resp r = channel_send (sc_session_id ctx) (call_response_frame lib (sc_session_id ctx) (sequence_number (header f)) r) hs" for r
  note h = assms(1) [unfolded handle_call_request_def Let_def, folded counted_call_def, folded resp_def, unfolded assms(2) sum.case]
  then obtain node2 c cbs r where d: "dispatch_call (lib_from_str lib) (lib_serde lib) (counted_call node) ctx req = Some (node2, c, cbs, r)"
    by (cases "dispatch_call (lib_from_str lib) (lib_serde lib) (counted_call node) ctx req") auto
  let ?g = "call_response_frame lib (sc_session_id ctx) (sequence_number (header f)) r"
  obtain hs1 taken where s: "resp r = (hs1, taken)" by force
  with h d have c: "c = ctx'" "taken" "hs' = deliver_callbacks lib cbs hs1" by (cases taken; simp)+
  obtain h0 where h0: "map_of hs (sc_session_id ctx) = Some h0" "hs1 = hinsert (sc_session_id ctx) (h0\<lparr>ch_frames := ch_frames h0 @ [?g]\<rparr>) hs"
    using s c(2) by (auto simp: resp_def channel_send_def split: option.splits if_splits)
  define h1 where "h1 = (if sid = sc_session_id ctx then h\<lparr>ch_frames := ch_frames h @ [?g]\<rparr> else h)"
  have h1: "map_of hs1 sid = Some h1" "\<not> ch_writer_gone h1" using assms(3,4) h0 by (auto simp: h1_def)
  from deliver_queued [OF this, of lib cbs] obtain h' where
    "map_of hs' sid = Some h'" "ch_frames h' = ch_frames h1 @ queued lib sid (ch_next_outbound_seq h1) (to_connection sid cbs)"
    by (auto simp: c(3))
  with d c(1) that [of node2 cbs r h'] show thesis by (simp add: h1_def split: if_splits)
qed

lemma invoked_response: "invoked flib (call_response_frame lib sid seq r) = []"
  by (simp add: invoked_def call_response_frame_def Let_def with_payload_size_def)

subsection \<open>Updates\<close>

lemma to_connection_append: "to_connection sid (a @ b) = to_connection sid a @ to_connection sid b"
  by (simp add: to_connection_def)

lemma to_connection_fan_out: "to_connection sid (fan_out cs r) = map (\<lambda>_. r) (filter (\<lambda>c. c = sid) cs)"
  by (induction cs) (simp_all add: to_connection_def fan_out_def)

text \<open>Among distinct federates, the connection of a session is met once, for the federate the session carries.\<close>

lemma connection_of_member:
  assumes "distinct fhs" and "map_of (federates fed) me = Some fs" "fs_session_id fs = sid" "sid \<in> set conns"
    and "\<And>fh fs'. map_of (federates fed) fh = Some fs' \<Longrightarrow> fs_session_id fs' = sid \<Longrightarrow> fh = me"
  shows "filter (\<lambda>c. c = sid) (live_connections conns fed fhs) = (if me \<in> set fhs then [sid] else [])"
  using assms(1)
proof (induction fhs)
  case Nil
  then show ?case by (simp add: live_connections_def)
next
  case (Cons fh fhs)
  have hit: "filter (\<lambda>c. c = sid) (live_connections conns fed [fh]) = (if fh = me then [sid] else [])"
  proof (cases "fh = me")
    case True
    then show ?thesis using assms(2-4) by (simp add: live_connections_def List.map_filter_simps)
  next
    case False
    then have "fs_session_id g \<noteq> sid" if "map_of (federates fed) fh = Some g" for g using assms(5) that by blast
    then show ?thesis using False by (simp add: live_connections_def List.map_filter_simps split: option.split)
  qed
  have "live_connections conns fed (fh # fhs) = live_connections conns fed [fh] @ live_connections conns fed fhs"
    by (simp add: live_connections_def List.map_filter_simps split: option.split)
  with hit Cons show ?case by auto
qed

text \<open>The sessions of a server that runs.\<close>

lemma session_carries_one:
  assumes run: "server_run lib n sv" "n < 2 ^ 32 - 2" and m: "(sid, m) \<in> running (sv_tasks sv)"
  shows "\<exists>fs. map_of (federates (fed_heap (sv_node sv) (mb_federation m))) (mb_federate_handle m) = Some fs \<and> fs_session_id fs = sid"
    "sid \<in> set (connections (sv_node sv))"
    "\<And>h fs. map_of (federates (fed_heap (sv_node sv) (mb_federation m))) h = Some fs \<Longrightarrow> fs_session_id fs = sid \<Longrightarrow> h = mb_federate_handle m"
proof -
  note inv = server_run_inv [OF run]
  have held: "(sid, m) \<in> holders sv" using m by (simp add: holders_def)
  then have "valid_membership (sv_node sv) sid m" using inv by (auto simp: server_inv_def node_inv_def)
  then show "\<exists>fs. map_of (federates (fed_heap (sv_node sv) (mb_federation m))) (mb_federate_handle m) = Some fs \<and> fs_session_id fs = sid"
    by (auto simp: valid_membership_def)
  from running_id [OF m] obtain k t where "map_of (sv_tasks sv) k = Some t" "task_id t = sid" "in_session t" by blast
  then show conn: "sid \<in> set (connections (sv_node sv))"
    using inv by (auto simp: server_inv_def conns_ok_def over_tasks_def session_id_of_def)
  fix h fs assume fs: "map_of (federates (fed_heap (sv_node sv) (mb_federation m))) h = Some fs" "fs_session_id fs = sid"
  from registered_held [OF run fs(1)] fs(2) conn obtain m' where
    "(sid, m') \<in> holders sv" "mb_federation m' = mb_federation m" "mb_federate_handle m' = h" by blast
  with holders_unique [OF inv held, of sid m'] show "h = mb_federate_handle m" by simp
qed

lemma dispatch_update:
  assumes "membership ctx = Some m"
    and "update_attribute_values (connections node) (mb_federate_handle m) i vs tag (fed_heap node (mb_federation m)) = (fed', cbs, r)"
  shows "dispatch_call from_str serde node ctx (Some (ObjectCall (UpdateAttributeValues i vs tag))) =
    Some (set_federation (mb_federation m) fed' node, ctx, cbs, respond ''UpdateAttributeValuesResponse'' (\<lambda>_. PUnit) r)"
  using assms by (simp add: dispatch_call_def dispatch_object_def with_membership_def Let_def)

lemma decoded_values_wf: "decode_attribute_value_map values = Inr vs \<Longrightarrow> wf_hmap vs"
proof -
  have "try_fold (\<lambda>(handle, value) out. case handle of
              None \<Rightarrow> exception_variant InvalidAttributeHandle [DStr ''missing handle'']
            | Some h \<Rightarrow> (case decode_attribute h of
                  Inl n \<Rightarrow> exception_variant n []
                | Inr a \<Rightarrow> Inr (hinsert a value out))) es out = Inr vs \<Longrightarrow> wf_hmap out \<Longrightarrow> wf_hmap vs" for es out
    by (induction es arbitrary: out) (auto simp: exception_variant_def split: option.splits sum.splits)
  then show "decode_attribute_value_map values = Inr vs \<Longrightarrow> wf_hmap vs"
    by (auto simp: decode_attribute_value_map_def split: option.splits)
qed

lemma discover_invokes:
  "dispatch_callback (Some (FromRti (discover_object_instance i c name p))) = [fa_discover_object_instance i c name (Some p)]"
  by (simp add: callback_decode discover_object_instance_def)

lemma reflect_invokes:
  "wf_hmap values \<Longrightarrow>
   dispatch_callback (Some (FromRti (reflect_attribute_values i values tag p))) = [fa_reflect_attribute_values i values tag (Some p)]"
  by (simp add: callback_decode reflect_attribute_values_def)

text \<open>What the callbacks of an update make the federate of a session do.\<close>

lemma update_invokes:
  assumes run: "server_run lib n sv" "n < 2 ^ 32 - 2" and m': "(sid, m') \<in> running (sv_tasks sv)" "mb_federation m' = mb_federation m"
    and fed: "fed = fed_heap (sv_node sv) (mb_federation m)"
    and u: "update_attribute_values (connections (sv_node sv)) me inst_h values tag fed = (fed', cbs, Inr ())"
  obtains inst vs i where "Option.bind inst_h (\<lambda>h. ok (decode_object_instance h)) = Some inst"
    "decode_attribute_value_map values = Inr vs" "map_of (object_instances fed) inst = Some i"
    "concat (map (\<lambda>r. dispatch_callback (Some (FromRti r))) (to_connection sid cbs)) =
       (if mb_federate_handle m' \<in> recipients fed i (set (hkeys vs)) me
        then (if undiscovered fed inst (mb_federate_handle m')
              then [fa_discover_object_instance inst (oi_class i) (oi_name i) (Some me)] else []) @
             [fa_reflect_attribute_values inst vs tag (Some me)]
        else [])"
proof -
  have "node_ok (sv_node sv)" using server_run_inv [OF run] by (simp add: server_inv_def node_inv_def)
  then have wf: "wf_hmap (federates fed)" by (simp add: node_ok_def times_ok_def fed)
  from update_outcome [OF wf u] obtain inst vs i fhs where d: "Option.bind inst_h (\<lambda>h. ok (decode_object_instance h)) = Some inst"
    "decode_attribute_value_map values = Inr vs" "map_of (object_instances fed) inst = Some i"
    and fhs: "set fhs = recipients fed i (set (hkeys vs)) me" "distinct fhs"
    and cbs: "cbs = fan_out (live_connections (connections (sv_node sv)) fed (filter (undiscovered fed inst) fhs))
            (discover_object_instance inst (oi_class i) (oi_name i) me) @
          fan_out (live_connections (connections (sv_node sv)) fed fhs) (reflect_attribute_values inst vs tag me)" by blast
  note one = session_carries_one [OF run m'(1)]
  obtain fs where fs: "map_of (federates fed) (mb_federate_handle m') = Some fs" "fs_session_id fs = sid" using one(1) by (auto simp: fed m'(2))
  have only: "h = mb_federate_handle m'" if "map_of (federates fed) h = Some g" "fs_session_id g = sid" for h g
    using one(3) that by (simp add: fed m'(2))
  have conn: "filter (\<lambda>c. c = sid) (live_connections (connections (sv_node sv)) fed xs) = (if mb_federate_handle m' \<in> set xs then [sid] else [])"
    if "distinct xs" for xs by (rule connection_of_member [OF that fs one(2) only])
  have "concat (map (\<lambda>r. dispatch_callback (Some (FromRti r))) (to_connection sid cbs)) =
       (if mb_federate_handle m' \<in> recipients fed i (set (hkeys vs)) me
        then (if undiscovered fed inst (mb_federate_handle m')
              then [fa_discover_object_instance inst (oi_class i) (oi_name i) (Some me)] else []) @
             [fa_reflect_attribute_values inst vs tag (Some me)]
        else [])"
    using conn [of fhs] conn [of "filter (undiscovered fed inst) fhs"] fhs decoded_values_wf [OF d(2)]
    by (simp add: cbs to_connection_append to_connection_fan_out discover_invokes reflect_invokes)
  with d that show thesis by blast
qed

text \<open>What a call that was handled puts on the channel of a connection.\<close>

lemma queued_length [simp]: "length (queued lib sid c rs) = length rs"
  by (induction rs arbitrary: c) simp_all

lemma queued_session: "f \<in> set (queued lib sid c rs) \<Longrightarrow> message_type (header f) = HlaCallbackRequest \<and> hdr_session_id (header f) = sid"
  by (induction rs arbitrary: c) (auto simp: into_frame_fields)

end
