(* ===== verification/Scenario.thy ===== *)
theory Scenario
  imports Delivery
begin

text \<open>
  A sample federation, as the server runs it: two clients connect; one creates a federation with a FOM module and both
  join it; one publishes an attribute, the other subscribes to it, and the first registers an object. The
  properties that span the server and the federates are applied to the state this reaches.
\<close>

definition sample_requests :: "CallRequest list" where
  "sample_requests =
     [FederationCall (CreateFederationExecution ''f'' (Some (File ''m'' []))),
      MemberCall (JoinFederationExecutionWithName ''a'' ''f''),
      MemberCall (JoinFederationExecutionWithName ''b'' ''f''),
      DeclarationCall (PublishObjectClassAttributes (Some [0, 0, 0, 2]) (Some [[0, 0, 0, 1]])),
      DeclarationCall (SubscribeObjectClassAttributes (Some [0, 0, 0, 2]) (Some [[0, 0, 0, 1]])),
      ObjectCall (RegisterObjectInstance (Some [0, 0, 0, 2])),
      ObjectCall (UpdateAttributeValues (Some [0, 0, 0, 0, 0, 0, 0, 1]) (Some [(Some [0, 0, 0, 1], [9])]) [7])]"

definition pair_lib :: Lib where
  "pair_lib = \<lparr>lib_from_str = (\<lambda>_. Inr sample_xml), lib_serde = sample_serde (snapshot flow_fed),
     lib_decode_request = (\<lambda>b. Inr (Some (sample_requests ! unat (hd b)))),
     lib_encode_response = (\<lambda>_. []), lib_encode_callback = (\<lambda>_. [])\<rparr>"

definition pair_script :: "Event list" where
  "pair_script =
     [EvAccept 9, EvFirst 0 (version_request FEDERATE_PROTOCOL_VERSION 0),
      EvAccept 8, EvFirst 1 (version_request FEDERATE_PROTOCOL_VERSION 0),
      EvFrame 0 (call_frame [0]), EvFrame 0 (call_frame [1]), EvFrame 1 (call_frame [2])]"

definition pair_member :: "nat \<Rightarrow> Membership" where
  "pair_member k = (if k = 0 then \<lparr>mb_federation = 0, mb_federate_handle = 1, mb_federate_name = ''a''\<rparr>
     else \<lparr>mb_federation = 0, mb_federate_handle = 2, mb_federate_name = ''b''\<rparr>)"

definition pair_session :: "nat \<Rightarrow> SessionLoop" where
  "pair_session k = \<lparr>sl_ctx = \<lparr>sc_session_id = of_nat k + 1, membership = Some (pair_member k)\<rparr>, sl_hb = default_heartbeat, sl_last_inbound = 0\<rparr>"

definition pair_task :: "nat \<Rightarrow> Task" where
  "pair_task k = \<lparr>tk_ip = 9 - k, tk_candidate = of_nat k + 1, tk_phase = InSession (pair_session k)\<rparr>"

definition pair_federate :: "u32 \<Rightarrow> string \<Rightarrow> FederateSession" where
  "pair_federate h name = \<lparr>fs_handle = h, fs_name = name, federate_type = [], fs_session_id = ucast h,
     pub_sub = default_pub_sub, time_st = default_time, switches = default_switches, tso_queue = []\<rparr>"

definition joined_fed :: Federation where
  "joined_fed = (new_federation ''f'' sample_fom)\<lparr>next_federate_id := 3,
     federates := [(1, pair_federate 1 ''a''), (2, pair_federate 2 ''b'')]\<rparr>"

definition published_fed :: Federation where
  "published_fed = fst (publish_object_class_attributes 1 (Some [0, 0, 0, 2]) (Some [[0, 0, 0, 1]]) joined_fed)"

definition subscribed_fed :: Federation where
  "subscribed_fed = fst (subscribe_object_class_attributes_inner [1, 2] 2 (Some [0, 0, 0, 2]) (Some [[0, 0, 0, 1]]) published_fed)"

definition registered_fed :: Federation where
  "registered_fed = fst (register_object_instance [1, 2] 1 (Some [0, 0, 0, 2]) None subscribed_fed)"

definition live_channels :: "handles \<Rightarrow> bool" where
  "live_channels hs \<longleftrightarrow> (\<forall>sid\<in>{1, 2}. \<exists>h. map_of hs sid = Some h \<and> \<not> ch_writer_gone h)"

text \<open>Both clients have joined, and the federation is in a given state.\<close>

definition ready :: "Federation \<Rightarrow> Server \<Rightarrow> bool" where
  "ready fed sv \<longleftrightarrow> sv_tasks sv = [(0, pair_task 0), (1, pair_task 1)] \<and> connections (sv_node sv) = [1, 2] \<and>
     fed_heap (sv_node sv) 0 = fed \<and> \<not> sv_shutdown sv \<and> sv_now sv = 0 \<and> live_channels (sv_handles sv)"

lemma channels_stay:
  "live_channels hs \<Longrightarrow> live_channels (deliver_callbacks lib cbs hs)"
  "live_channels hs \<Longrightarrow> live_channels (fst (channel_send sid f hs))"
proof -
  have one: "live_channels hs \<Longrightarrow> live_channels (deliver_callback lib ocb hs)" for ocb hs
    by (auto simp: live_channels_def deliver_callback_def channel_send_def split: option.split prod.split)
  show "live_channels hs \<Longrightarrow> live_channels (deliver_callbacks lib cbs hs)"
    by (induction cbs arbitrary: hs) (simp_all add: deliver_callbacks_def one)
  show "live_channels hs \<Longrightarrow> live_channels (fst (channel_send sid f hs))"
    by (auto simp: live_channels_def channel_send_def split: option.split)
qed

lemma sample_module_parses: "decode_fom_module (\<lambda>_. Inr sample_xml) (File ''m'' []) = Inr sample_module"
  by (simp add: decode_fom_module_def parse_fom_module_def sample_parse)

lemma pair_joined: "\<exists>sv. script pair_lib pair_script new_server = Some sv \<and> ready joined_fed sv"
  by (simp add: pair_script_def run_defs call_defs version_request_fields call_frame_def with_payload_size_def pair_lib_def
      sample_requests_def deliver_callbacks_def hs_insert_def hinsert_def sample_module_parses sample_merge
      ready_def pair_task_def pair_session_def pair_member_def joined_fed_def pair_federate_def live_channels_def)

text \<open>A call of a member that has joined.\<close>

lemma ready_call_handled:
  assumes "ready fed sv" "k < 2" "lib_decode_request pair_lib b = Inr (Some q)"
    and d: "\<And>node. connections node = [1, 2] \<Longrightarrow> fed_heap node 0 = fed \<Longrightarrow>
      dispatch_call (lib_from_str pair_lib) (lib_serde pair_lib) node (sl_ctx (pair_session k)) (Some q) =
        Some (set_federation 0 fed' node, sl_ctx (pair_session k), cbs, r)"
  shows "\<exists>node hs. handle_call_request pair_lib (call_frame b) (sl_ctx (pair_session k)) (sv_node sv) (sv_handles sv) =
      Some (node, hs, sl_ctx (pair_session k), True) \<and>
    session_frame pair_lib (sv_now sv) (call_frame b) (pair_session k) (sv_node sv) (sv_handles sv) = Some (node, hs, pair_session k, True) \<and>
    connections node = [1, 2] \<and> fed_heap node 0 = fed' \<and> live_channels hs"
proof -
  let ?s = "sc_session_id (sl_ctx (pair_session k))"
  have k: "k = 0 \<or> k = 1" using assms(2) by auto
  note sv = assms(1) [unfolded ready_def]
  have "?s \<in> {1, 2}" using k by (auto simp: pair_session_def)
  then obtain h where h: "map_of (sv_handles sv) ?s = Some h" "\<not> ch_writer_gone h" using sv by (auto simp: live_channels_def)
  obtain hs where sent: "channel_send ?s (call_response_frame pair_lib ?s 0 r) (sv_handles sv) = (hs, True)" "live_channels hs"
    using h channels_stay(2) [of "sv_handles sv" ?s] sv by (simp add: channel_send_def)
  let ?n = "counted_call (sv_node sv)"
  have n: "connections ?n = [1, 2]" "fed_heap ?n 0 = fed" using sv by (simp_all add: counted_call_def)
  have f: "payload (call_frame b) = b" "sequence_number (header (call_frame b)) = 0" "message_type (header (call_frame b)) = HlaCallRequest"
    by (simp_all add: call_frame_def with_payload_size_def)
  have set: "connections (set_federation 0 fed' ?n) = [1, 2]" "fed_heap (set_federation 0 fed' ?n) 0 = fed'"
    using n by (simp_all add: set_federation_def)
  have "\<exists>node. handle_call_request pair_lib (call_frame b) (sl_ctx (pair_session k)) (sv_node sv) (sv_handles sv) =
      Some (node, deliver_callbacks pair_lib cbs hs, sl_ctx (pair_session k), True) \<and> connections node = [1, 2] \<and> fed_heap node 0 = fed'"
    unfolding handle_call_request_def Let_def counted_call_def [symmetric] f assms(3) sum.case d [OF n]
    by (simp add: sent(1) set)
  then obtain node where call: "handle_call_request pair_lib (call_frame b) (sl_ctx (pair_session k)) (sv_node sv) (sv_handles sv) =
      Some (node, deliver_callbacks pair_lib cbs hs, sl_ctx (pair_session k), True)"
    and node: "connections node = [1, 2]" "fed_heap node 0 = fed'" by blast
  have same: "(pair_session k)\<lparr>sl_last_inbound := 0, sl_ctx := sl_ctx (pair_session k)\<rparr> = pair_session k" by (simp add: pair_session_def)
  have "session_frame pair_lib (sv_now sv) (call_frame b) (pair_session k) (sv_node sv) (sv_handles sv) =
      Some (node, deliver_callbacks pair_lib cbs hs, pair_session k, True)"
    using sv by (simp add: session_frame_def Let_def f call same)
  with call node sent(2) channels_stay(1) show ?thesis by blast
qed

lemma ready_call:
  assumes "ready fed sv" "k < 2" "lib_decode_request pair_lib b = Inr (Some q)"
    and d: "\<And>node. connections node = [1, 2] \<Longrightarrow> fed_heap node 0 = fed \<Longrightarrow>
      dispatch_call (lib_from_str pair_lib) (lib_serde pair_lib) node (sl_ctx (pair_session k)) (Some q) =
        Some (set_federation 0 fed' node, sl_ctx (pair_session k), cbs, r)"
  shows "\<exists>sv'. event pair_lib (EvFrame k (call_frame b)) sv = Some sv' \<and> ready fed' sv'"
proof -
  have k: "k = 0 \<or> k = 1" using assms(2) by auto
  note sv = assms(1) [unfolded ready_def]
  have t: "map_of (sv_tasks sv) k = Some (pair_task k)" "hinsert k (pair_task k) (sv_tasks sv) = sv_tasks sv"
    using k sv by (auto simp: hinsert_def)
  obtain node hs where n: "session_frame pair_lib (sv_now sv) (call_frame b) (pair_session k) (sv_node sv) (sv_handles sv) =
      Some (node, hs, pair_session k, True)" "connections node = [1, 2]" "fed_heap node 0 = fed'" "live_channels hs"
    using ready_call_handled [OF assms] by blast
  have p: "tk_phase (pair_task k) = InSession (pair_session k)" "(pair_task k)\<lparr>tk_phase := InSession (pair_session k)\<rparr> = pair_task k"
    by (simp_all add: pair_task_def)
  from sv t n show ?thesis by (simp add: ready_def continue_session_def p)
qed

lemma pair_calls:
  "\<exists>cbs. publish_object_class_attributes 1 (Some [0, 0, 0, 2]) (Some [[0, 0, 0, 1]]) joined_fed = (published_fed, cbs, Inr ())"
  "\<exists>cbs. subscribe_object_class_attributes_inner [1, 2] 2 (Some [0, 0, 0, 2]) (Some [[0, 0, 0, 1]]) published_fed = (subscribed_fed, cbs, Inr ())"
  "\<exists>cbs. register_object_instance [1, 2] 1 (Some [0, 0, 0, 2]) None subscribed_fed = (registered_fed, cbs, Inr 1)"
proof -
  have "snd (snd (publish_object_class_attributes 1 (Some [0, 0, 0, 2]) (Some [[0, 0, 0, 1]]) joined_fed)) = Inr ()" by code_simp
  then show "\<exists>cbs. publish_object_class_attributes 1 (Some [0, 0, 0, 2]) (Some [[0, 0, 0, 1]]) joined_fed = (published_fed, cbs, Inr ())"
    unfolding published_fed_def by (metis prod.collapse)
  have "snd (snd (subscribe_object_class_attributes_inner [1, 2] 2 (Some [0, 0, 0, 2]) (Some [[0, 0, 0, 1]]) published_fed)) = Inr ()" by code_simp
  then show "\<exists>cbs. subscribe_object_class_attributes_inner [1, 2] 2 (Some [0, 0, 0, 2]) (Some [[0, 0, 0, 1]]) published_fed = (subscribed_fed, cbs, Inr ())"
    unfolding subscribed_fed_def by (metis prod.collapse)
  have "snd (snd (register_object_instance [1, 2] 1 (Some [0, 0, 0, 2]) None subscribed_fed)) = Inr 1" by code_simp
  then show "\<exists>cbs. register_object_instance [1, 2] 1 (Some [0, 0, 0, 2]) None subscribed_fed = (registered_fed, cbs, Inr 1)"
    unfolding registered_fed_def by (metis prod.collapse)
qed

lemma script_append:
  "script lib (evs @ evs') sv = (case script lib evs sv of None \<Rightarrow> None | Some sv' \<Rightarrow> script lib evs' sv')"
  by (induction evs arbitrary: sv) (simp_all split: option.split)

definition object_script :: "Event list" where
  "object_script = pair_script @ [EvFrame 0 (call_frame [3]), EvFrame 1 (call_frame [4]), EvFrame 0 (call_frame [5])]"

lemmas pair_dispatch = dispatch_call_def dispatch_declaration_def dispatch_object_def with_membership_def pair_session_def pair_member_def Let_def

lemma pair_registered: "\<exists>sv. server_run pair_lib 10 sv \<and> ready registered_fed sv"
proof -
  have q: "lib_decode_request pair_lib [b] = Inr (Some (sample_requests ! unat b))" for b by (simp add: pair_lib_def)
  obtain sv0 where s0: "script pair_lib pair_script new_server = Some sv0" "ready joined_fed sv0" using pair_joined by blast
  have "\<exists>sv1. event pair_lib (EvFrame 0 (call_frame [3])) sv0 = Some sv1 \<and> ready published_fed sv1"
    using pair_calls(1) by (elim exE, intro ready_call [OF s0(2) _ q]) (simp_all add: sample_requests_def pair_dispatch)
  then obtain sv1 where s1: "event pair_lib (EvFrame 0 (call_frame [3])) sv0 = Some sv1" "ready published_fed sv1" by blast
  have "\<exists>sv2. event pair_lib (EvFrame 1 (call_frame [4])) sv1 = Some sv2 \<and> ready subscribed_fed sv2"
    using pair_calls(2) by (elim exE, intro ready_call [OF s1(2) _ q]) (simp_all add: sample_requests_def pair_dispatch)
  then obtain sv2 where s2: "event pair_lib (EvFrame 1 (call_frame [4])) sv1 = Some sv2" "ready subscribed_fed sv2" by blast
  have "\<exists>sv3. event pair_lib (EvFrame 0 (call_frame [5])) sv2 = Some sv3 \<and> ready registered_fed sv3"
    using pair_calls(3) by (elim exE, intro ready_call [OF s2(2) _ q]) (simp_all add: sample_requests_def pair_dispatch)
  then obtain sv3 where s3: "event pair_lib (EvFrame 0 (call_frame [5])) sv2 = Some sv3" "ready registered_fed sv3" by blast
  have "script pair_lib object_script new_server = Some sv3"
    by (simp only: object_script_def script_append s0(1) script.simps s1(1) s2(1) s3(1) option.case)
  moreover have "length object_script = 10" by (simp add: object_script_def pair_script_def)
  ultimately show ?thesis using script_run [of pair_lib object_script sv3] s3(2) by auto
qed

lemma pair_update:
  "\<exists>fed'. update_attribute_values [1, 2] 1 (Some [0, 0, 0, 0, 0, 0, 0, 1]) (Some [(Some [0, 0, 0, 1], [9])]) [7] registered_fed =
     (fed', [\<lparr>target = 2, cb = reflect_attribute_values 1 [(1, [9])] [7] 1\<rparr>], Inr ())"
proof -
  have "snd (update_attribute_values [1, 2] 1 (Some [0, 0, 0, 0, 0, 0, 0, 1]) (Some [(Some [0, 0, 0, 1], [9])]) [7] registered_fed) =
     ([\<lparr>target = 2, cb = reflect_attribute_values 1 [(1, [9])] [7] 1\<rparr>], Inr ())" by code_simp
  then show ?thesis by (metis prod.collapse)
qed

definition pair_update_request :: CallRequest where
  "pair_update_request = ObjectCall (UpdateAttributeValues (Some [0, 0, 0, 0, 0, 0, 0, 1]) (Some [(Some [0, 0, 0, 1], [9])]) [7])"

definition new_channel :: ConnectionHandle where
  "new_channel = \<lparr>ch_next_outbound_seq = 0, ch_frames = [], ch_writer_gone = False\<rparr>"

definition pair_channels :: handles where
  "pair_channels = [(1, new_channel), (2, new_channel)]"

lemma pair_update_decoded: "lib_decode_request pair_lib (payload (call_frame [6])) = Inr (Some pair_update_request)"
  by (simp add: pair_lib_def sample_requests_def call_frame_def pair_update_request_def)

lemma pair_update_dispatched:
  assumes "connections node = [1, 2]" "fed_heap node 0 = registered_fed"
    and "update_attribute_values [1, 2] 1 (Some [0, 0, 0, 0, 0, 0, 0, 1]) (Some [(Some [0, 0, 0, 1], [9])]) [7] registered_fed = (fed', cbs, Inr ())"
  shows "dispatch_call from_str serde node (sl_ctx (pair_session 0)) (Some pair_update_request) =
      Some (set_federation 0 fed' node, sl_ctx (pair_session 0), cbs, Inr (''UpdateAttributeValuesResponse'', PUnit))"
  using assms by (simp add: pair_update_request_def pair_dispatch respond_def)

text \<open>A federate whose decoder reads the callback of the update.\<close>

definition reflect_lib :: FedLib where
  "reflect_lib = sample_fed_lib\<lparr>fl_decode_callback := (\<lambda>_. Inr (Some (FromRti (reflect_attribute_values 1 [(1, [9])] [7] 1))))\<rparr>"

lemma reflect_lib_agrees: "wire_agrees pair_lib reflect_lib (reflect_attribute_values 1 [(1, [9])] [7] 1)"
  by (simp add: wire_agrees_def pair_lib_def reflect_lib_def)

text \<open>The first client sends its update.\<close>

lemma pair_sends_update:
  assumes "ready registered_fed sv"
  obtains node' hs' where "handle_call_request pair_lib (call_frame [6]) (sl_ctx (pair_session 0)) (sv_node sv) (sv_handles sv) =
      Some (node', hs', sl_ctx (pair_session 0), True)"
    "session_frame pair_lib (sv_now sv) (call_frame [6]) (pair_session 0) (sv_node sv) (sv_handles sv) = Some (node', hs', pair_session 0, True)"
proof -
  obtain fed' where u: "update_attribute_values [1, 2] 1 (Some [0, 0, 0, 0, 0, 0, 0, 1]) (Some [(Some [0, 0, 0, 1], [9])]) [7] registered_fed =
     (fed', [\<lparr>target = 2, cb = reflect_attribute_values 1 [(1, [9])] [7] 1\<rparr>], Inr ())" using pair_update by blast
  note q = pair_update_decoded [unfolded call_frame_def, simplified]
  have "\<exists>node hs. handle_call_request pair_lib (call_frame [6]) (sl_ctx (pair_session 0)) (sv_node sv) (sv_handles sv) =
      Some (node, hs, sl_ctx (pair_session 0), True) \<and>
    session_frame pair_lib (sv_now sv) (call_frame [6]) (pair_session 0) (sv_node sv) (sv_handles sv) = Some (node, hs, pair_session 0, True) \<and>
    connections node = [1, 2] \<and> fed_heap node 0 = fed' \<and> live_channels hs"
    by (rule ready_call_handled [OF assms _ q]) (simp, rule pair_update_dispatched [OF _ _ u])
  with that show thesis by blast
qed

lemma pair_recipient:
  assumes "map_of (object_instances registered_fed) 1 = Some i"
  shows "2 \<in> recipients registered_fed i {1} 1" "\<not> undiscovered registered_fed 1 2"
proof -
  have o: "map_option (\<lambda>i. (oi_class i, attribute_regions i)) (map_of (object_instances registered_fed) 1) = Some (2, [])" by code_simp
  then have i: "oi_class i = 2" "attribute_regions i = []" using assms by simp_all
  have "inheritance_chain (fom registered_fed) 2 = [2, 1]" by code_simp
  moreover have "2 \<in> set (unwrap_or [] (map_of (by_attribute (subscriptions registered_fed)) (2, 1)))" by code_simp
  ultimately show "2 \<in> recipients registered_fed i {1} 1" by (auto simp: recipients_def region_match_def i unwrap_or_def subscribed_def split: option.splits)
  show "\<not> undiscovered registered_fed 1 2" by code_simp
qed

end
