(* ===== verification/Encoding.thy ===== *)
theory Encoding
  imports Framing
begin

text \<open>
  The standard data types of the MIM (\<^verbatim>\<open>crates/hla-encoding/src/lib.rs\<close>). A data element is encoded by
  appending to a buffer and decoded from the front of one, returning the value and the number of bytes
  consumed. The floating-point primitives are their bit patterns. A \<^verbatim>\<open>String\<close> is the list of its Unicode
  scalar values here, because its UTF-16 form depends on them; the UTF-16 iterators are those of the
  standard library. \<^verbatim>\<open>usize\<close> has 64 bits, so the sizes computed from a 32-bit length do not wrap.
\<close>

datatype EncodingError = TruncatedData nat nat | InvalidData string | Utf16Error

type_synonym 'a decoder = "bytes \<Rightarrow> EncodingError + ('a \<times> nat)"

subsection \<open>Primitives\<close>

text \<open>The macro \<^verbatim>\<open>impl_be_primitive\<close> at a width, and its five uses.\<close>

definition primitive_encode_into :: "'a::len word \<Rightarrow> bytes \<Rightarrow> bytes" where
  "primitive_encode_into x buf = buf @ to_be_bytes x"

definition primitive_decode_from :: "nat \<Rightarrow> 'a::len word decoder" where
  "primitive_decode_from n buf =
     (if length buf < n then Inl (TruncatedData n (length buf)) else Inr (from_be_bytes (take n buf), n))"

definition HLAinteger16BE_decode :: "u16 decoder" where "HLAinteger16BE_decode = primitive_decode_from 2"
definition HLAinteger32BE_decode :: "i32 decoder" where "HLAinteger32BE_decode = primitive_decode_from 4"
definition HLAinteger64BE_decode :: "u64 decoder" where "HLAinteger64BE_decode = primitive_decode_from 8"
definition HLAfloat32BE_decode :: "u32 decoder" where "HLAfloat32BE_decode = primitive_decode_from 4"
definition HLAfloat64BE_decode :: "u64 decoder" where "HLAfloat64BE_decode = primitive_decode_from 8"

definition HLAoctet_encode_into :: "u8 \<Rightarrow> bytes \<Rightarrow> bytes" where
  "HLAoctet_encode_into b buf = buf @ [b]"

definition HLAoctet_decode :: "u8 decoder" where
  "HLAoctet_decode buf = (case buf of [] \<Rightarrow> Inl (TruncatedData 1 0) | b # _ \<Rightarrow> Inr (b, 1))"

definition HLAboolean_encode_into :: "bool \<Rightarrow> bytes \<Rightarrow> bytes" where
  "HLAboolean_encode_into b buf = buf @ to_be_bytes (if b then 1 else 0 :: i32)"

definition HLAboolean_decode :: "bool decoder" where
  "HLAboolean_decode buf =
     (case HLAinteger32BE_decode buf of Inl e \<Rightarrow> Inl e | Inr (v, n) \<Rightarrow> Inr (v \<noteq> 0, n))"

subsection \<open>UTF-16\<close>

type_synonym scalars = "nat list"

text \<open>A Unicode scalar value, which is what a \<^verbatim>\<open>char\<close> can be.\<close>

definition is_scalar :: "nat \<Rightarrow> bool" where
  "is_scalar c \<longleftrightarrow> c < 0xD800 \<or> (0xE000 \<le> c \<and> c < 0x110000)"

definition char_utf16 :: "nat \<Rightarrow> u16 list" where
  "char_utf16 c =
     (if c < 0x10000 then [of_nat c]
      else [of_nat (0xD800 + (c - 0x10000) div 0x400), of_nat (0xDC00 + (c - 0x10000) mod 0x400)])"

definition encode_utf16 :: "scalars \<Rightarrow> u16 list" where
  "encode_utf16 s = concat (map char_utf16 s)"

text \<open>\<^verbatim>\<open>char::decode_utf16\<close> collected into a result: the first unpaired surrogate fails it.\<close>

fun decode_utf16 :: "u16 list \<Rightarrow> scalars option" where
  "decode_utf16 [] = Some []"
| "decode_utf16 (u # us) =
     (let v = unat u in
      if v < 0xD800 \<or> 0xE000 \<le> v then map_option (Cons v) (decode_utf16 us)
      else if 0xDC00 \<le> v then None
      else (case us of
          [] \<Rightarrow> None
        | u2 # us' \<Rightarrow>
            let v2 = unat u2 in
            if v2 < 0xDC00 \<or> 0xDFFF < v2 then None
            else map_option (Cons (0x10000 + (v - 0xD800) * 0x400 + (v2 - 0xDC00))) (decode_utf16 us')))"

subsection \<open>Strings and opaque data\<close>

definition HLAunicodeString_encoded_length :: "scalars \<Rightarrow> nat" where
  "HLAunicodeString_encoded_length s = 4 + length (encode_utf16 s) * 2"

definition HLAunicodeString_encode_into :: "scalars \<Rightarrow> bytes \<Rightarrow> bytes" where
  "HLAunicodeString_encode_into s buf =
     (let utf16 = encode_utf16 s
      in buf @ to_be_bytes (of_nat (length utf16) :: u32) @ concat (map to_be_bytes utf16))"

definition HLAunicodeString_decode :: "scalars decoder" where
  "HLAunicodeString_decode buf =
     (if length buf < 4 then Inl (TruncatedData 4 (length buf))
      else let n = unat (from_be_bytes (take 4 buf) :: u32); need = 4 + n * 2 in
        if length buf < need then Inl (TruncatedData need (length buf))
        else (case decode_utf16 (map (\<lambda>i. from_be_bytes [buf ! (4 + 2 * i), buf ! (5 + 2 * i)]) [0..<n]) of
            None \<Rightarrow> Inl Utf16Error
          | Some s \<Rightarrow> Inr (s, need)))"

definition HLAopaqueData_encoded_length :: "bytes \<Rightarrow> nat" where
  "HLAopaqueData_encoded_length d = 4 + length d"

definition HLAopaqueData_encode_into :: "bytes \<Rightarrow> bytes \<Rightarrow> bytes" where
  "HLAopaqueData_encode_into d buf = buf @ to_be_bytes (of_nat (length d) :: u32) @ d"

definition HLAopaqueData_decode :: "bytes decoder" where
  "HLAopaqueData_decode buf =
     (if length buf < 4 then Inl (TruncatedData 4 (length buf))
      else let n = unat (from_be_bytes (take 4 buf) :: u32); need = 4 + n in
        if length buf < need then Inl (TruncatedData need (length buf))
        else Inr (slice 4 need buf, need))"

text \<open>The provided method \<^verbatim>\<open>to_bytes\<close> of the trait.\<close>

definition to_bytes :: "('a \<Rightarrow> bytes \<Rightarrow> bytes) \<Rightarrow> 'a \<Rightarrow> bytes" where
  "to_bytes encode_into x = encode_into x []"

subsection \<open>The contract of a data element\<close>

text \<open>
  What the trait promises for the values it can represent: encoding only appends, the length is as announced,
  decoding reads back the value from the front of any longer buffer, and a successful decoding stays within
  the buffer and depends on the bytes it consumed only.
\<close>

locale data_element =
  fixes representable :: "'a \<Rightarrow> bool" and encoded_length :: "'a \<Rightarrow> nat"
    and encode_into :: "'a \<Rightarrow> bytes \<Rightarrow> bytes" and decode_from :: "'a decoder"
  assumes appends: "encode_into x buf = buf @ encode_into x []"
    and announced: "length (encode_into x []) = encoded_length x"
    and reads_back: "representable x \<Longrightarrow> decode_from (encode_into x [] @ rest) = Inr (x, encoded_length x)"
    and within: "decode_from buf = Inr (x, n) \<Longrightarrow> n \<le> length buf \<and> representable x"
    and local_read: "decode_from buf = Inr (x, n) \<Longrightarrow> decode_from (take n buf @ rest) = Inr (x, n)"
begin

lemma to_bytes_roundtrip:
  "representable x \<Longrightarrow> decode_from (to_bytes encode_into x) = Inr (x, length (to_bytes encode_into x))"
  using reads_back [of x "[]"] by (simp add: to_bytes_def announced)

text \<open>No encoding is a prefix of another, so elements can be written one after the other.\<close>

lemma prefix_free:
  assumes "representable x" "representable y" "to_bytes encode_into x @ r = to_bytes encode_into y @ s"
  shows "x = y \<and> r = s"
proof -
  have "Inr (x, encoded_length x) = (Inr (y, encoded_length y) :: EncodingError + ('a \<times> nat))"
    using assms reads_back by (metis to_bytes_def)
  with assms(3) show ?thesis by (auto simp: to_bytes_def announced)
qed

lemma read_second:
  assumes "representable x" "representable y"
  shows "decode_from (drop (encoded_length x) (encode_into y (encode_into x []))) = Inr (y, encoded_length y)"
  using reads_back [OF assms(2), of "[]"] by (subst appends) (simp add: announced)

end

subsection \<open>Primitives keep the contract\<close>

lemma primitive_element:
  assumes "LENGTH('a::len) = 8 * n"
  shows "data_element (\<lambda>_. True) (\<lambda>_. n) (primitive_encode_into :: 'a word \<Rightarrow> bytes \<Rightarrow> bytes) (primitive_decode_from n)"
proof
  fix buf rest :: bytes and x :: "'a word" and m
  show "primitive_encode_into x buf = buf @ primitive_encode_into x []" by (simp add: primitive_encode_into_def)
  show "length (primitive_encode_into x []) = n" by (simp add: primitive_encode_into_def assms)
  show "primitive_decode_from n (primitive_encode_into x [] @ rest) = Inr (x, n)"
    by (simp add: primitive_encode_into_def primitive_decode_from_def assms from_to_be_bytes)
  assume r: "primitive_decode_from n buf = Inr (x, m)"
  then show "m \<le> length buf \<and> True" by (auto simp: primitive_decode_from_def split: if_splits)
  from r show "primitive_decode_from n (take m buf @ rest) = Inr (x, m)"
    by (auto simp: primitive_decode_from_def split: if_splits)
qed

interpretation integer16: data_element "\<lambda>_. True" "\<lambda>_. 2" primitive_encode_into HLAinteger16BE_decode
  unfolding HLAinteger16BE_decode_def by (rule primitive_element) simp

interpretation integer32: data_element "\<lambda>_. True" "\<lambda>_. 4" primitive_encode_into HLAinteger32BE_decode
  unfolding HLAinteger32BE_decode_def by (rule primitive_element) simp

interpretation integer64: data_element "\<lambda>_. True" "\<lambda>_. 8" primitive_encode_into HLAinteger64BE_decode
  unfolding HLAinteger64BE_decode_def by (rule primitive_element) simp

interpretation float32: data_element "\<lambda>_. True" "\<lambda>_. 4" primitive_encode_into HLAfloat32BE_decode
  unfolding HLAfloat32BE_decode_def by (rule primitive_element) simp

interpretation float64: data_element "\<lambda>_. True" "\<lambda>_. 8" primitive_encode_into HLAfloat64BE_decode
  unfolding HLAfloat64BE_decode_def by (rule primitive_element) simp

interpretation octet: data_element "\<lambda>_. True" "\<lambda>_. 1" HLAoctet_encode_into HLAoctet_decode
  by unfold_locales (auto simp: HLAoctet_encode_into_def HLAoctet_decode_def split: list.splits)

interpretation boolean: data_element "\<lambda>_. True" "\<lambda>_. 4" HLAboolean_encode_into HLAboolean_decode
proof
  fix buf rest :: bytes and x n
  show "HLAboolean_encode_into x buf = buf @ HLAboolean_encode_into x []"
    and "length (HLAboolean_encode_into x []) = 4" by (simp_all add: HLAboolean_encode_into_def)
  show "HLAboolean_decode (HLAboolean_encode_into x [] @ rest) = Inr (x, 4)"
    using integer32.reads_back [of "if x then 1 else 0" rest]
    by (simp add: HLAboolean_decode_def HLAboolean_encode_into_def primitive_encode_into_def split: if_splits)
  assume "HLAboolean_decode buf = Inr (x, n)"
  then obtain v where v: "HLAinteger32BE_decode buf = Inr (v, n)" "x = (v \<noteq> 0)"
    by (auto simp: HLAboolean_decode_def split: sum.splits)
  show "n \<le> length buf \<and> True" using integer32.within [OF v(1)] by simp
  show "HLAboolean_decode (take n buf @ rest) = Inr (x, n)"
    using integer32.local_read [OF v(1), of rest] v(2) by (simp add: HLAboolean_decode_def)
qed

subsection \<open>UTF-16 round trips\<close>

lemma decode_char_utf16:
  assumes "is_scalar c"
  shows "decode_utf16 (char_utf16 c @ us) = map_option (Cons c) (decode_utf16 us)"
proof (cases "c < 0x10000")
  case True
  then have "unat (of_nat c :: u16) = c" by (simp add: unat_of_nat)
  with True assms show ?thesis by (auto simp: char_utf16_def is_scalar_def Let_def)
next
  case False
  let ?d = "c - 0x10000"
  have d: "?d < 0x100000" using False assms by (auto simp: is_scalar_def)
  have hi: "unat (of_nat (0xD800 + ?d div 0x400) :: u16) = 0xD800 + ?d div 0x400"
    using d by (subst unat_of_nat) (simp add: less_mult_imp_div_less)
  have lo: "unat (of_nat (0xDC00 + ?d mod 0x400) :: u16) = 0xDC00 + ?d mod 0x400"
    by (subst unat_of_nat) simp
  have "?d div 0x400 < 0x400" using d by (simp add: less_mult_imp_div_less)
  moreover have "\<not> 0x3FF < ?d mod 0x400" using mod_less_divisor [of "0x400" ?d] by linarith
  moreover have "0x10000 + ?d div 0x400 * 0x400 + ?d mod 0x400 = c" using False by simp
  ultimately show ?thesis using False hi lo
    by (simp add: char_utf16_def Let_def del: of_nat_add mod_mult_div_eq)
qed

lemma decode_encode_utf16: "list_all is_scalar s \<Longrightarrow> decode_utf16 (encode_utf16 s) = Some s"
  by (induction s) (simp_all add: encode_utf16_def decode_char_utf16)

lemma char_utf16_single: "unat u < 0xD800 \<or> 0xE000 \<le> unat u \<Longrightarrow> char_utf16 (unat u) = [u] \<and> is_scalar (unat u)"
  for u :: u16
  using unsigned_less [of u, where ?'a = nat] by (auto simp: char_utf16_def is_scalar_def)

lemma char_utf16_pair:
  fixes u u2 :: u16
  assumes "\<not> (unat u < 0xD800 \<or> 0xE000 \<le> unat u)" "\<not> 0xDC00 \<le> unat u" "\<not> (unat u2 < 0xDC00 \<or> 0xDFFF < unat u2)"
  defines "c \<equiv> 0x10000 + (unat u - 0xD800) * 0x400 + (unat u2 - 0xDC00)"
  shows "char_utf16 c = [u, u2] \<and> is_scalar c"
proof -
  define a b where "a = unat u - 0xD800" and "b = unat u2 - 0xDC00"
  then have a: "unat u = 0xD800 + a" "a < 0x400" and b: "unat u2 = 0xDC00 + b" "b < 0x400" using assms(1-3) by auto
  have c: "c = 0x10000 + (a * 0x400 + b)" using a b by (simp add: c_def)
  have "(a * 0x400 + b) div 0x400 = a" "(a * 0x400 + b) mod 0x400 = b" using b by simp_all
  moreover have "of_nat (0xD800 + a) = u" "of_nat (0xDC00 + b) = u2"
    by (simp_all flip: a(1) b(1))
  moreover have "c < 0x110000" using a b c by simp
  ultimately show ?thesis using c by (simp add: char_utf16_def is_scalar_def)
qed

lemma encode_decode_utf16: "decode_utf16 us = Some s \<Longrightarrow> encode_utf16 s = us \<and> list_all is_scalar s"
proof (induction us arbitrary: s rule: decode_utf16.induct)
  case (2 u us)
  show ?case
  proof (cases "unat u < 0xD800 \<or> 0xE000 \<le> unat u")
    case True
    then obtain s' where "s = unat u # s'" "decode_utf16 us = Some s'" using "2.prems" by (auto simp: Let_def)
    then show ?thesis using "2.IH"(1) [OF refl True] char_utf16_single [OF True] by (simp add: encode_utf16_def)
  next
    case False
    then have lead: "\<not> 0xDC00 \<le> unat u" using "2.prems" by (auto simp: Let_def)
    then obtain u2 us' where us: "us = u2 # us'" using "2.prems" False by (auto simp: Let_def split: list.splits)
    then have trail: "\<not> (unat u2 < 0xDC00 \<or> 0xDFFF < unat u2)"
      using "2.prems" False lead by (auto simp: Let_def split: if_splits)
    then obtain s' where "s = (0x10000 + (unat u - 0xD800) * 0x400 + (unat u2 - 0xDC00)) # s'" "decode_utf16 us' = Some s'"
      using "2.prems" False lead us by (auto simp: Let_def)
    then show ?thesis using "2.IH"(2) [OF refl False lead us refl trail] char_utf16_pair [OF False lead trail] us
      by (simp add: encode_utf16_def)
  qed
qed (simp add: encode_utf16_def)

subsection \<open>Strings and opaque data keep the contract\<close>

abbreviation fits_u32 :: "'a list \<Rightarrow> bool" where
  "fits_u32 xs \<equiv> length xs < 2 ^ 32"

definition representable_string :: "scalars \<Rightarrow> bool" where
  "representable_string s \<longleftrightarrow> list_all is_scalar s \<and> fits_u32 (encode_utf16 s)"

text \<open>The code units read back from the bytes after the length.\<close>

definition units_at :: "nat \<Rightarrow> bytes \<Rightarrow> u16 list" where
  "units_at n bs = map (\<lambda>i. from_be_bytes [bs ! (2 * i), bs ! (2 * i + 1)]) [0..<n]"

lemma units_at_Suc:
  "units_at (Suc n) (b # c # bs) = from_be_bytes [b, c] # units_at n bs"
proof -
  have "[0..<Suc n] = 0 # map Suc [0..<n]" by (simp add: map_Suc_upt upt_conv_Cons del: upt_Suc)
  then show ?thesis by (simp add: units_at_def comp_def del: upt_Suc)
qed

lemma unit_bytes: "\<exists>b c. to_be_bytes (u :: u16) = [b, c]"
proof -
  have "length (to_be_bytes u) = Suc (Suc 0)" by simp
  then show ?thesis unfolding length_Suc_conv by auto
qed

lemma units_at_encoded: "units_at (length us) (concat (map to_be_bytes us) @ rest) = us"
proof (induction us)
  case (Cons u us)
  obtain b c where "to_be_bytes u = [b, c]" using unit_bytes by blast
  moreover from this have "from_be_bytes [b, c] = u" by (metis from_to_be_bytes_16)
  ultimately show ?case using Cons by (simp add: units_at_Suc)
qed (simp add: units_at_def)

lemma units_at_bytes: "2 * n \<le> length bs \<Longrightarrow> concat (map to_be_bytes (units_at n bs)) = take (2 * n) bs"
proof (induction n arbitrary: bs)
  case (Suc n)
  then obtain b c bs' where bs: "bs = b # c # bs'" by (metis Suc_le_length_iff add_2_eq_Suc' mult_Suc_right add.commute)
  have "to_be_bytes (from_be_bytes [b, c] :: u16) = [b, c]" by (rule to_from_be_bytes) simp
  with Suc bs show ?case by (simp add: units_at_Suc)
qed (simp add: units_at_def)

lemma unicode_decode_alt:
  "HLAunicodeString_decode buf =
     (if length buf < 4 then Inl (TruncatedData 4 (length buf))
      else let n = unat (from_be_bytes (take 4 buf) :: u32) in
        if length buf < 4 + n * 2 then Inl (TruncatedData (4 + n * 2) (length buf))
        else (case decode_utf16 (units_at n (drop 4 buf)) of None \<Rightarrow> Inl Utf16Error | Some s \<Rightarrow> Inr (s, 4 + n * 2)))"
proof -
  have "units_at n (drop 4 buf) = map (\<lambda>i. from_be_bytes [buf ! (4 + 2 * i), buf ! (5 + 2 * i)]) [0..<n]"
    if "4 + n * 2 \<le> length buf" for n
    using that by (auto simp: units_at_def add.commute intro!: arg_cong2 [where f = "\<lambda>b c. from_be_bytes [b, c]"])
  then show ?thesis by (simp add: HLAunicodeString_decode_def Let_def not_less)
qed

lemma length_encoded_units [simp]: "length (concat (map to_be_bytes (us :: u16 list))) = 2 * length us"
  by (induction us) simp_all

lemma unicode_read_back:
  assumes "representable_string s"
  shows "HLAunicodeString_decode (HLAunicodeString_encode_into s [] @ rest) = Inr (s, HLAunicodeString_encoded_length s)"
proof -
  let ?us = "encode_utf16 s"
  have "unat (of_nat (length ?us) :: u32) = length ?us" using assms by (simp add: representable_string_def unat_of_nat)
  moreover have "decode_utf16 ?us = Some s" using assms by (simp add: representable_string_def decode_encode_utf16)
  ultimately show ?thesis
    by (simp add: unicode_decode_alt HLAunicodeString_encode_into_def HLAunicodeString_encoded_length_def units_at_encoded
        mult.commute Let_def)
qed

lemma unicode_decoded:
  assumes "HLAunicodeString_decode buf = Inr (s, n)"
  shows "representable_string s \<and> n \<le> length buf \<and> n = HLAunicodeString_encoded_length s \<and>
    HLAunicodeString_encode_into s [] = take n buf"
proof -
  define k where "k = (from_be_bytes (take 4 buf) :: u32)"
  from assms have len: "4 \<le> length buf" "4 + unat k * 2 \<le> length buf" and n: "n = 4 + unat k * 2"
    and d: "decode_utf16 (units_at (unat k) (drop 4 buf)) = Some s"
    by (auto simp: unicode_decode_alt Let_def k_def split: if_splits option.splits)
  from encode_decode_utf16 [OF d] have e: "encode_utf16 s = units_at (unat k) (drop 4 buf)" "list_all is_scalar s" by auto
  then have l: "length (encode_utf16 s) = unat k" by (simp add: units_at_def)
  have "to_be_bytes k = take 4 buf" using len by (simp add: k_def)
  moreover have "concat (map to_be_bytes (encode_utf16 s)) = take (unat k * 2) (drop 4 buf)"
    using len e(1) units_at_bytes [of "unat k" "drop 4 buf"] by (simp add: mult.commute)
  ultimately have "HLAunicodeString_encode_into s [] = take n buf"
    using n l by (simp add: HLAunicodeString_encode_into_def Let_def take_add)
  moreover have "unat k < 2 ^ 32" using unsigned_less [of k, where ?'a = nat] by simp
  ultimately show ?thesis using len n l e(2)
    by (simp add: representable_string_def HLAunicodeString_encoded_length_def)
qed

interpretation unicode_string: data_element representable_string HLAunicodeString_encoded_length
  HLAunicodeString_encode_into HLAunicodeString_decode
proof
  fix buf rest s n
  show "HLAunicodeString_encode_into s buf = buf @ HLAunicodeString_encode_into s []"
    and "length (HLAunicodeString_encode_into s []) = HLAunicodeString_encoded_length s"
    by (simp_all add: HLAunicodeString_encode_into_def HLAunicodeString_encoded_length_def Let_def)
  show "representable_string s \<Longrightarrow>
      HLAunicodeString_decode (HLAunicodeString_encode_into s [] @ rest) = Inr (s, HLAunicodeString_encoded_length s)"
    by (rule unicode_read_back)
  assume r: "HLAunicodeString_decode buf = Inr (s, n)"
  then show "n \<le> length buf \<and> representable_string s" using unicode_decoded by blast
  show "HLAunicodeString_decode (take n buf @ rest) = Inr (s, n)"
    using unicode_decoded [OF r] unicode_read_back by metis
qed

lemma opaque_read_back:
  "HLAopaqueData_decode (HLAopaqueData_encode_into d [] @ rest) =
     Inr (take (length d mod 2 ^ 32) d, 4 + length d mod 2 ^ 32)"
proof -
  have "unat (of_nat (length d) :: u32) = length d mod 2 ^ 32" by (simp add: unat_of_nat)
  moreover have "length d mod 2 ^ 32 \<le> length d" by (rule mod_less_eq_dividend)
  ultimately show ?thesis
    by (simp add: HLAopaqueData_decode_def HLAopaqueData_encode_into_def Let_def slice_def trans_le_add1)
qed

interpretation opaque_data: data_element fits_u32 HLAopaqueData_encoded_length
  HLAopaqueData_encode_into HLAopaqueData_decode
proof
  fix buf rest d n
  show "HLAopaqueData_encode_into d buf = buf @ HLAopaqueData_encode_into d []"
    and "length (HLAopaqueData_encode_into d []) = HLAopaqueData_encoded_length d"
    by (simp_all add: HLAopaqueData_encode_into_def HLAopaqueData_encoded_length_def)
  show "fits_u32 d \<Longrightarrow> HLAopaqueData_decode (HLAopaqueData_encode_into d [] @ rest) = Inr (d, HLAopaqueData_encoded_length d)"
    by (simp add: opaque_read_back HLAopaqueData_encoded_length_def)
  define k where "k = (from_be_bytes (take 4 buf) :: u32)"
  have k: "unat k < 2 ^ 32" using unsigned_less [of k, where ?'a = nat] by simp
  assume r: "HLAopaqueData_decode buf = Inr (d, n)"
  then have n: "4 \<le> length buf" "n = 4 + unat k" "n \<le> length buf" "d = slice 4 n buf"
    by (auto simp: HLAopaqueData_decode_def Let_def k_def split: if_splits)
  then have d: "length d = unat k" by simp
  with n k show "n \<le> length buf \<and> fits_u32 d" by simp
  have "to_be_bytes (of_nat (length d) :: u32) = take 4 buf" using n by (simp add: d) (simp add: k_def)
  then have "HLAopaqueData_encode_into d [] = take n buf"
    using n by (simp add: HLAopaqueData_encode_into_def slice_def take_add)
  then show "HLAopaqueData_decode (take n buf @ rest) = Inr (d, n)"
    using opaque_read_back [of d rest] n k d by simp
qed

text \<open>C39. Unicode strings. A buffer decodes to a string exactly when it starts with the encoding of that string, the
  string consists of Unicode scalar values and its UTF-16 form has fewer than \<open>2^32\<close> code units; decoding
  consumes exactly the encoding. So every such string round-trips, unpaired surrogates are rejected and no
  two byte sequences stand for one string.\<close>

theorem unicode_string_codec:
  "HLAunicodeString_decode buf = Inr (s, n) \<longleftrightarrow>
     (\<exists>rest. buf = to_bytes HLAunicodeString_encode_into s @ rest) \<and> n = HLAunicodeString_encoded_length s \<and>
     list_all is_scalar s \<and> length (encode_utf16 s) < 2 ^ 32"
  (is "?l \<longleftrightarrow> ?r")
proof
  show ?r if ?l
    using unicode_decoded [OF that] by (metis append_take_drop_id representable_string_def to_bytes_def)
  show ?l if ?r
    using that unicode_read_back [of s] by (auto simp: representable_string_def to_bytes_def)
qed

text \<open>C40. Opaque data. What is read back from the encoding of a byte sequence, whatever follows it: the first \<open>k\<close>
  bytes, where \<open>k\<close> is the length modulo \<open>2^32\<close> because the length is written as 32 bits. The data
  round-trips exactly when it is shorter than \<open>2^32\<close> bytes.\<close>

theorem opaque_data_wraps:
  "HLAopaqueData_decode (to_bytes HLAopaqueData_encode_into d @ rest) =
     Inr (take (length d mod 2 ^ 32) d, 4 + length d mod 2 ^ 32) \<and>
   (HLAopaqueData_decode (to_bytes HLAopaqueData_encode_into d @ rest) = Inr (d, HLAopaqueData_encoded_length d)
      \<longleftrightarrow> length d < 2 ^ 32)"
proof -
  have "length d mod 2 ^ 32 < 2 ^ 32" by (rule mod_less_divisor) simp
  then have "length d \<le> length d mod 2 ^ 32 \<longleftrightarrow> length d < 2 ^ 32" by (auto intro: le_less_trans)
  then have "take (length d mod 2 ^ 32) d = d \<longleftrightarrow> length d < 2 ^ 32" by (simp only: take_all_iff)
  then show ?thesis unfolding to_bytes_def opaque_read_back HLAopaqueData_encoded_length_def
    by (metis Pair_inject mod_less sum.inject(2))
qed

end
