(* ===== verification/LogicalTime.thy ===== *)
theory LogicalTime
  imports Core
begin

text \<open>
  The logical times a federation may choose (\<^verbatim>\<open>crates/hla-core/src/time.rs\<close>): \<^verbatim>\<open>HlaFloat64Time\<close> and
  \<^verbatim>\<open>HlaFloat64Interval\<close> with the traits \<^verbatim>\<open>LogicalTime\<close> and \<^verbatim>\<open>LogicalTimeInterval\<close>. The two types are
  instances of \<^verbatim>\<open>Ord\<close> by \<^verbatim>\<open>f64::total_cmp\<close>, and here of \<open>linorder\<close>, whose laws are what \<^verbatim>\<open>Ord\<close> asks
  for.
\<close>

datatype Ordering = Less | Equal | Greater

datatype HlaFloat64Time = HlaFloat64Time f64
datatype HlaFloat64Interval = HlaFloat64Interval f64

text \<open>\<^verbatim>\<open>f64::total_cmp\<close>.\<close>

definition total_cmp :: "f64 \<Rightarrow> f64 \<Rightarrow> Ordering" where
  "total_cmp a b = (if total_order_key a < total_order_key b then Less
                    else if total_order_key a = total_order_key b then Equal else Greater)"

fun time_eq :: "HlaFloat64Time \<Rightarrow> HlaFloat64Time \<Rightarrow> bool" where
  "time_eq (HlaFloat64Time a) (HlaFloat64Time b) \<longleftrightarrow> a = b"

fun time_cmp :: "HlaFloat64Time \<Rightarrow> HlaFloat64Time \<Rightarrow> Ordering" where
  "time_cmp (HlaFloat64Time a) (HlaFloat64Time b) = total_cmp a b"

definition time_partial_cmp :: "HlaFloat64Time \<Rightarrow> HlaFloat64Time \<Rightarrow> Ordering option" where
  "time_partial_cmp a b = Some (time_cmp a b)"

fun time_add :: "HlaFloat64Time \<Rightarrow> HlaFloat64Interval \<Rightarrow> HlaFloat64Time" where
  "time_add (HlaFloat64Time t) (HlaFloat64Interval d) = HlaFloat64Time (f64_add t d)"

fun interval_eq :: "HlaFloat64Interval \<Rightarrow> HlaFloat64Interval \<Rightarrow> bool" where
  "interval_eq (HlaFloat64Interval a) (HlaFloat64Interval b) \<longleftrightarrow> a = b"

fun interval_cmp :: "HlaFloat64Interval \<Rightarrow> HlaFloat64Interval \<Rightarrow> Ordering" where
  "interval_cmp (HlaFloat64Interval a) (HlaFloat64Interval b) = total_cmp a b"

definition interval_partial_cmp :: "HlaFloat64Interval \<Rightarrow> HlaFloat64Interval \<Rightarrow> Ordering option" where
  "interval_partial_cmp a b = Some (interval_cmp a b)"

definition time_initial :: HlaFloat64Time where "time_initial = HlaFloat64Time 0"
definition time_final :: HlaFloat64Time where "time_final = HlaFloat64Time f64_infinity"
definition time_encoded_length :: nat where "time_encoded_length = 8"

fun time_encode :: "HlaFloat64Time \<Rightarrow> bytes" where
  "time_encode (HlaFloat64Time t) = to_be_bytes t"

datatype TimeCodecError = WrongLength nat nat

definition time_decode :: "bytes \<Rightarrow> TimeCodecError + HlaFloat64Time" where
  "time_decode bs = (if length bs \<noteq> 8 then Inl (WrongLength 8 (length bs)) else Inr (HlaFloat64Time (from_be_bytes bs)))"

definition interval_zero :: HlaFloat64Interval where "interval_zero = HlaFloat64Interval 0"
definition interval_epsilon :: HlaFloat64Interval where "interval_epsilon = HlaFloat64Interval 0x3CB0000000000000"

interpretation core_time: wire_codec time_encode time_decode
proof unfold_locales
  show "time_decode (time_encode t) = Inr t" for t by (cases t) (simp add: time_decode_def)
  show "time_encode t = bs" if "time_decode bs = Inr t" for bs t
    using that by (auto simp: time_decode_def split: if_splits)
qed

subsection \<open>The order\<close>

lemma total_cmp_simps:
  "total_cmp a b = Less \<longleftrightarrow> total_order_key a < total_order_key b"
  "total_cmp a b = Equal \<longleftrightarrow> a = b"
  "total_cmp a b = Greater \<longleftrightarrow> total_order_key b < total_order_key a"
  using total_order_key_inject [of a b] by (auto simp: total_cmp_def)

instantiation HlaFloat64Time :: linorder
begin

definition less_eq_HlaFloat64Time :: "HlaFloat64Time \<Rightarrow> HlaFloat64Time \<Rightarrow> bool" where
  "less_eq_HlaFloat64Time a b \<longleftrightarrow> time_cmp a b \<noteq> Greater"

definition less_HlaFloat64Time :: "HlaFloat64Time \<Rightarrow> HlaFloat64Time \<Rightarrow> bool" where
  "less_HlaFloat64Time a b \<longleftrightarrow> time_cmp a b = Less"

instance
proof
  fix x y z :: HlaFloat64Time
  show "x \<le> z" if "x \<le> y" "y \<le> z"
    using that by (cases x; cases y; cases z; auto simp: less_eq_HlaFloat64Time_def total_cmp_simps)
  show "x < y \<longleftrightarrow> x \<le> y \<and> \<not> y \<le> x" "x \<le> x" "x \<le> y \<or> y \<le> x"
    by (cases x; cases y; auto simp: less_eq_HlaFloat64Time_def less_HlaFloat64Time_def total_cmp_simps)+
  show "x = y" if "x \<le> y" "y \<le> x"
    using that by (cases x; cases y; auto simp: less_eq_HlaFloat64Time_def total_cmp_simps total_order_key_inject [symmetric])
qed

end

instantiation HlaFloat64Interval :: linorder
begin

definition less_eq_HlaFloat64Interval :: "HlaFloat64Interval \<Rightarrow> HlaFloat64Interval \<Rightarrow> bool" where
  "less_eq_HlaFloat64Interval a b \<longleftrightarrow> interval_cmp a b \<noteq> Greater"

definition less_HlaFloat64Interval :: "HlaFloat64Interval \<Rightarrow> HlaFloat64Interval \<Rightarrow> bool" where
  "less_HlaFloat64Interval a b \<longleftrightarrow> interval_cmp a b = Less"

instance
proof
  fix x y z :: HlaFloat64Interval
  show "x \<le> z" if "x \<le> y" "y \<le> z"
    using that by (cases x; cases y; cases z; auto simp: less_eq_HlaFloat64Interval_def total_cmp_simps)
  show "x < y \<longleftrightarrow> x \<le> y \<and> \<not> y \<le> x" "x \<le> x" "x \<le> y \<or> y \<le> x"
    by (cases x; cases y; auto simp: less_eq_HlaFloat64Interval_def less_HlaFloat64Interval_def total_cmp_simps)+
  show "x = y" if "x \<le> y" "y \<le> x"
    using that by (cases x; cases y; auto simp: less_eq_HlaFloat64Interval_def total_cmp_simps total_order_key_inject [symmetric])
qed

end

lemma numbers_cmp:
  assumes "\<not> f64_is_nan x" "\<not> f64_is_nan y"
  shows "total_cmp x y = Less \<longleftrightarrow> f64_lt x y \<or> f64_eq x y \<and> f64_neg x \<and> \<not> f64_neg y"
  using assms by (auto simp: total_cmp_simps total_order_key_eq f64_lt_code f64_eq_code f64_signmag_def)

lemma nan_cmp:
  assumes "\<not> f64_is_nan x" "f64_is_nan n"
  shows "total_cmp n x = (if f64_neg n then Less else Greater)"
proof -
  have "f64_mag x \<le> inf_mag" "inf_mag < f64_mag n" using assms by (simp_all add: f64_is_nan_def)
  then show ?thesis by (simp add: total_cmp_def total_order_key_eq)
qed

subsection \<open>Properties\<close>

text \<open>C28. The order of logical times. \<^verbatim>\<open>cmp\<close> is a linear order: it answers \<^verbatim>\<open>Equal\<close> exactly where \<^verbatim>\<open>eq\<close> holds, which is
  for the same bit pattern; swapping the operands swaps \<^verbatim>\<open>Less\<close> and \<^verbatim>\<open>Greater\<close>; it is transitive. On two numbers (neither is a NaN)
  it answers \<^verbatim>\<open>Less\<close> exactly where the first is numerically less, and for the negative zero before the positive one. A NaN with the sign bit set
  comes before every number and one without it after every number, so that exactly the latter come after the final time, and
  \<^verbatim>\<open>partial_cmp\<close> always answers, with what \<^verbatim>\<open>cmp\<close> does. Every time encodes to eight bytes that decode to it.\<close>

theorem time_cmp_linear:
  "(time_cmp a b = Equal \<longleftrightarrow> time_eq a b) \<and> (time_eq a b \<longleftrightarrow> a = b) \<and>
   (time_cmp a b = Less \<longleftrightarrow> time_cmp b a = Greater) \<and>
   (time_cmp a b \<noteq> Greater \<and> time_cmp b c \<noteq> Greater \<longrightarrow> time_cmp a c \<noteq> Greater) \<and>
   (time_cmp a b = Less \<and> time_cmp b c \<noteq> Greater \<or> time_cmp a b \<noteq> Greater \<and> time_cmp b c = Less \<longrightarrow> time_cmp a c = Less) \<and>
   time_partial_cmp a b = Some (time_cmp a b) \<and>
   (\<not> f64_is_nan x \<and> \<not> f64_is_nan y \<longrightarrow>
      (time_cmp (HlaFloat64Time x) (HlaFloat64Time y) = Less \<longleftrightarrow> f64_lt x y \<or> f64_eq x y \<and> f64_neg x \<and> \<not> f64_neg y)) \<and>
   (\<not> f64_is_nan x \<and> f64_is_nan n \<longrightarrow>
      time_cmp (HlaFloat64Time n) (HlaFloat64Time x) = (if f64_neg n then Less else Greater)) \<and>
   (time_cmp time_final (HlaFloat64Time z) = Less \<longleftrightarrow> f64_is_nan z \<and> \<not> f64_neg z) \<and>
   length (time_encode a) = time_encoded_length \<and> time_decode (time_encode a) = Inr a"
proof -
  have "time_cmp a b = Equal \<longleftrightarrow> time_eq a b" "time_eq a b \<longleftrightarrow> a = b" "time_cmp a b = Less \<longleftrightarrow> time_cmp b a = Greater"
    by (cases a; cases b; simp add: total_cmp_simps)+
  moreover have "time_cmp a c \<noteq> Greater" if "time_cmp a b \<noteq> Greater" "time_cmp b c \<noteq> Greater"
    using that by (cases a; cases b; cases c) (simp add: total_cmp_simps)
  moreover have "time_cmp a c = Less"
    if "time_cmp a b = Less \<and> time_cmp b c \<noteq> Greater \<or> time_cmp a b \<noteq> Greater \<and> time_cmp b c = Less"
    using that by (cases a; cases b; cases c) (auto simp: total_cmp_simps)
  moreover have "time_cmp time_final (HlaFloat64Time z) = Less \<longleftrightarrow> f64_is_nan z \<and> \<not> f64_neg z"
    by (auto simp: time_final_def total_cmp_simps total_order_key_eq f64_is_nan_def)
  moreover have "length (time_encode a) = time_encoded_length" by (cases a) (simp add: time_encoded_length_def)
  ultimately show ?thesis
    using numbers_cmp [of x y] nan_cmp [of x n] by (simp add: time_partial_cmp_def core_time.dec_enc)
qed

theorem time_cmp_linear_witness:
  "f64_lt 0 0x3FF0000000000000 \<and> time_cmp time_initial (HlaFloat64Time 0x3FF0000000000000) = Less \<and>
   time_cmp (HlaFloat64Time 0x8000000000000000) time_initial = Less \<and>
   time_cmp (HlaFloat64Time 0x8000000000000000) (HlaFloat64Time 0x3FF0000000000000) = Less \<and>
   f64_is_nan 0x7FF8000000000000 \<and> time_cmp (HlaFloat64Time 0x7FF8000000000000) time_initial = Greater"
proof -
  have lt: "f64_lt 0 0x3FF0000000000000" by (simp add: f64_lt_def f64_samples)
  have n: "\<not> f64_is_nan 0" "\<not> f64_is_nan 0x3FF0000000000000" "f64_is_nan 0x7FF8000000000000" "\<not> f64_neg 0x7FF8000000000000"
    by (simp_all add: f64_is_nan_def f64_neg_def f64_mag_def inf_mag_def)
  have z: "time_cmp (HlaFloat64Time 0x8000000000000000) time_initial = Less"
    by (simp add: total_cmp_def time_initial_def total_order_key_eq f64_neg_def f64_mag_def)
  note w = time_cmp_linear [where x = 0 and y = "0x3FF0000000000000" and n = "0x7FF8000000000000"
      and a = "HlaFloat64Time 0x8000000000000000" and b = time_initial and c = "HlaFloat64Time 0x3FF0000000000000"]
  have one: "time_cmp time_initial (HlaFloat64Time 0x3FF0000000000000) = Less"
    and nan: "time_cmp (HlaFloat64Time 0x7FF8000000000000) time_initial = Greater"
    using w lt n unfolding time_initial_def by auto
  then have "time_cmp (HlaFloat64Time 0x8000000000000000) (HlaFloat64Time 0x3FF0000000000000) = Less"
    using w z by (metis Ordering.distinct(3))
  then show ?thesis using lt n z one nan by blast
qed

end
