(* ===== verification/Federate_Trait.thy ===== *)
theory Federate_Trait
  imports Connect
begin

text \<open>
  The trait \<open>FederateAmbassador\<close> itself (crate \<open>hla-federate\<close>, \<open>callbacks.rs\<close>): a federate is what it does to its state for each
  method, the default bodies do nothing, and the blanket implementation for \<open>Arc\<close> forwards each method to the
  federate it points to.
\<close>

type_synonym 's federate = "FederateCall \<Rightarrow> 's \<Rightarrow> 's"

text \<open>Every method of the trait has the default body \<^verbatim>\<open>async {}\<close>.\<close>

definition default_method :: "'s federate" where
  "default_method m s = s"

text \<open>An implementation that overrides some methods keeps the default bodies of the others.\<close>

definition overriding :: "(FederateCall \<Rightarrow> ('s \<Rightarrow> 's) option) \<Rightarrow> 's federate" where
  "overriding own m = (case own m of Some f \<Rightarrow> f | None \<Rightarrow> default_method m)"

text \<open>\<^verbatim>\<open>impl<T: FederateAmbassador> FederateAmbassador for Arc<T>\<close>.\<close>

fun arc_impl :: "'s federate \<Rightarrow> 's federate" where
  "arc_impl inner (fa_discover_object_instance u v w x) = inner (fa_discover_object_instance u v w x)"
| "arc_impl inner (fa_reflect_attribute_values u v w x) = inner (fa_reflect_attribute_values u v w x)"
| "arc_impl inner (fa_receive_interaction u v w x) = inner (fa_receive_interaction u v w x)"
| "arc_impl inner (fa_remove_object_instance u v w) = inner (fa_remove_object_instance u v w)"
| "arc_impl inner (fa_time_regulation_enabled u) = inner (fa_time_regulation_enabled u)"
| "arc_impl inner (fa_time_constrained_enabled u) = inner (fa_time_constrained_enabled u)"
| "arc_impl inner (fa_time_advance_grant u) = inner (fa_time_advance_grant u)"
| "arc_impl inner (fa_inform_attribute_ownership u v w) = inner (fa_inform_attribute_ownership u v w)"
| "arc_impl inner (fa_report_federation_executions u) = inner (fa_report_federation_executions u)"
| "arc_impl inner (fa_report_federation_execution_members u v) = inner (fa_report_federation_execution_members u v)"
| "arc_impl inner (fa_report_federation_execution_does_not_exist u) = inner (fa_report_federation_execution_does_not_exist u)"
| "arc_impl inner (fa_initiate_federate_save u) = inner (fa_initiate_federate_save u)"
| "arc_impl inner fa_federation_saved = inner fa_federation_saved"
| "arc_impl inner (fa_federation_not_saved u) = inner (fa_federation_not_saved u)"
| "arc_impl inner (fa_request_federation_restore_succeeded u) = inner (fa_request_federation_restore_succeeded u)"
| "arc_impl inner (fa_request_federation_restore_failed u) = inner (fa_request_federation_restore_failed u)"
| "arc_impl inner fa_federation_restore_begun = inner fa_federation_restore_begun"
| "arc_impl inner (fa_initiate_federate_restore u v w) = inner (fa_initiate_federate_restore u v w)"
| "arc_impl inner fa_federation_restored = inner fa_federation_restored"
| "arc_impl inner (fa_federation_not_restored u) = inner (fa_federation_not_restored u)"
| "arc_impl inner (fa_attribute_is_not_owned u v) = inner (fa_attribute_is_not_owned u v)"
| "arc_impl inner (fa_attribute_ownership_acquisition_notification u v w) = inner (fa_attribute_ownership_acquisition_notification u v w)"
| "arc_impl inner (fa_attribute_ownership_unavailable u v w) = inner (fa_attribute_ownership_unavailable u v w)"
| "arc_impl inner (fa_synchronization_point_registration_succeeded u) = inner (fa_synchronization_point_registration_succeeded u)"
| "arc_impl inner (fa_synchronization_point_registration_failed u v) = inner (fa_synchronization_point_registration_failed u v)"
| "arc_impl inner (fa_announce_synchronization_point u v) = inner (fa_announce_synchronization_point u v)"
| "arc_impl inner (fa_federation_synchronized u v) = inner (fa_federation_synchronized u v)"
| "arc_impl inner (fa_reflect_attribute_values_with_time u v w x y) = inner (fa_reflect_attribute_values_with_time u v w x y)"
| "arc_impl inner (fa_receive_interaction_with_time u v w x y) = inner (fa_receive_interaction_with_time u v w x y)"
| "arc_impl inner (fa_remove_object_instance_with_time u v w x) = inner (fa_remove_object_instance_with_time u v w x)"
| "arc_impl inner (fa_object_instance_name_reservation_failed u) = inner (fa_object_instance_name_reservation_failed u)"
| "arc_impl inner (fa_multiple_object_instance_name_reservation_succeeded u) = inner (fa_multiple_object_instance_name_reservation_succeeded u)"
| "arc_impl inner (fa_multiple_object_instance_name_reservation_failed u) = inner (fa_multiple_object_instance_name_reservation_failed u)"
| "arc_impl inner (fa_start_registration_for_object_class u) = inner (fa_start_registration_for_object_class u)"
| "arc_impl inner (fa_stop_registration_for_object_class u) = inner (fa_stop_registration_for_object_class u)"
| "arc_impl inner (fa_turn_interactions_on u) = inner (fa_turn_interactions_on u)"
| "arc_impl inner (fa_turn_interactions_off u) = inner (fa_turn_interactions_off u)"
| "arc_impl inner (fa_turn_updates_on_for_object_instance u v) = inner (fa_turn_updates_on_for_object_instance u v)"
| "arc_impl inner (fa_turn_updates_off_for_object_instance u v) = inner (fa_turn_updates_off_for_object_instance u v)"
| "arc_impl inner (fa_attributes_in_scope u v) = inner (fa_attributes_in_scope u v)"
| "arc_impl inner (fa_attributes_out_of_scope u v) = inner (fa_attributes_out_of_scope u v)"
| "arc_impl inner (fa_provide_attribute_value_update u v w) = inner (fa_provide_attribute_value_update u v w)"
| "arc_impl inner (fa_request_attribute_ownership_assumption u v w) = inner (fa_request_attribute_ownership_assumption u v w)"
| "arc_impl inner (fa_request_attribute_ownership_release u v w) = inner (fa_request_attribute_ownership_release u v w)"
| "arc_impl inner (fa_request_divestiture_confirmation u v w) = inner (fa_request_divestiture_confirmation u v w)"
| "arc_impl inner (fa_attribute_is_owned_by_rti u v) = inner (fa_attribute_is_owned_by_rti u v)"
| "arc_impl inner (fa_confirm_attribute_ownership_acquisition_cancellation u v) = inner (fa_confirm_attribute_ownership_acquisition_cancellation u v)"
| "arc_impl inner (fa_request_retraction u) = inner (fa_request_retraction u)"
| "arc_impl inner (fa_flush_queue_grant u v) = inner (fa_flush_queue_grant u v)"
| "arc_impl inner (fa_initiate_federate_save_with_time u v) = inner (fa_initiate_federate_save_with_time u v)"
| "arc_impl inner fa_federation_save_status_response = inner fa_federation_save_status_response"
| "arc_impl inner fa_federation_restore_status_response = inner fa_federation_restore_status_response"
| "arc_impl inner (fa_connection_lost u) = inner (fa_connection_lost u)"
| "arc_impl inner (fa_federate_resigned u) = inner (fa_federate_resigned u)"
| "arc_impl inner (fa_report_attribute_transportation_type u v w) = inner (fa_report_attribute_transportation_type u v w)"
| "arc_impl inner (fa_report_interaction_transportation_type u v w) = inner (fa_report_interaction_transportation_type u v w)"
| "arc_impl inner (fa_raw_callback u) = inner (fa_raw_callback u)"

text \<open>The pump awaits each method before it reads on, so the methods of a connection run one after the other.\<close>

definition reacts :: "'s federate \<Rightarrow> FederateCall list \<Rightarrow> 's \<Rightarrow> 's" where
  "reacts fed calls = fold fed calls"

lemma arc_impl_inner: "arc_impl inner = inner"
proof
  show "arc_impl inner m = inner m" for m by (cases m) simp_all
qed

lemma arc_reacts: "reacts (arc_impl inner) calls = reacts inner calls"
  by (simp add: arc_impl_inner)

lemma reacts_append: "reacts fed (a @ b) s = reacts fed b (reacts fed a s)"
  by (simp add: reacts_def)

text \<open>Methods a federate does not override leave its state alone.\<close>

lemma reacts_overridden:
  "reacts (overriding own) calls s = reacts (overriding own) (filter (\<lambda>m. own m \<noteq> None) calls) s"
  by (induction calls arbitrary: s) (auto simp: reacts_def overriding_def default_method_def)

end
