(* ===== verification/Spec2Isabelle.thy ===== *)
theory Spec2Isabelle
  imports Server_Spec Scenario Encoding LogicalTime Federate_Trait
begin

text \<open>
  A verification of \<^verbatim>\<open>hla4-rs\<close>, an implementation of the High Level Architecture (IEEE 1516) in Rust. Paths below are
  those of \<^verbatim>\<open>src/crates\<close>.

  \<^bold>\<open>The program.\<close> Federates connect to a server (\<^verbatim>\<open>hla-rti\<close>) over TCP, TLS or WebSocket. Both sides exchange the
  frames of \<^verbatim>\<open>hla-wire\<close>. A federate calls methods of the ambassador of \<^verbatim>\<open>hla-federate\<close>; a method is a request frame, which the
  session loop of the server hands to the dispatcher; the dispatcher runs the handler of the service on the federation of
  the caller; the handler answers and issues callbacks to other federates, which become frames on their connections, and which the
  pump of each ambassador turns into methods of the federate's own code. The classes, attributes and interactions come from
  the object models that \<^verbatim>\<open>hla-omt\<close> parses and merges; \<^verbatim>\<open>hla-core\<close> has handles and times, and \<^verbatim>\<open>hla-encoding\<close> the data types.

  \<^bold>\<open>Theories and sources.\<close>
  \<^item> \<open>Prelude\<close>, \<open>Bytes\<close>, \<open>Float64\<close>: machine integers as words, \<^verbatim>\<open>HashMap\<close> as an association list with distinct keys (\<open>hmap\<close>)
    and \<^verbatim>\<open>HashSet\<close> as a distinct list, loops with errors (\<open>try_map\<close>, \<open>try_fold\<close>), big-endian bytes, and \<^verbatim>\<open>f64\<close> on its bit pattern.
  \<^item> \<open>Framing\<close>, \<open>Session\<close>: \<^verbatim>\<open>hla-wire\<close> (\<^verbatim>\<open>framing.rs\<close>, \<^verbatim>\<open>codec.rs\<close>, \<^verbatim>\<open>ws.rs\<close>; \<^verbatim>\<open>session.rs\<close>, \<^verbatim>\<open>call.rs\<close>, \<^verbatim>\<open>transport.rs\<close>). The two
    transports are instances of the locale \<open>frame_transport\<close>, the decoder one of \<open>incremental_decoder\<close>.
  \<^item> \<open>Core\<close>, \<open>LogicalTime\<close>: \<^verbatim>\<open>hla-core\<close> and the wire form of handles and times (\<^verbatim>\<open>hla-rti/src/handles.rs\<close>, \<^verbatim>\<open>exception.rs\<close>).
  \<^item> \<open>Fom\<close>, \<open>Fom_Merge\<close>, \<open>Fom_Props\<close>: \<^verbatim>\<open>hla-omt\<close>.
  \<^item> \<open>Subscriptions\<close>, \<open>Callbacks\<close>, \<open>Federation\<close>: the subscription matrix, the callback messages, and the state of a federation
    with the routing of callbacks (\<^verbatim>\<open>hla-rti/src/lib.rs\<close>, \<^verbatim>\<open>routing.rs\<close>).
  \<^item> \<open>TimeMgmt\<close>, \<open>Declaration\<close>, \<open>ObjectMgmt\<close>, \<open>DataFlow\<close>, \<open>Ownership\<close>, \<open>SyncPoints\<close>, \<open>SaveRestore\<close>, \<open>Regions\<close>, \<open>Lookup\<close>, \<open>FederationMgmt\<close>:
    the handlers of \<^verbatim>\<open>hla-rti/src/dispatch\<close>, with \<^verbatim>\<open>time.rs\<close>, \<^verbatim>\<open>persistence.rs\<close>, \<^verbatim>\<open>session.rs\<close> and \<^verbatim>\<open>metrics.rs\<close>. A handler is a function of the
    caller and the federation (\<open>'a step\<close>): the new federation, the callbacks, and a value or an exception.
  \<^item> \<open>Dispatch\<close>: \<^verbatim>\<open>dispatch_call\<close> of \<^verbatim>\<open>dispatch/mod.rs\<close>, every arm. \<^verbatim>\<open>Arc<Federation>\<close> is an address into \<open>fed_heap\<close>, so that a session keeps its
    federation when it is destroyed.
  \<^item> \<open>Server\<close>: the rest of \<^verbatim>\<open>hla-rti/src/lib.rs\<close>. A state has the node, the channels of the connections and a task for each of them;
    \<open>server_event\<close> is what an \<open>Occurrence\<close> does (an accept, a first frame, a later frame, a timeout or a disconnection, a tick of the janitor and so on),
    \<open>server_step\<close> any of them, for any number of connections in any order, and \<open>server_run\<close> the states that are reached.
  \<^item> \<open>Ambassador\<close>, \<open>Pump\<close>, \<open>Connect\<close>, \<open>Federate_Trait\<close>: \<^verbatim>\<open>hla-federate\<close>. A method is its request with the reading of its response (\<open>ApiCall\<close>); the
    ambassador is the record \<open>Inner\<close>; \<open>pump_loop\<close> reads frames until the source fails, and is a partial function.
  \<^item> \<open>Encoding\<close>: \<^verbatim>\<open>hla-encoding\<close>; its types are instances of the locale \<open>data_element\<close>.

  \<^bold>\<open>What is shown.\<close>
  \<^item> Wire: the decoder finds exactly the frames that were encoded, however the bytes are cut into pieces, and agrees with the
    reader of whole frames; sequence numbers cycle below 2^31; the handles and times on the wire read back; logical times are linearly ordered.
  \<^item> Object models: a merge returns exactly the classes that the modules declare and that hang on a root, with their attributes or parameters and
    with names and handles in bijection, or reports a conflict that there is; the inheritance walk ends.
  \<^item> Services (\<open>Flow_Props\<close>, \<open>Time_Props\<close>, \<open>Tso\<close>, \<open>Ownership\<close>, \<open>SyncPoints\<close>, \<open>Save_Props\<close>, \<open>Region_Props\<close>): who receives what, that the granting of time
    advances reaches a fixpoint and respects the lower bound, the order of the queues, that saves and synchronization complete.
  \<^item> Dispatcher (\<open>Service_Props\<close>, \<open>Dispatch_Props\<close>): every call returns, and one outside federation management changes only the caller's federation.
  \<^item> Server (\<open>Server_Inv\<close>, \<open>Server_Props\<close>, \<open>Server_Members\<close>, \<open>Server_Spec\<close>): an invariant of every step, by which sessions and federates
    correspond one to one, and the refinement of a specification of the life of a session: each event moves each session by the one step
    (\<open>session_step\<close>) that the specification has for it.
  \<^item> Federate (\<open>Ambassador_Props\<close>, \<open>Client_Props\<close>, \<open>Connect\<close>): every method can read every answer of the dispatcher; every call gets the answer to
    itself, or learns that the connection has ended; one made after the end waits until the federate disconnects.
  \<^item> The whole (\<open>Delivery\<close>, \<open>Scenario\<close> and below): callbacks arrive in order, and an update reaches the methods of exactly the
    federates it is for. \<open>Scenario\<close> runs two federates through the server to a state where this applies.

  \<^bold>\<open>Parameters.\<close> Code that is not in the repository is an argument: the protobuf encoders and decoders (\<open>Lib\<close> for the server, \<open>FedLib\<close> for the
  federate), the XML deserializer (\<open>lib_from_str\<close>), the JSON of snapshots (\<open>Serde\<close>), and the opening of sockets
  (arguments of \<open>connect\<close>, \<open>connect_tls\<close> and \<open>connect_ws\<close>). The file system is a table of files, some of which fail (\<open>Disk\<close>). Where a property needs the decoder to read what the encoder wrote, this is a
  hypothesis (\<open>wire_agrees\<close>), and a witness shows it for concrete functions.

  \<^bold>\<open>Bounds.\<close> The invariant of the server is shown for runs of fewer than 2^32 - 2 events, because the counters of federates are 32 bits
  wide and wrap; a call is matched with its answer for up to 2^31 - 1 later calls, after which sequence numbers are used again. The
  fuel of the FOM merge and of the inheritance walk is the number of classes, which is shown to be enough when the handles
  fit into 32 bits. The granting recursion of \<open>TimeMgmt\<close> has no fuel: it ends because the number of pending advances goes down.

  \<^bold>\<open>Abstractions.\<close> An event of the server is handled atomically, and so is a call: the locks that the handlers take one after the other are
  not represented. The channels hold any number of frames (the source waits at 128). Times are milliseconds. A session that ends
  is suspended and unregistered in one step, so a resume between the two is not represented. Request fields that no handler reads, callback fields
  that no handler sets, and log messages are left out, as are the position in the message about a FOM module that is not UTF-8 and the creation of the
  directory for snapshots; a write that fails leaves the files as they were. The heartbeats of a connection whose writer is gone
  go on taking sequence numbers, where the task of the source stops.

  \<^bold>\<open>Not modelled.\<close>
  \<^item> \<^verbatim>\<open>hla-core/src/error.rs\<close>: error enumerations that have no operations and that the other crates do not use.
  \<^item> \<^verbatim>\<open>hla-cli/src/main.rs\<close>: reading of the command line and start of the process.
  \<^item> \<^verbatim>\<open>hla-fedpro-proto\<close>: code that is generated from the protobuf schema by the build.
  \<^item> \<^verbatim>\<open>bind\<close> and \<^verbatim>\<open>run\<close> of the node (listening sockets), \<^verbatim>\<open>set_save_dir\<close> (a path), the accessors \<^verbatim>\<open>_testing_*\<close>, the metrics snapshot (a copy of
    the counters), the aborting of tasks when an ambassador is dropped, and the alignment constants of \<^verbatim>\<open>hla-encoding\<close>, which nothing reads.
\<close>

subsection \<open>Properties that span the server and the federates\<close>

text \<open>C9. Callbacks arrive, and arrive in order. When the server has handled a call, the frames it has put on the channel
  of any connection whose writer runs are, in this order: the response, if the connection is the caller's own, and then
  one frame for each callback the handlers addressed to that connection, in the order they issued them, with
  consecutive sequence numbers. If the federate's decoder reads those callbacks as they were encoded, the
  methods that its pump invokes for the frames are those of the callbacks, in the same order; the response invokes none.\<close>

theorem callbacks_arrive_in_order:
  assumes "handle_call_request slib f ctx node hs = Some (node', hs', ctx', True)"
    and "lib_decode_request slib (payload f) = Inr req"
    and "map_of hs sid = Some h" and "\<not> ch_writer_gone h" and "unat (ch_next_outbound_seq h) < 2 ^ 31"
  shows "\<exists>node2 cbs r h' fs.
    dispatch_call (lib_from_str slib) (lib_serde slib) (counted_call node) ctx req = Some (node2, ctx', cbs, r) \<and>
    map_of hs' sid = Some h' \<and>
    ch_frames h' = ch_frames h @
      (if sid = sc_session_id ctx then [call_response_frame slib sid (sequence_number (header f)) r] else []) @ fs \<and>
    length fs = length (to_connection sid cbs) \<and>
    map (\<lambda>g. unat (sequence_number (header g))) fs = map (\<lambda>j. (unat (ch_next_outbound_seq h) + j) mod 2 ^ 31) [0..<length fs] \<and>
    ((\<forall>c\<in>set (to_connection sid cbs). wire_agrees slib flib c) \<longrightarrow>
       concat (map (invoked flib) (drop (length (ch_frames h)) (ch_frames h'))) =
       concat (map (\<lambda>c. dispatch_callback (Some (FromRti c))) (to_connection sid cbs)))"
proof -
  from handled_call [OF assms(1-4)] obtain node2 cbs r h' where d:
    "dispatch_call (lib_from_str slib) (lib_serde slib) (counted_call node) ctx req = Some (node2, ctx', cbs, r)"
    "map_of hs' sid = Some h'"
    "ch_frames h' = ch_frames h @ (if sid = sc_session_id ctx then [call_response_frame slib sid (sequence_number (header f)) r] else []) @
       queued slib sid (ch_next_outbound_seq h) (to_connection sid cbs)" by blast
  show ?thesis
    by (intro exI [of _ node2] exI [of _ cbs] exI [of _ r] exI [of _ h'] exI [of _ "queued slib sid (ch_next_outbound_seq h) (to_connection sid cbs)"])
      (simp add: d queued_numbers [OF assms(5)] invoked_queued invoked_response)
qed

theorem callbacks_arrive_in_order_witness:
  "\<exists>node node' hs' h'. handle_call_request pair_lib (call_frame [6]) (sl_ctx (pair_session 0)) node pair_channels =
       Some (node', hs', sl_ctx (pair_session 0), True) \<and>
     map_of pair_channels 2 = Some new_channel \<and> map_of hs' 2 = Some h' \<and> length (ch_frames h') = 1 \<and>
     concat (map (invoked reflect_lib) (ch_frames h')) = [fa_reflect_attribute_values 1 [(1, [9])] [7] (Some 1)]"
proof -
  obtain sv where sv: "ready registered_fed sv" using pair_registered by blast
  then have "ready registered_fed (sv\<lparr>sv_handles := pair_channels\<rparr>)" by (simp add: ready_def live_channels_def pair_channels_def new_channel_def)
  from pair_sends_update [OF this, simplified] obtain node' hs' where
    c: "handle_call_request pair_lib (call_frame [6]) (sl_ctx (pair_session 0)) (sv_node sv) pair_channels =
      Some (node', hs', sl_ctx (pair_session 0), True)" by blast
  have h: "map_of pair_channels 2 = Some new_channel" "\<not> ch_writer_gone new_channel" "unat (ch_next_outbound_seq new_channel) < 2 ^ 31"
    by (simp_all add: pair_channels_def new_channel_def)
  have own: "sc_session_id (sl_ctx (pair_session 0)) = 1" "ch_frames new_channel = []" by (simp_all add: pair_session_def new_channel_def)
  have n: "connections (counted_call (sv_node sv)) = [1, 2]" "fed_heap (counted_call (sv_node sv)) 0 = registered_fed"
    using sv by (simp_all add: ready_def counted_call_def)
  from pair_update_dispatched [OF n] pair_update obtain node2 r where
    d: "dispatch_call (lib_from_str pair_lib) (lib_serde pair_lib) (counted_call (sv_node sv)) (sl_ctx (pair_session 0)) (Some pair_update_request) =
      Some (node2, sl_ctx (pair_session 0), [\<lparr>target = 2, cb = reflect_attribute_values 1 [(1, [9])] [7] 1\<rparr>], r)" by blast
  have t: "to_connection 2 [\<lparr>target = 2, cb = reflect_attribute_values 1 [(1, [9])] [7] 1\<rparr>] = [reflect_attribute_values 1 [(1, [9])] [7] 1]"
    by (simp add: to_connection_def)
  from callbacks_arrive_in_order [OF c pair_update_decoded h, of reflect_lib, unfolded own d] c h(1) show ?thesis
    by (auto simp: t reflect_lib_agrees reflect_invokes)
qed

text \<open>C4. An update arrives at every subscriber and at nobody else. In every state the server reaches, let a session send an
  \<^verbatim>\<open>UpdateAttributeValuesRequest\<close> whose handler succeeds, and take any session of the same federation. The frames that
  handling the request adds to the channel of that session make the pump at its other end invoke the following, and nothing more:
  if the session's federate is another one than the sender, subscribes to one of the attributes for the class of
  the instance or for an ancestor and its regions overlap, \<^verbatim>\<open>reflect_attribute_values\<close> with the instance, the decoded
  values, the tag and the sender, after \<^verbatim>\<open>discover_object_instance\<close> if it had not discovered the instance; if
  not, no method at all.\<close>

theorem update_arrives:
  assumes "server_run slib n sv" and "n < 2 ^ 32 - 2"
    and "map_of (sv_tasks sv) k = Some t" and "tk_phase t = InSession sl" and "membership (sl_ctx sl) = Some m"
    and "message_type (header f) = HlaCallRequest"
    and "lib_decode_request slib (payload f) = Inr (Some (ObjectCall (UpdateAttributeValues inst_h values tag)))"
    and "session_frame slib (sv_now sv) f sl (sv_node sv) (sv_handles sv) = Some (node', hs', sl', True)"
    and "update_attribute_values (connections (sv_node sv)) (mb_federate_handle m) inst_h values tag
           (fed_heap (sv_node sv) (mb_federation m)) = (fed', cbs, Inr ())"
    and "(sid, m') \<in> running (sv_tasks sv)" and "mb_federation m' = mb_federation m"
    and "map_of (sv_handles sv) sid = Some h" and "\<not> ch_writer_gone h"
    and "\<forall>c\<in>set (to_connection sid cbs). wire_agrees slib flib c"
  shows "\<exists>inst vs i h' fs. Option.bind inst_h (\<lambda>h. ok (decode_object_instance h)) = Some inst \<and>
    decode_attribute_value_map values = Inr vs \<and>
    map_of (object_instances (fed_heap (sv_node sv) (mb_federation m))) inst = Some i \<and>
    map_of hs' sid = Some h' \<and> ch_frames h' = ch_frames h @ fs \<and>
    concat (map (invoked flib) fs) =
      (if mb_federate_handle m' \<in> recipients (fed_heap (sv_node sv) (mb_federation m)) i (set (hkeys vs)) (mb_federate_handle m)
       then (if undiscovered (fed_heap (sv_node sv) (mb_federation m)) inst (mb_federate_handle m')
             then [fa_discover_object_instance inst (oi_class i) (oi_name i) (Some (mb_federate_handle m))] else []) @
            [fa_reflect_attribute_values inst vs tag (Some (mb_federate_handle m))]
       else [])"
proof -
  from update_invokes [OF assms(1,2,10,11) refl assms(9)] obtain inst vs i where u:
    "Option.bind inst_h (\<lambda>h. ok (decode_object_instance h)) = Some inst" "decode_attribute_value_map values = Inr vs"
    "map_of (object_instances (fed_heap (sv_node sv) (mb_federation m))) inst = Some i"
    and inv: "concat (map (\<lambda>r. dispatch_callback (Some (FromRti r))) (to_connection sid cbs)) =
      (if mb_federate_handle m' \<in> recipients (fed_heap (sv_node sv) (mb_federation m)) i (set (hkeys vs)) (mb_federate_handle m)
       then (if undiscovered (fed_heap (sv_node sv) (mb_federation m)) inst (mb_federate_handle m')
             then [fa_discover_object_instance inst (oi_class i) (oi_name i) (Some (mb_federate_handle m))] else []) @
            [fa_reflect_attribute_values inst vs tag (Some (mb_federate_handle m))]
       else [])" by blast
  obtain ctx' where call: "handle_call_request slib f (sl_ctx sl) (sv_node sv) (sv_handles sv) = Some (node', hs', ctx', True)"
    using assms(6,8) by (auto simp: session_frame_def Let_def)
  have upd: "update_attribute_values (connections (counted_call (sv_node sv))) (mb_federate_handle m) inst_h values tag
           (fed_heap (counted_call (sv_node sv)) (mb_federation m)) = (fed', cbs, Inr ())"
    using assms(9) by (simp add: counted_call_def)
  from handled_call [OF call assms(7,12,13)] obtain r h' where d: "map_of hs' sid = Some h'"
    "ch_frames h' = ch_frames h @ (if sid = sc_session_id (sl_ctx sl) then [call_response_frame slib sid (sequence_number (header f)) r] else []) @
       queued slib sid (ch_next_outbound_seq h) (to_connection sid cbs)"
    unfolding dispatch_update [OF assms(5) upd] by blast
  then have "concat (map (invoked flib) (drop (length (ch_frames h)) (ch_frames h'))) =
      concat (map (\<lambda>r. dispatch_callback (Some (FromRti r))) (to_connection sid cbs))"
    by (simp add: invoked_queued [OF assms(14)] invoked_response)
  with inv u d show ?thesis by (intro exI [of _ inst] exI [of _ vs] exI [of _ i] exI [of _ h'] exI [of _ "drop (length (ch_frames h)) (ch_frames h')"]) simp
qed

theorem update_arrives_witness:
  "\<exists>sv node' hs' h h' fs. server_run pair_lib 10 sv \<and>
     session_frame pair_lib (sv_now sv) (call_frame [6]) (pair_session 0) (sv_node sv) (sv_handles sv) = Some (node', hs', pair_session 0, True) \<and>
     map_of (sv_handles sv) 2 = Some h \<and> map_of hs' 2 = Some h' \<and> ch_frames h' = ch_frames h @ fs \<and>
     concat (map (invoked reflect_lib) fs) = [fa_reflect_attribute_values 1 [(1, [9])] [7] (Some 1)]"
proof -
  obtain sv where sv: "server_run pair_lib 10 sv" "ready registered_fed sv" using pair_registered by blast
  note r = sv(2) [unfolded ready_def]
  from pair_sends_update [OF sv(2)] obtain node' hs' where f: "session_frame pair_lib (sv_now sv) (call_frame [6]) (pair_session 0)
      (sv_node sv) (sv_handles sv) = Some (node', hs', pair_session 0, True)" by blast
  obtain h where h: "map_of (sv_handles sv) 2 = Some h" "\<not> ch_writer_gone h" using r by (auto simp: live_channels_def)
  obtain fed' where "update_attribute_values [1, 2] 1 (Some [0, 0, 0, 0, 0, 0, 0, 1]) (Some [(Some [0, 0, 0, 1], [9])]) [7] registered_fed =
     (fed', [\<lparr>target = 2, cb = reflect_attribute_values 1 [(1, [9])] [7] 1\<rparr>], Inr ())" using pair_update by blast
  then have u: "update_attribute_values (connections (sv_node sv)) (mb_federate_handle (pair_member 0)) (Some [0, 0, 0, 0, 0, 0, 0, 1])
      (Some [(Some [0, 0, 0, 1], [9])]) [7] (fed_heap (sv_node sv) (mb_federation (pair_member 0))) =
      (fed', [\<lparr>target = 2, cb = reflect_attribute_values 1 [(1, [9])] [7] 1\<rparr>], Inr ())" using r by (simp add: pair_member_def)
  have t: "map_of (sv_tasks sv) 0 = Some (pair_task 0)" "tk_phase (pair_task 0) = InSession (pair_session 0)"
    "membership (sl_ctx (pair_session 0)) = Some (pair_member 0)" "message_type (header (call_frame [6])) = HlaCallRequest"
    "(2, pair_member 1) \<in> running (sv_tasks sv)"
    using r by (auto simp: pair_task_def pair_session_def call_frame_def with_payload_size_def over_tasks_def task_held_def held_by_def)
  have w: "\<forall>c\<in>set (to_connection 2 [\<lparr>target = 2, cb = reflect_attribute_values 1 [(1, [9])] [7] 1\<rparr>]). wire_agrees pair_lib reflect_lib c"
    using reflect_lib_agrees by (simp add: to_connection_def)
  have m: "mb_federation (pair_member k) = 0" "mb_federate_handle (pair_member 0) = 1" "mb_federate_handle (pair_member 1) = 2" for k
    by (simp_all add: pair_member_def)
  have fed: "fed_heap (sv_node sv) 0 = registered_fed" using r by simp
  have dec: "decode_object_instance [0, 0, 0, 0, 0, 0, 0, 1] = Inr 1"
    "decode_attribute_value_map (Some [(Some [0, 0, 0, 1], [9])]) = Inr [(1, [9])]" by code_simp+
  from update_arrives [OF sv(1) _ t(1-4) pair_update_decoded [unfolded pair_update_request_def] f u t(5) _ h w, unfolded m fed] obtain i h' fs where
    "map_of (object_instances registered_fed) 1 = Some i" "map_of hs' 2 = Some h'" "ch_frames h' = ch_frames h @ fs"
    "concat (map (invoked reflect_lib) fs) = (if 2 \<in> recipients registered_fed i {1} 1
       then (if undiscovered registered_fed 1 2 then [fa_discover_object_instance 1 (oi_class i) (oi_name i) (Some 1)] else []) @
            [fa_reflect_attribute_values 1 [(1, [9])] [7] (Some 1)] else [])"
    by (auto simp: dec)
  with pair_recipient sv(1) f h show ?thesis by auto
qed

end
